(* ===== verification/Nexul_Prelude.thy ===== *)
theory Nexul_Prelude
  imports Main "HOL-Library.Char_ord" "HOL-Library.List_Lexorder"
begin

text \<open>
  The vocabulary every component shares: the sentinel errors of
  \<^verbatim>\<open>internal/platform/errors/errors.go\<close> and the result type they travel in, and what the code
  uses of the Go standard library (\<^verbatim>\<open>slices.BinarySearch\<close>, \<^verbatim>\<open>slices.Sort\<close> with
  \<^verbatim>\<open>slices.Compact\<close>, \<^verbatim>\<open>strings.TrimSpace\<close>, \<^verbatim>\<open>strings.Join\<close>, \<^verbatim>\<open>strings.Cut\<close>, maps),
  each with the generic lemmas the component proofs rest on.  A Go string is a byte string,
  that is a HOL \<open>string\<close>; its order is the bytewise lexicographic one of
  \<^verbatim>\<open>HOL-Library.List_Lexorder\<close> over \<^verbatim>\<open>HOL-Library.Char_ord\<close>.
\<close>

named_theorems result_simps
  \<open>rewrite rules that run a computation of the result type\<close>
named_theorems set_laws
  \<open>membership laws of the permission-set operations\<close>

section \<open>Errors and results\<close>

text \<open>The sentinels, and an error value: the sentinels \<^verbatim>\<open>errors.Is\<close> finds along its chain, its text,
  and the machine code \<^verbatim>\<open>WithCode\<close> attaches.  A foreign error (a driver's, a context's) has no
  sentinel.\<close>

datatype sentinel =
    ErrNotFound | ErrConflict | ErrUnauthorized | ErrForbidden
  | ErrInvalid | ErrRetryable | ErrFatal | ErrRateLimited

datatype err = Err (err_chain: "sentinel list") (err_msg: string) (err_code: "string option")

type_synonym 'a res = "err + 'a"

fun sentinel_text :: "sentinel \<Rightarrow> string" where
  "sentinel_text ErrNotFound = ''not found''"
| "sentinel_text ErrConflict = ''conflict''"
| "sentinel_text ErrUnauthorized = ''unauthorized''"
| "sentinel_text ErrForbidden = ''forbidden''"
| "sentinel_text ErrInvalid = ''invalid''"
| "sentinel_text ErrRetryable = ''retryable''"
| "sentinel_text ErrFatal = ''fatal''"
| "sentinel_text ErrRateLimited = ''rate limited''"

text \<open>\<^verbatim>\<open>errors.Is\<close>, the sentinel on its own, and the two \<^verbatim>\<open>fmt.Errorf\<close> shapes the code uses:
  \<^verbatim>\<open>"%w: detail"\<close> on a sentinel and \<^verbatim>\<open>"prefix: %w"\<close> on an error.\<close>

definition errors_is :: "err \<Rightarrow> sentinel \<Rightarrow> bool" where
  "errors_is e k \<longleftrightarrow> k \<in> set (err_chain e)"

definition sentinel_err :: "sentinel \<Rightarrow> err" where
  "sentinel_err k = Err [k] (sentinel_text k) None"

definition errorf :: "sentinel \<Rightarrow> string \<Rightarrow> err" where
  "errorf k detail = Err [k] (sentinel_text k @ '': '' @ detail) None"

definition wrapf :: "string \<Rightarrow> err \<Rightarrow> err" where
  "wrapf prefix e = Err (err_chain e) (prefix @ '': '' @ err_msg e) (err_code e)"

definition Retryable :: "err \<Rightarrow> err" where
  "Retryable e = Err (ErrRetryable # err_chain e) (sentinel_text ErrRetryable @ '': '' @ err_msg e) (err_code e)"

definition Fatal :: "err \<Rightarrow> err" where
  "Fatal e = Err (ErrFatal # err_chain e) (sentinel_text ErrFatal @ '': '' @ err_msg e) (err_code e)"

definition WithCode :: "string \<Rightarrow> err \<Rightarrow> err" where
  "WithCode code e = Err (err_chain e) (err_msg e) (Some code)"

lemma errors_is_simps [simp, result_simps]:
  "errors_is (sentinel_err k) j \<longleftrightarrow> j = k"
  "errors_is (errorf k d) j \<longleftrightarrow> j = k"
  "errors_is (wrapf p e) j \<longleftrightarrow> errors_is e j"
  "errors_is (Retryable e) j \<longleftrightarrow> j = ErrRetryable \<or> errors_is e j"
  "errors_is (Fatal e) j \<longleftrightarrow> j = ErrFatal \<or> errors_is e j"
  "errors_is (WithCode c e) j \<longleftrightarrow> errors_is e j"
  by (auto simp: errors_is_def sentinel_err_def errorf_def wrapf_def Retryable_def Fatal_def
      WithCode_def)

text \<open>Sequencing of fallible calls: \<^verbatim>\<open>x, err := f(); if err != nil { return err }\<close>.\<close>

definition bindr :: "'a res \<Rightarrow> ('a \<Rightarrow> 'b res) \<Rightarrow> 'b res" where
  "bindr m f = (case m of Inl e \<Rightarrow> Inl e | Inr x \<Rightarrow> f x)"

definition guardr :: "bool \<Rightarrow> err \<Rightarrow> unit res" where
  "guardr ok e = (if ok then Inr () else Inl e)"

definition map_errr :: "(err \<Rightarrow> err) \<Rightarrow> 'a res \<Rightarrow> 'a res" where
  "map_errr g m = (case m of Inl e \<Rightarrow> Inl (g e) | Inr x \<Rightarrow> Inr x)"

fun mapr :: "('a \<Rightarrow> 'b res) \<Rightarrow> 'a list \<Rightarrow> 'b list res" where
  "mapr f [] = Inr []"
| "mapr f (x # xs) = bindr (f x) (\<lambda>y. bindr (mapr f xs) (\<lambda>ys. Inr (y # ys)))"

definition okr :: "'a res \<Rightarrow> bool" where
  "okr m \<longleftrightarrow> (\<exists>x. m = Inr x)"

lemma bindr_simps [simp, result_simps]:
  "bindr (Inl e) f = Inl e"
  "bindr (Inr x) f = f x"
  by (simp_all add: bindr_def)

lemma bindr_Inr_iff: "bindr m f = Inr y \<longleftrightarrow> (\<exists>x. m = Inr x \<and> f x = Inr y)"
  by (cases m) auto

lemma bindr_Inl_iff: "bindr m f = Inl e \<longleftrightarrow> m = Inl e \<or> (\<exists>x. m = Inr x \<and> f x = Inl e)"
  by (cases m) auto

lemma guardr_simps [simp, result_simps]:
  "guardr True e = Inr ()"
  "guardr False e = Inl e"
  by (simp_all add: guardr_def)

lemma guardr_iff [simp]:
  "guardr b e = Inr u \<longleftrightarrow> b"
  "guardr b e = Inl e' \<longleftrightarrow> \<not> b \<and> e' = e"
  by (auto simp: guardr_def)

lemma map_errr_simps [simp, result_simps]:
  "map_errr g (Inl e) = Inl (g e)"
  "map_errr g (Inr x) = Inr x"
  by (simp_all add: map_errr_def)

lemma map_errr_Inr_iff [simp]: "map_errr g m = Inr x \<longleftrightarrow> m = Inr x"
  by (cases m) auto

lemma map_errr_Inl_iff: "map_errr g m = Inl e \<longleftrightarrow> (\<exists>e'. m = Inl e' \<and> e = g e')"
  by (cases m) auto

lemma okr_simps [simp]: "okr (Inr x)" "\<not> okr (Inl e)"
  by (auto simp: okr_def)

lemma mapr_cong [fundef_cong]:
  assumes "xs = ys" and "\<And>x. x \<in> set ys \<Longrightarrow> f x = g x"
  shows "mapr f xs = mapr g ys"
  using assms(2) unfolding assms(1) by (induction ys) (auto simp: bindr_def)

lemma mapr_Inr_iff:
  "mapr f xs = Inr ys \<longleftrightarrow> list_all2 (\<lambda>x y. f x = Inr y) xs ys"
  by (induction xs arbitrary: ys)
     (auto simp: bindr_Inr_iff list_all2_Cons1)

lemma mapr_total: "(\<And>x. x \<in> set xs \<Longrightarrow> f x = Inr (g x)) \<Longrightarrow> mapr f xs = Inr (map g xs)"
  by (induction xs) auto

lemma mapr_Inl_ex: "mapr f xs = Inl e \<Longrightarrow> \<exists>x\<in>set xs. f x = Inl e"
  by (induction xs) (auto simp: bindr_Inl_iff)

section \<open>Sorted sequences without duplicates\<close>

text \<open>\<^verbatim>\<open>slices.Sort\<close> followed by \<^verbatim>\<open>slices.Compact\<close>.\<close>

definition sort_compact :: "'a::linorder list \<Rightarrow> 'a list" where
  "sort_compact xs = remdups_adj (sort xs)"

lemma set_sort_compact [simp]: "set (sort_compact xs) = set xs"
  by (simp add: sort_compact_def)

lemma sorted_remdups_adj_strict:
  "sorted (xs :: 'a::linorder list) \<Longrightarrow> sorted_wrt (<) (remdups_adj xs)"
  by (induction xs rule: remdups_adj.induct) (auto simp: order_le_less)

lemma strict_sorted_sort_compact [simp]: "sorted_wrt (<) (sort_compact xs)"
  by (simp add: sort_compact_def sorted_remdups_adj_strict)

lemma strict_sorted_unique:
  "sorted_wrt (<) xs \<Longrightarrow> sorted_wrt (<) ys \<Longrightarrow> set xs = set ys \<Longrightarrow> xs = (ys :: 'a::linorder list)"
  by (metis strict_sorted_equal)

lemma sort_compact_id: "sorted_wrt (<) xs \<Longrightarrow> sort_compact xs = xs"
  by (rule strict_sorted_unique) auto

lemma strict_sorted_filter:
  "sorted_wrt (<) xs \<Longrightarrow> sorted_wrt (<) (filter P (xs :: 'a::linorder list))"
  by (rule sorted_wrt_filter)

section \<open>Binary search\<close>

text \<open>\<^verbatim>\<open>slices.BinarySearch\<close>: the loop halves \<open>[i, j)\<close> and the answer is whether the element at the
  final \<open>i\<close> is the target.\<close>

function bsearch_loop :: "'a::linorder list \<Rightarrow> 'a \<Rightarrow> nat \<Rightarrow> nat \<Rightarrow> nat" where
  "bsearch_loop xs t i j =
     (if i < j then
        let h = (i + j) div 2
        in if xs ! h < t then bsearch_loop xs t (Suc h) j else bsearch_loop xs t i h
      else i)"
  by pat_completeness auto
termination
  by (relation "measure (\<lambda>(xs, t, i, j). j - i)") auto

declare bsearch_loop.simps [simp del]

definition BinarySearch :: "'a::linorder list \<Rightarrow> 'a \<Rightarrow> nat \<times> bool" where
  "BinarySearch xs t =
     (let i = bsearch_loop xs t 0 (length xs) in (i, i < length xs \<and> xs ! i = t))"

lemma bsearch_loop_bounds:
  "i \<le> j \<Longrightarrow> j \<le> length xs \<Longrightarrow> sorted xs \<Longrightarrow>
   (\<forall>k < i. xs ! k < t) \<Longrightarrow> (\<forall>k. j \<le> k \<longrightarrow> k < length xs \<longrightarrow> t \<le> xs ! k) \<Longrightarrow>
   bsearch_loop xs t i j \<le> length xs \<and>
   (\<forall>k < bsearch_loop xs t i j. xs ! k < t) \<and>
   (\<forall>k. bsearch_loop xs t i j \<le> k \<longrightarrow> k < length xs \<longrightarrow> t \<le> xs ! k)"
proof (induction xs t i j rule: bsearch_loop.induct)
  case (1 xs t i j)
  let ?h = "(i + j) div 2"
  show ?case
  proof (cases "i < j")
    case False
    then have "bsearch_loop xs t i j = i" by (simp add: bsearch_loop.simps)
    moreover from False "1.prems"(1) have "i = j" by simp
    ultimately show ?thesis using "1.prems" by simp
  next
    case True
    then have h: "i \<le> ?h" "?h < j" by auto
    show ?thesis
    proof (cases "xs ! ?h < t")
      case less: True
      have below: "\<forall>k < Suc ?h. xs ! k < t"
      proof (intro allI impI)
        fix k assume "k < Suc ?h"
        then have "xs ! k \<le> xs ! ?h"
          using h "1.prems"(2,3) by (intro sorted_nth_mono) auto
        with less show "xs ! k < t" by simp
      qed
      have step: "bsearch_loop xs t i j = bsearch_loop xs t (Suc ?h) j"
        using True less by (simp only: bsearch_loop.simps [of xs t i j] Let_def if_True)
      from h(2) have "Suc ?h \<le> j" by (rule Suc_leI)
      show ?thesis unfolding step
        by (rule "1.IH"(1) [OF True refl less \<open>Suc ?h \<le> j\<close> "1.prems"(2,3) below "1.prems"(5)])
    next
      case ge: False
      have above: "\<forall>k. ?h \<le> k \<longrightarrow> k < length xs \<longrightarrow> t \<le> xs ! k"
      proof (intro allI impI)
        fix k assume "?h \<le> k" "k < length xs"
        then have "xs ! ?h \<le> xs ! k"
          using "1.prems"(3) by (intro sorted_nth_mono)
        with ge show "t \<le> xs ! k" by simp
      qed
      have step: "bsearch_loop xs t i j = bsearch_loop xs t i ?h"
        using True ge by (simp only: bsearch_loop.simps [of xs t i j] Let_def if_True if_False)
      have "?h \<le> length xs" using h "1.prems"(2) by simp
      show ?thesis unfolding step
        by (rule "1.IH"(2) [OF True refl ge h(1) \<open>?h \<le> length xs\<close> "1.prems"(3,4) above])
    qed
  qed
qed

lemma BinarySearch_found:
  assumes "sorted xs"
  shows "snd (BinarySearch xs t) \<longleftrightarrow> t \<in> set xs"
proof -
  define i where "i = bsearch_loop xs t 0 (length xs)"
  have i: "i \<le> length xs" "\<forall>k < i. xs ! k < t"
    "\<forall>k. i \<le> k \<longrightarrow> k < length xs \<longrightarrow> t \<le> xs ! k"
    using bsearch_loop_bounds [of 0 "length xs" xs t] assms by (auto simp: i_def)
  have "i < length xs \<and> xs ! i = t \<longleftrightarrow> t \<in> set xs"
  proof
    assume "t \<in> set xs"
    then obtain k where k: "k < length xs" "xs ! k = t" by (auto simp: in_set_conv_nth)
    with i(2) have "i \<le> k" by (metis less_irrefl linorder_not_less)
    then have "xs ! i \<le> t" using k assms sorted_nth_mono by blast
    moreover have "i < length xs" using \<open>i \<le> k\<close> k by simp
    ultimately show "i < length xs \<and> xs ! i = t" using i(3) by (auto intro: antisym)
  qed auto
  then show ?thesis by (simp add: BinarySearch_def i_def Let_def)
qed

section \<open>Strings\<close>

text \<open>\<^verbatim>\<open>strings.Join\<close> and the part of a string before its first occurrence of a byte
  (\<^verbatim>\<open>strings.Cut\<close>).\<close>

fun strings_join :: "string list \<Rightarrow> string \<Rightarrow> string" where
  "strings_join [] sep = []"
| "strings_join [x] sep = x"
| "strings_join (x # y # ys) sep = x @ sep @ strings_join (y # ys) sep"

text \<open>The refusal to remove a thing others depend on; it unwraps to the conflict.\<close>

definition InUseError :: "string \<Rightarrow> string list \<Rightarrow> string \<Rightarrow> err" where
  "InUseError thing users remedy =
     Err [ErrConflict] (thing @ '' is still used by '' @ strings_join users '', '' @ ''; '' @ remedy) None"

definition cut_before :: "string \<Rightarrow> char \<Rightarrow> string" where
  "cut_before s c = takeWhile (\<lambda>d. d \<noteq> c) s"

text \<open>The verb \<^verbatim>\<open>%q\<close>, on the printable names it is used for: the text between double quotes.\<close>

definition go_q :: "string \<Rightarrow> string" where
  "go_q s = CHR 0x22 # s @ [CHR 0x22]"

text \<open>\<^verbatim>\<open>strings.TrimSpace\<close> strips the white space of \<^verbatim>\<open>unicode.IsSpace\<close>; each such rune is given by its
  UTF-8 bytes.\<close>

definition space_runes :: "string list" where
  "space_runes =
     [[CHR 0x09], [CHR 0x0A], [CHR 0x0B], [CHR 0x0C], [CHR 0x0D], [CHR 0x20],
      [CHR 0xC2, CHR 0x85], [CHR 0xC2, CHR 0xA0], [CHR 0xE1, CHR 0x9A, CHR 0x80],
      [CHR 0xE2, CHR 0x80, CHR 0x80], [CHR 0xE2, CHR 0x80, CHR 0x81], [CHR 0xE2, CHR 0x80, CHR 0x82],
      [CHR 0xE2, CHR 0x80, CHR 0x83], [CHR 0xE2, CHR 0x80, CHR 0x84], [CHR 0xE2, CHR 0x80, CHR 0x85],
      [CHR 0xE2, CHR 0x80, CHR 0x86], [CHR 0xE2, CHR 0x80, CHR 0x87], [CHR 0xE2, CHR 0x80, CHR 0x88],
      [CHR 0xE2, CHR 0x80, CHR 0x89], [CHR 0xE2, CHR 0x80, CHR 0x8A], [CHR 0xE2, CHR 0x80, CHR 0xA8],
      [CHR 0xE2, CHR 0x80, CHR 0xA9], [CHR 0xE2, CHR 0x80, CHR 0xAF], [CHR 0xE2, CHR 0x81, CHR 0x9F],
      [CHR 0xE3, CHR 0x80, CHR 0x80]]"

function strip_front :: "string list \<Rightarrow> string \<Rightarrow> string" where
  "strip_front ps s =
     (case find (\<lambda>p. p \<noteq> [] \<and> take (length p) s = p) ps of
        None \<Rightarrow> s
      | Some p \<Rightarrow> strip_front ps (drop (length p) s))"
  by pat_completeness auto
termination
proof (relation "measure (\<lambda>(ps, s). length s)", goal_cases)
  case (2 ps s p)
  then have "p \<noteq> [] \<and> take (length p) s = p" by (auto simp: find_Some_iff)
  then have "0 < length p" "s \<noteq> []" by auto
  then show ?case by simp
qed simp

declare strip_front.simps [simp del]

definition TrimSpace :: "string \<Rightarrow> string" where
  "TrimSpace s = rev (strip_front (map rev space_runes) (rev (strip_front space_runes s)))"

lemma strip_front_id:
  "\<forall>p \<in> set ps. p = [] \<or> take (length p) s \<noteq> p \<Longrightarrow> strip_front ps s = s"
  by (subst strip_front.simps) (auto split: option.splits simp: find_Some_iff)

lemma strip_front_none: "p \<in> set ps \<Longrightarrow> p \<noteq> [] \<Longrightarrow> take (length p) (strip_front ps s) \<noteq> p"
proof (induction ps s rule: strip_front.induct)
  case (1 ps s)
  then show ?case
    by (subst strip_front.simps) (auto split: option.splits simp: find_None_iff)
qed

lemma strip_front_suffix: "\<exists>k. strip_front ps s = drop k s"
proof (induction ps s rule: strip_front.induct)
  case (1 ps s)
  show ?case
  proof (cases "find (\<lambda>p. p \<noteq> [] \<and> take (length p) s = p) ps")
    case None
    then show ?thesis by (subst strip_front.simps) (auto intro: exI [of _ 0])
  next
    case (Some p)
    then obtain k where "strip_front ps (drop (length p) s) = drop k (drop (length p) s)" using 1 by blast
    then show ?thesis using Some by (subst strip_front.simps) auto
  qed
qed

lemma TrimSpace_idem [simp]: "TrimSpace (TrimSpace s) = TrimSpace s"
proof -
  define a where "a = strip_front space_runes s"
  define b where "b = strip_front (map rev space_runes) (rev a)"
  obtain k where k: "b = drop k (rev a)" unfolding b_def using strip_front_suffix by blast
  have pre: "rev b = take (length a - k) a" unfolding k by (simp add: rev_drop)
  have "take (length p) (rev b) \<noteq> p" if p: "p \<in> set space_runes" "p \<noteq> []" for p
  proof
    assume "take (length p) (rev b) = p"
    then have "take (length p) a = p" unfolding pre take_take
      by (metis length_take min.absorb_iff2 min.bounded_iff min_def take_all)
    then show False using strip_front_none [OF p] by (simp add: a_def)
  qed
  then have "strip_front space_runes (rev b) = rev b" by (intro strip_front_id) blast
  moreover have "strip_front (map rev space_runes) b = b"
    by (rule strip_front_id) (use strip_front_none in \<open>force simp: b_def\<close>)
  ultimately show ?thesis by (simp add: TrimSpace_def a_def [symmetric] b_def [symmetric])
qed

lemma space_runes_heads:
  "p \<in> set space_runes \<Longrightarrow> p \<noteq> [] \<and> hd p \<in> {CHR 0x09, CHR 0x0A, CHR 0x0B, CHR 0x0C, CHR 0x0D, CHR 0x20,
     CHR 0xC2, CHR 0xE1, CHR 0xE2, CHR 0xE3}"
  by (auto simp: space_runes_def)

section \<open>Go maps\<close>

text \<open>A Go map with string keys, as an association list in some iteration order; a missing key reads
  as nil.\<close>

type_synonym 'v gomap = "(string \<times> 'v) list"

lemma filter_map_of_map:
  "map_of (map (\<lambda>x. (x, f x)) xs) k = (if k \<in> set xs then Some (f k) else None)"
  by (induction xs) auto

lemma find_append: "find P (xs @ ys) = (case find P xs of None \<Rightarrow> find P ys | Some x \<Rightarrow> Some x)"
  by (induction xs) auto

end
