(* ===== verification/Identity.thy ===== *)
theory Identity
  imports Nexul_Prelude
begin

text \<open>
  The identity a request carries (\<^verbatim>\<open>internal/platform/identity/identity.go\<close>).  A Go context is
  modelled by what the access checks read from it: the actor attached by \<^verbatim>\<open>WithActor\<close>, if any.  The
  other value access attaches, the memo, caches reads only and is treated in \<open>Access_Memo\<close>.
\<close>

record ViewerRef =
  viewer_ID :: string
  viewer_WorkspaceID :: string

record AutomationRef =
  automation_ID :: string
  automation_Name :: string
  automation_WorkspaceID :: string

record Actor =
  actor_ID :: string
  actor_Automation :: "AutomationRef option"
  actor_Viewer :: "ViewerRef option"

record ctx =
  ctx_actor :: "Actor option"

definition background :: ctx where
  "background = \<lparr>ctx_actor = None\<rparr>"

definition WithActor :: "ctx \<Rightarrow> Actor \<Rightarrow> ctx" where
  "WithActor c a = c\<lparr>ctx_actor := Some a\<rparr>"

definition ActorFromCtx :: "ctx \<Rightarrow> Actor option" where
  "ActorFromCtx c = ctx_actor c"

definition Internal :: "ctx \<Rightarrow> bool" where
  "Internal c \<longleftrightarrow> ActorFromCtx c = None"

lemma ActorFromCtx_WithActor [simp]: "ActorFromCtx (WithActor c a) = Some a"
  by (simp add: ActorFromCtx_def WithActor_def)

lemma ActorFromCtx_background [simp]: "ActorFromCtx background = None"
  by (simp add: ActorFromCtx_def background_def)

text \<open>A signed-in person's context, the one the examples use.\<close>

definition person_ctx :: "string \<Rightarrow> ctx" where
  "person_ctx u = WithActor background \<lparr>actor_ID = u, actor_Automation = None, actor_Viewer = None\<rparr>"

end
