(* ===== verification/Permissions.thy ===== *)
theory Permissions
  imports Identity
begin

text \<open>
  The permission vocabulary (\<^verbatim>\<open>internal/platform/permissions\<close>): the named actions, the domain
  table every catalog, area and valid-action set derives from, the parsing of action names, the
  normalised action sets, and the gate helpers (\<^verbatim>\<open>gate.go\<close>).  The lemmas show that a set is a
  canonical strictly sorted list on which the binary search of \<open>Has\<close> decides membership, that the
  catalog, \<open>AreaOf\<close> and the parsers agree with one another, and what \<open>Filter\<close> and \<open>RequireHeld\<close>
  answer.
\<close>

section \<open>Actions\<close>

type_synonym action = string

text \<open>The actions Go code names; \<open>Member\<close>, the empty action, asks for membership only.\<close>

abbreviation (input) Member :: action where
  "Member \<equiv> ''''"

abbreviation (input) DocsRead :: action where
  "DocsRead \<equiv> ''docs:read''"

abbreviation (input) DocsWrite :: action where
  "DocsWrite \<equiv> ''docs:write''"

abbreviation (input) DocsDelete :: action where
  "DocsDelete \<equiv> ''docs:delete''"

abbreviation (input) DocsThread :: action where
  "DocsThread \<equiv> ''docs:thread''"

abbreviation (input) DocsClone :: action where
  "DocsClone \<equiv> ''docs:clone''"

abbreviation (input) DocsLock :: action where
  "DocsLock \<equiv> ''docs:lock''"

abbreviation (input) PermissionsWrite :: action where
  "PermissionsWrite \<equiv> ''permissions:write''"

abbreviation (input) ProjectsRead :: action where
  "ProjectsRead \<equiv> ''projects:read''"

abbreviation (input) ProjectsWrite :: action where
  "ProjectsWrite \<equiv> ''projects:write''"

abbreviation (input) ProjectsDelete :: action where
  "ProjectsDelete \<equiv> ''projects:delete''"

abbreviation (input) ProjectsCreate :: action where
  "ProjectsCreate \<equiv> ''projects:create''"

abbreviation (input) ProjectsAccess :: action where
  "ProjectsAccess \<equiv> ''projects:access''"

abbreviation (input) TicketsRead :: action where
  "TicketsRead \<equiv> ''tickets:read''"

abbreviation (input) TicketsWrite :: action where
  "TicketsWrite \<equiv> ''tickets:write''"

abbreviation (input) TicketsDelete :: action where
  "TicketsDelete \<equiv> ''tickets:delete''"

abbreviation (input) StacksRead :: action where
  "StacksRead \<equiv> ''stacks:read''"

abbreviation (input) StacksWrite :: action where
  "StacksWrite \<equiv> ''stacks:write''"

abbreviation (input) StacksDelete :: action where
  "StacksDelete \<equiv> ''stacks:delete''"

abbreviation (input) StacksLogs :: action where
  "StacksLogs \<equiv> ''stacks:logs''"

abbreviation (input) DeploysRead :: action where
  "DeploysRead \<equiv> ''deploys:read''"

abbreviation (input) DeploysWrite :: action where
  "DeploysWrite \<equiv> ''deploys:write''"

abbreviation (input) TopologyRead :: action where
  "TopologyRead \<equiv> ''topology:read''"

abbreviation (input) TopologyWrite :: action where
  "TopologyWrite \<equiv> ''topology:write''"

abbreviation (input) TopologyDelete :: action where
  "TopologyDelete \<equiv> ''topology:delete''"

abbreviation (input) MachinesWrite :: action where
  "MachinesWrite \<equiv> ''machines:write''"

abbreviation (input) MachinesDeploy :: action where
  "MachinesDeploy \<equiv> ''machines:deploy''"

abbreviation (input) MachinesDelete :: action where
  "MachinesDelete \<equiv> ''machines:delete''"

abbreviation (input) MachinesCreate :: action where
  "MachinesCreate \<equiv> ''machines:create''"

abbreviation (input) DNSRead :: action where
  "DNSRead \<equiv> ''dns:read''"

abbreviation (input) DNSWrite :: action where
  "DNSWrite \<equiv> ''dns:write''"

abbreviation (input) DNSDelete :: action where
  "DNSDelete \<equiv> ''dns:delete''"

abbreviation (input) ReviewsRead :: action where
  "ReviewsRead \<equiv> ''reviews:read''"

abbreviation (input) ReposRead :: action where
  "ReposRead \<equiv> ''repos:read''"

abbreviation (input) ConnectorsRead :: action where
  "ConnectorsRead \<equiv> ''connectors:read''"

abbreviation (input) ConnectorsWrite :: action where
  "ConnectorsWrite \<equiv> ''connectors:write''"

abbreviation (input) ChatWrite :: action where
  "ChatWrite \<equiv> ''chat:write''"

abbreviation (input) ChannelsRead :: action where
  "ChannelsRead \<equiv> ''channels:read''"

abbreviation (input) ChannelsWrite :: action where
  "ChannelsWrite \<equiv> ''channels:write''"

abbreviation (input) ChannelsDelete :: action where
  "ChannelsDelete \<equiv> ''channels:delete''"

abbreviation (input) ChannelsPost :: action where
  "ChannelsPost \<equiv> ''channels:post''"

abbreviation (input) BotwebhookRead :: action where
  "BotwebhookRead \<equiv> ''botwebhook:read''"

abbreviation (input) BotwebhookWrite :: action where
  "BotwebhookWrite \<equiv> ''botwebhook:write''"

abbreviation (input) BotwebhookDelete :: action where
  "BotwebhookDelete \<equiv> ''botwebhook:delete''"

abbreviation (input) WorkspacesWrite :: action where
  "WorkspacesWrite \<equiv> ''workspaces:write''"

abbreviation (input) WorkspacesDelete :: action where
  "WorkspacesDelete \<equiv> ''workspaces:delete''"

abbreviation (input) WorkspacesCreate :: action where
  "WorkspacesCreate \<equiv> ''workspaces:create''"

abbreviation (input) MembersWrite :: action where
  "MembersWrite \<equiv> ''members:write''"

abbreviation (input) MembersViewAs :: action where
  "MembersViewAs \<equiv> ''members:view_as''"

abbreviation (input) RolesWrite :: action where
  "RolesWrite \<equiv> ''roles:write''"

abbreviation (input) RolesClone :: action where
  "RolesClone \<equiv> ''roles:clone''"

abbreviation (input) AutomationsRead :: action where
  "AutomationsRead \<equiv> ''automations:read''"

abbreviation (input) AutomationsWrite :: action where
  "AutomationsWrite \<equiv> ''automations:write''"

abbreviation (input) AutomationsDelete :: action where
  "AutomationsDelete \<equiv> ''automations:delete''"

abbreviation (input) PlaysRead :: action where
  "PlaysRead \<equiv> ''plays:read''"

abbreviation (input) PlaysWrite :: action where
  "PlaysWrite \<equiv> ''plays:write''"

abbreviation (input) PlaysDelete :: action where
  "PlaysDelete \<equiv> ''plays:delete''"

abbreviation (input) PlaysRun :: action where
  "PlaysRun \<equiv> ''plays:run''"

abbreviation (input) AutoplaysRead :: action where
  "AutoplaysRead \<equiv> ''autoplays:read''"

abbreviation (input) AutoplaysWrite :: action where
  "AutoplaysWrite \<equiv> ''autoplays:write''"

abbreviation (input) AutoplaysDelete :: action where
  "AutoplaysDelete \<equiv> ''autoplays:delete''"

abbreviation (input) MemoriesRead :: action where
  "MemoriesRead \<equiv> ''memories:read''"

abbreviation (input) MemoriesWrite :: action where
  "MemoriesWrite \<equiv> ''memories:write''"

abbreviation (input) MemoriesDelete :: action where
  "MemoriesDelete \<equiv> ''memories:delete''"

abbreviation (input) MemoriesClone :: action where
  "MemoriesClone \<equiv> ''memories:clone''"

abbreviation (input) MemoriesTemplate :: action where
  "MemoriesTemplate \<equiv> ''memories:template''"

abbreviation (input) InstanceRead :: action where
  "InstanceRead \<equiv> ''instance:read''"

abbreviation (input) InstanceWrite :: action where
  "InstanceWrite \<equiv> ''instance:write''"

abbreviation (input) AccountsRead :: action where
  "AccountsRead \<equiv> ''accounts:read''"

abbreviation (input) AccountsWrite :: action where
  "AccountsWrite \<equiv> ''accounts:write''"

abbreviation (input) AccountsDelete :: action where
  "AccountsDelete \<equiv> ''accounts:delete''"

abbreviation (input) IntegrationsRead :: action where
  "IntegrationsRead \<equiv> ''integrations:read''"

abbreviation (input) IntegrationsWrite :: action where
  "IntegrationsWrite \<equiv> ''integrations:write''"

abbreviation (input) IntegrationsDelete :: action where
  "IntegrationsDelete \<equiv> ''integrations:delete''"

abbreviation (input) AuditRead :: action where
  "AuditRead \<equiv> ''audit:read''"

abbreviation (input) LogsRead :: action where
  "LogsRead \<equiv> ''logs:read''"

abbreviation (input) EventsRead :: action where
  "EventsRead \<equiv> ''events:read''"

abbreviation (input) TemplatesRead :: action where
  "TemplatesRead \<equiv> ''templates:read''"

abbreviation (input) TemplatesWrite :: action where
  "TemplatesWrite \<equiv> ''templates:write''"

abbreviation (input) CalendarWrite :: action where
  "CalendarWrite \<equiv> ''calendar:write''"

abbreviation (input) CalendarDelete :: action where
  "CalendarDelete \<equiv> ''calendar:delete''"

abbreviation (input) ProjectsOpen :: action where
  "ProjectsOpen \<equiv> ''projects:open''"

abbreviation (input) MachinesSee :: action where
  "MachinesSee \<equiv> ''machines:see''"

abbreviation (input) ComputersSee :: action where
  "ComputersSee \<equiv> ''computers:see''"

abbreviation (input) ComputersAgents :: action where
  "ComputersAgents \<equiv> ''computers:run_agents''"

abbreviation (input) ComputersCommands :: action where
  "ComputersCommands \<equiv> ''computers:run_commands''"

abbreviation (input) ComputersLogs :: action where
  "ComputersLogs \<equiv> ''computers:read_logs''"

abbreviation (input) MachineActions :: "action list" where
  "MachineActions \<equiv> [MachinesSee, MachinesDeploy, MachinesWrite, MachinesDelete]"

abbreviation (input) ComputerActions :: "action list" where
  "ComputerActions \<equiv> [ComputersSee, ComputersAgents, ComputersCommands, ComputersLogs]"

section \<open>The domain table\<close>

datatype Area = AreaProject | AreaWorkspace | AreaInstance

record domainInfo =
  di_domain :: string
  di_display :: string
  di_actions :: "string list"
  di_area :: Area

text \<open>The label of a verb a domain declares beside read, write and delete.\<close>

definition verbLabel :: "(action \<times> string) list" where
  "verbLabel =
    [(PlaysRun, ''Run plays''),
     (MemoriesRead, ''Read memories and interview''),
     (MemoriesClone, ''Clone memories to another project''),
     (MemoriesTemplate, ''Edit the workspace Interview template''),
     (RolesClone, ''Clone roles to another workspace''),
     (DocsThread, ''See doc threads''),
     (DocsClone, ''Clone docs into another project''),
     (DocsLock, ''Lock and unlock docs''),
     (StacksLogs, ''Read container logs''),
     (WorkspacesCreate, ''Create workspaces''),
     (ProjectsCreate, ''Create projects''),
     (ProjectsAccess, ''Manage this project's access''),
     (ChannelsPost, ''Post in channels''),
     (MachinesDeploy, ''Deploy to machines''),
     (MachinesWrite, ''Manage machines''),
     (MachinesCreate, ''Add machines''),
     (MembersViewAs, ''View Nexul as another member''),
     (CalendarWrite, ''Create meetings''),
     (CalendarDelete, ''Change or cancel anyone's meetings'')]"

definition domain_row :: "string \<Rightarrow> string \<Rightarrow> string list \<Rightarrow> Area \<Rightarrow> domainInfo" where
  "domain_row d n as ar = \<lparr>di_domain = d, di_display = n, di_actions = as, di_area = ar\<rparr>"

definition domainTable :: "domainInfo list" where
  "domainTable =
    [domain_row ''docs'' ''docs'' [''read'', ''write'', ''delete'', ''thread'', ''clone'', ''lock''] AreaProject,
     domain_row ''attachments'' ''attachments'' [''read'', ''write'', ''delete''] AreaProject,
     domain_row ''plays'' ''plays'' [''read'', ''write'', ''delete'', ''run''] AreaWorkspace,
     domain_row ''autoplays'' ''auto plays'' [''read'', ''write'', ''delete''] AreaWorkspace,
     domain_row ''memories'' ''memories'' [''read'', ''write'', ''delete'', ''clone'', ''template''] AreaProject,
     domain_row ''tickets'' ''tickets'' [''read'', ''write'', ''delete''] AreaProject,
     domain_row ''deploys'' ''deploys'' [''read'', ''write''] AreaProject,
     domain_row ''stacks'' ''stacks'' [''read'', ''write'', ''delete'', ''logs''] AreaProject,
     domain_row ''topology'' ''topology'' [''read'', ''write'', ''delete''] AreaInstance,
     domain_row ''reviews'' ''code reviews'' [''read''] AreaProject,
     domain_row ''repos'' ''pull requests'' [''read''] AreaProject,
     domain_row ''repositories'' ''repositories'' [''read'', ''write''] AreaProject,
     domain_row ''permissions'' ''permissions'' [''read'', ''write''] AreaProject,
     domain_row ''mentions'' ''mentions'' [''read'', ''write''] AreaWorkspace,
     domain_row ''projects'' ''projects and board settings'' [''read'', ''write'', ''delete'', ''create'', ''access''] AreaProject,
     domain_row ''workspaces'' ''workspaces'' [''read'', ''write'', ''delete'', ''create''] AreaWorkspace,
     domain_row ''members'' ''members and invites'' [''read'', ''write'', ''delete'', ''view_as''] AreaWorkspace,
     domain_row ''roles'' ''roles'' [''read'', ''write'', ''delete'', ''clone''] AreaWorkspace,
     domain_row ''machines'' ''machines'' [''write'', ''deploy'', ''delete'', ''create''] AreaInstance,
     domain_row ''dns'' ''DNS and gateways'' [''read'', ''write'', ''delete''] AreaInstance,
     domain_row ''notifications'' ''notifications'' [''read'', ''write''] AreaWorkspace,
     domain_row ''chat'' ''chat'' [''read'', ''write'', ''delete''] AreaWorkspace,
     domain_row ''channels'' ''channels'' [''read'', ''write'', ''delete'', ''post''] AreaWorkspace,
     domain_row ''voice'' ''voice'' [''read'', ''write''] AreaWorkspace,
     domain_row ''calendar'' ''calendar meetings'' [''write'', ''delete''] AreaWorkspace,
     domain_row ''botwebhook'' ''bots'' [''read'', ''write'', ''delete''] AreaWorkspace,
     domain_row ''automations'' ''automations'' [''read'', ''write'', ''delete''] AreaWorkspace,
     domain_row ''integrations'' ''integrations'' [''read'', ''write'', ''delete''] AreaInstance,
     domain_row ''connectors'' ''connectors'' [''read'', ''write''] AreaInstance,
     domain_row ''events'' ''events'' [''read''] AreaInstance,
     domain_row ''audit'' ''audit log'' [''read''] AreaInstance,
     domain_row ''logs'' ''the instance's logs'' [''read''] AreaInstance,
     domain_row ''accounts'' ''accounts'' [''read'', ''write'', ''delete''] AreaInstance,
     domain_row ''instance'' ''instance settings, upgrades, and failed events'' [''read'', ''write''] AreaInstance,
     domain_row ''templates'' ''instance templates'' [''read'', ''write''] AreaInstance]"

record InstanceArea =
  area_Key :: string
  area_Label :: string
  area_Actions :: "action list"

abbreviation (input) SignInProviders :: string where
  "SignInProviders \<equiv> ''sign_in_providers''"

definition area_row :: "string \<Rightarrow> string \<Rightarrow> action list \<Rightarrow> InstanceArea" where
  "area_row k l as = \<lparr>area_Key = k, area_Label = l, area_Actions = as\<rparr>"

definition instanceAreas :: "InstanceArea list" where
  "instanceAreas =
    [area_row ''instance'' ''the instance'' [InstanceRead, InstanceWrite, EventsRead],
     area_row SignInProviders ''sign-in providers'' [InstanceRead, InstanceWrite],
     area_row ''dns'' ''DNS and gateways'' [DNSRead, DNSWrite, DNSDelete],
     area_row ''templates'' ''instance templates'' [TemplatesRead, TemplatesWrite],
     area_row ''accounts'' ''accounts'' [AccountsRead, AccountsWrite, AccountsDelete],
     area_row ''machines'' ''adding machines'' [MachinesCreate],
     area_row ''topology'' ''the topology registry'' [TopologyRead, TopologyWrite, TopologyDelete],
     area_row ''integrations'' ''integrations'' [IntegrationsRead, IntegrationsWrite, IntegrationsDelete],
     area_row ''audit'' ''the audit log'' [AuditRead],
     area_row ''logs'' ''the instance's logs'' [LogsRead]]"

definition InstanceAreas :: "InstanceArea list" where
  "InstanceAreas = instanceAreas"

definition ConnectorAreaKey :: "string \<Rightarrow> string" where
  "ConnectorAreaKey i = ''connector:'' @ i"

definition ConnectorArea :: "string \<Rightarrow> string \<Rightarrow> InstanceArea" where
  "ConnectorArea i n =
     \<lparr>area_Key = ConnectorAreaKey i, area_Label = ''connector '' @ n,
      area_Actions = [ConnectorsRead, ConnectorsWrite]\<rparr>"

definition InstanceAreaOf :: "action \<Rightarrow> string" where
  "InstanceAreaOf a =
     (case find (\<lambda>r. a \<in> set (area_Actions r)) instanceAreas of
        Some r \<Rightarrow> area_Key r
      | None \<Rightarrow> [])"

definition actionArea :: "(action \<times> Area) list" where
  "actionArea = [(ProjectsCreate, AreaWorkspace), (MemoriesTemplate, AreaWorkspace)]"

section \<open>The catalog\<close>

record Info =
  info_Value :: action
  info_Label :: string
  info_Domain :: string
  info_Action :: string
  info_Area :: Area

definition label :: "action \<Rightarrow> string \<Rightarrow> string \<Rightarrow> string" where
  "label v a display =
     (case map_of verbLabel v of
        Some l \<Rightarrow> l
      | None \<Rightarrow>
          if a = ''read'' then ''Read '' @ display
          else if a = ''write'' then ''Create and update '' @ display
          else if a = ''delete'' then ''Delete '' @ display
          else [])"

definition areaOf :: "action \<Rightarrow> Area \<Rightarrow> Area" where
  "areaOf a domainArea = (case map_of actionArea a of Some ar \<Rightarrow> ar | None \<Rightarrow> domainArea)"

definition domain_infos :: "domainInfo \<Rightarrow> Info list" where
  "domain_infos d =
     map (\<lambda>a. let v = di_domain d @ '':'' @ a
              in \<lparr>info_Value = v, info_Label = label v a (di_display d), info_Domain = di_domain d,
                  info_Action = a, info_Area = areaOf v (di_area d)\<rparr>) (di_actions d)"

definition Catalog :: "Info list" where
  "Catalog = concat (map domain_infos domainTable)"

definition areas :: "string \<rightharpoonup> Area" where
  "areas = map_of (rev (map (\<lambda>d. (di_domain d, di_area d)) domainTable))"

definition AreaOf :: "action \<Rightarrow> Area" where
  "AreaOf a =
     (case areas (cut_before a (CHR '':'')) of
        Some ar \<Rightarrow> areaOf a ar
      | None \<Rightarrow> AreaWorkspace)"

definition AllActions :: "action list" where
  "AllActions = map info_Value Catalog"

definition known :: "action \<Rightarrow> bool" where
  "known a \<longleftrightarrow> a \<in> set (map info_Value Catalog)"

definition ParseAction :: "string \<Rightarrow> action \<times> bool" where
  "ParseAction s = (let a = TrimSpace s in if \<not> known a then ([], False) else (a, True))"

definition ParseRuleAction :: "string \<Rightarrow> action \<times> bool" where
  "ParseRuleAction s =
     (let a = TrimSpace s
      in if a = ProjectsOpen \<or> a = MachinesSee \<or> a \<in> set ComputerActions then (a, True)
         else ParseAction s)"

section \<open>Action sets\<close>

text \<open>A grant's actions, kept sorted and without duplicates; \<open>set_ok\<close> is the invariant.\<close>

type_synonym pset = "action list"

definition set_ok :: "pset \<Rightarrow> bool" where
  "set_ok s \<longleftrightarrow> sorted_wrt (<) s"

definition SetOf :: "action list \<Rightarrow> pset" where
  "SetOf actions = (if actions = [] then [] else sort_compact actions)"

definition SetOfStrings :: "string list \<Rightarrow> pset" where
  "SetOfStrings values = SetOf (map (\<lambda>v. v) values)"

definition CreatorGrant :: pset where
  "CreatorGrant = SetOf [DocsRead, DocsWrite, DocsDelete, PermissionsWrite]"

definition Has :: "pset \<Rightarrow> action \<Rightarrow> bool" where
  "Has s a = snd (BinarySearch s a)"

definition With :: "pset \<Rightarrow> action \<Rightarrow> pset" where
  "With s a = SetOf (s @ [a])"

definition Without :: "pset \<Rightarrow> action \<Rightarrow> pset" where
  "Without s a = SetOf (filter (\<lambda>x. \<not> x = a) s)"

definition Except :: "pset \<Rightarrow> pset \<Rightarrow> pset" where
  "Except s other = SetOf (filter (\<lambda>x. \<not> Has other x) s)"

definition Actions :: "pset \<Rightarrow> action list" where
  "Actions s = s"

definition set_String :: "pset \<Rightarrow> string" where
  "set_String s = strings_join s '',''"

section \<open>Gate helpers\<close>

definition Ungated :: "ctx \<Rightarrow> unit res" where
  "Ungated c =
     (if ActorFromCtx c = None then Inr ()
      else Inl (errorf ErrForbidden ''no permission gate wired''))"

definition Refused :: "err \<Rightarrow> bool" where
  "Refused e \<longleftrightarrow> errors_is e ErrForbidden \<or> errors_is e ErrNotFound"

text \<open>The loop of \<open>Filter\<close>: \<open>allowed\<close> remembers the answer of each scope already asked.\<close>

fun Filter_loop ::
  "('a \<Rightarrow> string) \<Rightarrow> (string \<Rightarrow> unit res) \<Rightarrow> (string \<rightharpoonup> bool) \<Rightarrow> 'a list \<Rightarrow> 'a list \<Rightarrow> 'a list res" where
  "Filter_loop scope chk allowed out [] = Inr out"
| "Filter_loop scope chk allowed out (x # xs) =
     (let key = scope x in
      case allowed key of
        Some ok \<Rightarrow> Filter_loop scope chk allowed (if ok then out @ [x] else out) xs
      | None \<Rightarrow>
          (case chk key of
             Inl e \<Rightarrow>
               if \<not> Refused e then Inl e
               else Filter_loop scope chk (allowed(key \<mapsto> False)) out xs
           | Inr _ \<Rightarrow> Filter_loop scope chk (allowed(key \<mapsto> True)) (out @ [x]) xs))"

definition Filter :: "'a list \<Rightarrow> ('a \<Rightarrow> string) \<Rightarrow> (string \<Rightarrow> unit res) \<Rightarrow> 'a list res" where
  "Filter items scope chk = Filter_loop scope chk Map.empty [] items"

definition RequireHeld :: "pset \<Rightarrow> pset \<Rightarrow> unit res" where
  "RequireHeld grant held =
     (let missing = filter (\<lambda>a. \<not> Has held a) grant
      in if missing = [] then Inr ()
         else Inl (errorf ErrForbidden
           (''you can only grant permissions you hold yourself; you lack '' @ set_String missing)))"

record DocReach =
  dr_ProjectIDs :: "string list"
  dr_AllowedFolders :: "string list"
  dr_DeniedFolders :: "string list"
  dr_Allowed :: "string list"
  dr_Denied :: "string list"

record StackReach =
  sr_ProjectIDs :: "string list"
  sr_Allowed :: "string list"
  sr_Denied :: "string list"

section \<open>The interface of an action set\<close>

text \<open>
  What the rest of the code relies on: a test, an insertion and a removal over an invariant.  The
  client lemmas say how one action moves and that every other action is left alone; the rule writes
  (\<open>moveTo\<close>, \<open>withoutAction\<close>, \<open>computerRule\<close>) are proved from them.
\<close>

locale action_set =
  fixes inv :: "'s \<Rightarrow> bool"
    and has :: "'s \<Rightarrow> 'a \<Rightarrow> bool"
    and ins :: "'s \<Rightarrow> 'a \<Rightarrow> 's"
    and del :: "'s \<Rightarrow> 'a \<Rightarrow> 's"
  assumes inv_ins: "inv s \<Longrightarrow> inv (ins s a)"
    and inv_del: "inv s \<Longrightarrow> inv (del s a)"
    and has_ins: "inv s \<Longrightarrow> has (ins s a) b \<longleftrightarrow> b = a \<or> has s b"
    and has_del: "inv s \<Longrightarrow> has (del s a) b \<longleftrightarrow> b \<noteq> a \<and> has s b"
    and ext: "inv s \<Longrightarrow> inv t \<Longrightarrow> (\<And>a. has s a \<longleftrightarrow> has t a) \<Longrightarrow> s = t"
begin

lemma ins_absorb: "inv s \<Longrightarrow> has s a \<Longrightarrow> ins s a = s"
  by (rule ext) (auto simp: inv_ins has_ins)

lemma del_absorb: "inv s \<Longrightarrow> \<not> has s a \<Longrightarrow> del s a = s"
  by (rule ext) (auto simp: inv_del has_del)

lemma del_ins: "inv s \<Longrightarrow> del (ins s a) a = del s a"
  by (rule ext) (auto simp: inv_ins inv_del has_ins has_del)

lemma ins_del: "inv s \<Longrightarrow> ins (del s a) a = ins s a"
  by (rule ext) (auto simp: inv_ins inv_del has_ins has_del)

lemma ins_commute: "inv s \<Longrightarrow> ins (ins s a) b = ins (ins s b) a"
  by (rule ext) (auto simp: inv_ins has_ins)

lemma del_commute: "inv s \<Longrightarrow> del (del s a) b = del (del s b) a"
  by (rule ext) (auto simp: inv_del has_del)

lemma ins_del_other: "inv s \<Longrightarrow> a \<noteq> b \<Longrightarrow> ins (del s a) b = del (ins s b) a"
  by (rule ext) (auto simp: inv_ins inv_del has_ins has_del)

end

section \<open>Lemmas: sets\<close>

lemma SetOf_eq: "SetOf xs = sort_compact xs"
  by (simp add: SetOf_def sort_compact_def)

lemma set_SetOf [simp, set_laws]: "set (SetOf xs) = set xs"
  by (simp add: SetOf_eq)

lemma set_ok_SetOf [simp, intro]: "set_ok (SetOf xs)"
  by (simp add: set_ok_def SetOf_eq)

lemma set_ok_Nil [simp]: "set_ok []"
  by (simp add: set_ok_def)

lemma SetOf_id: "set_ok s \<Longrightarrow> SetOf s = s"
  by (simp add: set_ok_def SetOf_eq sort_compact_id)

lemma set_ok_eqI: "set_ok s \<Longrightarrow> set_ok t \<Longrightarrow> set s = set t \<Longrightarrow> s = t"
  unfolding set_ok_def by (rule strict_sorted_unique)

lemma Has_iff [set_laws]: "set_ok s \<Longrightarrow> Has s a \<longleftrightarrow> a \<in> set s"
  unfolding Has_def set_ok_def by (rule BinarySearch_found) (simp add: strict_sorted_imp_sorted)

lemma Has_Nil [simp]: "\<not> Has [] a"
  by (simp add: Has_iff)

lemma Has_SetOf [simp]: "Has (SetOf xs) a \<longleftrightarrow> a \<in> set xs"
  by (simp add: Has_iff)

lemma With_laws [simp]: "set_ok (With s a)" "set (With s a) = insert a (set s)"
  by (simp_all add: With_def)

lemma Without_laws [simp]: "set_ok (Without s a)" "set (Without s a) = set s - {a}"
  by (auto simp: Without_def)

lemma Except_ok [simp]: "set_ok (Except s t)"
  by (simp add: Except_def)

lemma set_Except: "set_ok t \<Longrightarrow> set (Except s t) = set s - set t"
  by (auto simp: Except_def Has_iff)

interpretation grid_set: action_set set_ok Has With Without
proof
  show "set_ok s \<Longrightarrow> set_ok t \<Longrightarrow> (\<And>a. Has s a \<longleftrightarrow> Has t a) \<Longrightarrow> s = t" for s t
    by (rule set_ok_eqI) (auto simp: Has_iff)
qed (auto simp: Has_iff)

lemmas pset_laws [set_laws] = grid_set.has_ins grid_set.has_del

section \<open>Lemmas: the catalog\<close>

lemma AllActions_eq: "AllActions =
    [''docs:read'', ''docs:write'', ''docs:delete'', ''docs:thread'', ''docs:clone'',
     ''docs:lock'', ''attachments:read'', ''attachments:write'', ''attachments:delete'', ''plays:read'',
     ''plays:write'', ''plays:delete'', ''plays:run'', ''autoplays:read'', ''autoplays:write'',
     ''autoplays:delete'', ''memories:read'', ''memories:write'', ''memories:delete'', ''memories:clone'',
     ''memories:template'', ''tickets:read'', ''tickets:write'', ''tickets:delete'', ''deploys:read'',
     ''deploys:write'', ''stacks:read'', ''stacks:write'', ''stacks:delete'', ''stacks:logs'',
     ''topology:read'', ''topology:write'', ''topology:delete'', ''reviews:read'', ''repos:read'',
     ''repositories:read'', ''repositories:write'', ''permissions:read'', ''permissions:write'', ''mentions:read'',
     ''mentions:write'', ''projects:read'', ''projects:write'', ''projects:delete'', ''projects:create'',
     ''projects:access'', ''workspaces:read'', ''workspaces:write'', ''workspaces:delete'', ''workspaces:create'',
     ''members:read'', ''members:write'', ''members:delete'', ''members:view_as'', ''roles:read'',
     ''roles:write'', ''roles:delete'', ''roles:clone'', ''machines:write'', ''machines:deploy'',
     ''machines:delete'', ''machines:create'', ''dns:read'', ''dns:write'', ''dns:delete'',
     ''notifications:read'', ''notifications:write'', ''chat:read'', ''chat:write'', ''chat:delete'',
     ''channels:read'', ''channels:write'', ''channels:delete'', ''channels:post'', ''voice:read'',
     ''voice:write'', ''calendar:write'', ''calendar:delete'', ''botwebhook:read'', ''botwebhook:write'',
     ''botwebhook:delete'', ''automations:read'', ''automations:write'', ''automations:delete'', ''integrations:read'',
     ''integrations:write'', ''integrations:delete'', ''connectors:read'', ''connectors:write'', ''events:read'',
     ''audit:read'', ''logs:read'', ''accounts:read'', ''accounts:write'', ''accounts:delete'',
     ''instance:read'', ''instance:write'', ''templates:read'', ''templates:write'']"
  by (simp add: AllActions_def Catalog_def domainTable_def domain_infos_def domain_row_def Let_def)

lemma known_iff: "known a \<longleftrightarrow> a \<in> set AllActions"
  by (simp add: known_def AllActions_def)

lemma distinct_AllActions: "distinct AllActions"
  by (simp add: AllActions_eq)

lemma distinct_domains: "distinct (map di_domain domainTable)"
  by (simp add: domainTable_def domain_row_def)

lemma domains_no_colon: "d \<in> set domainTable \<Longrightarrow> CHR '':'' \<notin> set (di_domain d)"
proof -
  have "\<forall>d \<in> set domainTable. CHR '':'' \<notin> set (di_domain d)"
    by (simp add: domainTable_def domain_row_def)
  then show "d \<in> set domainTable \<Longrightarrow> CHR '':'' \<notin> set (di_domain d)" by blast
qed

lemma areas_domain: "d \<in> set domainTable \<Longrightarrow> areas (di_domain d) = Some (di_area d)"
  unfolding areas_def
  by (rule map_of_is_SomeI) (use distinct_domains in \<open>auto simp: comp_def simp flip: rev_map\<close>)

lemma cut_before_append: "c \<notin> set s \<Longrightarrow> cut_before (s @ c # t) c = s"
  unfolding cut_before_def by (subst takeWhile_append2) auto

lemma Catalog_row:
  "i \<in> set Catalog \<Longrightarrow>
   \<exists>d \<in> set domainTable. \<exists>a \<in> set (di_actions d).
     info_Value i = di_domain d @ CHR '':'' # a \<and> info_Domain i = di_domain d \<and> info_Action i = a \<and>
     info_Area i = areaOf (info_Value i) (di_area d)"
  by (auto simp: Catalog_def domain_infos_def Let_def)

lemma Catalog_area: "i \<in> set Catalog \<Longrightarrow> info_Area i = AreaOf (info_Value i)"
  using Catalog_row [of i] by (auto simp: AreaOf_def cut_before_append domains_no_colon areas_domain)

lemma Catalog_domain: "i \<in> set Catalog \<Longrightarrow> info_Domain i = cut_before (info_Value i) (CHR '':'')"
  using Catalog_row [of i] by (auto simp: cut_before_append domains_no_colon)

lemma off_grid: "a \<in> set (Member # ProjectsOpen # MachinesSee # ComputerActions) \<Longrightarrow> \<not> known a"
proof -
  have "\<forall>a \<in> set (Member # ProjectsOpen # MachinesSee # ComputerActions). \<not> known a"
    by (simp add: known_iff AllActions_eq)
  then show "a \<in> set (Member # ProjectsOpen # MachinesSee # ComputerActions) \<Longrightarrow> \<not> known a" by blast
qed

text \<open>A name whose first and last bytes begin and end no white-space rune is its own trimming.\<close>

definition plain_ends :: "string \<Rightarrow> bool" where
  "plain_ends s \<longleftrightarrow>
     s = [] \<or> (hd s \<notin> set (map hd space_runes) \<and> last s \<notin> set (map last space_runes))"

lemma space_runes_nonempty: "p \<in> set space_runes \<Longrightarrow> p \<noteq> []"
  using space_runes_heads by blast

lemma strip_front_plain:
  assumes "\<And>p. p \<in> set ps \<Longrightarrow> p \<noteq> [] \<and> hd p \<noteq> hd s" and "s \<noteq> []"
  shows "strip_front ps s = s"
proof (rule strip_front_id, intro ballI disjI2)
  fix p assume "p \<in> set ps"
  from assms(1) [OF this] have p: "p \<noteq> []" "hd p \<noteq> hd s" by auto
  with assms(2) have "hd (take (length p) s) = hd s" by (cases p; cases s) auto
  with p show "take (length p) s \<noteq> p" by metis
qed

lemma strip_front_Nil: "(\<And>p. p \<in> set ps \<Longrightarrow> p \<noteq> []) \<Longrightarrow> strip_front ps [] = []"
  by (rule strip_front_id) auto

lemma TrimSpace_plain:
  assumes "plain_ends s"
  shows "TrimSpace s = s"
proof (cases "s = []")
  case True
  then show ?thesis
    by (simp add: TrimSpace_def strip_front_Nil space_runes_nonempty strip_front_id)
next
  case False
  with assms have ends: "hd s \<notin> set (map hd space_runes)" "last s \<notin> set (map last space_runes)"
    by (auto simp: plain_ends_def)
  have "p \<noteq> [] \<and> hd p \<noteq> hd s" "rev p \<noteq> [] \<and> hd (rev p) \<noteq> hd (rev s)"
    if "p \<in> set space_runes" for p
    using ends space_runes_nonempty [OF that] imageI [OF that, of hd] imageI [OF that, of last]
    by (auto simp: hd_rev)
  then have front: "strip_front space_runes s = s"
    and "strip_front (map rev space_runes) (rev s) = rev s"
    using False by (auto intro!: strip_front_plain dest: space_runes_nonempty)
  then show ?thesis by (simp add: TrimSpace_def)
qed

lemma domainTable_plain:
  "list_all (\<lambda>d. di_domain d \<noteq> [] \<and> hd (di_domain d) \<notin> set (map hd space_runes) \<and>
      list_all (\<lambda>a. a \<noteq> [] \<and> last a \<notin> set (map last space_runes)) (di_actions d)) domainTable"
  by code_simp

lemma AllActions_plain: "a \<in> set AllActions \<Longrightarrow> TrimSpace a = a"
proof (rule TrimSpace_plain)
  assume "a \<in> set AllActions"
  then obtain d v where "d \<in> set domainTable" "v \<in> set (di_actions d)"
    and a: "a = di_domain d @ CHR '':'' # v"
    by (auto simp: AllActions_def dest: Catalog_row)
  with domainTable_plain have "di_domain d \<noteq> []" "hd (di_domain d) \<notin> set (map hd space_runes)"
    "v \<noteq> []" "last v \<notin> set (map last space_runes)"
    by (auto simp: list_all_iff)
  with a show "plain_ends a" by (simp add: plain_ends_def)
qed

lemma instanceAreas_on_grid:
  "list_all (\<lambda>r. list_all (\<lambda>a. a \<in> set AllActions) (area_Actions r)) instanceAreas"
  unfolding AllActions_eq instanceAreas_def area_row_def by code_simp

section \<open>Lemmas: the gate helpers\<close>

text \<open>What \<open>Filter\<close> promises, without its memory of answers: ask the scope of every item in order; the
  first answer that is an error and not a refusal is the result, and otherwise the items whose scope
  allows are kept, in order.\<close>

definition refused_result :: "unit res \<Rightarrow> bool" where
  "refused_result r = (case r of Inl e \<Rightarrow> Refused e | Inr _ \<Rightarrow> False)"

definition broken :: "unit res \<Rightarrow> bool" where
  "broken r \<longleftrightarrow> \<not> okr r \<and> \<not> refused_result r"

definition Filter_spec :: "'a list \<Rightarrow> ('a \<Rightarrow> string) \<Rightarrow> (string \<Rightarrow> unit res) \<Rightarrow> 'a list res" where
  "Filter_spec items scope chk =
     (case find (\<lambda>x. broken (chk (scope x))) items of
        Some x \<Rightarrow> bindr (chk (scope x)) (\<lambda>_. Inr [])
      | None \<Rightarrow> Inr (filter (\<lambda>x. okr (chk (scope x))) items))"

definition remembers :: "(string \<Rightarrow> unit res) \<Rightarrow> (string \<rightharpoonup> bool) \<Rightarrow> bool" where
  "remembers chk allowed \<longleftrightarrow>
     (\<forall>k b. allowed k = Some b \<longrightarrow> b = okr (chk k) \<and> \<not> broken (chk k))"

lemma broken_simps [simp]: "broken (Inl e) \<longleftrightarrow> \<not> Refused e" "\<not> broken (Inr u)"
  by (simp_all add: broken_def refused_result_def)

lemma remembers_upd:
  "remembers chk m \<Longrightarrow> \<not> broken (chk k) \<Longrightarrow> remembers chk (m(k \<mapsto> okr (chk k)))"
  by (simp add: remembers_def)

lemma Filter_spec_Cons:
  "Filter_spec (x # xs) scope chk =
     (if broken (chk (scope x)) then bindr (chk (scope x)) (\<lambda>_. Inr [])
      else bindr (Filter_spec xs scope chk) (\<lambda>ys. Inr (if okr (chk (scope x)) then x # ys else ys)))"
proof (cases "find (\<lambda>x. broken (chk (scope x))) xs")
  case (Some y)
  then have "broken (chk (scope y))" by (auto simp: find_Some_iff)
  then obtain e where "chk (scope y) = Inl e" by (cases "chk (scope y)") auto
  with Some show ?thesis by (simp add: Filter_spec_def)
qed (simp add: Filter_spec_def)

lemma Filter_loop_spec:
  "remembers chk allowed \<Longrightarrow>
   Filter_loop scope chk allowed out xs = bindr (Filter_spec xs scope chk) (\<lambda>ys. Inr (out @ ys))"
proof (induction xs arbitrary: allowed out)
  case Nil
  then show ?case by (simp add: Filter_spec_def)
next
  case (Cons x xs)
  let ?k = "scope x"
  show ?case
  proof (cases "allowed ?k")
    case (Some ok)
    with Cons.prems have "ok = okr (chk ?k)" "\<not> broken (chk ?k)" by (auto simp: remembers_def)
    with Some show ?thesis
      by (cases "Filter_spec xs scope chk") (simp_all add: Cons.IH [OF Cons.prems] Filter_spec_Cons)
  next
    case None
    show ?thesis
    proof (cases "broken (chk ?k)")
      case True
      with None show ?thesis by (cases "chk ?k") (simp_all add: Filter_spec_Cons del: fun_upd_apply)
    next
      case False
      from Cons.IH [OF remembers_upd [OF Cons.prems this]] False None show ?thesis
        by (cases "chk ?k"; cases "Filter_spec xs scope chk") (simp_all add: Filter_spec_Cons del: fun_upd_apply)
    qed
  qed
qed

section \<open>Properties\<close>

text \<open>The memory of \<open>Filter\<close> never shows: asking each scope once gives the same list, or the same
  error, as asking for every item. A refusal (forbidden or not found) drops the item; any other error of
  the gate ends the listing, so a broken gate never looks like an empty list.\<close>

theorem Filter_equivalence: "Filter items scope chk = Filter_spec items scope chk"
proof -
  have "remembers chk Map.empty" by (simp add: remembers_def)
  from Filter_loop_spec [OF this, of scope "[]" items] show ?thesis
    unfolding Filter_def by (cases "Filter_spec items scope chk") simp_all
qed

text \<open>A grant passes \<open>RequireHeld\<close> exactly when every action of it is held; otherwise the error is
  Forbidden and nothing else.\<close>

theorem RequireHeld_exact:
  assumes "set_ok held"
  shows "(RequireHeld grant held = Inr () \<longleftrightarrow> set grant \<subseteq> set held) \<and>
    (\<forall>e. RequireHeld grant held = Inl e \<longrightarrow> errors_is e ErrForbidden \<and> Refused e)"
  using assms by (auto simp: RequireHeld_def Let_def filter_empty_conv Has_iff Refused_def)

theorem RequireHeld_exact_witness:
  "RequireHeld [DocsRead] (SetOf [DocsWrite, DocsRead]) = Inr () \<and>
   RequireHeld [DocsDelete] (SetOf [DocsWrite, DocsRead]) \<noteq> Inr ()"
  using RequireHeld_exact [of "SetOf [DocsWrite, DocsRead]" "[DocsRead]"]
    RequireHeld_exact [of "SetOf [DocsWrite, DocsRead]" "[DocsDelete]"] by simp

text \<open>What the parsers accept: \<open>ParseAction\<close> accepts a string exactly when its trimming is an action of
  the catalog, and answers that action; every action of the catalog is its own parse, so printing and
  parsing is a round trip; and a rule may set in addition Open, See of a machine and the four actions of a
  computer, none of which a role can carry.\<close>

theorem ParseAction_exact:
  "ParseAction s = (if TrimSpace s \<in> set AllActions then (TrimSpace s, True) else ([], False)) \<and>
   (\<forall>a. snd (ParseAction a) \<and> TrimSpace a = a \<longleftrightarrow> a \<in> set AllActions) \<and>
   (snd (ParseRuleAction s) \<longleftrightarrow>
      TrimSpace s \<in> set AllActions \<union> set (ProjectsOpen # MachinesSee # ComputerActions)) \<and>
   (set AllActions \<inter> set (ProjectsOpen # MachinesSee # ComputerActions) = {})"
proof (intro conjI allI)
  show "ParseAction s = (if TrimSpace s \<in> set AllActions then (TrimSpace s, True) else ([], False))"
    by (simp add: ParseAction_def known_iff Let_def)
  show "snd (ParseAction a) \<and> TrimSpace a = a \<longleftrightarrow> a \<in> set AllActions" for a
    using AllActions_plain [of a] by (auto simp: ParseAction_def known_iff Let_def)
  show "snd (ParseRuleAction s) \<longleftrightarrow>
      TrimSpace s \<in> set AllActions \<union> set (ProjectsOpen # MachinesSee # ComputerActions)"
    by (simp add: ParseRuleAction_def ParseAction_def known_iff Let_def)
  show "set AllActions \<inter> set (ProjectsOpen # MachinesSee # ComputerActions) = {}"
  proof -
    have "a \<notin> set AllActions" if "a \<in> set (ProjectsOpen # MachinesSee # ComputerActions)" for a
      using off_grid [of a] that by (simp add: known_iff)
    then show ?thesis by blast
  qed
qed

text \<open>C40. An action set is canonical: whatever list it is built from, it is strictly sorted, it tests
  exactly the actions of that list by binary search, two lists of the same actions give the same set, and
  adding, removing and subtracting are insertion, deletion and difference of the actions.\<close>

theorem action_set_canonical:
  "set_ok (SetOf xs) \<and> (\<forall>a. Has (SetOf xs) a \<longleftrightarrow> a \<in> set xs) \<and>
   (SetOf xs = SetOf ys \<longleftrightarrow> set xs = set ys) \<and>
   SetOf (Actions (SetOf xs)) = SetOf xs \<and>
   With (SetOf xs) a = SetOf (a # xs) \<and>
   Without (SetOf xs) a = SetOf (removeAll a xs) \<and>
   Except (SetOf xs) (SetOf ys) = SetOf (filter (\<lambda>x. x \<notin> set ys) xs)"
proof (intro conjI)
  show "SetOf xs = SetOf ys \<longleftrightarrow> set xs = set ys"
    by (metis set_SetOf set_ok_SetOf set_ok_eqI)
qed (auto simp: Actions_def SetOf_id set_Except intro!: set_ok_eqI)

text \<open>The catalog is consistent: no action is listed twice, the area and the domain listed with an
  action are the ones \<open>AreaOf\<close> and its prefix give, and every action of a fixed instance area is an
  action of the catalog that \<open>InstanceAreaOf\<close> finds an area for.\<close>

theorem Catalog_consistent:
  "distinct AllActions \<and>
   list_all (\<lambda>i. info_Area i = AreaOf (info_Value i) \<and>
                 info_Domain i = cut_before (info_Value i) (CHR '':'')) Catalog \<and>
   list_all (\<lambda>r. list_all (\<lambda>a. a \<in> set AllActions \<and> InstanceAreaOf a \<noteq> []) (area_Actions r)) instanceAreas"
proof (intro conjI)
  have "\<forall>r \<in> set instanceAreas. area_Key r \<noteq> []"
    by (simp add: instanceAreas_def area_row_def)
  then have "InstanceAreaOf a \<noteq> []" if "r \<in> set instanceAreas" "a \<in> set (area_Actions r)" for r a
    using that find_None_iff [of "\<lambda>r. a \<in> set (area_Actions r)" instanceAreas]
    by (auto simp: InstanceAreaOf_def find_Some_iff split: option.splits)
  then show "list_all (\<lambda>r. list_all (\<lambda>a. a \<in> set AllActions \<and> InstanceAreaOf a \<noteq> []) (area_Actions r)) instanceAreas"
    using instanceAreas_on_grid by (auto simp: list_all_iff)
qed (simp_all add: distinct_AllActions list_all_iff Catalog_area Catalog_domain)

end
