(* ===== verification/Access_Model.thy ===== *)
theory Access_Model
  imports Permissions
begin

text \<open>
  The data of the access domain and its evaluator (\<^verbatim>\<open>internal/access/model.go\<close> and the pure part of
  \<^verbatim>\<open>usecase.go\<close> and \<^verbatim>\<open>explain.go\<close>): rules on an entity, the roles a member holds, the layers of
  one check, and \<open>decide\<close>, which lays the rules of each entity over the answer from further out.
  The lemmas give the declarative reading of the evaluator: what one entity's rules say
  (\<open>rule_verdict\<close>), that the nearest entity that says anything wins, and that the source reported
  beside an answer always agrees with it.
\<close>

section \<open>Data\<close>

type_synonym time = int

record Overwrite =
  ow_ResourceType :: string
  ow_ResourceID :: string
  ow_Target :: string
  ow_UserID :: string
  ow_RoleID :: string
  ow_Allow :: pset
  ow_Deny :: pset
  ow_CreatedAt :: time
  ow_UpdatedAt :: time
  ow_TargetName :: string

record ProjectHeld =
  ph_ProjectID :: string
  ph_Actions :: pset

record Rules =
  rules_Person :: "Overwrite option"
  rules_Roles :: "Overwrite list"

record DocRules =
  docrules_Folder :: "Rules option"
  docrules_Doc :: "Rules option"

text \<open>The rules from the project inward; a pointer that is nil reads as \<open>None\<close>.\<close>

definition doc_chain :: "DocRules option \<Rightarrow> Rules option list" where
  "doc_chain r = (case r of None \<Rightarrow> [] | Some d \<Rightarrow> [docrules_Folder d, docrules_Doc d])"

record User =
  user_ID :: string
  user_Login :: string
  user_Name :: string

record HeldRole =
  hr_ID :: string
  hr_IsOwner :: bool
  hr_Permissions :: pset

record RoleInfo =
  ri_RoleID :: string
  ri_IsOwnerRole :: bool
  ri_Permissions :: pset
  ri_Roles :: "HeldRole list"

definition no_roles :: RoleInfo where
  "no_roles = \<lparr>ri_RoleID = [], ri_IsOwnerRole = False, ri_Permissions = [], ri_Roles = []\<rparr>"

definition RolesHeld :: "HeldRole list \<Rightarrow> RoleInfo" where
  "RolesHeld hs =
     \<lparr>ri_RoleID = (case hs of [] \<Rightarrow> [] | h # _ \<Rightarrow> hr_ID h),
      ri_IsOwnerRole = list_ex hr_IsOwner hs,
      ri_Permissions = SetOf (concat (map hr_Permissions hs)),
      ri_Roles = hs\<rparr>"

definition roleIDs :: "RoleInfo \<Rightarrow> string list" where
  "roleIDs r =
     (if ri_Roles r = [] \<and> ri_RoleID r \<noteq> [] then [ri_RoleID r] else map hr_ID (ri_Roles r))"

definition sourceRole :: "RoleInfo \<Rightarrow> action \<Rightarrow> string" where
  "sourceRole r a =
     (case find (\<lambda>h. hr_IsOwner h \<or> (\<not> ri_IsOwnerRole r \<and> Has (hr_Permissions h) a)) (ri_Roles r) of
        Some h \<Rightarrow> hr_ID h
      | None \<Rightarrow> ri_RoleID r)"

text \<open>The kinds of a source, the states it sets and the targets a rule names.\<close>

abbreviation (input) SourceOwner :: string where "SourceOwner \<equiv> ''owner''"
abbreviation (input) SourceInstanceOwner :: string where "SourceInstanceOwner \<equiv> ''instance_owner''"
abbreviation (input) SourceMember :: string where "SourceMember \<equiv> ''member''"
abbreviation (input) SourceRole :: string where "SourceRole \<equiv> ''role''"
abbreviation (input) SourceRule :: string where "SourceRule \<equiv> ''rule''"
abbreviation (input) SourceOutsideProject :: string where "SourceOutsideProject \<equiv> ''outside_project''"
abbreviation (input) SourceNotInProject :: string where "SourceNotInProject \<equiv> ''not_in_project''"
abbreviation (input) SourceEveryMember :: string where "SourceEveryMember \<equiv> ''every_member''"
abbreviation (input) SourceChannelMember :: string where "SourceChannelMember \<equiv> ''channel_member''"

abbreviation (input) StateAllow :: string where "StateAllow \<equiv> ''allow''"
abbreviation (input) StateFallback :: string where "StateFallback \<equiv> ''fallback''"
abbreviation (input) StateDeny :: string where "StateDeny \<equiv> ''deny''"
abbreviation (input) TargetRole :: string where "TargetRole \<equiv> ''role''"
abbreviation (input) TargetPerson :: string where "TargetPerson \<equiv> ''person''"

record Source =
  src_Kind :: string
  src_EntityType :: string
  src_EntityID :: string
  src_TargetType :: string
  src_TargetID :: string
  src_State :: string

definition no_source :: Source where
  "no_source = \<lparr>src_Kind = [], src_EntityType = [], src_EntityID = [], src_TargetType = [],
     src_TargetID = [], src_State = []\<rparr>"

text \<open>The resource types rules sit on.\<close>

abbreviation (input) resourceTypeDoc :: string where "resourceTypeDoc \<equiv> ''doc''"
abbreviation (input) resourceTypePlay :: string where "resourceTypePlay \<equiv> ''play''"
abbreviation (input) resourceTypeWorkspace :: string where "resourceTypeWorkspace \<equiv> ''workspace''"
abbreviation (input) resourceTypeProject :: string where "resourceTypeProject \<equiv> ''project''"
abbreviation (input) resourceTypeChannel :: string where "resourceTypeChannel \<equiv> ''channel''"
abbreviation (input) resourceTypeFolder :: string where "resourceTypeFolder \<equiv> ''folder''"
abbreviation (input) resourceTypeStack :: string where "resourceTypeStack \<equiv> ''stack''"

section \<open>One entity's rules\<close>

definition stateOf :: "Overwrite \<Rightarrow> action \<Rightarrow> string" where
  "stateOf ow a =
     (if Has (ow_Deny ow) a then StateDeny
      else if Has (ow_Allow ow) a then StateAllow
      else [])"

definition ruleSource :: "Overwrite \<Rightarrow> string \<Rightarrow> Source" where
  "ruleSource ow state =
     (if ow_Target ow = TargetRole
      then \<lparr>src_Kind = SourceRule, src_EntityType = ow_ResourceType ow, src_EntityID = ow_ResourceID ow,
            src_TargetType = TargetRole, src_TargetID = ow_RoleID ow, src_State = state\<rparr>
      else \<lparr>src_Kind = SourceRule, src_EntityType = ow_ResourceType ow, src_EntityID = ow_ResourceID ow,
            src_TargetType = TargetPerson, src_TargetID = ow_UserID ow, src_State = state\<rparr>)"

definition sourceOf :: "string \<Rightarrow> string \<Rightarrow> string \<Rightarrow> string \<Rightarrow> string \<Rightarrow> bool \<Rightarrow> Source" where
  "sourceOf kind entityType entityID targetType targetID allowed =
     \<lparr>src_Kind = kind, src_EntityType = entityType, src_EntityID = entityID,
      src_TargetType = targetType, src_TargetID = targetID,
      src_State = (if allowed then StateAllow else StateDeny)\<rparr>"

definition applyPersonRule ::
  "bool \<Rightarrow> Source \<Rightarrow> Overwrite option \<Rightarrow> action \<Rightarrow> bool \<times> Source" where
  "applyPersonRule allowed src ow a =
     (case ow of
        None \<Rightarrow> (allowed, src)
      | Some o' \<Rightarrow>
          let state = stateOf o' a
          in if state = [] then (allowed, src) else (state = StateAllow, ruleSource o' state))"

text \<open>The loop of \<open>applyRoleRules\<close>; \<open>denied\<close> is the first rule seen that denies.\<close>

fun applyRoleRules_loop ::
  "Overwrite option \<Rightarrow> bool \<Rightarrow> Source \<Rightarrow> Overwrite list \<Rightarrow> string list \<Rightarrow> action \<Rightarrow> bool \<times> Source" where
  "applyRoleRules_loop denied allowed src [] ids a =
     (case denied of
        None \<Rightarrow> (allowed, src)
      | Some ow \<Rightarrow> (False, ruleSource ow StateDeny))"
| "applyRoleRules_loop denied allowed src (ow # rules) ids a =
     (if ow_RoleID ow \<notin> set ids then applyRoleRules_loop denied allowed src rules ids a
      else let state = stateOf ow a
           in if state = StateAllow then (True, ruleSource ow state)
              else applyRoleRules_loop
                     (if state = StateDeny \<and> denied = None then Some ow else denied)
                     allowed src rules ids a)"

definition applyRoleRules ::
  "bool \<Rightarrow> Source \<Rightarrow> Overwrite list \<Rightarrow> string list \<Rightarrow> action \<Rightarrow> bool \<times> Source" where
  "applyRoleRules allowed src rules ids a = applyRoleRules_loop None allowed src rules ids a"

definition applyRules ::
  "bool \<Rightarrow> Source \<Rightarrow> Rules option \<Rightarrow> string list \<Rightarrow> action \<Rightarrow> bool \<times> Source" where
  "applyRules allowed src r ids a =
     (case r of
        None \<Rightarrow> (allowed, src)
      | Some rs \<Rightarrow>
          let (allowed', src') = applyRoleRules allowed src (rules_Roles rs) ids a
          in applyPersonRule allowed' src' (rules_Person rs) a)"

text \<open>Moving an action of a rule to a state, and a rule that says nothing about one.\<close>

abbreviation (input) stateRevoke :: string where "stateRevoke \<equiv> ''revoke''"
abbreviation (input) stateLift :: string where "stateLift \<equiv> ''lift''"

definition GrantState :: "string \<Rightarrow> bool \<Rightarrow> string" where
  "GrantState resourceType grant =
     (if resourceType = resourceTypePlay \<and> grant then stateLift
      else if resourceType = resourceTypePlay then StateDeny
      else if grant then StateAllow
      else stateRevoke)"

definition moveTo :: "pset \<Rightarrow> pset \<Rightarrow> action \<Rightarrow> string \<Rightarrow> pset \<times> pset" where
  "moveTo allow deny a state =
     (if state = StateAllow then (With allow a, Without deny a)
      else if state = StateDeny then (Without allow a, With deny a)
      else if state = stateRevoke then (Without allow a, deny)
      else if state = stateLift then (allow, Without deny a)
      else (Without allow a, Without deny a))"

definition withoutAction :: "Overwrite \<Rightarrow> action \<Rightarrow> Overwrite" where
  "withoutAction ow a = ow\<lparr>ow_Allow := Without (ow_Allow ow) a, ow_Deny := Without (ow_Deny ow) a\<rparr>"

definition personAtFallback :: "Rules option \<Rightarrow> action \<Rightarrow> Rules option" where
  "personAtFallback r a =
     (case r of
        None \<Rightarrow> None
      | Some rs \<Rightarrow>
          (case rules_Person rs of
             None \<Rightarrow> Some rs
           | Some p \<Rightarrow> Some \<lparr>rules_Person = Some (withoutAction p a), rules_Roles = rules_Roles rs\<rparr>))"

definition atFallback :: "Overwrite list \<Rightarrow> action \<Rightarrow> Overwrite list" where
  "atFallback rules a = map (\<lambda>ow. withoutAction ow a) rules"

section \<open>The layers of one check\<close>

record workspaceLayers =
  ws_userID :: string
  ws_workspaceID :: string
  ws_projectID :: string
  ws_roles :: RoleInfo
  ws_member :: bool
  ws_owner :: bool
  ws_project :: "Rules option"
  ws_listed :: bool

definition bare_layers :: "string \<Rightarrow> string \<Rightarrow> string \<Rightarrow> workspaceLayers" where
  "bare_layers userID workspaceID projectID =
     \<lparr>ws_userID = userID, ws_workspaceID = workspaceID, ws_projectID = projectID, ws_roles = no_roles,
      ws_member = False, ws_owner = False, ws_project = None, ws_listed = False\<rparr>"

text \<open>The layers inside a project whose rules reaching the person are \<open>r\<close> (method \<^verbatim>\<open>in\<close>).\<close>

definition layers_in :: "workspaceLayers \<Rightarrow> string \<Rightarrow> Rules option \<Rightarrow> workspaceLayers" where
  "layers_in ws projectID r =
     ws\<lparr>ws_projectID := projectID, ws_project := r,
        ws_listed := fst (applyRules False no_source r (roleIDs (ws_roles ws)) ProjectsOpen)\<rparr>"

definition hidden :: "workspaceLayers \<Rightarrow> bool" where
  "hidden ws \<longleftrightarrow> \<not> ws_owner ws \<and> ws_projectID ws \<noteq> [] \<and> (\<not> ws_member ws \<or> \<not> ws_listed ws)"

definition granted :: "workspaceLayers \<Rightarrow> action \<Rightarrow> bool \<times> Source" where
  "granted ws a =
     (let allowed = Has (ri_Permissions (ws_roles ws)) a;
          src = sourceOf SourceRole resourceTypeWorkspace (ws_workspaceID ws) TargetRole
                  (sourceRole (ws_roles ws) a) allowed;
          src = (if roleIDs (ws_roles ws) = []
                 then sourceOf SourceRole resourceTypeWorkspace (ws_workspaceID ws) TargetPerson
                        (ws_userID ws) False
                 else src);
          src = (if \<not> ws_member ws
                 then sourceOf SourceMember resourceTypeWorkspace (ws_workspaceID ws) TargetPerson
                        (ws_userID ws) False
                 else src)
      in (allowed, src))"

definition has :: "workspaceLayers \<Rightarrow> action \<Rightarrow> bool \<times> Source" where
  "has ws a =
     (if ws_member ws \<and> ws_projectID ws = [] \<and> AreaOf a = AreaProject
      then (False, sourceOf SourceOutsideProject resourceTypeWorkspace (ws_workspaceID ws) TargetPerson
              (ws_userID ws) False)
      else let (allowed, src) = granted ws a
           in if ws_projectID ws = [] then (allowed, src)
              else applyRules allowed src (ws_project ws) (roleIDs (ws_roles ws)) a)"

definition noRules :: "Rules option list" where
  "noRules = []"

text \<open>The rules of the chain laid over an answer, outermost first.\<close>

definition applyChain ::
  "string list \<Rightarrow> action \<Rightarrow> Rules option list \<Rightarrow> bool \<times> Source \<Rightarrow> bool \<times> Source" where
  "applyChain ids a rs start = fold (\<lambda>r (allowed, src). applyRules allowed src r ids a) rs start"

definition decide :: "workspaceLayers \<Rightarrow> action \<Rightarrow> Rules option list \<Rightarrow> bool \<times> Source" where
  "decide ws a chain =
     (if ws_owner ws
      then (True, sourceOf SourceOwner resourceTypeWorkspace (ws_workspaceID ws) TargetRole
              (sourceRole (ws_roles ws) []) True)
      else if hidden ws
      then (False, sourceOf SourceNotInProject resourceTypeProject (ws_projectID ws) TargetPerson
              (ws_userID ws) False)
      else if a = Member
      then (ws_member ws, sourceOf SourceMember resourceTypeWorkspace (ws_workspaceID ws) TargetPerson
              (ws_userID ws) (ws_member ws))
      else applyChain (roleIDs (ws_roles ws)) a chain (has ws a))"

definition layer_actions :: "workspaceLayers \<Rightarrow> bool \<Rightarrow> action list" where
  "layer_actions ws byRole =
     filter (\<lambda>a. ws_owner ws \<or> (if byRole then fst (granted ws a) else fst (has ws a))) AllActions"

definition projectActions_held :: "workspaceLayers \<Rightarrow> pset" where
  "projectActions_held ws =
     SetOf (filter (\<lambda>a. AreaOf a = AreaProject \<and> fst (decide ws a noRules)) AllActions)"

section \<open>What one entity's rules say\<close>

text \<open>The declarative reading of \<open>applyRules\<close>: the rule naming the person if it sets the action, else
  Allow if a rule for a held role allows it, else Deny if one denies it, else nothing.\<close>

definition state_verdict :: "string \<Rightarrow> bool option" where
  "state_verdict st = (if st = [] then None else Some (st = StateAllow))"

definition role_verdict :: "Overwrite list \<Rightarrow> string list \<Rightarrow> action \<Rightarrow> bool option" where
  "role_verdict rules ids a =
     (if \<exists>ow \<in> set rules. ow_RoleID ow \<in> set ids \<and> stateOf ow a = StateAllow then Some True
      else if \<exists>ow \<in> set rules. ow_RoleID ow \<in> set ids \<and> stateOf ow a = StateDeny then Some False
      else None)"

definition rule_verdict :: "Rules option \<Rightarrow> string list \<Rightarrow> action \<Rightarrow> bool option" where
  "rule_verdict r ids a =
     (case r of
        None \<Rightarrow> None
      | Some rs \<Rightarrow>
          (case Option.bind (rules_Person rs) (\<lambda>p. state_verdict (stateOf p a)) of
             Some b \<Rightarrow> Some b
           | None \<Rightarrow> role_verdict (rules_Roles rs) ids a))"

lemma stateOf_cases: "stateOf ow a = StateDeny \<or> stateOf ow a = StateAllow \<or> stateOf ow a = []"
  by (simp add: stateOf_def)

lemma stateOf_not_allow: "stateOf ow a \<noteq> [] \<Longrightarrow> stateOf ow a \<noteq> StateAllow \<longleftrightarrow> stateOf ow a = StateDeny"
  using stateOf_cases [of ow a] by auto

lemma ruleSource_state [simp]: "src_State (ruleSource ow st) = st"
  by (simp add: ruleSource_def)

lemma ruleSource_kind [simp]: "src_Kind (ruleSource ow st) = SourceRule"
  by (simp add: ruleSource_def)

lemma sourceOf_sel [simp]:
  "src_Kind (sourceOf k et ei tt ti b) = k"
  "src_State (sourceOf k et ei tt ti b) = (if b then StateAllow else StateDeny)"
  "src_EntityType (sourceOf k et ei tt ti b) = et"
  "src_EntityID (sourceOf k et ei tt ti b) = ei"
  "src_TargetType (sourceOf k et ei tt ti b) = tt"
  "src_TargetID (sourceOf k et ei tt ti b) = ti"
  by (simp_all add: sourceOf_def)

lemma applyRoleRules_loop_answer:
  "fst (applyRoleRules_loop denied allowed src rules ids a) \<longleftrightarrow>
     (\<exists>ow \<in> set rules. ow_RoleID ow \<in> set ids \<and> stateOf ow a = StateAllow) \<or>
     (denied = None \<and> \<not> (\<exists>ow \<in> set rules. ow_RoleID ow \<in> set ids \<and> stateOf ow a = StateDeny) \<and> allowed)"
  by (induction rules arbitrary: denied) (auto simp: Let_def split: option.splits)

lemma applyRoleRules_answer:
  "fst (applyRoleRules allowed src rules ids a) =
     (case role_verdict rules ids a of None \<Rightarrow> allowed | Some b \<Rightarrow> b)"
  by (auto simp: applyRoleRules_def applyRoleRules_loop_answer role_verdict_def)

lemma applyRules_answer:
  "fst (applyRules allowed src r ids a) =
     (case rule_verdict r ids a of None \<Rightarrow> allowed | Some b \<Rightarrow> b)"
  using applyRoleRules_answer [of allowed src _ ids a]
  by (auto simp: applyRules_def rule_verdict_def applyPersonRule_def state_verdict_def Let_def
      split: option.splits prod.splits)

text \<open>Where the source comes from: a rule of a held role, the rule naming the person, or further out.\<close>

definition sets_action :: "Rules \<Rightarrow> string list \<Rightarrow> action \<Rightarrow> Overwrite \<Rightarrow> string \<Rightarrow> bool" where
  "sets_action rs ids a ow st \<longleftrightarrow>
     st = stateOf ow a \<and> st \<noteq> [] \<and>
     (rules_Person rs = Some ow \<or> (ow \<in> set (rules_Roles rs) \<and> ow_RoleID ow \<in> set ids))"

lemma applyRoleRules_loop_source:
  "snd (applyRoleRules_loop denied allowed src rules ids a) = src \<and>
     fst (applyRoleRules_loop denied allowed src rules ids a) = allowed \<and> denied = None \<or>
   (\<exists>ow. ow \<in> set rules \<and> ow_RoleID ow \<in> set ids \<and> stateOf ow a \<noteq> [] \<and>
      applyRoleRules_loop denied allowed src rules ids a =
        (stateOf ow a = StateAllow, ruleSource ow (stateOf ow a))) \<or>
   (\<exists>ow. denied = Some ow \<and>
      applyRoleRules_loop denied allowed src rules ids a = (False, ruleSource ow StateDeny))"
proof (induction rules arbitrary: denied)
  case Nil
  then show ?case by (cases denied) auto
next
  case (Cons ow rules)
  show ?case
  proof (cases "ow_RoleID ow \<in> set ids \<and> stateOf ow a = StateAllow")
    case True
    then have "applyRoleRules_loop denied allowed src (ow # rules) ids a =
        (stateOf ow a = StateAllow, ruleSource ow (stateOf ow a))" by simp
    with True show ?thesis by (intro disjI2 disjI1 exI [of _ ow]) simp
  next
    case False
    define d where "d = (if ow_RoleID ow \<in> set ids \<and> stateOf ow a = StateDeny \<and> denied = None
      then Some ow else denied)"
    have step: "applyRoleRules_loop denied allowed src (ow # rules) ids a =
        applyRoleRules_loop d allowed src rules ids a"
      using False by (auto simp: Let_def d_def)
    consider (kept) "d = denied"
      | (new) "d = Some ow" "ow_RoleID ow \<in> set ids" "stateOf ow a = StateDeny" "denied = None"
      by (cases "ow_RoleID ow \<in> set ids \<and> stateOf ow a = StateDeny \<and> denied = None") (auto simp: d_def)
    then show ?thesis
    proof cases
      case kept
      with Cons.IH [of denied] show ?thesis unfolding step by (simp only:) (metis list.set_intros(2))
    next
      case new
      have "(\<exists>o'. o' \<in> set (ow # rules) \<and> ow_RoleID o' \<in> set ids \<and> stateOf o' a \<noteq> [] \<and>
          applyRoleRules_loop d allowed src rules ids a =
            (stateOf o' a = StateAllow, ruleSource o' (stateOf o' a)))"
      proof (cases "\<exists>o'. d = Some o' \<and>
          applyRoleRules_loop d allowed src rules ids a = (False, ruleSource o' StateDeny)")
        case True
        with new show ?thesis by (intro exI [of _ ow]) simp
      next
        case False
        with Cons.IH [of d] new(1) show ?thesis by (simp only: list.set option.distinct) blast
      qed
      then show ?thesis unfolding step by (intro disjI2 disjI1)
    qed
  qed
qed

lemma applyRules_source:
  "applyRules allowed src r ids a = (allowed, src) \<or>
   (\<exists>rs ow. r = Some rs \<and> sets_action rs ids a ow (stateOf ow a) \<and>
      applyRules allowed src r ids a = (stateOf ow a = StateAllow, ruleSource ow (stateOf ow a)))"
proof (cases r)
  case None
  then show ?thesis by (simp add: applyRules_def)
next
  case (Some rs)
  obtain b s where bs: "applyRoleRules allowed src (rules_Roles rs) ids a = (b, s)" by fastforce
  have roles: "(b, s) = (allowed, src) \<or> (\<exists>ow. ow \<in> set (rules_Roles rs) \<and> ow_RoleID ow \<in> set ids \<and>
      stateOf ow a \<noteq> [] \<and> (b, s) = (stateOf ow a = StateAllow, ruleSource ow (stateOf ow a)))"
    using applyRoleRules_loop_source [of None allowed src "rules_Roles rs" ids a] bs
    by (auto simp: applyRoleRules_def)
  have ap: "applyRules allowed src r ids a = applyPersonRule b s (rules_Person rs) a"
    using Some bs by (simp add: applyRules_def)
  show ?thesis
  proof (cases "\<exists>p. rules_Person rs = Some p \<and> stateOf p a \<noteq> []")
    case True
    then show ?thesis using Some ap by (auto simp: applyPersonRule_def Let_def sets_action_def)
  next
    case False
    then have "applyPersonRule b s (rules_Person rs) a = (b, s)"
      by (auto simp: applyPersonRule_def Let_def split: option.splits)
    with roles ap Some show ?thesis by (auto simp: sets_action_def)
  qed
qed


section \<open>Layers and decisions\<close>

lemma SetOf_Nil: "SetOf [] = []"
  by (simp add: SetOf_def)

text \<open>The role data a membership read yields is what \<open>RolesHeld\<close> builds, and only a member has any.\<close>

definition roles_ok :: "RoleInfo \<Rightarrow> bool" where
  "roles_ok r \<longleftrightarrow> set_ok (ri_Permissions r) \<and> (roleIDs r = [] \<longrightarrow> ri_Permissions r = [] \<and> \<not> ri_IsOwnerRole r)"

definition layers_ok :: "workspaceLayers \<Rightarrow> bool" where
  "layers_ok ws \<longleftrightarrow> roles_ok (ws_roles ws) \<and> (\<not> ws_member ws \<longrightarrow> ws_roles ws = no_roles \<and> \<not> ws_owner ws)"

lemma roles_ok_RolesHeld [simp]: "roles_ok (RolesHeld hs)"
  by (cases hs) (auto simp: roles_ok_def RolesHeld_def roleIDs_def SetOf_Nil)

lemma roles_ok_no_roles [simp]: "roles_ok no_roles"
  by (simp add: roles_ok_def no_roles_def)

lemma roleIDs_no_roles [simp]: "roleIDs no_roles = []"
  by (simp add: roleIDs_def no_roles_def)

lemma roleIDs_RolesHeld [simp]: "roleIDs (RolesHeld hs) = map hr_ID hs"
  by (cases hs) (auto simp: roleIDs_def RolesHeld_def)

lemma RolesHeld_sel [simp]:
  "ri_IsOwnerRole (RolesHeld hs) \<longleftrightarrow> (\<exists>h \<in> set hs. hr_IsOwner h)"
  "set (ri_Permissions (RolesHeld hs)) = (\<Union>h \<in> set hs. set (hr_Permissions h))"
  "ri_Roles (RolesHeld hs) = hs"
  by (auto simp: RolesHeld_def list_ex_iff)

lemma layers_in_sel [simp]:
  "ws_userID (layers_in ws p r) = ws_userID ws" "ws_workspaceID (layers_in ws p r) = ws_workspaceID ws"
  "ws_projectID (layers_in ws p r) = p" "ws_roles (layers_in ws p r) = ws_roles ws"
  "ws_member (layers_in ws p r) = ws_member ws" "ws_owner (layers_in ws p r) = ws_owner ws"
  "ws_project (layers_in ws p r) = r"
  by (simp_all add: layers_in_def)

lemma ws_listed_in:
  "ws_listed (layers_in ws p r) \<longleftrightarrow> rule_verdict r (roleIDs (ws_roles ws)) ProjectsOpen = Some True"
  by (simp add: layers_in_def applyRules_answer split: option.splits)

lemma layers_ok_in [simp]: "layers_ok (layers_in ws p r) \<longleftrightarrow> layers_ok ws"
  by (simp add: layers_ok_def)

lemma layers_ok_bare [simp]: "layers_ok (bare_layers u w p)"
  by (simp add: layers_ok_def bare_layers_def)

lemma fst_granted [simp]: "fst (granted ws a) = Has (ri_Permissions (ws_roles ws)) a"
  by (simp add: granted_def Let_def)

lemma granted_state:
  "layers_ok ws \<Longrightarrow> src_State (snd (granted ws a)) = (if fst (granted ws a) then StateAllow else StateDeny)"
  by (auto simp: granted_def Let_def layers_ok_def roles_ok_def no_roles_def)

text \<open>An answer and its source agree when the source's state says what the answer does.\<close>

definition agrees :: "bool \<times> Source \<Rightarrow> bool" where
  "agrees v \<longleftrightarrow> src_State (snd v) = (if fst v then StateAllow else StateDeny)"

lemma agrees_pair [simp]: "agrees (b, src) \<longleftrightarrow> src_State src = (if b then StateAllow else StateDeny)"
  by (simp add: agrees_def)

lemma applyRules_agrees:
  assumes "agrees (allowed, src)"
  shows "agrees (applyRules allowed src r ids a)"
  using applyRules_source [of allowed src r ids a]
proof (elim disjE exE conjE)
  assume "applyRules allowed src r ids a = (allowed, src)"
  with assms show ?thesis by simp
next
  fix rs ow
  assume "sets_action rs ids a ow (stateOf ow a)"
    "applyRules allowed src r ids a = (stateOf ow a = StateAllow, ruleSource ow (stateOf ow a))"
  then show ?thesis using stateOf_cases [of ow a] by (auto simp: sets_action_def)
qed

lemma has_agrees: "layers_ok ws \<Longrightarrow> agrees (has ws a)"
  using granted_state [of ws a]
  by (auto simp: has_def case_prod_unfold Let_def intro!: applyRules_agrees)

lemma applyChain_Nil [simp]: "applyChain ids a [] v = v"
  by (simp add: applyChain_def)

lemma applyChain_snoc: "applyChain ids a (rs @ [r]) v =
    applyRules (fst (applyChain ids a rs v)) (snd (applyChain ids a rs v)) r ids a"
  by (simp add: applyChain_def case_prod_unfold)

lemma applyChain_agrees: "agrees v \<Longrightarrow> agrees (applyChain ids a rs v)"
proof (induction rs rule: rev_induct)
  case (snoc r rs)
  then have "agrees (fst (applyChain ids a rs v), snd (applyChain ids a rs v))"
    by (simp add: agrees_def)
  then show ?case unfolding applyChain_snoc by (rule applyRules_agrees)
qed simp

lemma decide_agrees: "layers_ok ws \<Longrightarrow> agrees (decide ws a chain)"
  by (auto simp: decide_def intro!: applyChain_agrees has_agrees)

text \<open>The nearest entity whose rules say anything decides.\<close>

fun chain_verdict :: "string list \<Rightarrow> action \<Rightarrow> Rules option list \<Rightarrow> bool option" where
  "chain_verdict ids a [] = None"
| "chain_verdict ids a (r # rs) =
     (case chain_verdict ids a rs of Some b \<Rightarrow> Some b | None \<Rightarrow> rule_verdict r ids a)"

lemma chain_verdict_snoc:
  "chain_verdict ids a (rs @ [r]) =
     (case rule_verdict r ids a of Some b \<Rightarrow> Some b | None \<Rightarrow> chain_verdict ids a rs)"
  by (induction rs) (auto split: option.splits)

lemma applyChain_answer:
  "fst (applyChain ids a rs v) = (case chain_verdict ids a rs of None \<Rightarrow> fst v | Some b \<Rightarrow> b)"
  by (induction rs rule: rev_induct)
     (auto simp: applyChain_snoc chain_verdict_snoc applyRules_answer split: option.splits)

lemma has_answer:
  "fst (has ws a) \<longleftrightarrow>
     (if ws_projectID ws = []
      then Has (ri_Permissions (ws_roles ws)) a \<and> \<not> (ws_member ws \<and> AreaOf a = AreaProject)
      else (case rule_verdict (ws_project ws) (roleIDs (ws_roles ws)) a of
              None \<Rightarrow> Has (ri_Permissions (ws_roles ws)) a
            | Some b \<Rightarrow> b))"
proof -
  obtain b s where g: "granted ws a = (b, s)" by fastforce
  then have "b = Has (ri_Permissions (ws_roles ws)) a" using fst_granted [of ws a] by simp
  with g show ?thesis by (auto simp: has_def applyRules_answer)
qed

lemma decide_answer:
  "fst (decide ws a chain) \<longleftrightarrow>
     ws_owner ws \<or>
     (\<not> hidden ws \<and>
      (if a = Member then ws_member ws
       else (case chain_verdict (roleIDs (ws_roles ws)) a chain of
               None \<Rightarrow> fst (has ws a)
             | Some b \<Rightarrow> b)))"
  by (simp add: decide_def applyChain_answer)

text \<open>Fallback: the rule without an action says what the entity's other rules say about it.\<close>

definition overwrite_ok :: "Overwrite \<Rightarrow> bool" where
  "overwrite_ok ow \<longleftrightarrow> set_ok (ow_Allow ow) \<and> set_ok (ow_Deny ow)"

definition rules_ok :: "Rules option \<Rightarrow> bool" where
  "rules_ok r = (case r of None \<Rightarrow> True
     | Some rs \<Rightarrow> pred_option overwrite_ok (rules_Person rs) \<and> list_all overwrite_ok (rules_Roles rs))"

lemma stateOf_withoutAction:
  "overwrite_ok ow \<Longrightarrow> stateOf (withoutAction ow a) b = (if b = a then [] else stateOf ow b)"
  by (auto simp: stateOf_def withoutAction_def overwrite_ok_def grid_set.has_del)

lemma withoutAction_same [simp]:
  "ow_RoleID (withoutAction ow a) = ow_RoleID ow" "ow_Target (withoutAction ow a) = ow_Target ow"
  "ow_UserID (withoutAction ow a) = ow_UserID ow" "ow_ResourceID (withoutAction ow a) = ow_ResourceID ow"
  "ow_ResourceType (withoutAction ow a) = ow_ResourceType ow"
  by (simp_all add: withoutAction_def)

lemma stateOf_moveTo:
  assumes "overwrite_ok ow" "moveTo (ow_Allow ow) (ow_Deny ow) a st = (al, de)"
  shows "stateOf (ow\<lparr>ow_Allow := al, ow_Deny := de\<rparr>) b =
    (if b \<noteq> a then stateOf ow b
     else if st = StateAllow then StateAllow
     else if st = StateDeny then StateDeny
     else if st = stateRevoke then (if Has (ow_Deny ow) a then StateDeny else [])
     else if st = stateLift then (if Has (ow_Allow ow) a then StateAllow else [])
     else [])"
  using assms
  by (auto simp: stateOf_def moveTo_def overwrite_ok_def grid_set.has_ins grid_set.has_del split: if_splits)

lemma moveTo_ok:
  "set_ok al \<Longrightarrow> set_ok de \<Longrightarrow> moveTo al de a st = (al', de') \<Longrightarrow> set_ok al' \<and> set_ok de'"
  by (auto simp: moveTo_def split: if_splits)


lemma rule_verdict_personAtFallback:
  assumes "rules_ok r"
  shows "rule_verdict (personAtFallback r a) ids b =
    (if b \<noteq> a then rule_verdict r ids b
     else Option.bind r (\<lambda>rs. role_verdict (rules_Roles rs) ids a))"
proof (cases r)
  case (Some rs)
  show ?thesis
  proof (cases "rules_Person rs")
    case None
    with Some show ?thesis by (simp add: personAtFallback_def rule_verdict_def)
  next
    case p: (Some p)
    with Some assms have "stateOf (withoutAction p a) b = (if b = a then [] else stateOf p b)"
      by (simp add: stateOf_withoutAction rules_ok_def)
    with Some p show ?thesis by (simp add: personAtFallback_def rule_verdict_def state_verdict_def)
  qed
qed (simp add: personAtFallback_def rule_verdict_def)

lemma applyChain_source:
  "applyChain ids a rs v = v \<or>
   (\<exists>r ow. Some r \<in> set rs \<and> sets_action r ids a ow (stateOf ow a) \<and>
      applyChain ids a rs v = (stateOf ow a = StateAllow, ruleSource ow (stateOf ow a)))"
proof (induction rs rule: rev_induct)
  case (snoc r rs)
  let ?v = "applyChain ids a rs v"
  from applyRules_source [of "fst ?v" "snd ?v" r ids a] show ?case
  proof (elim disjE exE conjE)
    assume "applyRules (fst ?v) (snd ?v) r ids a = (fst ?v, snd ?v)"
    then have "applyChain ids a (rs @ [r]) v = ?v" by (simp add: applyChain_snoc)
    with snoc.IH show ?thesis by auto
  next
    fix r' ow
    assume "r = Some r'" "sets_action r' ids a ow (stateOf ow a)"
      "applyRules (fst ?v) (snd ?v) r ids a = (stateOf ow a = StateAllow, ruleSource ow (stateOf ow a))"
    then show ?thesis by (intro disjI2 exI [of _ r'] exI [of _ ow]) (simp add: applyChain_snoc)
  qed
qed simp

lemma granted_kind: "src_Kind (snd (granted ws a)) \<in> {SourceRole, SourceMember}"
  by (simp add: granted_def Let_def)

lemma has_source:
  "src_Kind (snd (has ws a)) = SourceRule \<Longrightarrow>
   \<exists>r ow. ws_project ws = Some r \<and> sets_action r (roleIDs (ws_roles ws)) a ow (stateOf ow a) \<and>
     has ws a = (stateOf ow a = StateAllow, ruleSource ow (stateOf ow a))"
  using granted_kind [of ws a]
    applyRules_source [of "fst (granted ws a)" "snd (granted ws a)" "ws_project ws" "roleIDs (ws_roles ws)" a]
  by (auto simp: has_def case_prod_unfold Let_def split: if_splits)

lemma decide_rule_source_ex:
  assumes "src_Kind (snd (decide ws a chain)) = SourceRule"
  shows "\<exists>r ow. Some r \<in> set (ws_project ws # chain) \<and>
     sets_action r (roleIDs (ws_roles ws)) a ow (stateOf ow a) \<and>
     decide ws a chain = (stateOf ow a = StateAllow, ruleSource ow (stateOf ow a))"
proof -
  have d: "decide ws a chain = applyChain (roleIDs (ws_roles ws)) a chain (has ws a)"
    using assms by (auto simp: decide_def split: if_splits)
  from applyChain_source [of "roleIDs (ws_roles ws)" a chain "has ws a"] show ?thesis
  proof (elim disjE exE conjE)
    assume eq: "applyChain (roleIDs (ws_roles ws)) a chain (has ws a) = has ws a"
    with assms d have "src_Kind (snd (has ws a)) = SourceRule" by simp
    from has_source [OF this] eq d show ?thesis by auto
  next
    fix r ow
    assume "Some r \<in> set chain" "sets_action r (roleIDs (ws_roles ws)) a ow (stateOf ow a)"
      "applyChain (roleIDs (ws_roles ws)) a chain (has ws a) =
        (stateOf ow a = StateAllow, ruleSource ow (stateOf ow a))"
    with d show ?thesis by (intro exI [of _ r] exI [of _ ow]) simp
  qed
qed

lemma decide_owner: "ws_owner ws \<Longrightarrow> fst (decide ws a chain)"
  by (simp add: decide_answer)

lemma decide_hidden: "hidden ws \<Longrightarrow> \<not> fst (decide ws a chain)"
  by (auto simp: decide_answer hidden_def)

lemma hidden_no_project [simp]: "ws_projectID ws = [] \<Longrightarrow> \<not> hidden ws"
  by (simp add: hidden_def)

section \<open>Properties\<close>



lemma applyRoleRules_loop_kind:
  "denied \<noteq> None \<or> (\<exists>ow \<in> set rules. ow_RoleID ow \<in> set ids \<and> stateOf ow a \<noteq> []) \<Longrightarrow>
   src_Kind (snd (applyRoleRules_loop denied allowed src rules ids a)) = SourceRule"
proof (induction rules arbitrary: denied)
  case (Cons ow rules)
  show ?case
  proof (cases "ow_RoleID ow \<in> set ids \<and> stateOf ow a \<noteq> []")
    case True
    then show ?thesis using stateOf_cases [of ow a] by (auto simp: Let_def intro!: Cons.IH)
  next
    case False
    with Cons.prems have "denied \<noteq> None \<or> (\<exists>ow \<in> set rules. ow_RoleID ow \<in> set ids \<and> stateOf ow a \<noteq> [])"
      by auto
    from Cons.IH [OF this] False show ?thesis by auto
  qed
qed auto

lemma applyRules_kind:
  "rule_verdict r ids a \<noteq> None \<Longrightarrow> src_Kind (snd (applyRules allowed src r ids a)) = SourceRule"
proof (cases r)
  case (Some rs)
  assume v: "rule_verdict r ids a \<noteq> None"
  show ?thesis
  proof (cases "Option.bind (rules_Person rs) (\<lambda>p. state_verdict (stateOf p a))")
    case None
    with v Some have "role_verdict (rules_Roles rs) ids a \<noteq> None" by (simp add: rule_verdict_def)
    then have "\<exists>ow \<in> set (rules_Roles rs). ow_RoleID ow \<in> set ids \<and> stateOf ow a \<noteq> []"
      by (force simp: role_verdict_def split: if_splits)
    then have "src_Kind (snd (applyRoleRules allowed src (rules_Roles rs) ids a)) = SourceRule"
      unfolding applyRoleRules_def by (intro applyRoleRules_loop_kind disjI2)
    with None Some show ?thesis
      by (auto simp: applyRules_def applyPersonRule_def state_verdict_def Let_def case_prod_unfold
          split: option.splits if_splits)
  next
    case (Some b)
    with \<open>r = Some rs\<close> show ?thesis
      by (auto simp: applyRules_def applyPersonRule_def state_verdict_def Let_def case_prod_unfold
          split: option.splits if_splits bind_splits)
  qed
qed (simp add: rule_verdict_def)

lemma applyRules_silent: "rule_verdict r ids a = None \<Longrightarrow> applyRules allowed src r ids a = (allowed, src)"
  using applyRules_source [of allowed src r ids a]
proof (elim disjE exE conjE)
  fix rs ow
  assume "rule_verdict r ids a = None" "r = Some rs" "sets_action rs ids a ow (stateOf ow a)"
  then have False using stateOf_cases [of ow a]
    by (auto simp: rule_verdict_def state_verdict_def role_verdict_def sets_action_def
        split: if_splits option.splits)
  then show ?thesis ..
qed

section \<open>Properties\<close>



text \<open>The source reported with an answer never disagrees with it: for layers built from a membership
  read, the source's state is Allow exactly when the answer is yes.\<close>

theorem decide_source_agrees:
  assumes "layers_ok ws"
  shows "src_State (snd (decide ws a chain)) = (if fst (decide ws a chain) then StateAllow else StateDeny)"
  using decide_agrees [OF assms, of a chain] by (simp add: agrees_def)

definition example_layers :: workspaceLayers where
  "example_layers =
     layers_in ((bare_layers ''bob'' ''w1'' [])\<lparr>ws_member := True,
        ws_roles := RolesHeld [\<lparr>hr_ID = ''r1'', hr_IsOwner = False, hr_Permissions = SetOf [DocsRead]\<rparr>]\<rparr>) [] None"

lemma example_layers_ok: "layers_ok example_layers"
  by (simp add: example_layers_def) (simp add: layers_ok_def)

theorem decide_source_agrees_witness:
  "layers_ok example_layers \<and>
   src_State (snd (decide example_layers PlaysRun noRules)) =
     (if fst (decide example_layers PlaysRun noRules) then StateAllow else StateDeny)"
  using decide_source_agrees [OF example_layers_ok, of PlaysRun noRules] example_layers_ok by simp

text \<open>A source that names a rule names a real one: the answer is what a rule of the consulted
  entities (the project's or one of the chain), for the person or for a role they hold, sets the action to,
  and the source is that rule.\<close>

theorem decide_rule_source:
  assumes "src_Kind (snd (decide ws a chain)) = SourceRule"
  shows "\<exists>r ow. Some r \<in> set (ws_project ws # chain) \<and>
     sets_action r (roleIDs (ws_roles ws)) a ow (stateOf ow a) \<and>
     decide ws a chain = (stateOf ow a = StateAllow, ruleSource ow (stateOf ow a))"
  using assms by (rule decide_rule_source_ex)

definition example_rule :: Overwrite where
  "example_rule = \<lparr>ow_ResourceType = resourceTypeDoc, ow_ResourceID = ''d1'', ow_Target = TargetPerson,
     ow_UserID = ''bob'', ow_RoleID = [], ow_Allow = [PlaysRun], ow_Deny = [], ow_CreatedAt = 0,
     ow_UpdatedAt = 0, ow_TargetName = []\<rparr>"

lemma example_rule_state: "stateOf example_rule PlaysRun = StateAllow"
  by (simp add: stateOf_def example_rule_def Has_iff set_ok_def)

theorem decide_rule_source_witness:
  "\<exists>r ow. Some r \<in> set (ws_project example_layers # [Some \<lparr>rules_Person = Some example_rule, rules_Roles = []\<rparr>]) \<and>
     sets_action r (roleIDs (ws_roles example_layers)) PlaysRun ow (stateOf ow PlaysRun) \<and>
     decide example_layers PlaysRun [Some \<lparr>rules_Person = Some example_rule, rules_Roles = []\<rparr>] =
       (stateOf ow PlaysRun = StateAllow, ruleSource ow (stateOf ow PlaysRun))"
proof (rule decide_rule_source)
  have "\<not> ws_owner example_layers" "ws_projectID example_layers = []"
    by (simp_all add: example_layers_def bare_layers_def)
  then show "src_Kind (snd (decide example_layers PlaysRun
      [Some \<lparr>rules_Person = Some example_rule, rules_Roles = []\<rparr>])) = SourceRule"
    by (simp add: decide_def applyChain_def case_prod_unfold applyRules_kind
        rule_verdict_def state_verdict_def example_rule_state)
qed

text \<open>Moving an action of a stored rule to a state does exactly that: afterwards the rule allows,
  denies or says nothing about it as asked, the two older writes take only the Allow (revoke) or only the
  Deny (lift) away, and every other action of the rule reads as before.\<close>

theorem moveTo_spec:
  assumes "overwrite_ok ow" "moveTo (ow_Allow ow) (ow_Deny ow) a st = (al, de)"
  shows "overwrite_ok (ow\<lparr>ow_Allow := al, ow_Deny := de\<rparr>) \<and>
    stateOf (ow\<lparr>ow_Allow := al, ow_Deny := de\<rparr>) b =
      (if b \<noteq> a then stateOf ow b
       else if st = StateAllow then StateAllow
       else if st = StateDeny then StateDeny
       else if st = stateRevoke then (if Has (ow_Deny ow) a then StateDeny else [])
       else if st = stateLift then (if Has (ow_Allow ow) a then StateAllow else [])
       else [])"
proof
  show "overwrite_ok (ow\<lparr>ow_Allow := al, ow_Deny := de\<rparr>)"
    using assms moveTo_ok [of "ow_Allow ow" "ow_Deny ow" a st al de] by (simp add: overwrite_ok_def)
qed (rule stateOf_moveTo [OF assms])

lemma example_rule_ok: "overwrite_ok example_rule"
  by (simp add: overwrite_ok_def example_rule_def set_ok_def)

theorem moveTo_spec_witness:
  "overwrite_ok example_rule \<and>
   stateOf (example_rule\<lparr>ow_Allow := Without [PlaysRun] PlaysRun, ow_Deny := With [] PlaysRun\<rparr>) PlaysRun = StateDeny"
  using moveTo_spec [OF example_rule_ok, of PlaysRun StateDeny "Without [PlaysRun] PlaysRun" "With [] PlaysRun" PlaysRun]
    example_rule_ok
  by (simp add: moveTo_def example_rule_def)

text \<open>The answer shown under Fallback is the one the entity gives without the person's own word: the
  rules with the person's rule at Fallback for an action answer it from the rules for their roles alone, and
  answer every other action as before.\<close>

theorem personAtFallback_spec:
  assumes "rules_ok r"
  shows "fst (applyRules allowed src (personAtFallback r a) ids b) =
    (case (if b \<noteq> a then rule_verdict r ids b
           else Option.bind r (\<lambda>rs. role_verdict (rules_Roles rs) ids a)) of
       None \<Rightarrow> allowed
     | Some v \<Rightarrow> v)"
  using rule_verdict_personAtFallback [of r a ids b] assms by (simp add: applyRules_answer)

theorem personAtFallback_spec_witness:
  "rules_ok (Some \<lparr>rules_Person = Some example_rule, rules_Roles = []\<rparr>) \<and>
   \<not> fst (applyRules False no_source
       (personAtFallback (Some \<lparr>rules_Person = Some example_rule, rules_Roles = []\<rparr>) PlaysRun) [] PlaysRun)"
  using personAtFallback_spec [of "Some \<lparr>rules_Person = Some example_rule, rules_Roles = []\<rparr>"
      False no_source PlaysRun "[]" PlaysRun] example_rule_ok
  by (simp add: role_verdict_def rules_ok_def)

end
