(* ===== verification/Access_Sentence.thy ===== *)
theory Access_Sentence
  imports Access_Model
begin

text \<open>
  The sentence a person reads for a source (\<^verbatim>\<open>internal/access/explain.go\<close>, \<^verbatim>\<open>namer\<close> and
  \<^verbatim>\<open>sentence\<close>), and the refusal error that carries it.  The namer is its two lookups, the names
  resolver and the instance areas; its cache only saves repeated reads.  A resolver that fails yields the
  empty name, as a Go call that returns an error yields the zero value.
\<close>

type_synonym Names = "string \<Rightarrow> string \<Rightarrow> string res"

record namer =
  namer_names :: "Names option"
  namer_areas :: "InstanceArea list"

record NamedSource =
  named_Source :: Source
  named_EntityName :: string
  named_TargetName :: string
  named_Sentence :: string

record Verdict =
  verdict_Allowed :: bool
  verdict_Source :: NamedSource

record Requirement =
  req_Action :: action
  req_Sentence :: string

record Answer =
  answer_Action :: action
  answer_Verdict :: Verdict
  answer_Fallback :: Verdict
  answer_Requires :: "Requirement option"

record Explanation =
  expl_ResourceType :: string
  expl_ResourceID :: string
  expl_UserID :: string
  expl_RoleID :: string
  expl_Effective :: "Answer list"

abbreviation (input) resourceTypeInstanceArea :: string where "resourceTypeInstanceArea \<equiv> ''instance_area''"
abbreviation (input) resourceTypeComputer :: string where "resourceTypeComputer \<equiv> ''computer''"
abbreviation (input) resourceTypeMachine :: string where "resourceTypeMachine \<equiv> ''machine''"
abbreviation (input) SourceNotShared :: string where "SourceNotShared \<equiv> ''not_shared''"
abbreviation (input) SourceNotOnMachine :: string where "SourceNotOnMachine \<equiv> ''not_on_machine''"
abbreviation (input) SourceNoDeployTo :: string where "SourceNoDeployTo \<equiv> ''no_deploy_to''"

section \<open>Names\<close>

definition zero_name :: "string res \<Rightarrow> string" where
  "zero_name r = (case r of Inl _ \<Rightarrow> [] | Inr n \<Rightarrow> n)"

definition areaLabel :: "namer \<Rightarrow> string \<Rightarrow> string" where
  "areaLabel n key =
     (case find (\<lambda>a. area_Key a = key) (namer_areas n) of
        None \<Rightarrow> key
      | Some a \<Rightarrow> area_Label a)"

definition resolve :: "namer \<Rightarrow> string \<Rightarrow> string \<Rightarrow> string \<times> bool" where
  "resolve n entityType i =
     (let name =
        (if entityType = resourceTypeInstanceArea then areaLabel n i
         else case namer_names n of
           None \<Rightarrow> []
         | Some names \<Rightarrow> if i \<noteq> [] then zero_name (names entityType i) else [])
      in (name, name \<noteq> []))"

definition name_of :: "namer \<Rightarrow> string \<Rightarrow> string \<Rightarrow> string" where
  "name_of n entityType i =
     (let (name, ok) = resolve n entityType i
      in if ok then name
         else if i = [] then []
         else if entityType = TargetPerson then ''someone''
         else ''(unknown)'')"

definition targetName_of_rule :: "namer \<Rightarrow> Overwrite \<Rightarrow> string" where
  "targetName_of_rule n g =
     (if ow_Target g = TargetRole then fst (resolve n TargetRole (ow_RoleID g))
      else fst (resolve n TargetPerson (ow_UserID g)))"

section \<open>Sentences\<close>

definition targetName :: "NamedSource \<Rightarrow> string" where
  "targetName r =
     (if src_TargetType (named_Source r) = TargetRole then ''role '' @ named_TargetName r
      else named_TargetName r)"

definition roleSentence :: "NamedSource \<Rightarrow> bool \<Rightarrow> string" where
  "roleSentence r allowed =
     (if src_TargetType (named_Source r) = TargetPerson
      then ''Not allowed: '' @ named_TargetName r @ '' holds no role''
      else if allowed then ''Allowed by role '' @ named_TargetName r
      else ''Not allowed: role '' @ named_TargetName r @ '' doesn't grant it'')"

definition channelMemberSentence :: "NamedSource \<Rightarrow> bool \<Rightarrow> string" where
  "channelMemberSentence r allowed =
     (if src_TargetType (named_Source r) = TargetRole
      then ''Read by the members of private channel '' @ named_EntityName r
      else if allowed then ''Member of private channel '' @ named_EntityName r
      else ''Not a member of private channel '' @ named_EntityName r)"

definition memberSentence :: "NamedSource \<Rightarrow> bool \<Rightarrow> string" where
  "memberSentence r allowed =
     (if allowed then ''Member of '' @ named_EntityName r
      else ''Not found: '' @ named_TargetName r @ '' isn't a member of '' @ named_EntityName r)"

definition ruleSentence :: "NamedSource \<Rightarrow> bool \<Rightarrow> string" where
  "ruleSentence r allowed =
     (let verb = (if allowed then ''Allowed'' else ''Denied'');
          target = (if src_TargetType (named_Source r) = TargetRole then ''role '' @ named_TargetName r
                    else named_TargetName r)
      in if src_EntityType (named_Source r) = resourceTypeInstanceArea
         then verb @ '' on '' @ named_EntityName r @ '' for '' @ target
         else verb @ '' on '' @ src_EntityType (named_Source r) @ '' '' @ named_EntityName r @ '' for '' @ target)"

definition sentence :: "NamedSource \<Rightarrow> string" where
  "sentence r =
     (let allowed = (src_State (named_Source r) = StateAllow);
          kind = src_Kind (named_Source r)
      in if kind = SourceOwner then ''Owner of '' @ named_EntityName r
         else if kind = SourceInstanceOwner then ''Only the instance Owner holds this unless a rule gives it''
         else if kind = SourceMember then memberSentence r allowed
         else if kind = SourceRole then roleSentence r allowed
         else if kind = SourceRule then ruleSentence r allowed
         else if kind = SourceOutsideProject then ''Not allowed: it counts only inside a project''
         else if kind = SourceEveryMember then ''Read by every member''
         else if kind = SourceChannelMember then channelMemberSentence r allowed
         else if kind = SourceNoDeployTo then ''No Deploy to on machine '' @ named_EntityName r
         else if kind = SourceNotOnMachine
         then ''Not found: no rule lets '' @ targetName r @ '' see machine '' @ named_EntityName r
         else if kind = SourceNotInProject
         then (if src_TargetType (named_Source r) = TargetRole
               then ''Not listed on project '' @ named_EntityName r
               else ''Not found: '' @ named_TargetName r @ '' isn't in project '' @ named_EntityName r)
         else [])"

definition named :: "namer \<Rightarrow> Source \<Rightarrow> NamedSource" where
  "named n src =
     (let r = \<lparr>named_Source = src, named_EntityName = name_of n (src_EntityType src) (src_EntityID src),
               named_TargetName = name_of n (src_TargetType src) (src_TargetID src), named_Sentence = []\<rparr>
      in r\<lparr>named_Sentence := sentence r\<rparr>)"

section \<open>Refusals\<close>

record RefusalDetails =
  rd_Action :: action
  rd_Sentence :: string

definition ErrorDetails :: "namer \<Rightarrow> action \<Rightarrow> Source \<Rightarrow> RefusalDetails" where
  "ErrorDetails n a src = \<lparr>rd_Action = a, rd_Sentence = named_Sentence (named n src)\<rparr>"

definition refusal_err :: "namer \<Rightarrow> action \<Rightarrow> Source \<Rightarrow> err" where
  "refusal_err n a src =
     Err [ErrForbidden]
       (sentinel_text ErrForbidden @ '': '' @ a @ '' required ('' @ named_Sentence (named n src) @ '')'') None"

lemma refusal_err_is [simp]: "errors_is (refusal_err n a src) k \<longleftrightarrow> k = ErrForbidden"
  by (simp add: refusal_err_def errors_is_def)

lemma named_source [simp]: "named_Source (named n src) = src"
  by (simp add: named_def Let_def)

end
