(* ===== verification/Access_Service.thy ===== *)
theory Access_Service
  imports Access_Sentence
begin

text \<open>
  The access service (\<^verbatim>\<open>internal/access/usecase.go\<close>, \<^verbatim>\<open>gate.go\<close>, \<^verbatim>\<open>repo.go\<close> and the reads of
  \<^verbatim>\<open>memo.go\<close>): the interfaces it is wired with, the layers it reads for a check, and the checks
  themselves, single and batched.  A service value is the Go struct: each interface is a record of its
  methods at one storage snapshot, an interface field that may be nil is an option, and a method that may
  fail returns a result.  Every read goes through the request's memo in the code; \<open>Access_Memo\<close> shows that
  a memo never answers past a commit, so the model calls the read itself.
\<close>

section \<open>Interfaces\<close>

record DocScope =
  ds_WorkspaceID :: string
  ds_ProjectID :: string
  ds_FolderID :: string

definition no_doc_scope :: DocScope where
  "no_doc_scope = \<lparr>ds_WorkspaceID = [], ds_ProjectID = [], ds_FolderID = []\<rparr>"

record StackScope =
  ss_WorkspaceID :: string
  ss_ProjectID :: string
  ss_BaseID :: string
  ss_Machine :: string

definition no_stack_scope :: StackScope where
  "no_stack_scope = \<lparr>ss_WorkspaceID = [], ss_ProjectID = [], ss_BaseID = [], ss_Machine = []\<rparr>"

record ChannelScope =
  cs_WorkspaceID :: string
  cs_Private :: bool
  cs_MemberIDs :: "string list"

definition no_channel_scope :: ChannelScope where
  "no_channel_scope = \<lparr>cs_WorkspaceID = [], cs_Private = False, cs_MemberIDs = []\<rparr>"

record GridSetup =
  gs_Finished :: bool
  gs_FinishedBy :: string
  gs_Login :: string
  gs_FinishedAt :: "time option"

record GridRole =
  gr_ID :: string
  gr_Name :: string
  gr_Holders :: nat

record GridProject =
  gp_ID :: string
  gp_Name :: string
  gp_Prefix :: string
  gp_RoleIDs :: "string list"
  gp_UserIDs :: "string list"

record GridChannel =
  gc_ID :: string
  gc_Name :: string
  gc_Kind :: string
  gc_HiddenRoleIDs :: "string list"

record Grid =
  grid_WorkspaceID :: string
  grid_Setup :: GridSetup
  grid_Roles :: "GridRole list"
  grid_Projects :: "GridProject list"
  grid_Channels :: "GridChannel list"

record GridSource = Grid +
  gsrc_MemberIDs :: "string list"
  gsrc_Rules :: "Overwrite list"

record Repo =
  repo_Get :: "string \<Rightarrow> string \<Rightarrow> string \<Rightarrow> Overwrite res"
  repo_GetRole :: "string \<Rightarrow> string \<Rightarrow> string \<Rightarrow> Overwrite res"
  repo_Rules :: "string \<Rightarrow> string list \<Rightarrow> string \<Rightarrow> Rules gomap res"
  repo_RulesOfType :: "string \<Rightarrow> string \<Rightarrow> Rules gomap res"
  repo_DocRules :: "string list \<Rightarrow> string \<Rightarrow> DocRules gomap res"
  repo_DocRuleTurns :: "string \<Rightarrow> action \<Rightarrow> string list \<Rightarrow> string list \<Rightarrow> DocReach res"
  repo_StackRuleTurns :: "string \<Rightarrow> action \<Rightarrow> string list \<Rightarrow> string list \<Rightarrow> (string list \<times> string list) res"
  repo_OwnRules :: "string \<Rightarrow> string list \<Rightarrow> Overwrite gomap res"
  repo_RoleRules :: "string \<Rightarrow> string list \<Rightarrow> string list \<Rightarrow> (Overwrite list) gomap res"
  repo_ListByResource :: "string \<Rightarrow> string \<Rightarrow> Overwrite list res"
  repo_HasAllowAny :: "string \<Rightarrow> string \<Rightarrow> action \<Rightarrow> bool res"
  repo_Grid :: "string \<Rightarrow> GridSource res"

record RoleWorkspaceResolver =
  rw_WorkspaceIDForRole :: "string \<Rightarrow> string res"
  rw_HeldRole :: "string \<Rightarrow> HeldRole res"

record DocWorkspaceResolver =
  dw_DocScopes :: "string list \<Rightarrow> DocScope gomap res"
  dw_FolderScope :: "string \<Rightarrow> DocScope res"

record Scopes =
  sc_WorkspaceIDForProject :: "string \<Rightarrow> string res"
  sc_ProjectIDs :: "string \<Rightarrow> string list res"
  sc_WorkspaceIDsForUser :: "string \<Rightarrow> string list res"

record Computers =
  cp_ComputerAccess :: "string \<Rightarrow> string \<Rightarrow> (string \<times> pset) res"
  cp_SharesWithOwner :: "string \<Rightarrow> string \<Rightarrow> bool res"

record MachineScopes =
  ms_MachineIDs :: "string list res"
  ms_MachineIDByName :: "string \<Rightarrow> string res"

record Service =
  svc_repo :: Repo
  svc_users :: "User list res"
  svc_roles :: "(string \<Rightarrow> string \<Rightarrow> RoleInfo res) option"
  svc_roleWorkspace :: "RoleWorkspaceResolver option"
  svc_docWorkspace :: "DocWorkspaceResolver option"
  svc_playWorkspace :: "(string \<Rightarrow> string res) option"
  svc_channels :: "(string \<Rightarrow> ChannelScope res) option"
  svc_stacks :: "(string \<Rightarrow> StackScope res) option"
  svc_scopes :: "Scopes option"
  svc_names :: "Names option"
  svc_ownerWorkspace :: string
  svc_connectorAreas :: "InstanceArea list"
  svc_computers :: "Computers option"
  svc_machines :: "MachineScopes option"

definition NewService :: "Repo \<Rightarrow> User list res \<Rightarrow> Service" where
  "NewService repo users =
     \<lparr>svc_repo = repo, svc_users = users, svc_roles = None, svc_roleWorkspace = None,
      svc_docWorkspace = None, svc_playWorkspace = None, svc_channels = None, svc_stacks = None,
      svc_scopes = None, svc_names = None, svc_ownerWorkspace = [], svc_connectorAreas = [],
      svc_computers = None, svc_machines = None\<rparr>"

text \<open>The wiring of the resolvers the other domains provide.\<close>

definition SetRoles :: "Service \<Rightarrow> (string \<Rightarrow> string \<Rightarrow> RoleInfo res) \<Rightarrow> Service" where
  "SetRoles s r = s\<lparr>svc_roles := Some r\<rparr>"

definition SetRoleWorkspaces :: "Service \<Rightarrow> RoleWorkspaceResolver \<Rightarrow> Service" where
  "SetRoleWorkspaces s r = s\<lparr>svc_roleWorkspace := Some r\<rparr>"

definition SetDocWorkspaces :: "Service \<Rightarrow> DocWorkspaceResolver \<Rightarrow> Service" where
  "SetDocWorkspaces s r = s\<lparr>svc_docWorkspace := Some r\<rparr>"

definition SetPlayWorkspaces :: "Service \<Rightarrow> (string \<Rightarrow> string res) \<Rightarrow> Service" where
  "SetPlayWorkspaces s r = s\<lparr>svc_playWorkspace := Some r\<rparr>"

definition SetChannelWorkspaces :: "Service \<Rightarrow> (string \<Rightarrow> ChannelScope res) \<Rightarrow> Service" where
  "SetChannelWorkspaces s r = s\<lparr>svc_channels := Some r\<rparr>"

definition SetStackScopes :: "Service \<Rightarrow> (string \<Rightarrow> StackScope res) \<Rightarrow> Service" where
  "SetStackScopes s r = s\<lparr>svc_stacks := Some r\<rparr>"

definition SetScopes :: "Service \<Rightarrow> Scopes \<Rightarrow> Service" where
  "SetScopes s sc = s\<lparr>svc_scopes := Some sc\<rparr>"

text \<open>What a missing map entry of a struct type reads as: the zero scope.\<close>

definition zero_on_err :: "'a \<Rightarrow> 'a res \<Rightarrow> 'a" where
  "zero_on_err z r = (case r of Inl _ \<Rightarrow> z | Inr x \<Rightarrow> x)"

definition scope_at :: "DocScope gomap \<Rightarrow> string \<Rightarrow> DocScope" where
  "scope_at m i = (case map_of m i of None \<Rightarrow> no_doc_scope | Some sc \<Rightarrow> sc)"

definition service_namer :: "Service \<Rightarrow> namer" where
  "service_namer s = \<lparr>namer_names = svc_names s, namer_areas = InstanceAreas @ svc_connectorAreas s\<rparr>"

definition refusal :: "Service \<Rightarrow> action \<Rightarrow> Source \<Rightarrow> err" where
  "refusal s a src = refusal_err (service_namer s) a src"

section \<open>The caller\<close>

definition caller :: "ctx \<Rightarrow> string \<times> bool" where
  "caller c =
     (case ActorFromCtx c of
        None \<Rightarrow> ([], False)
      | Some actor \<Rightarrow>
          if actor_ID actor = [] \<and> actor_Automation actor \<noteq> None then ([], False)
          else (actor_ID actor, True))"

definition viewedWorkspace :: "ctx \<Rightarrow> string option" where
  "viewedWorkspace c =
     (case ActorFromCtx c of
        None \<Rightarrow> None
      | Some actor \<Rightarrow> map_option viewer_WorkspaceID (actor_Viewer actor))"

definition defaultAutomationWorkspace :: "ctx \<Rightarrow> string" where
  "defaultAutomationWorkspace c =
     (case ActorFromCtx c of
        None \<Rightarrow> []
      | Some actor \<Rightarrow>
          if actor_ID actor \<noteq> [] then []
          else (case actor_Automation actor of None \<Rightarrow> [] | Some au \<Rightarrow> automation_WorkspaceID au))"

definition defaultAutomationInside :: "ctx \<Rightarrow> string \<Rightarrow> unit res" where
  "defaultAutomationInside c workspaceID =
     (let home = defaultAutomationWorkspace c
      in if home = [] \<or> home = workspaceID then Inr ()
         else Inl (errorf ErrNotFound (''workspace '' @ workspaceID)))"

section \<open>Reads\<close>

text \<open>A view-as request is held to its one workspace.\<close>

definition memberRole ::
  "Service \<Rightarrow> (string \<Rightarrow> string \<Rightarrow> RoleInfo res) \<Rightarrow> ctx \<Rightarrow> string \<Rightarrow> string \<Rightarrow> RoleInfo res" where
  "memberRole s roles c workspaceID userID =
     (case viewedWorkspace c of
        Some pinned \<Rightarrow>
          if workspaceID \<noteq> pinned then Inl (errorf ErrNotFound (''workspace '' @ workspaceID))
          else roles workspaceID userID
      | None \<Rightarrow> roles workspaceID userID)"

definition layerRules ::
  "Service \<Rightarrow> string \<Rightarrow> string \<Rightarrow> string list \<Rightarrow> string list \<Rightarrow> Rules gomap res" where
  "layerRules s userID workspaceID held projectIDs =
     (if projectIDs = [] then Inr []
      else bindr (map_errr (wrapf (''rules of '' @ userID @ '' in workspace '' @ workspaceID))
                    (repo_OwnRules (svc_repo s) userID projectIDs)) (\<lambda>own.
           bindr (map_errr (wrapf (''rules for the roles of '' @ userID @ '' in workspace '' @ workspaceID))
                    (if held = [] then Inr []
                     else repo_RoleRules (svc_repo s) resourceTypeProject projectIDs held)) (\<lambda>roles.
           Inr (map (\<lambda>i. (i, \<lparr>rules_Person = map_of own i,
                               rules_Roles = (case map_of roles i of None \<Rightarrow> [] | Some rs \<Rightarrow> rs)\<rparr>))
                  (filter (\<lambda>i. map_of own i \<noteq> None \<or>
                               (case map_of roles i of None \<Rightarrow> [] | Some rs \<Rightarrow> rs) \<noteq> []) projectIDs)))))"

definition roleIDsIn :: "Service \<Rightarrow> ctx \<Rightarrow> string \<Rightarrow> string \<Rightarrow> string list" where
  "roleIDsIn s c userID workspaceID =
     (case svc_roles s of
        None \<Rightarrow> []
      | Some roles \<Rightarrow>
          (case memberRole s roles c workspaceID userID of Inl _ \<Rightarrow> [] | Inr info \<Rightarrow> roleIDs info))"

definition rulesOn :: "Service \<Rightarrow> string \<Rightarrow> string list \<Rightarrow> string \<Rightarrow> Rules gomap res" where
  "rulesOn s resourceType resourceIDs userID = repo_Rules (svc_repo s) resourceType resourceIDs userID"

definition svc_rules :: "Service \<Rightarrow> string \<Rightarrow> string \<Rightarrow> string \<Rightarrow> Rules option" where
  "svc_rules s resourceType resourceID userID =
     (case rulesOn s resourceType [resourceID] userID of
        Inl _ \<Rightarrow> None
      | Inr got \<Rightarrow> map_of got resourceID)"

definition docRules :: "Service \<Rightarrow> string list \<Rightarrow> string \<Rightarrow> DocRules gomap" where
  "docRules s docIDs userID =
     (case repo_DocRules (svc_repo s) docIDs userID of Inl _ \<Rightarrow> [] | Inr own \<Rightarrow> own)"

definition readLayers ::
  "Service \<Rightarrow> ctx \<Rightarrow> string \<Rightarrow> string \<Rightarrow> string \<Rightarrow> workspaceLayers \<times> err option" where
  "readLayers s c userID workspaceID projectID =
     (if workspaceID = [] then (bare_layers userID workspaceID projectID, None)
      else
        let member = (case svc_roles s of
                        None \<Rightarrow> None
                      | Some roles \<Rightarrow> Some (memberRole s roles c workspaceID userID));
            ws = (case member of
                    Some (Inr info) \<Rightarrow>
                      (bare_layers userID workspaceID projectID)
                        \<lparr>ws_member := True, ws_owner := ri_IsOwnerRole info, ws_roles := info\<rparr>
                  | _ \<Rightarrow> bare_layers userID workspaceID projectID);
            failed = (case member of
                        Some (Inl e) \<Rightarrow> if errors_is e ErrNotFound then None else Some e
                      | _ \<Rightarrow> None)
        in (case layerRules s userID workspaceID (roleIDs (ws_roles ws))
                   (if projectID = [] then [] else [projectID]) of
              Inl e \<Rightarrow> (layers_in ws projectID None, Some e)
            | Inr projects \<Rightarrow> (layers_in ws projectID (map_of projects projectID), failed)))"

definition layers :: "Service \<Rightarrow> ctx \<Rightarrow> string \<Rightarrow> string \<Rightarrow> string \<Rightarrow> workspaceLayers" where
  "layers s c userID workspaceID projectID =
     (case viewedWorkspace c of
        Some pinned \<Rightarrow>
          if workspaceID \<noteq> pinned then layers_in (bare_layers userID workspaceID []) projectID None
          else fst (readLayers s c userID workspaceID projectID)
      | None \<Rightarrow> fst (readLayers s c userID workspaceID projectID))"

definition standing :: "Service \<Rightarrow> ctx \<Rightarrow> string \<Rightarrow> string \<Rightarrow> RoleInfo res" where
  "standing s c userID workspaceID =
     (case svc_roles s of
        None \<Rightarrow> Inr no_roles
      | Some roles \<Rightarrow>
          (case memberRole s roles c workspaceID userID of
             Inl e \<Rightarrow> if errors_is e ErrNotFound then Inr no_roles
                      else Inl (wrapf (''membership of '' @ userID @ '' in workspace '' @ workspaceID) e)
           | Inr info \<Rightarrow> Inr info))"

definition projectWorkspace :: "Service \<Rightarrow> string \<Rightarrow> string res" where
  "projectWorkspace s projectID =
     (case svc_scopes s of
        None \<Rightarrow> Inl (errorf ErrForbidden ''no project lookup wired'')
      | Some sc \<Rightarrow>
          (case sc_WorkspaceIDForProject sc projectID of
             Inl e \<Rightarrow> if errors_is e ErrNotFound then Inl (errorf ErrNotFound (''project '' @ projectID))
                      else Inl (wrapf (''resolve workspace of project '' @ projectID) e)
           | Inr w \<Rightarrow> Inr w))"

definition docScopes :: "Service \<Rightarrow> string list \<Rightarrow> DocScope gomap" where
  "docScopes s docIDs =
     (case svc_docWorkspace s of
        None \<Rightarrow> []
      | Some dw \<Rightarrow> (case dw_DocScopes dw docIDs of Inl _ \<Rightarrow> [] | Inr scopes \<Rightarrow> scopes))"

definition docScopesIn :: "Service \<Rightarrow> string \<Rightarrow> string list \<Rightarrow> DocScope gomap" where
  "docScopesIn s projectID docIDs =
     (if projectID = [] then docScopes s docIDs
      else let scope = (case projectWorkspace s projectID of
                          Inl _ \<Rightarrow> no_doc_scope
                        | Inr w \<Rightarrow> \<lparr>ds_WorkspaceID = w, ds_ProjectID = projectID, ds_FolderID = []\<rparr>)
           in map (\<lambda>i. (i, scope)) docIDs)"

definition resolveDoc :: "Service \<Rightarrow> string \<Rightarrow> string \<times> string" where
  "resolveDoc s docID =
     (let scope = scope_at (docScopes s [docID]) docID in (ds_WorkspaceID scope, ds_ProjectID scope))"

definition folderScope :: "Service \<Rightarrow> string \<Rightarrow> DocScope" where
  "folderScope s folderID =
     (case svc_docWorkspace s of
        None \<Rightarrow> no_doc_scope
      | Some dw \<Rightarrow> zero_on_err no_doc_scope (dw_FolderScope dw folderID))"

definition stackScopeOf :: "Service \<Rightarrow> string \<Rightarrow> StackScope res" where
  "stackScopeOf s stackID =
     (case svc_stacks s of
        None \<Rightarrow> Inl (errorf ErrNotFound (''stack '' @ stackID))
      | Some stacks \<Rightarrow>
          (case stacks stackID of
             Inl e \<Rightarrow> if errors_is e ErrNotFound then Inl (errorf ErrNotFound (''stack '' @ stackID))
                      else Inl (wrapf (''resolve stack '' @ stackID) e)
           | Inr scope \<Rightarrow> Inr scope))"

definition stackScope :: "Service \<Rightarrow> string \<Rightarrow> StackScope" where
  "stackScope s stackID = zero_on_err no_stack_scope (stackScopeOf s stackID)"

definition resolvePlayWorkspace :: "Service \<Rightarrow> string \<Rightarrow> string" where
  "resolvePlayWorkspace s playID =
     (case svc_playWorkspace s of None \<Rightarrow> [] | Some plays \<Rightarrow> zero_on_err [] (plays playID))"

definition channelScope :: "Service \<Rightarrow> string \<Rightarrow> ChannelScope res" where
  "channelScope s channelID =
     (case svc_channels s of
        None \<Rightarrow> Inl (errorf ErrNotFound ''no channel lookup wired'')
      | Some channels \<Rightarrow> channels channelID)"

text \<open>The workspaces of a person; a view-as request sees the viewed one alone.\<close>

definition memberWorkspaces :: "Service \<Rightarrow> Scopes \<Rightarrow> ctx \<Rightarrow> string \<Rightarrow> string list res" where
  "memberWorkspaces s sc c userID =
     (case sc_WorkspaceIDsForUser sc userID of
        Inl e \<Rightarrow> Inl (wrapf (''list workspaces of '' @ userID) e)
      | Inr workspaceIDs \<Rightarrow>
          (case viewedWorkspace c of
             None \<Rightarrow> Inr workspaceIDs
           | Some pinned \<Rightarrow> Inr (filter (\<lambda>i. \<not> i \<noteq> pinned) workspaceIDs)))"

definition workspacesOf :: "Service \<Rightarrow> ctx \<Rightarrow> string \<Rightarrow> string list res" where
  "workspacesOf s c userID =
     (case svc_scopes s of
        None \<Rightarrow> Inr []
      | Some sc \<Rightarrow> if userID = [] then Inr [] else memberWorkspaces s sc c userID)"

definition projectIDsOf :: "Service \<Rightarrow> Scopes \<Rightarrow> string \<Rightarrow> string list res" where
  "projectIDsOf s sc workspaceID =
     map_errr (wrapf (''list projects of workspace '' @ workspaceID)) (sc_ProjectIDs sc workspaceID)"

section \<open>Checks\<close>

definition chain_of :: "Service \<Rightarrow> string \<Rightarrow> string \<Rightarrow> string \<Rightarrow> Rules option list" where
  "chain_of s resourceType resourceID userID =
     (if resourceType = [] \<or> resourceType = resourceTypeProject \<or> resourceID = [] then []
      else if resourceType = resourceTypeDoc
      then doc_chain (map_of (docRules s [resourceID] userID) resourceID)
      else [svc_rules s resourceType resourceID userID])"

definition channelRead ::
  "Service \<Rightarrow> ctx \<Rightarrow> string \<Rightarrow> string \<Rightarrow> string \<Rightarrow> bool \<Rightarrow> bool \<times> Source" where
  "channelRead s c userID workspaceID channelID own =
     (let ws = layers s c userID workspaceID []
      in if ws_owner ws \<or> \<not> ws_member ws then decide ws ChannelsRead noRules
         else
           let refused = (False, sourceOf SourceChannelMember resourceTypeChannel channelID TargetPerson userID False)
           in (case channelScope s channelID of
                 Inl _ \<Rightarrow> refused
               | Inr scope \<Rightarrow>
                   if cs_Private scope \<and> userID \<notin> set (cs_MemberIDs scope) then refused
                   else
                     let src = sourceOf SourceEveryMember resourceTypeChannel channelID TargetPerson userID True;
                         src = (if cs_Private scope then src\<lparr>src_Kind := SourceChannelMember\<rparr> else src);
                         rules = svc_rules s resourceTypeChannel channelID userID;
                         rules = (if own then rules else personAtFallback rules ChannelsRead)
                     in applyRules True src rules (roleIDs (ws_roles ws)) ChannelsRead))"

definition check ::
  "Service \<Rightarrow> ctx \<Rightarrow> string \<Rightarrow> string \<Rightarrow> string \<Rightarrow> action \<Rightarrow> string \<Rightarrow> string \<Rightarrow> bool \<times> Source" where
  "check s c userID workspaceID projectID a resourceType resourceID =
     (if resourceType = resourceTypeChannel \<and> a = ChannelsRead
      then channelRead s c userID workspaceID resourceID True
      else decide (layers s c userID workspaceID projectID) a (chain_of s resourceType resourceID userID))"

definition HasPermission :: "Service \<Rightarrow> ctx \<Rightarrow> string \<Rightarrow> string \<Rightarrow> action \<Rightarrow> string \<Rightarrow> string \<Rightarrow> bool" where
  "HasPermission s c userID workspaceID a resourceType resourceID =
     (if userID = [] then False
      else
        let projectID =
          (if resourceType = resourceTypeProject then resourceID
           else if resourceType = resourceTypeDoc then snd (resolveDoc s resourceID)
           else if resourceType = resourceTypeFolder then ds_ProjectID (folderScope s resourceID)
           else if resourceType = resourceTypeStack then ss_ProjectID (stackScope s resourceID)
           else [])
        in fst (check s c userID workspaceID projectID a resourceType resourceID))"

definition WorkspacePermissions :: "Service \<Rightarrow> ctx \<Rightarrow> string \<Rightarrow> string \<Rightarrow> string list" where
  "WorkspacePermissions s c userID workspaceID =
     (if userID = [] then [] else layer_actions (layers s c userID workspaceID []) True)"

definition ProjectPermissions :: "Service \<Rightarrow> ctx \<Rightarrow> string \<Rightarrow> string \<Rightarrow> string list \<times> bool" where
  "ProjectPermissions s c userID projectID =
     (if userID = [] then ([], False)
      else (case projectWorkspace s projectID of
              Inl _ \<Rightarrow> ([], False)
            | Inr workspaceID \<Rightarrow>
                let ws = layers s c userID workspaceID projectID
                in if \<not> ws_member ws \<or> hidden ws then ([], False) else (layer_actions ws False, True)))"

definition CanInProject :: "Service \<Rightarrow> ctx \<Rightarrow> string \<Rightarrow> string \<Rightarrow> action \<Rightarrow> bool" where
  "CanInProject s c userID projectID a =
     (if userID = [] then False
      else (case projectWorkspace s projectID of
              Inl _ \<Rightarrow> False
            | Inr workspaceID \<Rightarrow> fst (check s c userID workspaceID projectID a [] [])))"

definition CanStack :: "Service \<Rightarrow> ctx \<Rightarrow> string \<Rightarrow> string \<Rightarrow> action \<Rightarrow> bool" where
  "CanStack s c userID stackID a =
     (case stackScopeOf s stackID of
        Inl _ \<Rightarrow> False
      | Inr scope \<Rightarrow>
          if ss_WorkspaceID scope = [] then False
          else let ruleID = (if ss_BaseID scope \<noteq> [] then ss_BaseID scope else stackID)
               in HasPermission s c userID (ss_WorkspaceID scope) a resourceTypeStack ruleID)"

definition CanDocs :: "Service \<Rightarrow> ctx \<Rightarrow> string \<Rightarrow> string \<Rightarrow> string list \<Rightarrow> action \<Rightarrow> bool gomap" where
  "CanDocs s c userID projectID docIDs a =
     (if userID = [] \<or> docIDs = [] then []
      else let scopes = docScopesIn s projectID docIDs;
               own = docRules s docIDs userID
           in map (\<lambda>i. (i, let scope = scope_at scopes i
                           in fst (decide (layers s c userID (ds_WorkspaceID scope) (ds_ProjectID scope)) a
                                (doc_chain (map_of own i))))) docIDs)"

text \<open>A missing map entry of a bool map reads as false.\<close>

definition at_bool :: "bool gomap \<Rightarrow> string \<Rightarrow> bool" where
  "at_bool m i = (case map_of m i of None \<Rightarrow> False | Some b \<Rightarrow> b)"

definition Can :: "Service \<Rightarrow> ctx \<Rightarrow> string \<Rightarrow> string \<Rightarrow> action \<Rightarrow> bool" where
  "Can s c userID docID a = at_bool (CanDocs s c userID [] [docID] a) docID"

section \<open>Lists of projects\<close>

definition ProjectsWith :: "Service \<Rightarrow> ctx \<Rightarrow> string \<Rightarrow> string \<Rightarrow> action \<Rightarrow> string list res" where
  "ProjectsWith s c userID workspaceID a =
     (case svc_scopes s of
        None \<Rightarrow> Inr []
      | Some sc \<Rightarrow>
          if userID = [] then Inr []
          else bindr (projectIDsOf s sc workspaceID) (\<lambda>projectIDs.
               bindr (layerRules s userID workspaceID (roleIDsIn s c userID workspaceID) projectIDs) (\<lambda>projects.
               let ws = layers s c userID workspaceID []
               in Inr (filter (\<lambda>p. fst (decide (layers_in ws p (map_of projects p)) a noRules)) projectIDs))))"

definition ProjectActions :: "Service \<Rightarrow> ctx \<Rightarrow> string \<Rightarrow> string \<Rightarrow> ProjectHeld list res" where
  "ProjectActions s c userID workspaceID =
     (case svc_scopes s of
        None \<Rightarrow> Inr []
      | Some sc \<Rightarrow>
          if userID = [] then Inr []
          else bindr (projectIDsOf s sc workspaceID) (\<lambda>projectIDs.
               bindr (layerRules s userID workspaceID (roleIDsIn s c userID workspaceID) projectIDs) (\<lambda>projects.
               let ws = layers s c userID workspaceID [];
                   inside = (\<lambda>p. layers_in ws p (map_of projects p))
               in Inr (map (\<lambda>p. \<lparr>ph_ProjectID = p, ph_Actions = projectActions_held (inside p)\<rparr>)
                    (filter (\<lambda>p. \<not> (\<not> ws_member (inside p) \<or> hidden (inside p))) projectIDs)))))"

definition ProjectsAnywhere :: "Service \<Rightarrow> ctx \<Rightarrow> string \<Rightarrow> action \<Rightarrow> (string list \<times> string list) res" where
  "ProjectsAnywhere s c userID a =
     (case svc_scopes s of
        None \<Rightarrow> Inr ([], [])
      | Some sc \<Rightarrow>
          if userID = [] then Inr ([], [])
          else bindr (memberWorkspaces s sc c userID) (\<lambda>workspaceIDs.
               bindr (mapr (\<lambda>w. ProjectsWith s c userID w a) workspaceIDs) (\<lambda>idss.
               Inr (workspaceIDs, concat idss))))"

definition CallerProjects :: "Service \<Rightarrow> ctx \<Rightarrow> action \<Rightarrow> (string list \<times> bool) res" where
  "CallerProjects s c a =
     (let (userID, checked) = caller c
      in if checked then bindr (ProjectsAnywhere s c userID a) (\<lambda>(_, projectIDs). Inr (projectIDs, False))
         else
           let home = defaultAutomationWorkspace c
           in if home = [] then Inr ([], True)
              else (case svc_scopes s of
                      None \<Rightarrow> Inr ([], False)
                    | Some sc \<Rightarrow> bindr (projectIDsOf s sc home) (\<lambda>projectIDs. Inr (projectIDs, False))))"

definition CallerProjectsIn :: "Service \<Rightarrow> ctx \<Rightarrow> string \<Rightarrow> action \<Rightarrow> (string list \<times> bool) res" where
  "CallerProjectsIn s c workspaceID a =
     (let (userID, checked) = caller c
      in if checked then bindr (ProjectsWith s c userID workspaceID a) (\<lambda>projectIDs. Inr (projectIDs, False))
         else (case defaultAutomationInside c workspaceID of
                 Inl _ \<Rightarrow> Inr ([], False)
               | Inr _ \<Rightarrow> Inr ([], True)))"

definition callerProjectsIn :: "Service \<Rightarrow> ctx \<Rightarrow> string \<Rightarrow> action \<Rightarrow> (string list \<times> bool) res" where
  "callerProjectsIn s c workspaceID a =
     (if workspaceID = [] then CallerProjects s c a else CallerProjectsIn s c workspaceID a)"

definition WorkspacesWith :: "Service \<Rightarrow> ctx \<Rightarrow> action \<Rightarrow> string list res" where
  "WorkspacesWith s c a =
     (let (userID, checked) = caller c
      in if \<not> checked then Inr []
         else bindr (workspacesOf s c userID) (\<lambda>workspaceIDs.
              Inr (filter (\<lambda>w. HasPermission s c userID w a [] []) workspaceIDs)))"

definition ruledProjects :: "Service \<Rightarrow> ctx \<Rightarrow> string \<Rightarrow> string list \<Rightarrow> string list res" where
  "ruledProjects s c userID workspaceIDs =
     bindr (mapr (\<lambda>w. bindr (standing s c userID w) (\<lambda>info.
              if ri_IsOwnerRole info then Inr [] else ProjectsWith s c userID w Member)) workspaceIDs)
       (\<lambda>idss. Inr (concat idss))"

definition DocsWith :: "Service \<Rightarrow> ctx \<Rightarrow> string \<Rightarrow> string \<Rightarrow> action \<Rightarrow> DocReach res" where
  "DocsWith s c userID projectID a =
     bindr (ProjectsAnywhere s c userID a) (\<lambda>(workspaceIDs, projectIDs).
     bindr (ruledProjects s c userID workspaceIDs) (\<lambda>ruled.
     let ruled = (if projectID \<noteq> [] then filter (\<lambda>i. \<not> i \<noteq> projectID) ruled else ruled)
     in if ruled = []
        then Inr \<lparr>dr_ProjectIDs = projectIDs, dr_AllowedFolders = [], dr_DeniedFolders = [],
                  dr_Allowed = [], dr_Denied = []\<rparr>
        else bindr (map_errr (wrapf (''doc rules of '' @ userID))
                      (repo_DocRuleTurns (svc_repo s) userID a ruled projectIDs)) (\<lambda>reach.
             Inr (reach\<lparr>dr_ProjectIDs := projectIDs\<rparr>))))"

definition CallerStacks :: "Service \<Rightarrow> ctx \<Rightarrow> string \<Rightarrow> action \<Rightarrow> (StackReach \<times> bool) res" where
  "CallerStacks s c workspaceID a =
     (let (userID, checked) = caller c
      in if \<not> checked
         then bindr (callerProjectsIn s c workspaceID a) (\<lambda>(projectIDs, everything).
              Inr (\<lparr>sr_ProjectIDs = projectIDs, sr_Allowed = [], sr_Denied = []\<rparr>, everything))
         else bindr (if workspaceID = [] then workspacesOf s c userID else Inr [workspaceID]) (\<lambda>workspaceIDs.
              bindr (mapr (\<lambda>w. ProjectsWith s c userID w a) workspaceIDs) (\<lambda>idss.
              bindr (ruledProjects s c userID workspaceIDs) (\<lambda>ruled.
              if ruled = []
              then Inr (\<lparr>sr_ProjectIDs = concat idss, sr_Allowed = [], sr_Denied = []\<rparr>, False)
              else bindr (map_errr (wrapf (''stack rules of '' @ userID))
                            (repo_StackRuleTurns (svc_repo s) userID a ruled (concat idss))) (\<lambda>(al, de).
                   Inr (\<lparr>sr_ProjectIDs = concat idss, sr_Allowed = al, sr_Denied = de\<rparr>, False))))))"

section \<open>Gates\<close>

definition require :: "Service \<Rightarrow> ctx \<Rightarrow> string \<Rightarrow> string \<Rightarrow> action \<Rightarrow> unit res" where
  "require s c workspaceID projectID a =
     (let (userID, checked) = caller c
      in if \<not> checked then defaultAutomationInside c workspaceID
         else
           let ws = layers s c userID workspaceID projectID
           in if hidden ws then Inl (sentinel_err ErrNotFound)
              else
                let (allowed, src) = decide ws a noRules
                in if userID \<noteq> [] \<and> allowed then Inr ()
                   else if \<not> ws_member ws then Inl (errorf ErrNotFound (''workspace '' @ workspaceID))
                   else Inl (refusal s a src))"

definition Require :: "Service \<Rightarrow> ctx \<Rightarrow> string \<Rightarrow> action \<Rightarrow> unit res" where
  "Require s c workspaceID a = require s c workspaceID [] a"

definition RequireProject :: "Service \<Rightarrow> ctx \<Rightarrow> string \<Rightarrow> action \<Rightarrow> unit res" where
  "RequireProject s c projectID a =
     (if \<not> snd (caller c) \<and> defaultAutomationWorkspace c = [] then Inr ()
      else bindr (projectWorkspace s projectID) (\<lambda>workspaceID. require s c workspaceID projectID a))"

definition RequireStack :: "Service \<Rightarrow> ctx \<Rightarrow> string \<Rightarrow> string \<Rightarrow> action \<Rightarrow> unit res" where
  "RequireStack s c projectID stackID a =
     (let (userID, checked) = caller c
      in if \<not> checked then RequireProject s c projectID a
         else bindr (projectWorkspace s projectID) (\<lambda>workspaceID.
              let ws = layers s c userID workspaceID projectID;
                  unseen = errorf ErrNotFound (''stack '' @ stackID)
              in if \<not> ws_member ws \<or> hidden ws then Inl unseen
                 else
                   let rules = [svc_rules s resourceTypeStack stackID userID];
                       (reads, readSource) = decide ws StacksRead rules
                   in if \<not> reads \<and> src_Kind readSource = SourceRule then Inl unseen
                      else
                        let (held, src) = decide ws a rules
                        in if held then Inr ()
                           else if \<not> reads then Inl unseen
                           else Inl (refusal s a src)))"

definition ChannelPost :: "Service \<Rightarrow> ctx \<Rightarrow> string \<Rightarrow> string \<Rightarrow> string \<Rightarrow> unit res" where
  "ChannelPost s c userID workspaceID channelID =
     (let (held, src) = check s c userID workspaceID [] ChannelsPost resourceTypeChannel channelID
      in if held then Inr () else Inl (refusal s ChannelsPost src))"

definition IsOwner :: "Service \<Rightarrow> ctx \<Rightarrow> string \<Rightarrow> string \<Rightarrow> bool res" where
  "IsOwner s c userID workspaceID =
     bindr (standing s c userID workspaceID) (\<lambda>info. Inr (ri_IsOwnerRole info))"

fun HoldsRole_loop :: "Service \<Rightarrow> ctx \<Rightarrow> string \<Rightarrow> string \<Rightarrow> string list \<Rightarrow> bool res" where
  "HoldsRole_loop s c userID roleID [] = Inr False"
| "HoldsRole_loop s c userID roleID (w # ws) =
     bindr (standing s c userID w) (\<lambda>info.
     if roleID \<in> set (roleIDs info) then Inr True else HoldsRole_loop s c userID roleID ws)"

definition HoldsRole :: "Service \<Rightarrow> ctx \<Rightarrow> string \<Rightarrow> string \<Rightarrow> bool res" where
  "HoldsRole s c userID roleID =
     (case svc_scopes s of
        None \<Rightarrow> Inr False
      | Some sc \<Rightarrow>
          if userID = [] \<or> roleID = [] then Inr False
          else bindr (memberWorkspaces s sc c userID) (\<lambda>ws. HoldsRole_loop s c userID roleID ws))"

definition channelRules :: "Service \<Rightarrow> string \<Rightarrow> string list \<Rightarrow> Rules gomap res" where
  "channelRules s userID channelIDs =
     (if length channelIDs = 1 then rulesOn s resourceTypeChannel channelIDs userID
      else repo_RulesOfType (svc_repo s) resourceTypeChannel userID)"

text \<open>The result is the set of denied channels: the keys the Go map carries, all with value true.\<close>

definition ChannelsDenied :: "Service \<Rightarrow> ctx \<Rightarrow> string \<Rightarrow> string \<Rightarrow> string list \<Rightarrow> string list res" where
  "ChannelsDenied s c userID workspaceID channelIDs =
     bindr (standing s c userID workspaceID) (\<lambda>info.
     if ri_IsOwnerRole info then Inr []
     else bindr (map_errr (wrapf (''channel rules of '' @ userID)) (channelRules s userID channelIDs)) (\<lambda>rules.
          Inr (filter (\<lambda>i. \<not> fst (applyRules True no_source (map_of rules i) (roleIDs info) ChannelsRead))
                 channelIDs)))"

definition playRules :: "Service \<Rightarrow> string \<Rightarrow> string list \<Rightarrow> Rules gomap" where
  "playRules s userID playIDs =
     zero_on_err []
       (if length playIDs > 1 then repo_RulesOfType (svc_repo s) resourceTypePlay userID
        else rulesOn s resourceTypePlay playIDs userID)"

definition PlaysWith :: "Service \<Rightarrow> ctx \<Rightarrow> string \<Rightarrow> string \<Rightarrow> action \<Rightarrow> string list \<Rightarrow> bool gomap" where
  "PlaysWith s c userID workspaceID a playIDs =
     (if userID = [] \<or> playIDs = [] then []
      else let ws = layers s c userID workspaceID [];
               rules = playRules s userID playIDs
           in map (\<lambda>i. (i, fst (decide ws a [map_of rules i]))) playIDs)"

section \<open>What a check reads\<close>

text \<open>The roles a membership read yields for a person in a workspace; none for a non-member, a failed
  read, a workspace outside the viewed one or no workspace.\<close>

definition member_info :: "Service \<Rightarrow> ctx \<Rightarrow> string \<Rightarrow> string \<Rightarrow> RoleInfo option" where
  "member_info s c u w =
     (if w = [] then None
      else case svc_roles s of
        None \<Rightarrow> None
      | Some roles \<Rightarrow> (case memberRole s roles c w u of Inl _ \<Rightarrow> None | Inr info \<Rightarrow> Some info))"

definition roles_of :: "RoleInfo option \<Rightarrow> RoleInfo" where
  "roles_of m = (case m of None \<Rightarrow> no_roles | Some info \<Rightarrow> info)"

lemma roles_of_simps [simp]: "roles_of None = no_roles" "roles_of (Some info) = info"
  by (simp_all add: roles_of_def)

lemma bare_layers_sel [simp]:
  "ws_userID (bare_layers u w p) = u" "ws_workspaceID (bare_layers u w p) = w"
  "ws_projectID (bare_layers u w p) = p" "ws_roles (bare_layers u w p) = no_roles"
  "\<not> ws_member (bare_layers u w p)" "\<not> ws_owner (bare_layers u w p)"
  "ws_project (bare_layers u w p) = None" "\<not> ws_listed (bare_layers u w p)"
  by (simp_all add: bare_layers_def)

lemma ri_owner_no_roles [simp]: "\<not> ri_IsOwnerRole no_roles" "ri_Permissions no_roles = []"
  by (simp_all add: no_roles_def)

lemma readLayers_sel:
  "ws_userID (fst (readLayers s c u w p)) = u \<and> ws_workspaceID (fst (readLayers s c u w p)) = w \<and>
   ws_projectID (fst (readLayers s c u w p)) = p \<and>
   (ws_member (fst (readLayers s c u w p)) \<longleftrightarrow> member_info s c u w \<noteq> None) \<and>
   ws_roles (fst (readLayers s c u w p)) = roles_of (member_info s c u w) \<and>
   (ws_owner (fst (readLayers s c u w p)) \<longleftrightarrow> ri_IsOwnerRole (roles_of (member_info s c u w)))"
proof (cases "w = []")
  case False
  show ?thesis
  proof (cases "svc_roles s")
    case None
    with False show ?thesis by (simp add: readLayers_def member_info_def Let_def split: sum.splits)
  next
    case (Some roles)
    with False show ?thesis
      by (cases "memberRole s roles c w u") (simp_all add: readLayers_def member_info_def Let_def split: sum.splits)
  qed
qed (simp add: readLayers_def member_info_def)

lemma member_info_viewed:
  "viewedWorkspace c = Some pinned \<Longrightarrow> w \<noteq> pinned \<Longrightarrow> member_info s c u w = None"
  by (auto simp: member_info_def memberRole_def split: option.splits)

lemma layers_sel [simp]:
  "ws_userID (layers s c u w p) = u" "ws_workspaceID (layers s c u w p) = w"
  "ws_projectID (layers s c u w p) = p"
  "ws_member (layers s c u w p) \<longleftrightarrow> member_info s c u w \<noteq> None"
  "ws_roles (layers s c u w p) = roles_of (member_info s c u w)"
  "ws_owner (layers s c u w p) \<longleftrightarrow> ri_IsOwnerRole (roles_of (member_info s c u w))"
  using readLayers_sel [of s c u w p]
  by (auto simp: layers_def member_info_viewed split: option.splits)

lemma member_info_roleIDs:
  "w \<noteq> [] \<Longrightarrow> roleIDsIn s c u w = roleIDs (roles_of (member_info s c u w))"
  by (auto simp: roleIDsIn_def member_info_def split: option.splits sum.splits)

lemma layers_member:
  assumes "member_info s c u w = Some info"
  shows "layers s c u w p = fst (readLayers s c u w p)"
  using assms member_info_viewed [of c _ w s u] by (fastforce simp: layers_def split: option.splits)

section \<open>The interface of the rule reads\<close>

lemma decide_hidden_eq:
  "hidden ws \<Longrightarrow> hidden ws' \<Longrightarrow> ws_projectID ws = ws_projectID ws' \<Longrightarrow> ws_userID ws = ws_userID ws' \<Longrightarrow>
   decide ws a chain = decide ws' a chain"
  by (simp add: decide_def) (simp add: hidden_def)

text \<open>The rules of a project reaching a person, from the rule naming them and the rules for their roles;
  none when there is neither.\<close>

definition rules_pair :: "Overwrite option \<Rightarrow> Overwrite list \<Rightarrow> Rules option" where
  "rules_pair p rs = (if p = None \<and> rs = [] then None else Some \<lparr>rules_Person = p, rules_Roles = rs\<rparr>)"

text \<open>
  What the checks rely on in a repository's reads: at one snapshot each read answers, and a batched read
  answers for every id it is asked about what the single read does.  \<open>person_rule\<close>, \<open>role_rules\<close> and
  \<open>doc_rules\<close> name the rules the snapshot holds; the client lemmas turn each batched check into the single
  one.  \<open>Access_Storage\<close> discharges the laws for the repository over its tables.
\<close>

locale rule_reads =
  fixes repo :: Repo
    and person_rule :: "string \<Rightarrow> string \<Rightarrow> Overwrite option"
    and role_rules :: "string \<Rightarrow> string \<Rightarrow> string list \<Rightarrow> Overwrite list"
    and rules_at :: "string \<Rightarrow> string \<Rightarrow> string \<Rightarrow> Rules option"
    and doc_rules :: "string \<Rightarrow> string \<Rightarrow> DocRules option"
  assumes OwnRules: "ps \<noteq> [] \<Longrightarrow> \<exists>m. repo_OwnRules repo u ps = Inr m \<and> (\<forall>p \<in> set ps. map_of m p = person_rule p u)"
    and RoleRules: "ps \<noteq> [] \<Longrightarrow> \<exists>m. repo_RoleRules repo ty ps held = Inr m \<and>
      (\<forall>p \<in> set ps. (case map_of m p of None \<Rightarrow> [] | Some rs \<Rightarrow> rs) = role_rules ty p held)"
    and Rules: "\<exists>m. repo_Rules repo ty ids u = Inr m \<and> (\<forall>i \<in> set ids. map_of m i = rules_at ty i u)"
    and RulesOfType: "\<exists>m. repo_RulesOfType repo ty u = Inr m \<and> (\<forall>i. map_of m i = rules_at ty i u)"
    and DocRules: "\<exists>m. repo_DocRules repo docs u = Inr m \<and> (\<forall>d \<in> set docs. map_of m d = doc_rules d u)"
begin

lemma layerRules_at:
  assumes "svc_repo s = repo"
  shows "\<exists>m. layerRules s u w held ps = Inr m \<and> (\<forall>p \<in> set ps. map_of m p = rules_pair (person_rule p u) (if held = [] then [] else role_rules resourceTypeProject p held))"
proof (cases "ps = []")
  case True
  then show ?thesis by (simp add: layerRules_def)
next
  case False
  obtain own where own: "repo_OwnRules repo u ps = Inr own" "\<forall>p \<in> set ps. map_of own p = person_rule p u"
    using OwnRules [OF False] by blast
  obtain rr where rr: "(if held = [] then Inr [] else repo_RoleRules repo resourceTypeProject ps held) = Inr rr"
    "\<forall>p \<in> set ps. (case map_of rr p of None \<Rightarrow> [] | Some rs \<Rightarrow> rs) =
       (if held = [] then [] else role_rules resourceTypeProject p held)"
  proof (cases "held = []")
    case True
    then show thesis using that [of "[]"] by simp
  next
    case held: False
    obtain m where "repo_RoleRules repo resourceTypeProject ps held = Inr m"
      "\<forall>p \<in> set ps. (case map_of m p of None \<Rightarrow> [] | Some rs \<Rightarrow> rs) = role_rules resourceTypeProject p held"
      using RoleRules [OF False] by blast
    then show thesis using that [of m] held by simp
  qed
  show ?thesis using False own rr assms
    by (auto simp: layerRules_def filter_map_of_map rules_pair_def Let_def)
qed

text \<open>The layers a batched check builds for one project are the ones the single check reads, or neither
  has the person as a member.\<close>

lemma layers_batched:
  assumes "svc_repo s = repo" "w \<noteq> []" "p \<noteq> []"
    "layerRules s u w (roleIDsIn s c u w) ps = Inr m" "p \<in> set ps"
  defines "ws \<equiv> layers_in (layers s c u w []) p (map_of m p)"
  shows "ws = layers s c u w p \<or>
    (hidden ws \<and> hidden (layers s c u w p) \<and> \<not> ws_member ws \<and> \<not> ws_member (layers s c u w p) \<and>
     \<not> ws_owner ws \<and> \<not> ws_owner (layers s c u w p) \<and>
     ws_projectID ws = ws_projectID (layers s c u w p) \<and> ws_userID ws = ws_userID (layers s c u w p))"
proof -
  obtain m1 where m1: "layerRules s u w (roleIDsIn s c u w) [p] = Inr m1" "map_of m1 p = map_of m p"
    using layerRules_at [OF assms(1), of u w "roleIDsIn s c u w" "[p]"]
      layerRules_at [OF assms(1), of u w "roleIDsIn s c u w" ps] assms(4,5) by auto
  show ?thesis
  proof (cases "member_info s c u w")
    case None
    then show ?thesis using assms(3) by (simp add: hidden_def ws_def)
  next
    case (Some info)
    then have "layers s c u w q = fst (readLayers s c u w q)" for q by (rule layers_member)
    moreover obtain roles where "svc_roles s = Some roles" "memberRole s roles c w u = Inr info"
      using Some assms(2) by (auto simp: member_info_def split: option.splits sum.splits)
    ultimately have "layers s c u w p = ws"
      using m1 assms(2,3) Some
      by (simp add: ws_def readLayers_def layerRules_def [of _ _ _ _ "[]"] layers_in_def member_info_roleIDs)
    then show ?thesis by simp
  qed
qed

lemma decide_batched:
  assumes "svc_repo s = repo" "w \<noteq> []" "p \<noteq> []"
    "layerRules s u w (roleIDsIn s c u w) ps = Inr m" "p \<in> set ps"
  shows "decide (layers_in (layers s c u w []) p (map_of m p)) a chain = decide (layers s c u w p) a chain"
  using layers_batched [OF assms]
proof (elim disjE conjE)
  assume "layers_in (layers s c u w []) p (map_of m p) = layers s c u w p"
  then show ?thesis by (simp only:)
qed (rule decide_hidden_eq)

lemma ProjectsWith_single:
  assumes "svc_repo s = repo" "svc_scopes s = Some sc" "sc_ProjectIDs sc w = Inr ps"
    "u \<noteq> []" "w \<noteq> []" "[] \<notin> set ps"
  shows "ProjectsWith s c u w a = Inr (filter (\<lambda>p. fst (check s c u w p a [] [])) ps)"
proof -
  obtain m where m: "layerRules s u w (roleIDsIn s c u w) ps = Inr m"
    using layerRules_at [OF assms(1)] by blast
  have "decide (layers_in (layers s c u w []) p (map_of m p)) a noRules = check s c u w p a [] []"
    if "p \<in> set ps" for p
    using decide_batched [OF assms(1,5) _ m that] that assms(6)
    by (metis check_def chain_of_def noRules_def list.distinct(1))
  with m assms show ?thesis
    by (simp add: ProjectsWith_def projectIDsOf_def Let_def cong: filter_cong)
qed

lemma ProjectActions_single:
  assumes "svc_repo s = repo" "svc_scopes s = Some sc" "sc_ProjectIDs sc w = Inr ps"
    "u \<noteq> []" "w \<noteq> []" "[] \<notin> set ps"
  shows "ProjectActions s c u w =
    Inr (map (\<lambda>p. \<lparr>ph_ProjectID = p, ph_Actions = projectActions_held (layers s c u w p)\<rparr>)
      (filter (\<lambda>p. ws_member (layers s c u w p) \<and> \<not> hidden (layers s c u w p)) ps))"
proof -
  obtain m where m: "layerRules s u w (roleIDsIn s c u w) ps = Inr m"
    using layerRules_at [OF assms(1)] by blast
  let ?in = "\<lambda>p. layers_in (layers s c u w []) p (map_of m p)"
  have ne: "p \<noteq> []" if "p \<in> set ps" for p using that assms(6) by auto
  have held: "projectActions_held (?in p) = projectActions_held (layers s c u w p)" if "p \<in> set ps" for p
    using decide_batched [OF assms(1,5) ne [OF that] m that] by (simp add: projectActions_held_def)
  have seen: "\<not> (\<not> ws_member (?in p) \<or> hidden (?in p)) \<longleftrightarrow>
      ws_member (layers s c u w p) \<and> \<not> hidden (layers s c u w p)" if "p \<in> set ps" for p
    using layers_batched [OF assms(1,5) ne [OF that] m that] by fastforce
  have "map (\<lambda>p. \<lparr>ph_ProjectID = p, ph_Actions = projectActions_held (?in p)\<rparr>)
      (filter (\<lambda>p. \<not> (\<not> ws_member (?in p) \<or> hidden (?in p))) ps) =
    map (\<lambda>p. \<lparr>ph_ProjectID = p, ph_Actions = projectActions_held (layers s c u w p)\<rparr>)
      (filter (\<lambda>p. ws_member (layers s c u w p) \<and> \<not> hidden (layers s c u w p)) ps)"
    using held seen by (intro map_cong filter_cong) auto
  then show ?thesis using m assms by (simp add: ProjectActions_def projectIDsOf_def Let_def)
qed

lemma svc_rules_at: "svc_repo s = repo \<Longrightarrow> svc_rules s ty i u = rules_at ty i u"
  using Rules [of ty "[i]" u] by (auto simp: svc_rules_def rulesOn_def)

lemma playRules_at: "svc_repo s = repo \<Longrightarrow> i \<in> set ids \<Longrightarrow> map_of (playRules s u ids) i = rules_at resourceTypePlay i u"
  using Rules [of resourceTypePlay ids u] RulesOfType [of resourceTypePlay u]
  by (auto simp: playRules_def rulesOn_def zero_on_err_def)

lemma PlaysWith_single:
  assumes "svc_repo s = repo" "u \<noteq> []" "i \<in> set ids" "i \<noteq> []"
  shows "map_of (PlaysWith s c u w a ids) i = Some (HasPermission s c u w a resourceTypePlay i)"
proof -
  have "fst (decide (layers s c u w []) a [rules_at resourceTypePlay i u]) =
      HasPermission s c u w a resourceTypePlay i"
    using assms by (simp add: HasPermission_def check_def chain_of_def svc_rules_at)
  moreover have "ids \<noteq> []" using assms(3) by auto
  ultimately show ?thesis using assms
    by (simp add: PlaysWith_def Let_def filter_map_of_map playRules_at)
qed

lemma docRules_at: "svc_repo s = repo \<Longrightarrow> d \<in> set ids \<Longrightarrow> map_of (docRules s ids u) d = doc_rules d u"
  using DocRules [of ids u] by (auto simp: docRules_def)

lemma CanDocs_single:
  assumes "svc_repo s = repo" "u \<noteq> []" "d \<in> set ids"
    "scope_at (docScopesIn s p ids) d = scope_at (docScopes s [d]) d"
  shows "map_of (CanDocs s c u p ids a) d = Some (Can s c u d a)"
proof -
  have ne: "ids \<noteq> []" using assms(3) by auto
  have "Can s c u d a = fst (decide (layers s c u (ds_WorkspaceID (scope_at (docScopes s [d]) d))
      (ds_ProjectID (scope_at (docScopes s [d]) d))) a (doc_chain (doc_rules d u)))"
    using assms by (simp add: Can_def at_bool_def CanDocs_def docScopesIn_def docRules_at Let_def)
  then show ?thesis using assms ne
    by (simp add: CanDocs_def Let_def filter_map_of_map docRules_at)
qed

lemma channelRules_at:
  "svc_repo s = repo \<Longrightarrow>
   \<exists>m. channelRules s u ids = Inr m \<and> (\<forall>i \<in> set ids. map_of m i = rules_at resourceTypeChannel i u)"
  using Rules [of resourceTypeChannel ids u] RulesOfType [of resourceTypeChannel u]
  by (auto simp: channelRules_def rulesOn_def)

text \<open>A channel the rules take away is one \<open>channelRead\<close> refuses for a member who otherwise reads it.\<close>

lemma ChannelsDenied_single:
  assumes "svc_repo s = repo" "member_info s c u w = Some info"
  shows "ChannelsDenied s c u w ids =
    Inr (filter (\<lambda>i. \<not> ri_IsOwnerRole info \<and>
      rule_verdict (rules_at resourceTypeChannel i u) (roleIDs info) ChannelsRead = Some False) ids)"
proof -
  obtain m where m: "channelRules s u ids = Inr m" "\<forall>i \<in> set ids. map_of m i = rules_at resourceTypeChannel i u"
    using channelRules_at [OF assms(1)] by blast
  have "standing s c u w = Inr info"
    using assms(2) by (auto simp: standing_def member_info_def split: option.splits sum.splits if_splits)
  then show ?thesis using m
    by (auto simp: ChannelsDenied_def applyRules_answer filter_False split: option.splits intro!: filter_cong)
qed

lemma channelRead_member:
  assumes "svc_repo s = repo" "member_info s c u w = Some info" "\<not> ri_IsOwnerRole info"
    "channelScope s i = Inr scope" "cs_Private scope \<longrightarrow> u \<in> set (cs_MemberIDs scope)"
  shows "fst (channelRead s c u w i True) \<longleftrightarrow>
    rule_verdict (rules_at resourceTypeChannel i u) (roleIDs info) ChannelsRead \<noteq> Some False"
  using assms by (auto simp: channelRead_def Let_def svc_rules_at applyRules_answer split: option.splits)

end

end
