(* ===== verification/Access_Storage.thy ===== *)
theory Access_Storage
  imports Access_Service
begin

text \<open>
  The storage of rules (\<^verbatim>\<open>internal/platform/storage/access_repo.go\<close> over the table
  \<^verbatim>\<open>permission_overwrites\<close>).  A database is the tables its statements read; a statement is the filter
  its SQL text states, rows in table order where the statement has no ORDER BY.  A set column holds the
  elements of its JSON array, so \<^verbatim>\<open>setJSON\<close> is the identity on a set and \<^verbatim>\<open>parseSet\<close> normalises, and
  \<^verbatim>\<open>instr\<close> of a quoted action is membership of it.  Driver failures are not modelled: a statement on the
  tables always answers.  A write is one transaction: it returns the new database, or an error and no
  change.
\<close>

section \<open>Tables\<close>

text \<open>Whom a row names.  The table has the three columns \<^verbatim>\<open>target\<close>, \<^verbatim>\<open>user_id\<close> and \<^verbatim>\<open>role_id\<close> under a CHECK
  that leaves exactly these two shapes, so a row holds the shape and the columns are read from it.\<close>

datatype rule_target = for_person string | for_role string

record PermissionOverwrite =
  po_ResourceType :: string
  po_ResourceID :: string
  po_For :: rule_target
  po_Allow :: "string list"
  po_Deny :: "string list"
  po_CreatedAt :: time
  po_UpdatedAt :: time

definition po_Target :: "PermissionOverwrite \<Rightarrow> string" where
  "po_Target row = (case po_For row of for_person _ \<Rightarrow> TargetPerson | for_role _ \<Rightarrow> TargetRole)"

definition po_UserID :: "PermissionOverwrite \<Rightarrow> string option" where
  "po_UserID row = (case po_For row of for_person u \<Rightarrow> Some u | for_role _ \<Rightarrow> None)"

definition po_RoleID :: "PermissionOverwrite \<Rightarrow> string option" where
  "po_RoleID row = (case po_For row of for_person _ \<Rightarrow> None | for_role r \<Rightarrow> Some r)"

record member_role =
  mr_workspace :: string
  mr_user :: string
  mr_role :: string
  mr_created :: time

record doc_row =
  doc_id :: string
  doc_project :: string
  doc_folder :: "string option"

text \<open>The payloads of \<^verbatim>\<open>internal/access/events.go\<close> and an outbox row carrying one; the random id of a row is
  left out.\<close>

record GrantEvent =
  ge_ResourceType :: string
  ge_ResourceID :: string
  ge_Target :: string
  ge_UserID :: string
  ge_RoleID :: string
  ge_ActorID :: string

record ComputerGrantEvent =
  ce_ComputerID :: string
  ce_OwnerID :: string
  ce_UserID :: string
  ce_Permissions :: "string list"
  ce_ActorID :: string
  ce_MembersOnly :: bool

datatype OutboxEvent = TopicGrantChanged GrantEvent | TopicComputerGrantChanged ComputerGrantEvent

text \<open>The tables: folders, stacks and projects carry the project or workspace they are in, computers their
  owner, \<open>db_active\<close> the accounts whose status is active, \<open>db_members\<close> pairs of a workspace and a member.\<close>

record database =
  db_overwrites :: "PermissionOverwrite list"
  db_users :: "string list"
  db_roles :: "string list"
  db_member_roles :: "member_role list"
  db_docs :: "doc_row list"
  db_folders :: "(string \<times> string) list"
  db_stacks :: "(string \<times> string) list"
  db_projects :: "(string \<times> string) list"
  db_computers :: "(string \<times> string) list"
  db_active :: "string list"
  db_members :: "(string \<times> string) list"
  db_outbox :: "OutboxEvent list"

text \<open>\<^verbatim>\<open>coalesce(user_id, role_id)\<close> and the key of the unique index on the table.\<close>

definition coalesce :: "'a option \<Rightarrow> 'a option \<Rightarrow> 'a option" where
  "coalesce a b = (case a of Some _ \<Rightarrow> a | None \<Rightarrow> b)"

definition row_key :: "PermissionOverwrite \<Rightarrow> string \<times> string \<times> string \<times> string option" where
  "row_key row = (po_ResourceType row, po_ResourceID row, po_Target row, coalesce (po_UserID row) (po_RoleID row))"

text \<open>The invariant the unique index keeps.\<close>

definition table_ok :: "PermissionOverwrite list \<Rightarrow> bool" where
  "table_ok rows \<longleftrightarrow> distinct (map row_key rows)"

section \<open>Rows and rules\<close>

definition parseSet :: "string list \<Rightarrow> pset" where
  "parseSet xs = SetOfStrings xs"

definition setJSON :: "pset \<Rightarrow> string list" where
  "setJSON s = Actions s"

definition null_text :: "string option \<Rightarrow> string" where
  "null_text v = (case v of None \<Rightarrow> [] | Some t \<Rightarrow> t)"

definition toOverwrite :: "PermissionOverwrite \<Rightarrow> Overwrite" where
  "toOverwrite row =
     \<lparr>ow_ResourceType = po_ResourceType row, ow_ResourceID = po_ResourceID row, ow_Target = po_Target row,
      ow_UserID = null_text (po_UserID row), ow_RoleID = null_text (po_RoleID row),
      ow_Allow = parseSet (po_Allow row), ow_Deny = parseSet (po_Deny row),
      ow_CreatedAt = po_CreatedAt row, ow_UpdatedAt = po_UpdatedAt row, ow_TargetName = []\<rparr>"

definition toOverwrites :: "PermissionOverwrite list \<Rightarrow> Overwrite list" where
  "toOverwrites rows = map toOverwrite rows"

text \<open>One entry of the map \<open>toRules\<close> builds: the last person row is the person's rule, the role rows are
  sorted by role.\<close>

definition rules_of_rows :: "Overwrite list \<Rightarrow> Rules" where
  "rules_of_rows ows =
     \<lparr>rules_Person = (case filter (\<lambda>ow. ow_Target ow \<noteq> TargetRole) ows of [] \<Rightarrow> None | xs \<Rightarrow> Some (last xs)),
      rules_Roles = sort_key ow_RoleID (filter (\<lambda>ow. ow_Target ow = TargetRole) ows)\<rparr>"

definition toRules :: "PermissionOverwrite list \<Rightarrow> Rules gomap" where
  "toRules rows =
     (let ows = toOverwrites rows
      in map (\<lambda>i. (i, rules_of_rows (filter (\<lambda>ow. ow_ResourceID ow = i) ows)))
           (remdups (map ow_ResourceID ows)))"

section \<open>Reads\<close>

text \<open>The roles a person holds, in any workspace: the subquery every rules statement has.\<close>

definition roles_held_of :: "database \<Rightarrow> string \<Rightarrow> string list" where
  "roles_held_of db userID = map mr_role (filter (\<lambda>m. mr_user m = userID) (db_member_roles db))"

definition role_in :: "PermissionOverwrite \<Rightarrow> string list \<Rightarrow> bool" where
  "role_in row held = (case po_RoleID row of None \<Rightarrow> False | Some r \<Rightarrow> r \<in> set held)"

definition reaches :: "database \<Rightarrow> string \<Rightarrow> PermissionOverwrite \<Rightarrow> bool" where
  "reaches db userID row \<longleftrightarrow>
     po_UserID row = Some userID \<or>
     role_in row (roles_held_of db userID)"

definition first_row :: "string \<Rightarrow> PermissionOverwrite list \<Rightarrow> Overwrite res" where
  "first_row name rows =
     (case rows of [] \<Rightarrow> Inl (wrapf name (sentinel_err ErrNotFound)) | row # _ \<Rightarrow> Inr (toOverwrite row))"

definition repoGet :: "database \<Rightarrow> string \<Rightarrow> string \<Rightarrow> string \<Rightarrow> Overwrite res" where
  "repoGet db resourceType resourceID userID =
     first_row (''get overwrite '' @ resourceType @ ''/'' @ resourceID @ ''/'' @ userID)
       (filter (\<lambda>row. po_ResourceType row = resourceType \<and> po_ResourceID row = resourceID \<and>
                      po_UserID row = Some userID) (db_overwrites db))"

definition repoGetRole :: "database \<Rightarrow> string \<Rightarrow> string \<Rightarrow> string \<Rightarrow> Overwrite res" where
  "repoGetRole db resourceType resourceID roleID =
     first_row (''get role overwrite '' @ resourceType @ ''/'' @ resourceID @ ''/'' @ roleID)
       (filter (\<lambda>row. po_ResourceType row = resourceType \<and> po_ResourceID row = resourceID \<and>
                      po_Target row = TargetRole \<and> po_RoleID row = Some roleID) (db_overwrites db))"

definition repoRules :: "database \<Rightarrow> string \<Rightarrow> string list \<Rightarrow> string \<Rightarrow> Rules gomap res" where
  "repoRules db resourceType resourceIDs userID =
     (if resourceIDs = [] then Inr []
      else Inr (toRules
        (if length resourceIDs = 1
         then filter (\<lambda>row. po_ResourceType row = resourceType \<and> po_ResourceID row = hd resourceIDs \<and>
                            reaches db userID row) (db_overwrites db)
         else filter (\<lambda>row. po_ResourceType row = resourceType \<and> reaches db userID row \<and>
                            po_ResourceID row \<in> set resourceIDs) (db_overwrites db))))"

definition repoRulesOfType :: "database \<Rightarrow> string \<Rightarrow> string \<Rightarrow> Rules gomap res" where
  "repoRulesOfType db resourceType userID =
     Inr (toRules
       (filter (\<lambda>row. po_UserID row = Some userID \<and> po_ResourceType row = resourceType) (db_overwrites db) @
        filter (\<lambda>row. role_in row (roles_held_of db userID) \<and>
                      po_ResourceType row = resourceType) (db_overwrites db)))"

text \<open>A Go map filled in row order keeps the last row of a key, which \<open>rev\<close> makes the first entry.\<close>

definition repoOwnRules :: "database \<Rightarrow> string \<Rightarrow> string list \<Rightarrow> Overwrite gomap res" where
  "repoOwnRules db userID projectIDs =
     (let rows =
        (if length projectIDs = 1
         then filter (\<lambda>row. po_UserID row = Some userID \<and> po_ResourceType row = resourceTypeProject \<and>
                            po_ResourceID row = hd projectIDs) (db_overwrites db)
         else if length projectIDs > 1
         then filter (\<lambda>row. po_UserID row = Some userID \<and> po_ResourceType row = resourceTypeProject) (db_overwrites db)
         else [])
      in Inr (rev (map (\<lambda>ow. (ow_ResourceID ow, ow))
                (filter (\<lambda>ow. ow_ResourceID ow \<in> set projectIDs) (toOverwrites rows)))))"

definition repoRoleRules ::
  "database \<Rightarrow> string \<Rightarrow> string list \<Rightarrow> string list \<Rightarrow> (Overwrite list) gomap res" where
  "repoRoleRules db resourceType resourceIDs held =
     (let rows =
        (if length resourceIDs = 1
         then sort_key (\<lambda>row. null_text (po_RoleID row))
                (filter (\<lambda>row. po_ResourceType row = resourceType \<and> po_ResourceID row = hd resourceIDs \<and>
                            po_Target row = TargetRole \<and> role_in row held) (db_overwrites db))
         else if length resourceIDs > 1
         then filter (\<lambda>row. role_in row held \<and> po_ResourceType row = resourceType) (db_overwrites db)
         else []);
          kept = filter (\<lambda>ow. ow_Target ow = TargetRole \<and> ow_ResourceID ow \<in> set resourceIDs) (toOverwrites rows)
      in Inr (map (\<lambda>i. (i, sort_key ow_RoleID (filter (\<lambda>ow. ow_ResourceID ow = i) kept)))
                (remdups (map ow_ResourceID kept))))"

text \<open>The rows of one doc: its own rules, then its folder's; the doc's row of the result has the rules of
  the doc and of the one other resource among them.\<close>

definition doc_chain_rows :: "database \<Rightarrow> string list \<Rightarrow> string \<Rightarrow> (string \<times> PermissionOverwrite) list" where
  "doc_chain_rows db docIDs userID =
     map (\<lambda>row. (po_ResourceID row, row))
       (filter (\<lambda>row. po_ResourceType row = resourceTypeDoc \<and> po_ResourceID row \<in> set docIDs \<and>
                      reaches db userID row) (db_overwrites db)) @
     concat (map (\<lambda>d. map (\<lambda>row. (doc_id d, row))
         (filter (\<lambda>row. po_ResourceType row = resourceTypeFolder \<and> Some (po_ResourceID row) = doc_folder d \<and>
                        reaches db userID row) (db_overwrites db)))
       (filter (\<lambda>d. doc_id d \<in> set docIDs) (db_docs db)))"

definition repoDocRules :: "database \<Rightarrow> string list \<Rightarrow> string \<Rightarrow> DocRules gomap res" where
  "repoDocRules db docIDs userID =
     (if docIDs = [] then Inr []
      else
        let rows = doc_chain_rows db docIDs userID
        in Inr (map (\<lambda>d.
              let rules = toRules (map snd (filter (\<lambda>p. fst p = d) rows))
              in (d, \<lparr>docrules_Folder = map_option snd (find (\<lambda>p. fst p \<noteq> d) rules),
                      docrules_Doc = map_of rules d\<rparr>))
            (remdups (map fst rows))))"

definition repoListByResource :: "database \<Rightarrow> string \<Rightarrow> string \<Rightarrow> Overwrite list res" where
  "repoListByResource db resourceType resourceID =
     Inr (toOverwrites (sort_key po_Target (sort_key (\<lambda>row. null_text (coalesce (po_UserID row) (po_RoleID row)))
       (filter (\<lambda>row. po_ResourceType row = resourceType \<and> po_ResourceID row = resourceID) (db_overwrites db)))))"

definition repoHasAllowAny :: "database \<Rightarrow> string \<Rightarrow> string \<Rightarrow> action \<Rightarrow> bool res" where
  "repoHasAllowAny db resourceType userID a =
     Inr (filter (\<lambda>row. reaches db userID row \<and> po_ResourceType row = resourceType \<and> a \<in> set (po_Allow row))
            (db_overwrites db) \<noteq> [])"

section \<open>Rules decided in SQL\<close>

text \<open>The CASE of one row, MAX over the states of a group and COALESCE of the person's over the roles';
  true stands for 1.\<close>

definition row_state :: "PermissionOverwrite \<Rightarrow> action \<Rightarrow> bool option" where
  "row_state row a =
     (if a \<in> set (po_Deny row) then Some False else if a \<in> set (po_Allow row) then Some True else None)"

definition sql_max :: "bool option list \<Rightarrow> bool option" where
  "sql_max states =
     (if Some True \<in> set states then Some True else if Some False \<in> set states then Some False else None)"

text \<open>The rules of a resource type in the projects of \<open>ruled\<close>, with the flag saying it is for a role: the
  person's, and for each membership row those of its role in a project of its workspace.  \<open>place\<close> is the
  resource table, giving the project of an id.\<close>

definition turn_rows ::
  "database \<Rightarrow> string \<Rightarrow> (string \<times> string) list \<Rightarrow> string \<Rightarrow> string list \<Rightarrow>
   (bool \<times> PermissionOverwrite) list" where
  "turn_rows db resourceType place userID ruled =
     map (\<lambda>row. (False, row))
       (filter (\<lambda>row. po_UserID row = Some userID \<and> po_ResourceType row = resourceType \<and>
                      po_Target row = TargetPerson \<and>
                      list_ex (\<lambda>(i, p). i = po_ResourceID row \<and> p \<in> set ruled) place) (db_overwrites db)) @
     concat (map (\<lambda>m. map (\<lambda>row. (True, row))
         (filter (\<lambda>row. po_RoleID row = Some (mr_role m) \<and> po_ResourceType row = resourceType \<and>
                        list_ex (\<lambda>(i, p). i = po_ResourceID row \<and> p \<in> set ruled \<and>
                           (p, mr_workspace m) \<in> set (db_projects db)) place) (db_overwrites db)))
       (filter (\<lambda>m. mr_user m = userID) (db_member_roles db)))"

definition group_state ::
  "(bool \<times> PermissionOverwrite) list \<Rightarrow> string \<Rightarrow> action \<Rightarrow> bool option" where
  "group_state rows i a =
     (let mine = filter (\<lambda>(_, row). po_ResourceID row = i) rows
      in coalesce (sql_max (map (\<lambda>(_, row). row_state row a) (filter (\<lambda>(r, _). \<not> r) mine)))
                  (sql_max (map (\<lambda>(_, row). row_state row a) (filter (\<lambda>(r, _). r) mine))))"

definition group_ids :: "(bool \<times> PermissionOverwrite) list \<Rightarrow> string list" where
  "group_ids rows = sort (remdups (map (\<lambda>(_, row). po_ResourceID row) rows))"

definition repoDocRuleTurns ::
  "database \<Rightarrow> string \<Rightarrow> action \<Rightarrow> string list \<Rightarrow> string list \<Rightarrow> DocReach res" where
  "repoDocRuleTurns db userID a ruled readable =
     (let docs = map (\<lambda>d. (doc_id d, doc_project d)) (db_docs db);
          frows = turn_rows db resourceTypeFolder (db_folders db) userID ruled;
          drows = turn_rows db resourceTypeDoc docs userID ruled;
          fstate = (\<lambda>i. group_state frows i a);
          fturn = (\<lambda>st i. list_ex (\<lambda>(f, p). f = i \<and> (p \<in> set readable) = (\<not> st)) (db_folders db) \<and> fstate i = Some st);
          dturn = (\<lambda>st i. group_state drows i a = Some st \<and>
             list_ex (\<lambda>d. doc_id d = i \<and>
                st \<noteq> (case Option.bind (doc_folder d) fstate of Some b \<Rightarrow> b | None \<Rightarrow> doc_project d \<in> set readable))
               (db_docs db))
      in Inr \<lparr>dr_ProjectIDs = [],
              dr_AllowedFolders = filter (fturn True) (group_ids frows),
              dr_DeniedFolders = filter (fturn False) (group_ids frows),
              dr_Allowed = filter (dturn True) (group_ids drows),
              dr_Denied = filter (dturn False) (group_ids drows)\<rparr>)"

text \<open>A stack's answer: Deny of its read hides it, otherwise its rules for the action, else the project's.\<close>

definition repoStackRuleTurns ::
  "database \<Rightarrow> string \<Rightarrow> action \<Rightarrow> string list \<Rightarrow> string list \<Rightarrow> (string list \<times> string list) res" where
  "repoStackRuleTurns db userID a ruled readable =
     (let rows = filter (\<lambda>(_, row). a \<in> set (po_Allow row @ po_Deny row) \<or>
                                    StacksRead \<in> set (po_Allow row @ po_Deny row))
                   (turn_rows db resourceTypeStack (db_stacks db) userID ruled);
          inproj = (\<lambda>i. list_ex (\<lambda>(st, p). st = i \<and> p \<in> set readable) (db_stacks db));
          held = (\<lambda>i. if group_state rows i StacksRead = Some False then False
                      else (case group_state rows i a of Some b \<Rightarrow> b | None \<Rightarrow> inproj i));
          turned = filter (\<lambda>i. held i \<noteq> inproj i) (group_ids rows)
      in Inr (filter held turned, filter (\<lambda>i. \<not> held i) turned))"

section \<open>Writes\<close>

text \<open>The upsert: the row with the key is updated in place, keeping its creation time; otherwise the row is
  inserted.  The foreign keys of the new row are checked first.\<close>

definition foreign_ok :: "database \<Rightarrow> PermissionOverwrite \<Rightarrow> bool" where
  "foreign_ok db row \<longleftrightarrow>
     (case po_UserID row of None \<Rightarrow> True | Some u \<Rightarrow> u \<in> set (db_users db)) \<and>
     (case po_RoleID row of None \<Rightarrow> True | Some r \<Rightarrow> r \<in> set (db_roles db))"

definition upsert_row :: "PermissionOverwrite list \<Rightarrow> PermissionOverwrite \<Rightarrow> PermissionOverwrite list" where
  "upsert_row rows new =
     (if row_key new \<in> set (map row_key rows)
      then map (\<lambda>row. if row_key row = row_key new
                      then row\<lparr>po_Allow := po_Allow new, po_Deny := po_Deny new, po_UpdatedAt := po_UpdatedAt new\<rparr>
                      else row) rows
      else rows @ [new])"

definition repo_set ::
  "database \<Rightarrow> string \<Rightarrow> pset \<Rightarrow> pset \<Rightarrow> OutboxEvent list \<Rightarrow> (PermissionOverwrite \<Rightarrow> bool) \<Rightarrow>
   PermissionOverwrite \<Rightarrow> database res" where
  "repo_set db name allow deny events del new =
     (if allow = [] \<and> deny = []
      then (if filter del (db_overwrites db) = []
            then Inl (wrapf (''delete overwrite '' @ name) (sentinel_err ErrNotFound))
            else Inr (db\<lparr>db_overwrites := filter (\<lambda>row. \<not> del row) (db_overwrites db),
                         db_outbox := db_outbox db @ events\<rparr>))
      else if \<not> foreign_ok db new
      then Inl (wrapf (''set overwrite '' @ name) (sentinel_err ErrConflict))
      else Inr (db\<lparr>db_overwrites := upsert_row (db_overwrites db) new, db_outbox := db_outbox db @ events\<rparr>))"

definition person_row :: "string \<Rightarrow> string \<Rightarrow> string \<Rightarrow> pset \<Rightarrow> pset \<Rightarrow> time \<Rightarrow> PermissionOverwrite" where
  "person_row resourceType resourceID userID allow deny now =
     \<lparr>po_ResourceType = resourceType, po_ResourceID = resourceID, po_For = for_person userID, po_Allow = setJSON allow, po_Deny = setJSON deny,
      po_CreatedAt = now, po_UpdatedAt = now\<rparr>"

definition role_row :: "string \<Rightarrow> string \<Rightarrow> string \<Rightarrow> pset \<Rightarrow> pset \<Rightarrow> time \<Rightarrow> PermissionOverwrite" where
  "role_row resourceType resourceID roleID allow deny now =
     \<lparr>po_ResourceType = resourceType, po_ResourceID = resourceID, po_For = for_role roleID, po_Allow = setJSON allow, po_Deny = setJSON deny,
      po_CreatedAt = now, po_UpdatedAt = now\<rparr>"

definition repoSet ::
  "time \<Rightarrow> database \<Rightarrow> string \<Rightarrow> string \<Rightarrow> string \<Rightarrow> pset \<Rightarrow> pset \<Rightarrow> OutboxEvent list \<Rightarrow> database res" where
  "repoSet now db resourceType resourceID userID allow deny events =
     repo_set db (resourceType @ ''/'' @ resourceID @ ''/'' @ userID) allow deny events
       (\<lambda>row. po_ResourceType row = resourceType \<and> po_ResourceID row = resourceID \<and> po_UserID row = Some userID)
       (person_row resourceType resourceID userID allow deny now)"

definition repoSetRole ::
  "time \<Rightarrow> database \<Rightarrow> string \<Rightarrow> string \<Rightarrow> string \<Rightarrow> pset \<Rightarrow> pset \<Rightarrow> OutboxEvent list \<Rightarrow> database res" where
  "repoSetRole now db resourceType resourceID roleID allow deny events =
     repo_set db (resourceType @ ''/'' @ resourceID @ ''/role '' @ roleID) allow deny events
       (\<lambda>row. po_ResourceType row = resourceType \<and> po_ResourceID row = resourceID \<and>
              po_Target row = TargetRole \<and> po_RoleID row = Some roleID)
       (role_row resourceType resourceID roleID allow deny now)"

definition repoDeleteByResource :: "database \<Rightarrow> string \<Rightarrow> string \<Rightarrow> database res" where
  "repoDeleteByResource db resourceType resourceID =
     Inr (db\<lparr>db_overwrites := filter (\<lambda>row. \<not> (po_ResourceType row = resourceType \<and> po_ResourceID row = resourceID))
                               (db_overwrites db)\<rparr>)"

text \<open>The repository's reads at a database; \<open>grid\<close> answers the Access page's read.\<close>

definition AccessRepo :: "(string \<Rightarrow> GridSource res) \<Rightarrow> database \<Rightarrow> Repo" where
  "AccessRepo grid db =
     \<lparr>repo_Get = repoGet db, repo_GetRole = repoGetRole db, repo_Rules = repoRules db,
      repo_RulesOfType = repoRulesOfType db, repo_DocRules = repoDocRules db,
      repo_DocRuleTurns = repoDocRuleTurns db, repo_StackRuleTurns = repoStackRuleTurns db,
      repo_OwnRules = repoOwnRules db, repo_RoleRules = repoRoleRules db,
      repo_ListByResource = repoListByResource db, repo_HasAllowAny = repoHasAllowAny db,
      repo_Grid = grid\<rparr>"

section \<open>Lemmas: the reads\<close>

lemma insort_key_map: "insort_key f (g x) (map g xs) = map g (insort_key (\<lambda>x. f (g x)) x xs)"
  by (induction xs) auto

lemma sort_key_map: "sort_key f (map g xs) = map g (sort_key (\<lambda>x. f (g x)) xs)"
  by (induction xs) (auto simp: insort_key_map)

lemma sort_key_idem: "sort_key f (sort_key f xs) = sort_key f xs"
  by (rule sort_key_id_if_sorted) simp

definition last_opt :: "'a list \<Rightarrow> 'a option" where
  "last_opt xs = (if xs = [] then None else Some (last xs))"

lemma map_of_rev_key: "map_of (rev (map (\<lambda>x. (f x, x)) xs)) k = last_opt (filter (\<lambda>x. f x = k) xs)"
  by (induction xs rule: rev_induct) (auto simp: last_opt_def)

lemma po_cols:
  "po_UserID row = Some u \<longleftrightarrow> po_For row = for_person u"
  "po_RoleID row = Some r \<longleftrightarrow> po_For row = for_role r"
  "po_Target row = TargetRole \<longleftrightarrow> po_UserID row = None"
  "po_UserID row = None \<longleftrightarrow> po_RoleID row \<noteq> None"
  by (auto simp: po_UserID_def po_RoleID_def po_Target_def split: rule_target.splits)

lemma role_in_target: "role_in row held \<Longrightarrow> po_Target row = TargetRole"
  by (auto simp: role_in_def po_Target_def po_RoleID_def split: rule_target.splits)

lemma toOverwrite_sel [simp]:
  "ow_ResourceID (toOverwrite row) = po_ResourceID row" "ow_ResourceType (toOverwrite row) = po_ResourceType row"
  "ow_Target (toOverwrite row) = po_Target row" "ow_RoleID (toOverwrite row) = null_text (po_RoleID row)"
  "ow_UserID (toOverwrite row) = null_text (po_UserID row)"
  "ow_Allow (toOverwrite row) = parseSet (po_Allow row)" "ow_Deny (toOverwrite row) = parseSet (po_Deny row)"
  by (simp_all add: toOverwrite_def)

lemma toRules_at:
  "map_of (toRules rows) i =
     (if filter (\<lambda>row. po_ResourceID row = i) rows = [] then None
      else Some (rules_of_rows (toOverwrites (filter (\<lambda>row. po_ResourceID row = i) rows))))"
  by (auto simp: toRules_def toOverwrites_def Let_def filter_map_of_map filter_map comp_def filter_empty_conv)

text \<open>The rules the tables hold: the ones naming a person on a project, the ones for roles on a resource,
  those reaching a person on a resource, and a doc's with its folder's.\<close>

definition table_person_rule :: "database \<Rightarrow> string \<Rightarrow> string \<Rightarrow> Overwrite option" where
  "table_person_rule db p u =
     last_opt (map toOverwrite (filter (\<lambda>row. po_UserID row = Some u \<and> po_ResourceType row = resourceTypeProject \<and>
       po_ResourceID row = p) (db_overwrites db)))"

definition table_role_rules :: "database \<Rightarrow> string \<Rightarrow> string \<Rightarrow> string list \<Rightarrow> Overwrite list" where
  "table_role_rules db ty p held =
     sort_key ow_RoleID (map toOverwrite (filter (\<lambda>row. po_ResourceType row = ty \<and> po_ResourceID row = p \<and>
       role_in row held) (db_overwrites db)))"

definition table_rules_at :: "database \<Rightarrow> string \<Rightarrow> string \<Rightarrow> string \<Rightarrow> Rules option" where
  "table_rules_at db ty i u =
     (let rows = filter (\<lambda>row. po_ResourceType row = ty \<and> po_ResourceID row = i \<and> reaches db u row) (db_overwrites db)
      in if rows = [] then None else Some (rules_of_rows (map toOverwrite rows)))"

definition table_doc_rules :: "database \<Rightarrow> string \<Rightarrow> string \<Rightarrow> DocRules option" where
  "table_doc_rules db d u = (case repoDocRules db [d] u of Inl _ \<Rightarrow> None | Inr m \<Rightarrow> map_of m d)"

lemma OwnRules_table:
  assumes "ps \<noteq> []"
  shows "\<exists>m. repoOwnRules db u ps = Inr m \<and> (\<forall>p \<in> set ps. map_of m p = table_person_rule db p u)"
proof -
  let ?mine = "\<lambda>row. po_UserID row = Some u \<and> po_ResourceType row = resourceTypeProject"
  have rows: "filter (\<lambda>ow. ow_ResourceID ow = p) (filter (\<lambda>ow. ow_ResourceID ow \<in> I)
      (toOverwrites (filter (\<lambda>row. ?mine row \<and> Q row) (db_overwrites db)))) =
    map toOverwrite (filter (\<lambda>row. po_UserID row = Some u \<and> po_ResourceType row = resourceTypeProject \<and>
       po_ResourceID row = p) (db_overwrites db))"
    if "p \<in> I" "\<And>row. po_ResourceID row = p \<Longrightarrow> Q row" for p I Q
    using that by (auto simp: toOverwrites_def filter_map comp_def intro!: arg_cong [of _ _ "map toOverwrite"] filter_cong)
  let ?rows = "if length ps = 1
         then filter (\<lambda>row. po_UserID row = Some u \<and> po_ResourceType row = resourceTypeProject \<and>
                            po_ResourceID row = hd ps) (db_overwrites db)
         else if length ps > 1
         then filter (\<lambda>row. po_UserID row = Some u \<and> po_ResourceType row = resourceTypeProject) (db_overwrites db)
         else []"
  have at: "filter (\<lambda>ow. ow_ResourceID ow = p) (filter (\<lambda>ow. ow_ResourceID ow \<in> set ps) (toOverwrites ?rows)) =
      map toOverwrite (filter (\<lambda>row. po_UserID row = Some u \<and> po_ResourceType row = resourceTypeProject \<and>
       po_ResourceID row = p) (db_overwrites db))" if "p \<in> set ps" for p
  proof (cases "length ps = 1")
    case True
    with that have "hd ps = p" by (auto simp: length_Suc_conv)
    with True rows [OF that, of "\<lambda>row. po_ResourceID row = hd ps"] show ?thesis
      by (simp only: if_True conj_assoc simp_thms)
  next
    case False
    with assms have "length ps > 1" by (cases ps) auto
    with False rows [OF that, of "\<lambda>_. True"] show ?thesis by (simp only: if_True if_False simp_thms)
  qed
  show ?thesis unfolding repoOwnRules_def Let_def
    by (intro exI conjI ballI, rule refl)
       (simp only: map_of_rev_key at table_person_rule_def)
qed

lemma grouped_at:
  "(case map_of (map (\<lambda>i. (i, sort_key ow_RoleID (filter (\<lambda>ow. ow_ResourceID ow = i) ks)))
     (remdups (map ow_ResourceID ks))) p of None \<Rightarrow> [] | Some rs \<Rightarrow> rs) =
   sort_key ow_RoleID (filter (\<lambda>ow. ow_ResourceID ow = p) ks)"
proof (cases "p \<in> set (map ow_ResourceID ks)")
  case False
  then have "filter (\<lambda>ow. ow_ResourceID ow = p) ks = []" by (auto simp: filter_empty_conv)
  with False show ?thesis by (auto simp: filter_map_of_map)
qed (auto simp: filter_map_of_map)

lemma RoleRules_table:
  assumes "ps \<noteq> []"
  shows "\<exists>m. repoRoleRules db ty ps held = Inr m \<and>
    (\<forall>p \<in> set ps. (case map_of m p of None \<Rightarrow> [] | Some rs \<Rightarrow> rs) = table_role_rules db ty p held)"
proof -
  have single: "sort_key ow_RoleID (filter (\<lambda>ow. ow_ResourceID ow = p)
      (filter (\<lambda>ow. ow_Target ow = TargetRole \<and> ow_ResourceID ow \<in> set [p])
        (toOverwrites (sort_key (\<lambda>row. null_text (po_RoleID row)) (filter (\<lambda>row. po_ResourceType row = ty \<and>
          po_ResourceID row = p \<and> po_Target row = TargetRole \<and> role_in row held) (db_overwrites db)))))) =
      table_role_rules db ty p held" for p
    by (auto simp: table_role_rules_def toOverwrites_def filter_map filter_sort sort_key_map sort_key_idem comp_def
        role_in_target intro!: arg_cong [of _ _ "map toOverwrite"] arg_cong [of _ _ "sort_key _"] filter_cong)
  have batch: "sort_key ow_RoleID (filter (\<lambda>ow. ow_ResourceID ow = p)
      (filter (\<lambda>ow. ow_Target ow = TargetRole \<and> ow_ResourceID ow \<in> set ps)
        (toOverwrites (filter (\<lambda>row. role_in row held \<and> po_ResourceType row = ty) (db_overwrites db))))) =
      table_role_rules db ty p held" if "p \<in> set ps" for p
    using that by (auto simp: table_role_rules_def toOverwrites_def filter_map sort_key_map comp_def
        role_in_target intro!: arg_cong [of _ _ "map toOverwrite"] arg_cong [of _ _ "sort_key _"] filter_cong)
  let ?rows = "if length ps = 1
         then sort_key (\<lambda>row. null_text (po_RoleID row))
                (filter (\<lambda>row. po_ResourceType row = ty \<and> po_ResourceID row = hd ps \<and>
                            po_Target row = TargetRole \<and> role_in row held) (db_overwrites db))
         else if length ps > 1
         then filter (\<lambda>row. role_in row held \<and> po_ResourceType row = ty) (db_overwrites db)
         else []"
  have at: "sort_key ow_RoleID (filter (\<lambda>ow. ow_ResourceID ow = p) (filter (\<lambda>ow. ow_Target ow = TargetRole \<and>
      ow_ResourceID ow \<in> set ps) (toOverwrites ?rows))) = table_role_rules db ty p held" if "p \<in> set ps" for p
  proof (cases "length ps = 1")
    case True
    with that have "ps = [p]" by (auto simp: length_Suc_conv)
    with single [of p] True show ?thesis by (simp only: if_True list.sel simp_thms)
  next
    case False
    with assms have "length ps > 1" by (cases ps) auto
    with False batch [OF that] show ?thesis by (simp only: if_True if_False)
  qed
  show ?thesis unfolding repoRoleRules_def Let_def
    by (intro exI conjI ballI, rule refl)
       (simp only: grouped_at at)
qed

lemma Rules_table:
  "\<exists>m. repoRules db ty ids u = Inr m \<and> (\<forall>i \<in> set ids. map_of m i = table_rules_at db ty i u)"
proof (cases "ids = []")
  case False
  have "map_of (toRules (filter (\<lambda>row. po_ResourceType row = ty \<and> reaches db u row \<and> po_ResourceID row \<in> I)
      (db_overwrites db))) i = table_rules_at db ty i u" if "i \<in> I" for i I
  proof -
    have "filter (\<lambda>row. po_ResourceID row = i) (filter (\<lambda>row. po_ResourceType row = ty \<and> reaches db u row \<and>
        po_ResourceID row \<in> I) (db_overwrites db)) =
      filter (\<lambda>row. po_ResourceType row = ty \<and> po_ResourceID row = i \<and> reaches db u row) (db_overwrites db)"
      using that by (auto intro!: filter_cong)
    then show ?thesis by (simp only: toRules_at table_rules_at_def Let_def toOverwrites_def)
  qed
  note batch = this
  show ?thesis
  proof (cases "length ids = 1")
    case True
    then obtain i where "ids = [i]" by (auto simp: length_Suc_conv)
    moreover have "filter (\<lambda>row. po_ResourceType row = ty \<and> po_ResourceID row = i \<and> reaches db u row) (db_overwrites db) =
      filter (\<lambda>row. po_ResourceType row = ty \<and> reaches db u row \<and> po_ResourceID row \<in> {i}) (db_overwrites db)"
      by (auto intro!: filter_cong)
    ultimately show ?thesis using batch [of i "{i}"] by (simp add: repoRules_def)
  next
    case False
    with \<open>ids \<noteq> []\<close> batch [of _ "set ids"] show ?thesis by (simp add: repoRules_def)
  qed
qed (simp add: repoRules_def)


lemma RulesOfType_table:
  "\<exists>m. repoRulesOfType db ty u = Inr m \<and> (\<forall>i. map_of m i = table_rules_at db ty i u)"
proof -
  let ?A = "filter (\<lambda>row. po_UserID row = Some u \<and> po_ResourceType row = ty) (db_overwrites db)"
  let ?B = "filter (\<lambda>row. role_in row (roles_held_of db u) \<and> po_ResourceType row = ty) (db_overwrites db)"
  have "map_of (toRules (?A @ ?B)) i = table_rules_at db ty i u" for i
  proof -
    let ?I = "\<lambda>row. po_ResourceID row = i"
    let ?C = "filter (\<lambda>row. po_ResourceType row = ty \<and> po_ResourceID row = i \<and> reaches db u row) (db_overwrites db)"
    have shape: "(po_UserID row = Some u \<longrightarrow> po_Target row \<noteq> TargetRole) \<and>
        (role_in row (roles_held_of db u) \<longrightarrow> po_Target row = TargetRole)" for row
      using role_in_target [of row] by (auto simp: po_cols)
    have "filter (\<lambda>row. po_Target row \<noteq> TargetRole) (filter ?I ?B) = []"
      "filter (\<lambda>row. po_Target row \<noteq> TargetRole) (filter ?I ?A) = filter (\<lambda>row. po_Target row \<noteq> TargetRole) ?C"
      using shape by (auto simp: reaches_def filter_empty_conv intro!: filter_cong)
    then have person: "filter (\<lambda>row. po_Target row \<noteq> TargetRole) (filter ?I (?A @ ?B)) =
        filter (\<lambda>row. po_Target row \<noteq> TargetRole) ?C"
      by (simp only: filter_append append_Nil2)
    have "filter (\<lambda>row. po_Target row = TargetRole) (filter ?I ?A) = []"
      "filter (\<lambda>row. po_Target row = TargetRole) (filter ?I ?B) = filter (\<lambda>row. po_Target row = TargetRole) ?C"
      using shape by (auto simp: reaches_def filter_empty_conv intro!: filter_cong)
    then have role: "filter (\<lambda>row. po_Target row = TargetRole) (filter ?I (?A @ ?B)) =
        filter (\<lambda>row. po_Target row = TargetRole) ?C"
      by (simp only: filter_append append_Nil)
    have empty: "filter ?I (?A @ ?B) = [] \<longleftrightarrow> ?C = []"
      by (auto simp: filter_empty_conv reaches_def)
    show ?thesis using person role empty
      by (simp only: toRules_at table_rules_at_def Let_def rules_of_rows_def toOverwrites_def filter_map comp_def
          toOverwrite_sel)
  qed
  then show ?thesis by (simp only: repoRulesOfType_def) blast
qed

lemma doc_chain_rows_at:
  assumes "d \<in> set ids"
  shows "filter (\<lambda>p. fst p = d) (doc_chain_rows db ids u) = filter (\<lambda>p. fst p = d) (doc_chain_rows db [d] u)"
proof -
  have "filter (\<lambda>p. fst p = d) (concat (map (\<lambda>e. map (\<lambda>row. (doc_id e, row)) (F e)) (filter (\<lambda>e. doc_id e \<in> set ids) es))) =
    filter (\<lambda>p. fst p = d) (concat (map (\<lambda>e. map (\<lambda>row. (doc_id e, row)) (F e)) (filter (\<lambda>e. doc_id e \<in> set [d]) es)))"
    for F :: "doc_row \<Rightarrow> PermissionOverwrite list" and es
    using assms by (induction es) (auto simp: filter_map comp_def)
  then show ?thesis unfolding doc_chain_rows_def filter_append
    using assms
    by (auto simp: filter_map comp_def intro!: arg_cong [of _ _ "map (\<lambda>row. (po_ResourceID row, row))"] filter_cong)
qed

lemma DocRules_table:
  "\<exists>m. repoDocRules db ids u = Inr m \<and> (\<forall>d \<in> set ids. map_of m d = table_doc_rules db d u)"
proof (cases "ids = []")
  case False
  have mem: "d \<in> fst ` set (doc_chain_rows db ids u) \<longleftrightarrow> d \<in> fst ` set (doc_chain_rows db [d] u)"
    if "d \<in> set ids" for d
  proof -
    have "d \<in> fst ` set xs \<longleftrightarrow> filter (\<lambda>p. fst p = d) xs \<noteq> []" for xs :: "(string \<times> PermissionOverwrite) list"
      by (auto simp: filter_empty_conv)
    then show ?thesis by (simp only: doc_chain_rows_at [OF that])
  qed
  show ?thesis using False mem doc_chain_rows_at [of _ ids db u]
    by (auto simp: repoDocRules_def table_doc_rules_def Let_def filter_map_of_map)
qed (simp add: repoDocRules_def)

interpretation tables: rule_reads "AccessRepo grid db" "table_person_rule db" "table_role_rules db"
    "table_rules_at db" "table_doc_rules db" for grid db
  by unfold_locales
     (simp_all add: AccessRepo_def OwnRules_table RoleRules_table Rules_table RulesOfType_table DocRules_table)

section \<open>The interface of the rule store\<close>

text \<open>
  What the writes rely on: a store of one pair of sets per key, where storing two empty sets removes the
  entry, a stored entry reads back and every other entry is untouched.  The client lemma reads a key after
  any sequence of writes: it holds what the last write to it stored.
\<close>

locale rule_store =
  fixes inv :: "'db \<Rightarrow> bool"
    and get :: "'db \<Rightarrow> 'k \<Rightarrow> ('s \<times> 's) option"
    and put :: "'e \<Rightarrow> 'db \<Rightarrow> 'k \<Rightarrow> 's \<times> 's \<Rightarrow> 'db res"
    and valid :: "'s \<Rightarrow> bool"
    and nothing :: 's
  assumes inv_put: "inv db \<Longrightarrow> put e db k v = Inr db' \<Longrightarrow> inv db'"
    and get_put: "put e db k v = Inr db' \<Longrightarrow> valid (fst v) \<Longrightarrow> valid (snd v) \<Longrightarrow>
      get db' j = (if j = k then (if v = (nothing, nothing) then None else Some v) else get db j)"
begin

lemma put_put:
  "put e db k v = Inr db1 \<Longrightarrow> put e' db1 k w = Inr db2 \<Longrightarrow> valid (fst v) \<Longrightarrow> valid (snd v) \<Longrightarrow>
   valid (fst w) \<Longrightarrow> valid (snd w) \<Longrightarrow> put e'' db k w = Inr db3 \<Longrightarrow> get db2 j = get db3 j"
  by (simp add: get_put)

lemma put_commute:
  "k \<noteq> l \<Longrightarrow> put e db k v = Inr db1 \<Longrightarrow> put e' db1 l w = Inr db2 \<Longrightarrow>
   put e' db l w = Inr db3 \<Longrightarrow> put e db3 k v = Inr db4 \<Longrightarrow> valid (fst v) \<Longrightarrow> valid (snd v) \<Longrightarrow>
   valid (fst w) \<Longrightarrow> valid (snd w) \<Longrightarrow> get db2 j = get db4 j"
  by (simp add: get_put)

lemma get_after_writes:
  assumes "foldl (\<lambda>r (e, k, v). bindr r (\<lambda>db. put e db k v)) (Inr db) ws = Inr db'"
    "\<forall>(e, k, v) \<in> set ws. valid (fst v) \<and> valid (snd v)"
  shows "get db' j = (case find (\<lambda>(e, k, v). k = j) (rev ws) of
     None \<Rightarrow> get db j
   | Some (e, k, v) \<Rightarrow> if v = (nothing, nothing) then None else Some v)"
  using assms
proof (induction ws arbitrary: db' rule: rev_induct)
  case (snoc w ws)
  obtain e k v where w: "w = (e, k, v)" by (cases w)
  from snoc.prems(1) obtain db1 where
    "foldl (\<lambda>r (e, k, v). bindr r (\<lambda>db. put e db k v)) (Inr db) ws = Inr db1" "put e db1 k v = Inr db'"
    by (auto simp: w bindr_Inr_iff)
  with snoc w show ?case by (auto simp: get_put split: option.splits)
qed simp

end

section \<open>Lemmas: the writes\<close>

type_synonym rule_key = "string \<times> string \<times> rule_target"

definition key3 :: "PermissionOverwrite \<Rightarrow> rule_key" where
  "key3 row = (po_ResourceType row, po_ResourceID row, po_For row)"

lemma row_key_eq: "row_key r = row_key r' \<longleftrightarrow> key3 r = key3 r'"
  by (auto simp: row_key_def key3_def po_Target_def po_UserID_def po_RoleID_def coalesce_def
      split: rule_target.splits)

text \<open>A rule read and a rule stored by its key, through the two methods of the repository.\<close>

definition get_rule :: "database \<Rightarrow> rule_key \<Rightarrow> (pset \<times> pset) option" where
  "get_rule db k =
     (case (case k of (ty, i, for_person u) \<Rightarrow> repoGet db ty i u | (ty, i, for_role r) \<Rightarrow> repoGetRole db ty i r) of
        Inl _ \<Rightarrow> None
      | Inr ow \<Rightarrow> Some (ow_Allow ow, ow_Deny ow))"

definition put_rule :: "time \<times> OutboxEvent list \<Rightarrow> database \<Rightarrow> rule_key \<Rightarrow> pset \<times> pset \<Rightarrow> database res" where
  "put_rule e db k v =
     (case k of
        (ty, i, for_person u) \<Rightarrow> repoSet (fst e) db ty i u (fst v) (snd v) (snd e)
      | (ty, i, for_role r) \<Rightarrow> repoSetRole (fst e) db ty i r (fst v) (snd v) (snd e))"

definition key_row :: "rule_key \<Rightarrow> pset \<times> pset \<Rightarrow> time \<Rightarrow> PermissionOverwrite" where
  "key_row k v now =
     \<lparr>po_ResourceType = fst k, po_ResourceID = fst (snd k), po_For = snd (snd k), po_Allow = setJSON (fst v),
      po_Deny = setJSON (snd v), po_CreatedAt = now, po_UpdatedAt = now\<rparr>"

lemma key3_key_row [simp]: "key3 (key_row k v now) = k"
  by (simp add: key3_def key_row_def)

lemma key3_cols:
  "key3 row = (ty, i, for_person u) \<longleftrightarrow> po_ResourceType row = ty \<and> po_ResourceID row = i \<and> po_UserID row = Some u"
  "key3 row = (ty, i, for_role r) \<longleftrightarrow>
     po_ResourceType row = ty \<and> po_ResourceID row = i \<and> po_Target row = TargetRole \<and> po_RoleID row = Some r"
  by (auto simp: key3_def po_UserID_def po_RoleID_def po_Target_def split: rule_target.splits)

lemma get_rule_rows:
  "get_rule db k =
     (case filter (\<lambda>row. key3 row = k) (db_overwrites db) of
        [] \<Rightarrow> None
      | row # _ \<Rightarrow> Some (parseSet (po_Allow row), parseSet (po_Deny row)))"
proof -
  obtain ty i t where k: "k = (ty, i, t)" by (cases k)
  show ?thesis
    by (cases t) (simp_all add: k get_rule_def repoGet_def repoGetRole_def first_row_def key3_cols split: list.splits)
qed

lemma put_rule_rows:
  assumes "put_rule e db k v = Inr db'"
  shows "db_overwrites db' =
     (if v = ([], []) then filter (\<lambda>row. key3 row \<noteq> k) (db_overwrites db)
      else upsert_row (db_overwrites db) (key_row k v (fst e)))"
proof -
  obtain ty i t where k: "k = (ty, i, t)" by (cases k)
  show ?thesis using assms
    by (cases t; cases v) (auto simp: k put_rule_def repoSet_def repoSetRole_def repo_set_def person_row_def role_row_def
        key_row_def key3_cols split: if_splits)
qed

lemma key3_upd [simp]:
  "key3 (row\<lparr>po_Allow := a, po_Deny := d, po_UpdatedAt := n\<rparr>) = key3 row"
  by (simp add: key3_def)

lemma upsert_rows_at:
  "filter (\<lambda>row. key3 row = j) (upsert_row rows new) =
     (if j = key3 new
      then (if filter (\<lambda>row. key3 row = j) rows = [] then [new]
            else map (\<lambda>row. row\<lparr>po_Allow := po_Allow new, po_Deny := po_Deny new, po_UpdatedAt := po_UpdatedAt new\<rparr>)
                   (filter (\<lambda>row. key3 row = j) rows))
      else filter (\<lambda>row. key3 row = j) rows)"
proof -
  let ?u = "\<lambda>row. if key3 row = key3 new
     then row\<lparr>po_Allow := po_Allow new, po_Deny := po_Deny new, po_UpdatedAt := po_UpdatedAt new\<rparr> else row"
  have "filter (\<lambda>row. key3 row = j) (map ?u rows) = map ?u (filter (\<lambda>row. key3 row = j) rows)"
    by (induction rows) auto
  also have "\<dots> = (if j = key3 new
      then map (\<lambda>row. row\<lparr>po_Allow := po_Allow new, po_Deny := po_Deny new, po_UpdatedAt := po_UpdatedAt new\<rparr>)
             (filter (\<lambda>row. key3 row = j) rows)
      else filter (\<lambda>row. key3 row = j) rows)"
    by (auto intro!: map_idI)
  finally have upd: "filter (\<lambda>row. key3 row = j) (map ?u rows) = \<dots>" .
  have mem: "row_key new \<in> set (map row_key rows) \<longleftrightarrow> filter (\<lambda>row. key3 row = key3 new) rows \<noteq> []"
    by (auto simp: filter_empty_conv image_iff row_key_eq) metis
  show ?thesis
  proof (cases "row_key new \<in> set (map row_key rows)")
    case True
    with upd mem show ?thesis by (auto simp: upsert_row_def row_key_eq)
  next
    case False
    with mem show ?thesis by (auto simp: upsert_row_def)
  qed
qed

lemma table_ok_key3: "table_ok rows \<longleftrightarrow> distinct (map key3 rows)"
  unfolding table_ok_def by (induction rows) (auto simp: row_key_eq image_iff)

lemma table_ok_upsert:
  assumes "table_ok rows"
  shows "table_ok (upsert_row rows new)"
proof (cases "row_key new \<in> set (map row_key rows)")
  case True
  then have "map key3 (upsert_row rows new) = map key3 rows" by (auto simp: upsert_row_def)
  with assms show ?thesis by (simp add: table_ok_key3)
next
  case False
  with assms show ?thesis by (auto simp: upsert_row_def table_ok_def)
qed

lemma get_put_rule:
  assumes "put_rule e db k v = Inr db'" "set_ok (fst v)" "set_ok (snd v)"
  shows "get_rule db' j = (if j = k then (if v = ([], []) then None else Some v) else get_rule db j)"
proof (cases "v = ([], [])")
  case True
  have "filter (\<lambda>row. key3 row = j) (filter (\<lambda>row. key3 row \<noteq> k) rows) =
      (if j = k then [] else filter (\<lambda>row. key3 row = j) rows)" for rows
    by (induction rows) auto
  with True put_rule_rows [OF assms(1)] show ?thesis by (simp add: get_rule_rows del: filter_filter)
next
  case False
  let ?new = "key_row k v (fst e)"
  have "parseSet (po_Allow ?new) = fst v" "parseSet (po_Deny ?new) = snd v"
    using assms(2,3) by (simp_all add: key_row_def parseSet_def setJSON_def SetOfStrings_def Actions_def SetOf_id)
  with False put_rule_rows [OF assms(1)] show ?thesis
    by (auto simp: get_rule_rows upsert_rows_at split: list.splits)
qed

interpretation table_store: rule_store "\<lambda>db. table_ok (db_overwrites db)" get_rule put_rule set_ok "[]"
proof
  show "table_ok (db_overwrites db) \<Longrightarrow> put_rule e db k v = Inr db' \<Longrightarrow> table_ok (db_overwrites db')" for db e k v db'
    by (auto simp: put_rule_rows table_ok_upsert) (auto simp: table_ok_def distinct_map_filter)
qed (rule get_put_rule)


section \<open>Properties\<close>


definition example_db :: database where
  "example_db = \<lparr>db_overwrites = [], db_users = [''ann'', ''bob''], db_roles = [''r1''],
     db_member_roles = [\<lparr>mr_workspace = ''w1'', mr_user = ''bob'', mr_role = ''r1'', mr_created = 0\<rparr>], db_docs = [],
     db_folders = [], db_stacks = [], db_projects = [(''p1'', ''w1'')],
     db_computers = [(''c1'', ''ann'')], db_active = [''ann'', ''bob''], db_members = [(''w1'', ''ann''), (''w1'', ''bob'')], db_outbox = []\<rparr>"


text \<open>C28. A list of projects is filtered by the single check: over the repository's tables, the projects a
  list returns for an action are, in order, exactly those of the workspace in which a check of that action on
  the project answers yes.\<close>

theorem ProjectsWith_exact:
  assumes "svc_repo s = AccessRepo grid db" "svc_scopes s = Some sc" "sc_ProjectIDs sc w = Inr ps"
    "u \<noteq> []" "w \<noteq> []" "[] \<notin> set ps"
  shows "ProjectsWith s c u w a = Inr (filter (\<lambda>p. fst (check s c u w p a [] [])) ps)"
  using assms by (rule tables.ProjectsWith_single)

definition example_role :: HeldRole where
  "example_role = \<lparr>hr_ID = ''r1'', hr_IsOwner = False, hr_Permissions = SetOf [DocsRead, PlaysRead]\<rparr>"

definition example_scopes :: Scopes where
  "example_scopes =
     \<lparr>sc_WorkspaceIDForProject = (\<lambda>p. if p \<in> {''p1'', ''p2''} then Inr ''w1'' else Inl (sentinel_err ErrNotFound)),
      sc_ProjectIDs = (\<lambda>w. Inr [''p1'', ''p2'']), sc_WorkspaceIDsForUser = (\<lambda>u. Inr [''w1''])\<rparr>"

definition example_service :: "database \<Rightarrow> Service" where
  "example_service db =
     (NewService (AccessRepo (\<lambda>w. Inl (sentinel_err ErrNotFound)) db) (Inr []))
       \<lparr>svc_roles := Some (\<lambda>w u. if w = ''w1'' \<and> u = ''bob'' then Inr (RolesHeld [example_role])
                               else Inl (sentinel_err ErrNotFound)),
        svc_scopes := Some example_scopes\<rparr>"

theorem ProjectsWith_exact_witness:
  "ProjectsWith (example_service example_db) (person_ctx ''bob'') ''bob'' ''w1'' DocsRead =
     Inr (filter (\<lambda>p. fst (check (example_service example_db) (person_ctx ''bob'') ''bob'' ''w1'' p DocsRead [] []))
       [''p1'', ''p2''])"
  by (rule ProjectsWith_exact [where db = example_db and sc = example_scopes])
     (simp_all add: example_service_def NewService_def example_scopes_def)

text \<open>A list of plays is decided by the single check: over the repository's tables the answer for each
  play asked about, from one read of the rules of all of them, is the one \<open>HasPermission\<close> gives for that
  play alone.\<close>

theorem PlaysWith_exact:
  assumes "svc_repo s = AccessRepo grid db" "u \<noteq> []" "i \<in> set ids" "i \<noteq> []"
  shows "map_of (PlaysWith s c u w a ids) i = Some (HasPermission s c u w a resourceTypePlay i)"
  using assms by (rule tables.PlaysWith_single)

theorem PlaysWith_exact_witness:
  "map_of (PlaysWith (example_service example_db) (person_ctx ''bob'') ''bob'' ''w1'' PlaysRead [''x'', ''y'']) ''y'' =
     Some (HasPermission (example_service example_db) (person_ctx ''bob'') ''bob'' ''w1'' PlaysRead resourceTypePlay ''y'')"
  by (rule PlaysWith_exact) (simp_all add: example_service_def NewService_def)

text \<open>C29. A list of docs is decided by the single check: where the doc lookup answers for each doc of a batch
  what it answers for the doc alone, \<open>CanDocs\<close> gives for each doc the answer of \<open>Can\<close>, its folder's and
  its own rules read for all docs at once.\<close>

theorem CanDocs_exact:
  assumes "svc_repo s = AccessRepo grid db" "u \<noteq> []" "d \<in> set ids"
    "scope_at (docScopesIn s p ids) d = scope_at (docScopes s [d]) d"
  shows "map_of (CanDocs s c u p ids a) d = Some (Can s c u d a)"
  using assms by (rule tables.CanDocs_single)

definition example_docs :: DocWorkspaceResolver where
  "example_docs =
     \<lparr>dw_DocScopes = (\<lambda>ids. Inr (map (\<lambda>i. (i, \<lparr>ds_WorkspaceID = ''w1'', ds_ProjectID = ''p1'', ds_FolderID = ''f''\<rparr>)) ids)),
      dw_FolderScope = (\<lambda>f. Inr \<lparr>ds_WorkspaceID = ''w1'', ds_ProjectID = ''p1'', ds_FolderID = f\<rparr>)\<rparr>"

theorem CanDocs_exact_witness:
  "map_of (CanDocs ((example_service example_db)\<lparr>svc_docWorkspace := Some example_docs\<rparr>) (person_ctx ''bob'')
      ''bob'' [] [''d1'', ''d2''] DocsRead) ''d2'' =
     Some (Can ((example_service example_db)\<lparr>svc_docWorkspace := Some example_docs\<rparr>) (person_ctx ''bob'')
      ''bob'' ''d2'' DocsRead)"
  by (rule CanDocs_exact)
     (simp_all add: example_service_def NewService_def docScopesIn_def docScopes_def example_docs_def scope_at_def)

text \<open>The channels a list leaves out are the ones the read check refuses: for a member who is not the
  Owner, a channel whose lookup answers and which is public or has them among its members is denied in the
  batch exactly when \<open>channelRead\<close> refuses it.\<close>

theorem ChannelsDenied_exact:
  assumes "svc_repo s = AccessRepo grid db" "member_info s c u w = Some info" "\<not> ri_IsOwnerRole info"
    "i \<in> set ids" "channelScope s i = Inr scope" "cs_Private scope \<longrightarrow> u \<in> set (cs_MemberIDs scope)"
  shows "\<exists>denied. ChannelsDenied s c u w ids = Inr denied \<and> (i \<in> set denied \<longleftrightarrow> \<not> fst (channelRead s c u w i True))"
  using tables.ChannelsDenied_single [OF assms(1,2), of ids]
    tables.channelRead_member [OF assms(1,2,3,5,6)] assms(3,4) by simp

theorem ChannelsDenied_exact_witness:
  "\<exists>denied. ChannelsDenied ((example_service example_db)\<lparr>svc_channels := Some (\<lambda>i. Inr (no_channel_scope\<lparr>cs_WorkspaceID := ''w1''\<rparr>))\<rparr>)
      (person_ctx ''bob'') ''bob'' ''w1'' [''c1'', ''c2''] = Inr denied \<and>
    (''c1'' \<in> set denied \<longleftrightarrow>
      \<not> fst (channelRead ((example_service example_db)\<lparr>svc_channels := Some (\<lambda>i. Inr (no_channel_scope\<lparr>cs_WorkspaceID := ''w1''\<rparr>))\<rparr>)
        (person_ctx ''bob'') ''bob'' ''w1'' ''c1'' True))"
  by (rule ChannelsDenied_exact [where info = "RolesHeld [example_role]"
      and scope = "no_channel_scope\<lparr>cs_WorkspaceID := ''w1''\<rparr>"])
     (simp_all add: example_service_def NewService_def member_info_def memberRole_def viewedWorkspace_def person_ctx_def
       channelScope_def no_channel_scope_def example_role_def)

end
