(* ===== verification/Access_Area.thy ===== *)
theory Access_Area
  imports Access_Storage
begin

text \<open>
  Instance areas (\<^verbatim>\<open>internal/access/area.go\<close> and the instance-level gates of \<^verbatim>\<open>gate.go\<close> and
  \<^verbatim>\<open>usecase.go\<close>): rules on the parts of the instance that belong to no workspace, held by the roles of any
  workspace, by the area's rules, and always by the instance Owner, the Owner of the default workspace.
\<close>

section \<open>Areas\<close>

definition SetInstanceAreas :: "Service \<Rightarrow> string \<Rightarrow> InstanceArea list \<Rightarrow> Service" where
  "SetInstanceAreas s ownerWorkspaceID connectors =
     s\<lparr>svc_ownerWorkspace := ownerWorkspaceID, svc_connectorAreas := connectors\<rparr>"

definition svc_InstanceAreas :: "Service \<Rightarrow> InstanceArea list" where
  "svc_InstanceAreas s = InstanceAreas @ svc_connectorAreas s"

definition instanceArea :: "Service \<Rightarrow> string \<Rightarrow> InstanceArea option" where
  "instanceArea s key = find (\<lambda>a. area_Key a = key) (svc_InstanceAreas s)"

definition IsInstanceOwner :: "Service \<Rightarrow> ctx \<Rightarrow> string \<Rightarrow> bool res" where
  "IsInstanceOwner s c userID =
     (if userID = [] \<or> svc_ownerWorkspace s = [] then Inr False
      else IsOwner s c userID (svc_ownerWorkspace s))"

definition ownerHolds :: "Service \<Rightarrow> string \<Rightarrow> string \<Rightarrow> action \<Rightarrow> bool" where
  "ownerHolds s workspaceID area a \<longleftrightarrow>
     workspaceID = svc_ownerWorkspace s \<or> (area = [] \<and> AreaOf a \<noteq> AreaInstance)"

section \<open>The decision on an area\<close>

text \<open>The loop over the workspaces: it ends early at an Owner whose role settles the action (\<open>Inl\<close>), else it
  carries the answer so far, its source, the roles held everywhere and whether one of them is an Owner's.\<close>

fun decideArea_loop ::
  "Service \<Rightarrow> ctx \<Rightarrow> string \<Rightarrow> string \<Rightarrow> action \<Rightarrow> string list \<Rightarrow> bool \<Rightarrow> Source \<Rightarrow> string list \<Rightarrow> bool \<Rightarrow>
   (bool \<times> Source) + (bool \<times> Source \<times> string list \<times> bool)" where
  "decideArea_loop s c userID area a [] allowed src held ownsAnother = Inr (allowed, src, held, ownsAnother)"
| "decideArea_loop s c userID area a (w # rest) allowed src held ownsAnother =
     (let ws = layers s c userID w []
      in if ws_owner ws \<and> ownerHolds s w area a then Inl (decide ws a noRules)
         else
           let owns = ownsAnother \<or> ws_owner ws;
               ids = held @ roleIDs (ws_roles ws)
           in if allowed then decideArea_loop s c userID area a rest allowed src ids owns
              else let (g, from) = granted ws a
                   in if g \<or> roleIDs (ws_roles ws) \<noteq> []
                      then decideArea_loop s c userID area a rest g from ids owns
                      else decideArea_loop s c userID area a rest allowed src ids owns)"

definition decideArea :: "Service \<Rightarrow> ctx \<Rightarrow> string \<Rightarrow> string \<Rightarrow> action \<Rightarrow> bool \<Rightarrow> (bool \<times> Source) res" where
  "decideArea s c userID area a own =
     bindr (workspacesOf s c userID) (\<lambda>workspaceIDs.
     case decideArea_loop s c userID area a workspaceIDs False
            (sourceOf SourceRole resourceTypeWorkspace [] TargetPerson userID False) [] False of
       Inl answer \<Rightarrow> Inr answer
     | Inr (allowed, src, held, ownsAnother) \<Rightarrow>
         let src = (if ownsAnother \<and> \<not> allowed
                    then sourceOf SourceInstanceOwner resourceTypeInstanceArea area TargetPerson userID False
                    else src)
         in if area = [] then Inr (allowed, src)
            else bindr (map_errr (wrapf (''instance area rules of '' @ userID))
                          (repo_RulesOfType (svc_repo s) resourceTypeInstanceArea userID)) (\<lambda>rules.
                 let r = map_of rules area;
                     r = (if own then r else personAtFallback r a)
                 in Inr (applyRules allowed src r held a)))"

definition HoldsArea :: "Service \<Rightarrow> ctx \<Rightarrow> string \<Rightarrow> string \<Rightarrow> action \<Rightarrow> bool res" where
  "HoldsArea s c userID area a = bindr (decideArea s c userID area a True) (\<lambda>(held, _). Inr held)"

definition RequireArea :: "Service \<Rightarrow> ctx \<Rightarrow> string \<Rightarrow> action \<Rightarrow> unit res" where
  "RequireArea s c area a =
     (let (userID, checked) = caller c
      in if \<not> checked then Inr ()
         else bindr (decideArea s c userID area a True) (\<lambda>(held, src).
              if \<not> held then Inl (refusal s a src) else Inr ()))"

definition onlyInstanceOwner :: "Source \<Rightarrow> string \<Rightarrow> Source" where
  "onlyInstanceOwner src area =
     (if src_Kind src \<noteq> SourceRole \<or> src_State src \<noteq> StateDeny then src
      else sourceOf SourceInstanceOwner resourceTypeInstanceArea area (src_TargetType src) (src_TargetID src) False)"

fun heldOn_loop :: "Service \<Rightarrow> ctx \<Rightarrow> string \<Rightarrow> action \<Rightarrow> string list \<Rightarrow> bool res" where
  "heldOn_loop s c userID a [] = Inr False"
| "heldOn_loop s c userID a (area # rest) =
     (case HoldsArea s c userID area a of
        Inl e \<Rightarrow> Inl e
      | Inr held \<Rightarrow> if held then Inr held else heldOn_loop s c userID a rest)"

definition heldOnAnyArea :: "Service \<Rightarrow> ctx \<Rightarrow> string \<Rightarrow> action \<Rightarrow> bool res" where
  "heldOnAnyArea s c userID a =
     (let keys = map area_Key (filter (\<lambda>r. a \<in> set (area_Actions r)) (svc_InstanceAreas s))
      in heldOn_loop s c userID a (if keys = [] then [[]] else keys))"

definition checkArea :: "Service \<Rightarrow> string \<Rightarrow> string \<Rightarrow> action list \<Rightarrow> unit res" where
  "checkArea s resourceType key actions =
     (if resourceType \<noteq> resourceTypeInstanceArea then Inr ()
      else case instanceArea s key of
        None \<Rightarrow> Inl (errorf ErrNotFound (''instance area '' @ go_q key))
      | Some area \<Rightarrow>
          (case find (\<lambda>a. a \<notin> set (area_Actions area)) actions of
             None \<Rightarrow> Inr ()
           | Some a \<Rightarrow> Inl (errorf ErrInvalid (a @ '' is not set on '' @ area_Label area @ ''; its rules set '' @
                 set_String (SetOf (area_Actions area))))))"

definition requireInstanceOwner :: "Service \<Rightarrow> ctx \<Rightarrow> string \<Rightarrow> unit res" where
  "requireInstanceOwner s c actorID =
     bindr (IsInstanceOwner s c actorID) (\<lambda>owner.
     guardr owner (errorf ErrForbidden ''only the instance Owner manages an instance area's access''))"

section \<open>Instance-level gates\<close>

definition RequireAnywhere :: "Service \<Rightarrow> ctx \<Rightarrow> action \<Rightarrow> unit res" where
  "RequireAnywhere s c a = RequireArea s c (InstanceAreaOf a) a"

definition HoldsAnywhere :: "Service \<Rightarrow> ctx \<Rightarrow> string \<Rightarrow> action \<Rightarrow> bool res" where
  "HoldsAnywhere s c userID a = HoldsArea s c userID (InstanceAreaOf a) a"

definition PermissionsAnywhere :: "Service \<Rightarrow> ctx \<Rightarrow> string \<Rightarrow> string list res" where
  "PermissionsAnywhere s c userID =
     bindr (mapr (\<lambda>a. bindr (heldOnAnyArea s c userID a) (\<lambda>held. Inr (a, held))) AllActions) (\<lambda>rows.
     Inr (map fst (filter snd rows)))"

definition WorkspacesOf :: "Service \<Rightarrow> ctx \<Rightarrow> string \<Rightarrow> string list res" where
  "WorkspacesOf s c userID = workspacesOf s c userID"

definition GrantablePermissions :: "Service \<Rightarrow> ctx \<Rightarrow> string \<Rightarrow> string \<Rightarrow> string list" where
  "GrantablePermissions s c userID workspaceID =
     filter (\<lambda>a. if AreaOf a \<noteq> AreaInstance then True
                 else (case heldOnAnyArea s c userID a of Inl _ \<Rightarrow> False | Inr held \<Rightarrow> held))
       (WorkspacePermissions s c userID workspaceID)"

section \<open>Explanations of an area\<close>

definition verdict :: "namer \<Rightarrow> bool \<times> Source \<Rightarrow> Verdict" where
  "verdict n v = \<lparr>verdict_Allowed = fst v, verdict_Source = named n (snd v)\<rparr>"

definition explainArea :: "Service \<Rightarrow> ctx \<Rightarrow> string \<Rightarrow> string \<Rightarrow> string \<Rightarrow> Explanation res" where
  "explainArea s c actorID key userID =
     (case instanceArea s key of
        None \<Rightarrow> Inl (errorf ErrNotFound (''instance area '' @ go_q key))
      | Some area \<Rightarrow>
          bindr (if userID \<noteq> actorID then requireInstanceOwner s c actorID else Inr ()) (\<lambda>_.
          bindr (mapr (\<lambda>a.
              bindr (decideArea s c userID key a True) (\<lambda>held.
              bindr (decideArea s c userID key a False) (\<lambda>inherited.
              Inr \<lparr>answer_Action = a, answer_Verdict = verdict (service_namer s) held,
                   answer_Fallback = verdict (service_namer s) inherited, answer_Requires = None\<rparr>)))
            (area_Actions area)) (\<lambda>answers.
          Inr \<lparr>expl_ResourceType = resourceTypeInstanceArea, expl_ResourceID = key, expl_UserID = userID,
               expl_RoleID = [], expl_Effective = answers\<rparr>)))"

definition explainRoleArea :: "Service \<Rightarrow> ctx \<Rightarrow> string \<Rightarrow> string \<Rightarrow> string \<Rightarrow> Explanation res" where
  "explainRoleArea s c actorID key roleID =
     (case instanceArea s key of
        None \<Rightarrow> Inl (errorf ErrNotFound (''instance area '' @ go_q key))
      | Some area \<Rightarrow>
          bindr (requireInstanceOwner s c actorID) (\<lambda>_.
          case svc_roleWorkspace s of
            None \<Rightarrow> Inl (errorf ErrForbidden ''no role lookup wired'')
          | Some rw \<Rightarrow>
              bindr (map_errr (wrapf (''resolve role '' @ roleID)) (rw_WorkspaceIDForRole rw roleID)) (\<lambda>workspaceID.
              bindr (map_errr (wrapf (''read role '' @ roleID)) (rw_HeldRole rw roleID)) (\<lambda>role.
              bindr (map_errr (wrapf (''rules for role '' @ roleID @ '' on '' @ key))
                       (repo_RoleRules (svc_repo s) resourceTypeInstanceArea [key] [roleID])) (\<lambda>rules.
              let own = (case map_of rules key of None \<Rightarrow> [] | Some rs \<Rightarrow> rs);
                  role = role\<lparr>hr_ID := roleID\<rparr>;
                  instanceOwner = (hr_IsOwner role \<and> workspaceID = svc_ownerWorkspace s);
                  ws = (bare_layers [] workspaceID [])
                         \<lparr>ws_member := True, ws_owner := instanceOwner, ws_roles := RolesHeld [role]\<rparr>;
                  reword = (\<lambda>v. if hr_IsOwner role \<and> \<not> instanceOwner then (fst v, onlyInstanceOwner (snd v) key) else v)
              in Inr \<lparr>expl_ResourceType = resourceTypeInstanceArea, expl_ResourceID = key, expl_UserID = [],
                      expl_RoleID = roleID,
                      expl_Effective = map (\<lambda>a.
                        \<lparr>answer_Action = a,
                         answer_Verdict = verdict (service_namer s)
                           (reword (decide ws a [Some \<lparr>rules_Person = None, rules_Roles = own\<rparr>])),
                         answer_Fallback = verdict (service_namer s)
                           (reword (decide ws a [Some \<lparr>rules_Person = None, rules_Roles = atFallback own a\<rparr>])),
                         answer_Requires = None\<rparr>) (area_Actions area)\<rparr>)))))"

section \<open>Lemmas\<close>

definition owner_settles :: "Service \<Rightarrow> ctx \<Rightarrow> string \<Rightarrow> string \<Rightarrow> action \<Rightarrow> string \<Rightarrow> bool" where
  "owner_settles s c u area a w \<longleftrightarrow> ri_IsOwnerRole (roles_of (member_info s c u w)) \<and> ownerHolds s w area a"

lemma decideArea_loop_Inl:
  "decideArea_loop s c u area a ws allowed src held owns = Inl v \<Longrightarrow>
   \<exists>w \<in> set ws. owner_settles s c u area a w \<and> v = decide (layers s c u w []) a noRules"
  by (induction ws arbitrary: allowed src held owns)
     (auto simp: Let_def owner_settles_def case_prod_unfold split: if_splits)

definition granted_somewhere :: "Service \<Rightarrow> ctx \<Rightarrow> string \<Rightarrow> action \<Rightarrow> string list \<Rightarrow> bool" where
  "granted_somewhere s c u a ws \<longleftrightarrow> (\<exists>w \<in> set ws. Has (ri_Permissions (roles_of (member_info s c u w))) a)"

definition owner_somewhere :: "Service \<Rightarrow> ctx \<Rightarrow> string \<Rightarrow> string list \<Rightarrow> bool" where
  "owner_somewhere s c u ws \<longleftrightarrow> (\<exists>w \<in> set ws. ri_IsOwnerRole (roles_of (member_info s c u w)))"

definition held_everywhere :: "Service \<Rightarrow> ctx \<Rightarrow> string \<Rightarrow> string list \<Rightarrow> string list" where
  "held_everywhere s c u ws = concat (map (\<lambda>w. roleIDs (roles_of (member_info s c u w))) ws)"

definition members_ok :: "Service \<Rightarrow> ctx \<Rightarrow> string \<Rightarrow> string list \<Rightarrow> bool" where
  "members_ok s c u ws \<longleftrightarrow> (\<forall>w \<in> set ws. roles_ok (roles_of (member_info s c u w)))"

lemma somewhere_Cons:
  "granted_somewhere s c u a (w # ws) \<longleftrightarrow>
     Has (ri_Permissions (roles_of (member_info s c u w))) a \<or> granted_somewhere s c u a ws"
  "owner_somewhere s c u (w # ws) \<longleftrightarrow> ri_IsOwnerRole (roles_of (member_info s c u w)) \<or> owner_somewhere s c u ws"
  "held_everywhere s c u (w # ws) = roleIDs (roles_of (member_info s c u w)) @ held_everywhere s c u ws"
  "members_ok s c u (w # ws) \<longleftrightarrow> roles_ok (roles_of (member_info s c u w)) \<and> members_ok s c u ws"
  by (simp_all add: granted_somewhere_def owner_somewhere_def held_everywhere_def members_ok_def)

lemma somewhere_Nil:
  "\<not> granted_somewhere s c u a []" "\<not> owner_somewhere s c u []" "held_everywhere s c u [] = []"
  by (simp_all add: granted_somewhere_def owner_somewhere_def held_everywhere_def)

lemma layers_ok_layers: "roles_ok (roles_of (member_info s c u w)) \<Longrightarrow> layers_ok (layers s c u w p)"
  by (cases "member_info s c u w") (auto simp: layers_ok_def)

text \<open>When no Owner settles the action: the answer is whether some role in some workspace grants it, the
  roles are those held everywhere, and the source agrees with the answer.\<close>

lemma decideArea_loop_Inr:
  assumes "\<forall>w \<in> set ws. \<not> owner_settles s c u area a w"
  shows "\<exists>src'. decideArea_loop s c u area a ws allowed src held owns =
      Inr (allowed \<or> granted_somewhere s c u a ws, src', held @ held_everywhere s c u ws,
           owns \<or> owner_somewhere s c u ws) \<and>
    (agrees (allowed, src) \<longrightarrow> members_ok s c u ws \<longrightarrow> agrees (allowed \<or> granted_somewhere s c u a ws, src'))"
  using assms
proof (induction ws arbitrary: allowed src held owns)
  case Nil
  then show ?case by (simp add: somewhere_Nil)
next
  case (Cons w ws)
  let ?L = "layers s c u w []"
  let ?r = "roles_of (member_info s c u w)"
  have no: "\<not> (ri_IsOwnerRole ?r \<and> ownerHolds s w area a)" and rest: "\<forall>w \<in> set ws. \<not> owner_settles s c u area a w"
    using Cons.prems by (auto simp: owner_settles_def)
  have g: "fst (granted ?L a) = Has (ri_Permissions ?r) a" by simp
  define b where "b = (if allowed \<or> \<not> (Has (ri_Permissions ?r) a \<or> roleIDs ?r \<noteq> []) then allowed else Has (ri_Permissions ?r) a)"
  define f where "f = (if allowed \<or> \<not> (Has (ri_Permissions ?r) a \<or> roleIDs ?r \<noteq> []) then src else snd (granted ?L a))"
  have step: "decideArea_loop s c u area a (w # ws) allowed src held owns =
      decideArea_loop s c u area a ws b f (held @ roleIDs ?r) (owns \<or> ri_IsOwnerRole ?r)"
    using no g by (auto simp: Let_def case_prod_unfold b_def f_def)
  have ag: "agrees (allowed, src) \<Longrightarrow> roles_ok ?r \<Longrightarrow> agrees (b, f)"
    using granted_state [OF layers_ok_layers, of s c u w "[]" a] by (auto simp: b_def f_def)
  have same: "(b \<or> granted_somewhere s c u a ws) = (allowed \<or> granted_somewhere s c u a (w # ws))"
    by (auto simp: somewhere_Cons b_def)
  from Cons.IH [OF rest, of b f "held @ roleIDs ?r" "owns \<or> ri_IsOwnerRole ?r"] ag show ?case
    unfolding step same by (simp only: somewhere_Cons append_assoc disj_assoc) blast
qed

lemma applyRules_None [simp]: "applyRules b src None ids a = (b, src)"
  by (simp add: applyRules_def)

lemma rule_verdict_None [simp]: "rule_verdict None ids a = None"
  by (simp add: rule_verdict_def)

lemma decideArea_eq:
  fixes own :: bool
  assumes "workspacesOf s c u = Inr ws"
    "repo_RulesOfType (svc_repo s) resourceTypeInstanceArea u = Inr rules"
    "\<forall>w \<in> set ws. \<not> owner_settles s c u area a w"
  defines "r \<equiv> (if area = [] then None else if own then map_of rules area else personAtFallback (map_of rules area) a)"
  shows "\<exists>src. decideArea s c u area a own =
      Inr (applyRules (granted_somewhere s c u a ws) src r (held_everywhere s c u ws) a) \<and>
    (members_ok s c u ws \<longrightarrow> agrees (granted_somewhere s c u a ws, src))"
proof -
  obtain src where l: "decideArea_loop s c u area a ws False
      (sourceOf SourceRole resourceTypeWorkspace [] TargetPerson u False) [] False =
      Inr (granted_somewhere s c u a ws, src, held_everywhere s c u ws, owner_somewhere s c u ws)"
    "members_ok s c u ws \<longrightarrow> agrees (granted_somewhere s c u a ws, src)"
    using decideArea_loop_Inr [OF assms(3), of False "sourceOf SourceRole resourceTypeWorkspace [] TargetPerson u False" "[]" False]
    by auto
  define src' where "src' = (if owner_somewhere s c u ws \<and> \<not> granted_somewhere s c u a ws
    then sourceOf SourceInstanceOwner resourceTypeInstanceArea area TargetPerson u False else src)"
  have "decideArea s c u area a own = Inr (applyRules (granted_somewhere s c u a ws) src' r (held_everywhere s c u ws) a)"
    using assms(1,2) l(1) by (auto simp: decideArea_def src'_def r_def Let_def)
  moreover have "members_ok s c u ws \<longrightarrow> agrees (granted_somewhere s c u a ws, src')"
    using l(2) by (simp add: src'_def)
  ultimately show ?thesis by blast
qed


lemma decideArea_owner:
  assumes "workspacesOf s c u = Inr ws" "w \<in> set ws" "owner_settles s c u area a w"
  shows "\<exists>src. decideArea s c u area a own = Inr (True, src) \<and> src_Kind src = SourceOwner \<and> src_State src = StateAllow"
proof (cases "decideArea_loop s c u area a ws False (sourceOf SourceRole resourceTypeWorkspace [] TargetPerson u False) [] False")
  case (Inl v)
  from decideArea_loop_Inl [OF this] obtain w' where "owner_settles s c u area a w'"
    "v = decide (layers s c u w' []) a noRules" by blast
  with Inl assms(1) show ?thesis by (auto simp: decideArea_def decide_def owner_settles_def)
next
  case (Inr v)
  have "\<exists>v. decideArea_loop s c u area a ws allowed src held owns = Inl v" for allowed src held owns
    using assms(2)
  proof (induction ws arbitrary: allowed src held owns)
    case (Cons x xs)
    then show ?case using assms(3) by (auto simp: Let_def owner_settles_def case_prod_unfold)
  qed simp
  with Inr show ?thesis by (metis sum.distinct(1))
qed

lemma decideArea_agrees:
  assumes "workspacesOf s c u = Inr ws" "members_ok s c u ws" "decideArea s c u area a own = Inr v"
  shows "agrees v"
proof (cases "\<exists>w \<in> set ws. owner_settles s c u area a w")
  case True
  then obtain w where "w \<in> set ws" "owner_settles s c u area a w" by blast
  from decideArea_owner [OF assms(1) this, of own] assms(3) show ?thesis by auto
next
  case False
  then have no: "\<forall>w \<in> set ws. \<not> owner_settles s c u area a w" by blast
  let ?src = "sourceOf SourceRole resourceTypeWorkspace [] TargetPerson u False"
  obtain src' where l: "decideArea_loop s c u area a ws False ?src [] False =
      Inr (granted_somewhere s c u a ws, src', held_everywhere s c u ws, owner_somewhere s c u ws)"
    "agrees (granted_somewhere s c u a ws, src')"
    using decideArea_loop_Inr [OF no, of False ?src "[]" False] assms(2) by auto
  show ?thesis
  proof (cases "repo_RulesOfType (svc_repo s) resourceTypeInstanceArea u")
    case (Inl e)
    with l assms(1,3) show ?thesis by (auto simp: decideArea_def Let_def split: if_splits)
  next
    case (Inr rules)
    from decideArea_eq [OF assms(1) Inr no, of own] assms(2,3) show ?thesis by (auto intro: applyRules_agrees)
  qed
qed

section \<open>Properties\<close>

text \<open>Who holds an action on an instance area: a person owning a workspace whose Owner role settles it
  (the instance Owner always, any Owner for an action of no instance area), and otherwise what the area's
  rules say for them and the roles they hold in any workspace, or when those are silent whether one of those
  roles carries the action.\<close>

theorem HoldsArea_spec:
  assumes "workspacesOf s c u = Inr ws"
    "repo_RulesOfType (svc_repo s) resourceTypeInstanceArea u = Inr rules"
  shows "HoldsArea s c u area a =
    Inr ((\<exists>w \<in> set ws. owner_settles s c u area a w) \<or>
         (case rule_verdict (if area = [] then None else map_of rules area) (held_everywhere s c u ws) a of
            Some b \<Rightarrow> b
          | None \<Rightarrow> granted_somewhere s c u a ws))"
proof (cases "\<exists>w \<in> set ws. owner_settles s c u area a w")
  case True
  then obtain w where "w \<in> set ws" "owner_settles s c u area a w" by blast
  from decideArea_owner [OF assms(1) this, of True] True show ?thesis by (auto simp: HoldsArea_def)
next
  case False
  then have "\<forall>w \<in> set ws. \<not> owner_settles s c u area a w" by blast
  from decideArea_eq [OF assms this, of True] False show ?thesis
    by (auto simp: HoldsArea_def case_prod_unfold applyRules_answer split: option.splits)
qed

theorem HoldsArea_spec_witness:
  "HoldsArea (SetInstanceAreas (example_service example_db) ''w0'' []) (person_ctx ''bob'') ''bob'' ''dns'' DNSRead = Inr False"
  using HoldsArea_spec [of "SetInstanceAreas (example_service example_db) ''w0'' []" "person_ctx ''bob''" "''bob''" "[''w1'']" "[]" "''dns''" DNSRead]
  by (simp add: SetInstanceAreas_def example_service_def NewService_def workspacesOf_def memberWorkspaces_def example_scopes_def
      AccessRepo_def repoRulesOfType_def example_db_def toRules_def toOverwrites_def viewedWorkspace_def person_ctx_def
      owner_settles_def ownerHolds_def rule_verdict_def granted_somewhere_def member_info_def memberRole_def RolesHeld_def
      example_role_def AreaOf_def roles_of_def)

text \<open>The source of an instance-area answer agrees with it, with the person's own rule counted or at
  Fallback, whenever the membership reads yield well-formed roles; a refusal never cites a source that
  allows.\<close>

theorem decideArea_source_agrees:
  assumes "workspacesOf s c u = Inr ws" "members_ok s c u ws"
  shows "case decideArea s c u area a own of
     Inl _ \<Rightarrow> True
   | Inr (held, src) \<Rightarrow> src_State src = (if held then StateAllow else StateDeny)"
  using decideArea_agrees [OF assms, of area a own]
  by (auto simp: agrees_def split: sum.splits prod.splits)

theorem decideArea_source_agrees_witness:
  "case decideArea (example_service example_db) (person_ctx ''bob'') ''bob'' ''dns'' DNSRead True of
     Inl _ \<Rightarrow> True
   | Inr (held, src) \<Rightarrow> src_State src = (if held then StateAllow else StateDeny)"
  by (rule decideArea_source_agrees [where ws = "[''w1'']"])
     (simp_all add: workspacesOf_def memberWorkspaces_def example_service_def NewService_def example_scopes_def
       viewedWorkspace_def person_ctx_def members_ok_def member_info_def memberRole_def)

text \<open>Nobody puts an instance-area action on a role by owning a workspace: what a person may put on a role of
  a workspace is exactly what they hold there by their roles, less each instance-area action they do not hold
  on some area at instance level; an error of that check counts as not holding it.\<close>

theorem GrantablePermissions_exact:
  "GrantablePermissions s c u w =
     filter (\<lambda>a. if AreaOf a = AreaInstance then heldOnAnyArea s c u a = Inr True else True)
       (WorkspacePermissions s c u w) \<and>
   (heldOnAnyArea s c u a = Inr True \<longleftrightarrow>
     (let keys = map area_Key (filter (\<lambda>r. a \<in> set (area_Actions r)) (svc_InstanceAreas s))
      in find (\<lambda>r. r \<noteq> Inr False) (map (\<lambda>k. HoldsArea s c u k a) (if keys = [] then [[]] else keys)) = Some (Inr True)))"
proof
  have "(case h of Inl _ \<Rightarrow> False | Inr held \<Rightarrow> held) \<longleftrightarrow> h = Inr True" for h :: "bool res"
    by (cases h) auto
  then show "GrantablePermissions s c u w =
     filter (\<lambda>a. if AreaOf a = AreaInstance then heldOnAnyArea s c u a = Inr True else True)
       (WorkspacePermissions s c u w)"
    by (simp add: GrantablePermissions_def cong: filter_cong)
  have loop: "heldOn_loop s c u a ks = Inr True \<longleftrightarrow>
      find (\<lambda>r. r \<noteq> Inr False) (map (\<lambda>k. HoldsArea s c u k a) ks) = Some (Inr True)" for ks
    by (induction ks) (auto split: sum.splits)
  show "heldOnAnyArea s c u a = Inr True \<longleftrightarrow>
     (let keys = map area_Key (filter (\<lambda>r. a \<in> set (area_Actions r)) (svc_InstanceAreas s))
      in find (\<lambda>r. r \<noteq> Inr False) (map (\<lambda>k. HoldsArea s c u k a) (if keys = [] then [[]] else keys)) = Some (Inr True))"
    unfolding heldOnAnyArea_def Let_def loop ..
qed

end
