(* ===== verification/Access_Machine.thy ===== *)
theory Access_Machine
  imports Access_Area
begin

text \<open>
  Machines (\<^verbatim>\<open>internal/access/machine.go\<close>, with \<^verbatim>\<open>requireRolesOf\<close> and \<^verbatim>\<open>workspaceOf\<close> of
  \<^verbatim>\<open>usecase.go\<close>): a machine is seen only through its rules, whatever the roles carry, and only a machine
  that is seen can be acted on; the instance Owner sees and holds everything.  A view is the Go closure: a
  function from an action, and whether the holder's own rule counts as Fallback, to an answer.
\<close>

section \<open>Where a resource lives\<close>

definition workspaceOf :: "Service \<Rightarrow> string \<Rightarrow> string \<Rightarrow> string" where
  "workspaceOf s resourceType resourceID =
     (if resourceType = resourceTypeFolder then ds_WorkspaceID (folderScope s resourceID)
      else if resourceType = resourceTypeStack then ss_WorkspaceID (stackScope s resourceID)
      else if resourceType = resourceTypePlay then resolvePlayWorkspace s resourceID
      else if resourceType = resourceTypeChannel
      then cs_WorkspaceID (zero_on_err no_channel_scope (channelScope s resourceID))
      else if resourceType = resourceTypeProject then zero_on_err [] (projectWorkspace s resourceID)
      else fst (resolveDoc s resourceID))"

definition anyWorkspace :: "string \<Rightarrow> bool" where
  "anyWorkspace resourceType \<longleftrightarrow>
     resourceType = resourceTypeInstanceArea \<or> resourceType = resourceTypeMachine"

fun requireRolesOf_loop :: "Service \<Rightarrow> string \<Rightarrow> string \<Rightarrow> string list \<Rightarrow> unit res" where
  "requireRolesOf_loop s resourceType workspaceID [] = Inr ()"
| "requireRolesOf_loop s resourceType workspaceID (roleID # rest) =
     (case svc_roleWorkspace s of
        None \<Rightarrow> Inl (errorf ErrForbidden ''no role lookup wired'')
      | Some rw \<Rightarrow>
          let outside = Inl (errorf ErrNotFound (''role '' @ roleID @ '' is not a role of this '' @ resourceType @
                               [CHR 0x27] @ ''s workspace''))
          in (case rw_WorkspaceIDForRole rw roleID of
                Inl e \<Rightarrow> if \<not> errors_is e ErrNotFound then Inl (wrapf (''resolve role '' @ roleID) e) else outside
              | Inr got \<Rightarrow>
                  if got \<noteq> workspaceID \<and> \<not> anyWorkspace resourceType then outside
                  else requireRolesOf_loop s resourceType workspaceID rest))"

definition requireRolesOf :: "Service \<Rightarrow> string \<Rightarrow> string \<Rightarrow> string list \<Rightarrow> unit res" where
  "requireRolesOf s resourceType resourceID roles =
     (if roles = [] then Inr ()
      else requireRolesOf_loop s resourceType
             (if \<not> anyWorkspace resourceType then workspaceOf s resourceType resourceID else []) roles)"

section \<open>Holders and answers\<close>

definition SetMachines :: "Service \<Rightarrow> MachineScopes \<Rightarrow> Service" where
  "SetMachines s m = s\<lparr>svc_machines := Some m\<rparr>"

definition machineIDs :: "Service \<Rightarrow> string list res" where
  "machineIDs s = (case svc_machines s of None \<Rightarrow> Inr [] | Some m \<Rightarrow> ms_MachineIDs m)"

definition machineRules :: "Service \<Rightarrow> string \<Rightarrow> Rules gomap res" where
  "machineRules s userID =
     map_errr (wrapf (''machine rules of '' @ userID)) (repo_RulesOfType (svc_repo s) resourceTypeMachine userID)"

definition instanceOwnerSource :: "Service \<Rightarrow> ctx \<Rightarrow> string \<Rightarrow> Source option res" where
  "instanceOwnerSource s c userID =
     (if userID = [] \<or> svc_ownerWorkspace s = [] then Inr None
      else bindr (standing s c userID (svc_ownerWorkspace s)) (\<lambda>info.
           if \<not> ri_IsOwnerRole info then Inr None
           else Inr (Some (sourceOf SourceOwner resourceTypeWorkspace (svc_ownerWorkspace s) TargetRole
                             (sourceRole info []) True))))"

record machineAnswer =
  ma_seen :: bool
  ma_held :: bool
  ma_src :: Source

record machineHolder =
  mh_targetType :: string
  mh_targetID :: string
  mh_roleIDs :: "string list"
  mh_bits :: "action \<Rightarrow> bool \<times> Source"
  mh_rules :: "Rules option"
  mh_known :: bool
  mh_owner :: "Source option"

text \<open>The holder's rules with their own saying nothing about an action.\<close>

definition mh_without :: "machineHolder \<Rightarrow> action \<Rightarrow> Rules option" where
  "mh_without h a =
     (if mh_rules h = None \<or> mh_targetType h \<noteq> TargetRole then personAtFallback (mh_rules h) a
      else map_option (\<lambda>rs. \<lparr>rules_Person = rules_Person rs, rules_Roles = atFallback (rules_Roles rs) a\<rparr>) (mh_rules h))"

definition mh_answer :: "machineHolder \<Rightarrow> string \<Rightarrow> action \<Rightarrow> bool \<Rightarrow> machineAnswer" where
  "mh_answer h machineID a fallback =
     (let notOn = sourceOf SourceNotOnMachine resourceTypeMachine machineID (mh_targetType h) (mh_targetID h) False
      in if \<not> mh_known h then \<lparr>ma_seen = False, ma_held = False, ma_src = notOn\<rparr>
         else case mh_owner h of
           Some src \<Rightarrow> \<lparr>ma_seen = True, ma_held = True, ma_src = src\<rparr>
         | None \<Rightarrow>
             let seeRules = (if fallback \<and> a = MachinesSee then mh_without h a else mh_rules h);
                 (seen, src) = applyRules False notOn seeRules (mh_roleIDs h) MachinesSee
             in if \<not> seen \<or> a = MachinesSee then \<lparr>ma_seen = seen, ma_held = seen, ma_src = src\<rparr>
                else
                  let rules = (if fallback then mh_without h a else mh_rules h);
                      (held, from) = mh_bits h a;
                      (held, from) = applyRules held from rules (mh_roleIDs h) a
                  in \<lparr>ma_seen = True, ma_held = held, ma_src = from\<rparr>)"

type_synonym machine_view = "action \<Rightarrow> bool \<Rightarrow> machineAnswer"

text \<open>The first workspace whose roles grant the action is the source, else the last where a role is held.\<close>

fun bits_loop :: "workspaceLayers list \<Rightarrow> action \<Rightarrow> bool \<Rightarrow> Source \<Rightarrow> bool \<times> Source" where
  "bits_loop [] a allowed src = (allowed, src)"
| "bits_loop (ws # rest) a allowed src =
     (if allowed then (allowed, src)
      else let (held, from) = granted ws a
           in if held \<or> roleIDs (ws_roles ws) \<noteq> [] then bits_loop rest a held from
              else bits_loop rest a allowed src)"

definition rolesAcross ::
  "Service \<Rightarrow> ctx \<Rightarrow> string \<Rightarrow> (string list \<times> (action \<Rightarrow> bool \<times> Source)) res" where
  "rolesAcross s c userID =
     bindr (workspacesOf s c userID) (\<lambda>workspaceIDs.
     let lays = map (\<lambda>w. layers s c userID w []) workspaceIDs
     in Inr (concat (map (\<lambda>ws. roleIDs (ws_roles ws)) lays),
             \<lambda>a. bits_loop lays a False (sourceOf SourceRole resourceTypeWorkspace [] TargetPerson userID False)))"

definition no_holder :: "string \<Rightarrow> machineHolder" where
  "no_holder userID =
     \<lparr>mh_targetType = TargetPerson, mh_targetID = userID, mh_roleIDs = [], mh_bits = (\<lambda>a. (False, no_source)),
      mh_rules = None, mh_known = False, mh_owner = None\<rparr>"

definition machineHolderOf :: "Service \<Rightarrow> ctx \<Rightarrow> string \<Rightarrow> string \<Rightarrow> machineHolder res" where
  "machineHolderOf s c userID machineID =
     (if userID = [] then Inr (no_holder userID)
      else bindr (instanceOwnerSource s c userID) (\<lambda>owner.
        case owner of
          Some src \<Rightarrow>
            bindr (machineIDs s) (\<lambda>ids.
            Inr ((no_holder userID)\<lparr>mh_known := machineID \<in> set ids, mh_owner := Some src\<rparr>))
        | None \<Rightarrow>
            bindr (rolesAcross s c userID) (\<lambda>(held, bits).
            bindr (machineRules s userID) (\<lambda>rules.
            Inr ((no_holder userID)\<lparr>mh_known := True, mh_roleIDs := held, mh_bits := bits,
                   mh_rules := map_of rules machineID\<rparr>)))))"

definition machineView :: "Service \<Rightarrow> ctx \<Rightarrow> string \<Rightarrow> string \<Rightarrow> machine_view res" where
  "machineView s c userID machineID =
     bindr (machineHolderOf s c userID machineID) (\<lambda>h. Inr (mh_answer h machineID))"

section \<open>Gates\<close>

definition MachinePermissions :: "Service \<Rightarrow> ctx \<Rightarrow> string \<Rightarrow> string \<Rightarrow> pset res" where
  "MachinePermissions s c userID machineID =
     bindr (machineView s c userID machineID) (\<lambda>view.
     if list_ex (\<lambda>a. \<not> ma_seen (view a False)) MachineActions
     then Inl (errorf ErrNotFound (''machine '' @ machineID))
     else Inr (SetOf (filter (\<lambda>a. ma_held (view a False)) MachineActions)))"

definition RequireMachine :: "Service \<Rightarrow> ctx \<Rightarrow> string \<Rightarrow> action \<Rightarrow> unit res" where
  "RequireMachine s c machineID a =
     (let (userID, checked) = caller c
      in if \<not> checked then Inr ()
         else if a \<notin> set MachineActions then Inl (errorf ErrInvalid (a @ '' is not a machine action''))
         else bindr (machineView s c userID machineID) (\<lambda>view.
              let answer = view a False
              in if \<not> ma_seen answer then Inl (errorf ErrNotFound (''machine '' @ machineID))
                 else if \<not> ma_held answer then Inl (refusal s a (ma_src answer))
                 else Inr ()))"

definition errNoMachineNamed :: "string \<Rightarrow> err" where
  "errNoMachineNamed name =
     errorf ErrInvalid (''machine '' @ go_q name @ '' does not exist; machine_list lists machines'')"

definition viewerOf :: "Service \<Rightarrow> ctx \<Rightarrow> string \<Rightarrow> string \<Rightarrow> machine_view res" where
  "viewerOf s c userID machineID = machineView s c userID machineID"

definition answerNamed ::
  "MachineScopes \<Rightarrow> (string \<Rightarrow> machine_view res) \<Rightarrow> string \<Rightarrow> action \<Rightarrow> (string \<times> machineAnswer) res" where
  "answerNamed m viewer name a =
     (case ms_MachineIDByName m name of
        Inl e \<Rightarrow> if errors_is e ErrNotFound then Inl (errNoMachineNamed name)
                 else Inl (wrapf (''resolve machine '' @ go_q name) e)
      | Inr i \<Rightarrow> bindr (viewer i) (\<lambda>view. Inr (i, view a False)))"

definition requireNamed :: "Service \<Rightarrow> ctx \<Rightarrow> string \<Rightarrow> action \<Rightarrow> err \<Rightarrow> unit res" where
  "requireNamed s c name a unseen =
     (let (userID, checked) = caller c
      in if \<not> checked then Inr ()
         else case svc_machines s of
           None \<Rightarrow> Inl (errorf ErrForbidden ''no machine lookup wired'')
         | Some m \<Rightarrow>
             bindr (answerNamed m (viewerOf s c userID) name a) (\<lambda>(_, answer).
             if \<not> ma_seen answer then Inl unseen
             else if \<not> ma_held answer then Inl (refusal s a (ma_src answer))
             else Inr ()))"

definition RequireMachineNamed :: "Service \<Rightarrow> ctx \<Rightarrow> string \<Rightarrow> action \<Rightarrow> unit res" where
  "RequireMachineNamed s c name a = requireNamed s c name a (errNoMachineNamed name)"

definition RequireMachineOfStack :: "Service \<Rightarrow> ctx \<Rightarrow> string \<Rightarrow> action \<Rightarrow> unit res" where
  "RequireMachineOfStack s c name a = requireNamed s c name a (errorf ErrNotFound (''machine '' @ go_q name))"

text \<open>What keeps a deploy off the machine called \<open>name\<close>; \<open>None\<close> is the false of the Go pair.\<close>

definition noDeployTo ::
  "Service \<Rightarrow> (string \<Rightarrow> machine_view res) \<Rightarrow> string \<Rightarrow> string \<Rightarrow> string \<Rightarrow> Source option res" where
  "noDeployTo s viewer targetType targetID name =
     (case svc_machines s of
        None \<Rightarrow> Inr None
      | Some m \<Rightarrow>
          (case answerNamed m viewer name MachinesDeploy of
             Inl e \<Rightarrow>
               if errors_is e ErrInvalid
               then Inr (Some (sourceOf SourceNoDeployTo resourceTypeMachine name targetType targetID False))
               else Inl e
           | Inr (i, answer) \<Rightarrow>
               if ma_seen answer \<and> ma_held answer then Inr None
               else Inr (Some (sourceOf SourceNoDeployTo resourceTypeMachine i targetType targetID False))))"

definition MachineViewers :: "Service \<Rightarrow> ctx \<Rightarrow> string \<Rightarrow> string list res" where
  "MachineViewers s c machineID =
     bindr (map_errr (wrapf ''list users'') (svc_users s)) (\<lambda>users.
     bindr (mapr (\<lambda>u. bindr (machineView s c (user_ID u) machineID) (\<lambda>view.
              Inr (user_ID u, ma_seen (view MachinesSee False)))) users) (\<lambda>rows.
     Inr (map fst (filter snd rows))))"

definition MachinesSeen :: "Service \<Rightarrow> ctx \<Rightarrow> string \<Rightarrow> string list res" where
  "MachinesSeen s c userID =
     (if userID = [] then Inr []
      else bindr (instanceOwnerSource s c userID) (\<lambda>owner.
        if owner \<noteq> None then machineIDs s
        else bindr (rolesAcross s c userID) (\<lambda>(held, _).
             bindr (machineRules s userID) (\<lambda>rules.
             Inr (sort (map fst (filter (\<lambda>(i, r). fst (applyRules False no_source (Some r) held MachinesSee)) rules)))))))"

definition CallerMachines :: "Service \<Rightarrow> ctx \<Rightarrow> (string list \<times> bool) res" where
  "CallerMachines s c =
     (let (userID, checked) = caller c
      in if \<not> checked then Inr ([], True)
         else bindr (instanceOwnerSource s c userID) (\<lambda>owner.
              if owner \<noteq> None then Inr ([], True)
              else bindr (MachinesSeen s c userID) (\<lambda>ids. Inr (ids, False))))"

definition requireMachineSeen :: "Service \<Rightarrow> ctx \<Rightarrow> string \<Rightarrow> string \<Rightarrow> unit res" where
  "requireMachineSeen s c actorID machineID =
     bindr (machineView s c actorID machineID) (\<lambda>view.
     guardr (ma_seen (view MachinesSee False)) (errorf ErrNotFound (''machine '' @ machineID)))"

definition holdsOnMachine :: "Service \<Rightarrow> ctx \<Rightarrow> string \<Rightarrow> string \<Rightarrow> action \<Rightarrow> bool" where
  "holdsOnMachine s c actorID machineID a =
     (case machineView s c actorID machineID of Inl _ \<Rightarrow> False | Inr view \<Rightarrow> ma_held (view a False))"

definition decideMachine :: "Service \<Rightarrow> ctx \<Rightarrow> string \<Rightarrow> string \<Rightarrow> action \<Rightarrow> (bool \<times> Source) res" where
  "decideMachine s c userID machineID a =
     bindr (machineView s c userID machineID) (\<lambda>view.
     Inr (ma_held (view a False), ma_src (view a False)))"

section \<open>Explanations of a machine\<close>

definition machineExplanation :: "Service \<Rightarrow> string \<Rightarrow> machine_view \<Rightarrow> string \<Rightarrow> string \<Rightarrow> Explanation" where
  "machineExplanation s machineID who userID roleID =
     \<lparr>expl_ResourceType = resourceTypeMachine, expl_ResourceID = machineID, expl_UserID = userID,
      expl_RoleID = roleID,
      expl_Effective = map (\<lambda>a.
        \<lparr>answer_Action = a,
         answer_Verdict = verdict (service_namer s) (ma_held (who a False), ma_src (who a False)),
         answer_Fallback = verdict (service_namer s) (ma_held (who a True), ma_src (who a True)),
         answer_Requires = None\<rparr>) MachineActions\<rparr>"

definition explainMachine :: "Service \<Rightarrow> ctx \<Rightarrow> string \<Rightarrow> string \<Rightarrow> string \<Rightarrow> Explanation res" where
  "explainMachine s c actorID machineID userID =
     bindr (machineView s c actorID machineID) (\<lambda>actor.
     if \<not> ma_seen (actor MachinesSee False) then Inl (errorf ErrNotFound (''machine '' @ machineID))
     else
       let manage = actor MachinesWrite False
       in if userID \<noteq> actorID \<and> \<not> ma_held manage then Inl (refusal s MachinesWrite (ma_src manage))
          else bindr (if userID \<noteq> actorID then machineView s c userID machineID else Inr actor) (\<lambda>who.
               Inr (machineExplanation s machineID who userID [])))"

definition roleMachineView :: "Service \<Rightarrow> RoleWorkspaceResolver \<Rightarrow> string \<Rightarrow> string \<Rightarrow> machine_view res" where
  "roleMachineView s rw machineID roleID =
     bindr (map_errr (wrapf (''resolve role '' @ roleID)) (rw_WorkspaceIDForRole rw roleID)) (\<lambda>workspaceID.
     bindr (map_errr (wrapf (''read role '' @ roleID)) (rw_HeldRole rw roleID)) (\<lambda>role.
     bindr (map_errr (wrapf (''rules for role '' @ roleID @ '' on machine '' @ machineID))
              (repo_RoleRules (svc_repo s) resourceTypeMachine [machineID] [roleID])) (\<lambda>rules.
     let own = (case map_of rules machineID of None \<Rightarrow> [] | Some rs \<Rightarrow> rs);
         role = role\<lparr>hr_ID := roleID\<rparr>;
         ws = (bare_layers [] workspaceID [])
                \<lparr>ws_member := True, ws_owner := hr_IsOwner role, ws_roles := RolesHeld [role]\<rparr>;
         h = \<lparr>mh_targetType = TargetRole, mh_targetID = roleID, mh_roleIDs = [roleID], mh_bits = granted ws,
              mh_rules = Some \<lparr>rules_Person = None, rules_Roles = own\<rparr>, mh_known = True,
              mh_owner = (if hr_IsOwner role \<and> workspaceID = svc_ownerWorkspace s
                          then Some (sourceOf SourceOwner resourceTypeWorkspace workspaceID TargetRole roleID True)
                          else None)\<rparr>
     in Inr (mh_answer h machineID))))"

text \<open>\<^verbatim>\<open>requireRolesOf\<close> has refused an unwired role lookup before \<open>roleMachineView\<close> reads through it.\<close>

definition explainRoleMachine :: "Service \<Rightarrow> ctx \<Rightarrow> string \<Rightarrow> string \<Rightarrow> string \<Rightarrow> Explanation res" where
  "explainRoleMachine s c actorID machineID roleID =
     bindr (machineView s c actorID machineID) (\<lambda>actor.
     if \<not> ma_seen (actor MachinesSee False) then Inl (errorf ErrNotFound (''machine '' @ machineID))
     else if \<not> ma_held (actor MachinesWrite False)
     then Inl (refusal s MachinesWrite (ma_src (actor MachinesWrite False)))
     else bindr (requireRolesOf s resourceTypeMachine machineID [roleID]) (\<lambda>_.
          case svc_roleWorkspace s of
            None \<Rightarrow> Inl (errorf ErrForbidden ''no role lookup wired'')
          | Some rw \<Rightarrow>
              bindr (roleMachineView s rw machineID roleID) (\<lambda>who.
              Inr (machineExplanation s machineID who [] roleID))))"

section \<open>Lemmas\<close>

lemma mh_answer_seen:
  "ma_seen (mh_answer h m a False) \<longleftrightarrow>
     mh_known h \<and> (mh_owner h \<noteq> None \<or> rule_verdict (mh_rules h) (mh_roleIDs h) MachinesSee = Some True)"
  by (auto simp: mh_answer_def Let_def case_prod_unfold applyRules_answer split: option.splits)

lemma mh_answer_held:
  "ma_held (mh_answer h m a False) \<longleftrightarrow>
     ma_seen (mh_answer h m a False) \<and>
     (mh_owner h \<noteq> None \<or> a = MachinesSee \<or>
      (case rule_verdict (mh_rules h) (mh_roleIDs h) a of Some b \<Rightarrow> b | None \<Rightarrow> fst (mh_bits h a)))"
  by (auto simp: mh_answer_def Let_def case_prod_unfold applyRules_answer split: option.splits)

lemma mh_answer_unknown:
  "\<not> mh_known h \<Longrightarrow> mh_answer h m a f = \<lparr>ma_seen = False, ma_held = False,
     ma_src = sourceOf SourceNotOnMachine resourceTypeMachine m (mh_targetType h) (mh_targetID h) False\<rparr>"
  by (simp add: mh_answer_def Let_def)

lemma mh_answer_owner:
  "mh_known h \<Longrightarrow> mh_owner h = Some src \<Longrightarrow> mh_answer h m a f = \<lparr>ma_seen = True, ma_held = True, ma_src = src\<rparr>"
  by (simp add: mh_answer_def Let_def)

text \<open>The answer of a holder who is not the instance Owner, with the two rule applications named.\<close>

lemma mh_answer_rules:
  fixes h :: machineHolder and m :: string and a :: action and f :: bool
  assumes "mh_known h" "mh_owner h = None"
  defines "see \<equiv> applyRules False (sourceOf SourceNotOnMachine resourceTypeMachine m (mh_targetType h) (mh_targetID h) False)
      (if f \<and> a = MachinesSee then mh_without h a else mh_rules h) (mh_roleIDs h) MachinesSee"
    and "own \<equiv> applyRules (fst (mh_bits h a)) (snd (mh_bits h a)) (if f then mh_without h a else mh_rules h) (mh_roleIDs h) a"
  shows "mh_answer h m a f =
    (if \<not> fst see \<or> a = MachinesSee then \<lparr>ma_seen = fst see, ma_held = fst see, ma_src = snd see\<rparr>
     else \<lparr>ma_seen = True, ma_held = fst own, ma_src = snd own\<rparr>)"
  using assms(1,2) unfolding see_def own_def mh_answer_def Let_def case_prod_unfold by simp

lemma answer_if:
  "ma_held (if \<not> b \<or> x then \<lparr>ma_seen = b, ma_held = b, ma_src = q\<rparr> else \<lparr>ma_seen = True, ma_held = h, ma_src = t\<rparr>) \<Longrightarrow>
   ma_seen (if \<not> b \<or> x then \<lparr>ma_seen = b, ma_held = b, ma_src = q\<rparr> else \<lparr>ma_seen = True, ma_held = h, ma_src = t\<rparr>)"
  by (simp split: if_splits)

lemma held_seen: "ma_held (mh_answer h m a f) \<Longrightarrow> ma_seen (mh_answer h m a f)"
proof (cases "mh_known h \<and> mh_owner h = None")
  case True
  show "ma_held (mh_answer h m a f) \<Longrightarrow> ma_seen (mh_answer h m a f)"
    unfolding mh_answer_rules [OF conjunct1 [OF True] conjunct2 [OF True]] by (rule answer_if)
next
  case False
  then show "ma_held (mh_answer h m a f) \<Longrightarrow> ma_seen (mh_answer h m a f)" 
    by (cases "mh_known h") (auto simp: mh_answer_unknown mh_answer_owner)
qed

lemma mh_answer_agrees:
  assumes "\<And>b. agrees (mh_bits h b)" "\<And>src. mh_owner h = Some src \<Longrightarrow> src_State src = StateAllow"
  shows "agrees (ma_held (mh_answer h m a f), ma_src (mh_answer h m a f))"
proof (cases "mh_known h \<and> mh_owner h = None")
  case True
  let ?notOn = "sourceOf SourceNotOnMachine resourceTypeMachine m (mh_targetType h) (mh_targetID h) False"
  have see: "agrees (applyRules False ?notOn r ids b)" for r ids b by (rule applyRules_agrees) simp
  have bits: "agrees (applyRules (fst (mh_bits h a)) (snd (mh_bits h a)) r ids b)" for r ids b
    using assms(1) [of a] by (intro applyRules_agrees) (simp add: agrees_def)
  show ?thesis unfolding mh_answer_rules [OF conjunct1 [OF True] conjunct2 [OF True]]
    by (simp only: machineAnswer.select_convs see bits prod.collapse split: if_split) (simp add: see bits)
next
  case False
  then show ?thesis using assms(2)
    by (cases "mh_known h") (auto simp: mh_answer_unknown mh_answer_owner)
qed

lemma bits_loop_answer: "fst (bits_loop lays a b src) \<longleftrightarrow> b \<or> (\<exists>ws \<in> set lays. Has (ri_Permissions (ws_roles ws)) a)"
  by (induction lays arbitrary: b src) (auto simp: case_prod_unfold Let_def)

lemma bits_loop_agrees:
  "agrees (b, src) \<Longrightarrow> \<forall>ws \<in> set lays. layers_ok ws \<Longrightarrow> agrees (bits_loop lays a b src)"
proof (induction lays arbitrary: b src)
  case (Cons ws lays)
  have "agrees (fst (granted ws a), snd (granted ws a))" using granted_state [of ws a] Cons.prems(2) by simp
  with Cons show ?case by (auto simp: case_prod_unfold Let_def)
qed simp

text \<open>A view is the answer of a holder, and a view of a machine sees it or not whatever the action.\<close>

lemma machineView_holder:
  "machineView s c u m = Inr view \<Longrightarrow> \<exists>h. machineHolderOf s c u m = Inr h \<and> view = mh_answer h m"
  by (auto simp: machineView_def bindr_Inr_iff)

lemma view_seen: "machineView s c u m = Inr view \<Longrightarrow> ma_seen (view a False) = ma_seen (view b False)"
  using machineView_holder by (fastforce simp: mh_answer_seen)

lemma view_see_held: "machineView s c u m = Inr view \<Longrightarrow> ma_held (view MachinesSee False) = ma_seen (view MachinesSee False)"
  using machineView_holder by (fastforce simp: mh_answer_held)

lemma distinct_toRules: "distinct (map fst (toRules rows))"
  by (simp add: toRules_def Let_def comp_def)

lemma machineView_other:
  assumes "u \<noteq> []" "instanceOwnerSource s c u = Inr None" "rolesAcross s c u = Inr (held, bits)"
    "machineRules s u = Inr rules"
  shows "\<exists>view. machineView s c u m = Inr view \<and>
    (\<forall>a. ma_seen (view a False) \<longleftrightarrow> rule_verdict (map_of rules m) held MachinesSee = Some True)"
  using assms by (simp add: machineView_def machineHolderOf_def mh_answer_seen no_holder_def)

section \<open>Properties\<close>

text \<open>What a machine answers: it is seen by the instance Owner when it exists and by anyone else exactly
  when its rules end in Allow of See for them or a role they hold, whatever their roles carry; an action on it
  is held only when it is seen, and then when the instance Owner asks, when it is See itself, or when the
  machine's rules allow it, the roles' own sets deciding only where the rules are silent.\<close>

theorem mh_answer_spec:
  "(ma_seen (mh_answer h m a False) \<longleftrightarrow>
      mh_known h \<and> (if mh_owner h = None then rule_verdict (mh_rules h) (mh_roleIDs h) MachinesSee = Some True else True)) \<and>
   (ma_held (mh_answer h m a False) \<longleftrightarrow>
      ma_seen (mh_answer h m a False) \<and>
      (if mh_owner h \<noteq> None then True else if a = MachinesSee then True
       else case rule_verdict (mh_rules h) (mh_roleIDs h) a of Some b \<Rightarrow> b | None \<Rightarrow> fst (mh_bits h a)))"
  using mh_answer_seen [of h m a] mh_answer_held [of h m a] by auto

text \<open>The gate and the permission list of a machine never disagree: for each of a machine's actions a caller
  passes \<open>RequireMachine\<close> exactly when \<open>MachinePermissions\<close> lists the action for them, and a machine they
  cannot see is the same not-found error from both, for every action.\<close>

theorem RequireMachine_consistent:
  assumes "caller c = (u, True)" "a \<in> set MachineActions"
  shows "case MachinePermissions s c u m of
     Inl e \<Rightarrow> RequireMachine s c m a = Inl e
   | Inr held \<Rightarrow> (if Has held a then RequireMachine s c m a = Inr ()
                 else \<exists>src. RequireMachine s c m a = Inl (refusal s a src))"
proof (cases "machineView s c u m")
  case (Inl e)
  with assms show ?thesis by (simp add: MachinePermissions_def RequireMachine_def)
next
  case (Inr view)
  define sn where "sn = ma_seen (view a False)"
  have seen: "ma_seen (view b False) = sn" for b unfolding sn_def by (rule view_seen [OF Inr])
  define held where "held = SetOf (filter (\<lambda>a. ma_held (view a False)) MachineActions)"
  have "RequireMachine s c m a =
      (if \<not> sn then Inl (errorf ErrNotFound (''machine '' @ m))
       else if \<not> ma_held (view a False) then Inl (refusal s a (ma_src (view a False))) else Inr ())"
    using assms Inr by (simp add: RequireMachine_def Let_def seen)
  moreover have "MachinePermissions s c u m =
      (if \<not> sn then Inl (errorf ErrNotFound (''machine '' @ m)) else Inr held)"
    using Inr unfolding held_def by (simp add: MachinePermissions_def seen)
  moreover have "Has held a \<longleftrightarrow> ma_held (view a False)"
    using assms(2) unfolding held_def by (simp only: Has_SetOf set_filter mem_Collect_eq simp_thms)
  ultimately show ?thesis by (cases sn; cases "ma_held (view a False)") auto
qed

theorem RequireMachine_consistent_witness:
  "caller (person_ctx ''bob'') = (''bob'', True) \<and>
   (case MachinePermissions (example_service example_db) (person_ctx ''bob'') ''bob'' ''m1'' of
     Inl e \<Rightarrow> RequireMachine (example_service example_db) (person_ctx ''bob'') ''m1'' MachinesDeploy = Inl e
   | Inr held \<Rightarrow>
       (if Has held MachinesDeploy
        then RequireMachine (example_service example_db) (person_ctx ''bob'') ''m1'' MachinesDeploy = Inr ()
        else \<exists>src. RequireMachine (example_service example_db) (person_ctx ''bob'') ''m1'' MachinesDeploy =
               Inl (refusal (example_service example_db) MachinesDeploy src)))"
proof
  show "caller (person_ctx ''bob'') = (''bob'', True)" by (simp add: caller_def person_ctx_def)
  then show "case MachinePermissions (example_service example_db) (person_ctx ''bob'') ''bob'' ''m1'' of
     Inl e \<Rightarrow> RequireMachine (example_service example_db) (person_ctx ''bob'') ''m1'' MachinesDeploy = Inl e
   | Inr held \<Rightarrow>
       (if Has held MachinesDeploy
        then RequireMachine (example_service example_db) (person_ctx ''bob'') ''m1'' MachinesDeploy = Inr ()
        else \<exists>src. RequireMachine (example_service example_db) (person_ctx ''bob'') ''m1'' MachinesDeploy =
               Inl (refusal (example_service example_db) MachinesDeploy src))"
    by (rule RequireMachine_consistent) simp
qed

text \<open>No one finds out which machine names exist by trying them: when the caller cannot see the machine a
  name resolves to, \<open>RequireMachineNamed\<close> answers exactly as it does for a name no machine bears, with the
  lookup answering not found for that name.\<close>

theorem RequireMachineNamed_hides:
  assumes "caller c = (u, True)" "svc_machines s = Some ms" "ms_MachineIDByName ms name = Inr i"
    "machineView s c u i = Inr view" "\<not> ma_seen (view a False)" "errors_is gone ErrNotFound"
  shows "RequireMachineNamed s c name a =
    RequireMachineNamed (s\<lparr>svc_machines := Some (ms\<lparr>ms_MachineIDByName := (\<lambda>n. if n = name then Inl gone
       else ms_MachineIDByName ms n)\<rparr>)\<rparr>) c name a"
  using assms by (simp add: RequireMachineNamed_def requireNamed_def answerNamed_def viewerOf_def)

definition example_machines :: MachineScopes where
  "example_machines = \<lparr>ms_MachineIDs = Inr [''m1''],
     ms_MachineIDByName = (\<lambda>n. if n = ''box'' then Inr ''m1'' else Inl (sentinel_err ErrNotFound))\<rparr>"

definition example_machine_service :: Service where
  "example_machine_service = SetMachines (SetInstanceAreas (example_service example_db) ''w0'' []) example_machines"

lemma example_machine_view:
  "\<exists>view. machineView example_machine_service (person_ctx ''bob'') ''bob'' ''m1'' = Inr view \<and> (\<forall>a. \<not> ma_seen (view a False))"
proof -
  have "instanceOwnerSource example_machine_service (person_ctx ''bob'') ''bob'' = Inr None"
    by (simp add: instanceOwnerSource_def example_machine_service_def SetMachines_def SetInstanceAreas_def standing_def
        example_service_def memberRole_def viewedWorkspace_def person_ctx_def NewService_def no_roles_def)
  moreover have "\<exists>held bits. rolesAcross example_machine_service (person_ctx ''bob'') ''bob'' = Inr (held, bits)"
    by (simp add: rolesAcross_def Let_def workspacesOf_def memberWorkspaces_def example_machine_service_def SetMachines_def
        SetInstanceAreas_def example_service_def NewService_def example_scopes_def viewedWorkspace_def person_ctx_def)
  moreover have "machineRules example_machine_service ''bob'' = Inr []"
    by (simp add: machineRules_def example_machine_service_def SetMachines_def SetInstanceAreas_def example_service_def
        NewService_def AccessRepo_def repoRulesOfType_def example_db_def toRules_def toOverwrites_def)
  ultimately show ?thesis using machineView_other [of "''bob''" example_machine_service "person_ctx ''bob''" _ _ "[]" "''m1''"]
    by auto
qed

theorem RequireMachineNamed_hides_witness:
  "RequireMachineNamed example_machine_service (person_ctx ''bob'') ''box'' MachinesDeploy =
   RequireMachineNamed (example_machine_service\<lparr>svc_machines := Some (example_machines\<lparr>ms_MachineIDByName :=
      (\<lambda>n. if n = ''box'' then Inl (sentinel_err ErrNotFound) else ms_MachineIDByName example_machines n)\<rparr>)\<rparr>)
      (person_ctx ''bob'') ''box'' MachinesDeploy"
proof -
  obtain view where "machineView example_machine_service (person_ctx ''bob'') ''bob'' ''m1'' = Inr view"
    "\<forall>a. \<not> ma_seen (view a False)" using example_machine_view by blast
  then show ?thesis
    by (intro RequireMachineNamed_hides [where u = "''bob''" and i = "''m1''" and view = view])
       (simp_all add: caller_def person_ctx_def example_machine_service_def SetMachines_def example_machines_def)
qed

text \<open>An explanation of a deploy never disagrees with the click: with a machine lookup wired, the function
  \<open>noDeployTo\<close> finds nothing against a deploy for the caller exactly when the deploy's own check of the machine passes.\<close>

theorem noDeployTo_agrees:
  assumes "caller c = (u, True)" "svc_machines s = Some ms"
  shows "noDeployTo s (viewerOf s c u) tt ti name = Inr None \<longleftrightarrow>
    requireNamed s c name MachinesDeploy unseen = Inr ()"
  using assms
  by (cases "answerNamed ms (viewerOf s c u) name MachinesDeploy")
     (auto simp: noDeployTo_def requireNamed_def split: prod.splits if_splits)

theorem noDeployTo_agrees_witness:
  "noDeployTo example_machine_service (viewerOf example_machine_service (person_ctx ''bob'') ''bob'') TargetPerson ''bob'' ''box''
      = Inr None \<longleftrightarrow>
    requireNamed example_machine_service (person_ctx ''bob'') ''box'' MachinesDeploy (sentinel_err ErrNotFound) = Inr ()"
  by (rule noDeployTo_agrees [where ms = example_machines])
     (simp_all add: caller_def person_ctx_def example_machine_service_def SetMachines_def)

text \<open>A list of machines is filtered by the single check: over the repository's tables and for a person other
  than the instance Owner, \<open>MachinesSeen\<close> is sorted, without duplicates, and holds exactly the machines a
  view of which is seen.\<close>

theorem MachinesSeen_exact:
  assumes "svc_repo s = AccessRepo grid db" "u \<noteq> []" "instanceOwnerSource s c u = Inr None"
    "workspacesOf s c u = Inr ws"
  shows "\<exists>ids. MachinesSeen s c u = Inr ids \<and> sorted ids \<and> distinct ids \<and>
    (m \<in> set ids \<longleftrightarrow> (\<exists>view. machineView s c u m = Inr view \<and> ma_seen (view MachinesSee False)))"
proof -
  obtain held bits where roles: "rolesAcross s c u = Inr (held, bits)"
    using assms(4) by (simp add: rolesAcross_def Let_def)
  obtain rows where rules: "machineRules s u = Inr (toRules rows)"
    using assms(1) by (simp add: machineRules_def AccessRepo_def repoRulesOfType_def)
  let ?keep = "\<lambda>(i, r). fst (applyRules False no_source (Some r) held MachinesSee)"
  have "map_of (toRules rows) m = Some r \<longleftrightarrow> (m, r) \<in> set (toRules rows)" for r
    using distinct_toRules by (metis map_of_eq_Some_iff)
  then have mem: "m \<in> fst ` set (filter ?keep (toRules rows)) \<longleftrightarrow>
      rule_verdict (map_of (toRules rows) m) held MachinesSee = Some True"
    by (cases "map_of (toRules rows) m") (force simp: applyRules_answer split: option.splits)+
  have "distinct (map fst (filter ?keep (toRules rows)))"
    using distinct_toRules by (rule distinct_map_filter)
  moreover have "MachinesSeen s c u = Inr (sort (map fst (filter ?keep (toRules rows))))"
    using assms(2,3) roles rules by (simp add: MachinesSeen_def)
  moreover have "(\<exists>view. machineView s c u m = Inr view \<and> ma_seen (view MachinesSee False)) \<longleftrightarrow>
      rule_verdict (map_of (toRules rows) m) held MachinesSee = Some True"
    using machineView_other [OF assms(2,3) roles rules, of m] by auto
  ultimately show ?thesis using mem by auto
qed

theorem MachinesSeen_exact_witness:
  "\<exists>ids. MachinesSeen example_machine_service (person_ctx ''bob'') ''bob'' = Inr ids \<and> sorted ids \<and> distinct ids \<and>
    (''m1'' \<in> set ids \<longleftrightarrow> (\<exists>view. machineView example_machine_service (person_ctx ''bob'') ''bob'' ''m1'' = Inr view \<and>
       ma_seen (view MachinesSee False)))"
  by (rule MachinesSeen_exact [where ws = "[''w1'']" and db = example_db])
     (simp_all add: example_machine_service_def SetMachines_def SetInstanceAreas_def example_service_def NewService_def
       instanceOwnerSource_def standing_def memberRole_def viewedWorkspace_def person_ctx_def no_roles_def
       workspacesOf_def memberWorkspaces_def example_scopes_def)

end
