(* ===== verification/Access_Computer.thy ===== *)
theory Access_Computer
  imports Access_Machine
begin

text \<open>
  Computers (\<^verbatim>\<open>internal/access/computer.go\<close> and \<^verbatim>\<open>platform/storage/access_computer_repo.go\<close>): a person's
  own computer, shared with named people by rules only its owner writes.  No role and no Owner reaches it: a
  check reads the owner and the one live rule naming the caller, nothing else.
\<close>

section \<open>Storage\<close>

definition share_workspace :: "database \<Rightarrow> string \<Rightarrow> string \<Rightarrow> bool" where
  "share_workspace db a b \<longleftrightarrow>
     list_ex (\<lambda>(w, u). u = a \<and> (w, b) \<in> set (db_members db)) (db_members db)"

text \<open>The rule the LEFT JOIN finds: the one naming the person on the computer while the owner is active and
  the two share a workspace.\<close>

definition live_rule :: "database \<Rightarrow> string \<times> string \<Rightarrow> string \<Rightarrow> PermissionOverwrite option" where
  "live_rule db cmptr userID =
     (if snd cmptr \<in> set (db_active db) \<and> share_workspace db userID (snd cmptr)
      then find (\<lambda>row. po_ResourceType row = resourceTypeComputer \<and> po_ResourceID row = fst cmptr \<and>
                       po_Target row = TargetPerson \<and> po_UserID row = Some userID) (db_overwrites db)
      else None)"

definition ComputerAccess :: "database \<Rightarrow> string \<Rightarrow> string \<Rightarrow> (string \<times> pset) res" where
  "ComputerAccess db computerID userID =
     (case find (\<lambda>cmptr. fst cmptr = computerID \<and> userID \<in> set (db_active db) \<and>
                        (snd cmptr = userID \<or> live_rule db cmptr userID \<noteq> None)) (db_computers db) of
        None \<Rightarrow> Inl (wrapf (''computer '' @ computerID @ '' for '' @ userID) (sentinel_err ErrNotFound))
      | Some cmptr \<Rightarrow>
          (case live_rule db cmptr userID of
             None \<Rightarrow> Inr (snd cmptr, [])
           | Some row \<Rightarrow> Inr (snd cmptr, parseSet (po_Allow row))))"

definition SharesWithOwner :: "database \<Rightarrow> string \<Rightarrow> string \<Rightarrow> bool res" where
  "SharesWithOwner db ownerID personID =
     Inr (personID \<in> set (db_active db) \<and> share_workspace db personID ownerID)"

definition ComputersRepo :: "database \<Rightarrow> Computers" where
  "ComputersRepo db = \<lparr>cp_ComputerAccess = ComputerAccess db, cp_SharesWithOwner = SharesWithOwner db\<rparr>"

text \<open>The rules no longer live, with the computer's owner; a row naming a role has no user to scan and fails
  the statement.\<close>

definition ended :: "database \<Rightarrow> PermissionOverwrite \<Rightarrow> string \<Rightarrow> bool" where
  "ended db row ownerID \<longleftrightarrow>
     ownerID \<notin> set (db_active db) \<or>
     (case po_UserID row of
        None \<Rightarrow> True
      | Some u \<Rightarrow> u \<notin> set (db_active db) \<or> \<not> share_workspace db u ownerID)"

definition ended_rows :: "database \<Rightarrow> (PermissionOverwrite \<times> string) list" where
  "ended_rows db =
     concat (map (\<lambda>row. map (\<lambda>cmptr. (row, snd cmptr))
         (filter (\<lambda>cmptr. fst cmptr = po_ResourceID row \<and> ended db row (snd cmptr)) (db_computers db)))
       (filter (\<lambda>row. po_ResourceType row = resourceTypeComputer) (db_overwrites db)))"

definition ListEndedComputerRules :: "database \<Rightarrow> (string \<times> string \<times> string) list res" where
  "ListEndedComputerRules db =
     mapr (\<lambda>(row, ownerID).
         case po_UserID row of
           None \<Rightarrow> Inl (Err [] ''list ended computer rules: converting NULL to string is unsupported'' None)
         | Some u \<Rightarrow> Inr (po_ResourceID row, ownerID, u))
       (ended_rows db)"

definition EndComputerRules ::
  "database \<Rightarrow> (string \<Rightarrow> string \<Rightarrow> string \<Rightarrow> OutboxEvent) \<Rightarrow> database res" where
  "EndComputerRules db event =
     bindr (ListEndedComputerRules db) (\<lambda>gone.
     Inr (db\<lparr>db_overwrites := filter (\<lambda>row. \<not> list_ex (\<lambda>(cid, oid, uid). po_ResourceType row = resourceTypeComputer \<and>
                 po_ResourceID row = cid \<and> po_UserID row = Some uid) gone) (db_overwrites db),
             db_outbox := db_outbox db @ map (\<lambda>(cid, oid, uid). event cid oid uid) gone\<rparr>))"

section \<open>Checks\<close>

definition SetComputers :: "Service \<Rightarrow> Computers \<Rightarrow> Service" where
  "SetComputers s cp = s\<lparr>svc_computers := Some cp\<rparr>"

definition seeWithRun :: "pset \<Rightarrow> pset" where
  "seeWithRun allow =
     (if Has allow ComputersAgents \<or> Has allow ComputersCommands \<or> Has allow ComputersLogs
      then With allow ComputersSee else allow)"

definition ComputerPermissions :: "Service \<Rightarrow> ctx \<Rightarrow> string \<Rightarrow> string \<Rightarrow> (string \<times> pset) res" where
  "ComputerPermissions s c userID computerID =
     (if TrimSpace userID = [] then Inl (errorf ErrUnauthorized ''user is required'')
      else
        let notFound = errorf ErrNotFound (''computer '' @ computerID)
        in if viewedWorkspace c \<noteq> None \<or> TrimSpace computerID = [] then Inl notFound
           else case svc_computers s of
             None \<Rightarrow> Inl notFound
           | Some cp \<Rightarrow>
               (case cp_ComputerAccess cp computerID userID of
                  Inl e \<Rightarrow> if errors_is e ErrNotFound then Inl notFound else Inl e
                | Inr (ownerID, allow) \<Rightarrow>
                    if ownerID = userID then Inr (ownerID, SetOf ComputerActions)
                    else
                      let held = seeWithRun (SetOf (filter (\<lambda>a. \<not> a \<notin> set ComputerActions) allow))
                      in if \<not> Has held ComputersSee then Inl notFound else Inr (ownerID, held)))"

definition computerRule :: "pset \<Rightarrow> action list \<Rightarrow> string \<Rightarrow> pset" where
  "computerRule allow actions state =
     (if state \<noteq> StateAllow \<and> ComputersSee \<in> set actions
      then Without (Without (Without allow ComputersAgents) ComputersCommands) ComputersLogs
      else seeWithRun allow)"

definition ownedComputer :: "Service \<Rightarrow> ctx \<Rightarrow> string \<Rightarrow> string \<Rightarrow> unit res" where
  "ownedComputer s c actorID computerID =
     bindr (ComputerPermissions s c actorID computerID) (\<lambda>(ownerID, _).
     guardr (ownerID = actorID) (errorf ErrNotFound (''computer '' @ computerID)))"

definition computerGrantEvent :: "string \<Rightarrow> string \<Rightarrow> string \<Rightarrow> string \<Rightarrow> pset \<Rightarrow> OutboxEvent" where
  "computerGrantEvent computerID ownerID userID actorID allow =
     TopicComputerGrantChanged \<lparr>ce_ComputerID = computerID, ce_OwnerID = ownerID, ce_UserID = userID,
       ce_Permissions = allow, ce_ActorID = actorID, ce_MembersOnly = True\<rparr>"

definition HandleMembershipEnded :: "Service \<Rightarrow> database \<Rightarrow> database res" where
  "HandleMembershipEnded s db =
     (if svc_computers s = None then Inr db
      else EndComputerRules db (\<lambda>computerID ownerID userID. computerGrantEvent computerID ownerID userID [] []))"

section \<open>Explanations of a computer\<close>

definition computerHeld :: "Service \<Rightarrow> ctx \<Rightarrow> string \<Rightarrow> string \<Rightarrow> string \<Rightarrow> pset res" where
  "computerHeld s c ownerID userID computerID =
     (if userID = ownerID then Inr (SetOf ComputerActions)
      else case ComputerPermissions s c userID computerID of
        Inl e \<Rightarrow> if errors_is e ErrNotFound then Inr [] else Inl e
      | Inr (_, held) \<Rightarrow> Inr held)"

definition computerVerdict :: "namer \<Rightarrow> string \<Rightarrow> string \<Rightarrow> string \<Rightarrow> bool \<Rightarrow> Verdict" where
  "computerVerdict n computerID ownerID userID allowed =
     (let person = name_of n TargetPerson userID;
          src = \<lparr>src_Kind = SourceNotShared, src_EntityType = resourceTypeComputer, src_EntityID = computerID,
                 src_TargetType = TargetPerson, src_TargetID = userID, src_State = StateDeny\<rparr>;
          (kind, state, text) =
            (if userID = ownerID then (SourceOwner, StateAllow, ''Owner of this computer'')
             else if allowed
             then (SourceRule, StateAllow, ''Shared with '' @ person @ '' by '' @ name_of n TargetPerson ownerID)
             else (SourceNotShared, StateDeny, ''Not shared with '' @ person))
      in \<lparr>verdict_Allowed = allowed,
          verdict_Source = \<lparr>named_Source = src\<lparr>src_Kind := kind, src_State := state\<rparr>, named_EntityName = [],
                            named_TargetName = person, named_Sentence = text\<rparr>\<rparr>)"

definition explainComputer :: "Service \<Rightarrow> ctx \<Rightarrow> string \<Rightarrow> string \<Rightarrow> string \<Rightarrow> Explanation res" where
  "explainComputer s c actorID computerID userID =
     bindr (ComputerPermissions s c actorID computerID) (\<lambda>(ownerID, _).
     if userID \<noteq> actorID \<and> actorID \<noteq> ownerID then Inl (errorf ErrNotFound (''computer '' @ computerID))
     else bindr (computerHeld s c ownerID userID computerID) (\<lambda>held.
       Inr \<lparr>expl_ResourceType = resourceTypeComputer, expl_ResourceID = computerID, expl_UserID = userID,
            expl_RoleID = [],
            expl_Effective = map (\<lambda>a.
              let v = computerVerdict (service_namer s) computerID ownerID userID (Has held a)
              in \<lparr>answer_Action = a, answer_Verdict = v,
                  answer_Fallback = (if userID \<noteq> ownerID
                                     then computerVerdict (service_namer s) computerID ownerID userID False else v),
                  answer_Requires = None\<rparr>) ComputerActions\<rparr>))"

section \<open>Lemmas\<close>

lemma ComputerAccess_owner:
  "ComputerAccess db i u = Inr (ow, allow) \<Longrightarrow>
   u \<in> set (db_active db) \<and> (i, ow) \<in> set (db_computers db) \<and>
   (ow = u \<or> (\<exists>row. live_rule db (i, ow) u = Some row \<and> allow = parseSet (po_Allow row)))"
  by (auto simp: ComputerAccess_def find_Some_iff split: option.splits prod.splits)

lemma live_rule_Some:
  "live_rule db cm u = Some row \<Longrightarrow>
   row \<in> set (db_overwrites db) \<and> po_ResourceType row = resourceTypeComputer \<and> po_ResourceID row = fst cm \<and>
   po_UserID row = Some u \<and> snd cm \<in> set (db_active db) \<and> share_workspace db u (snd cm)"
  by (auto simp: live_rule_def find_Some_iff split: if_splits)

lemma seeWithRun_laws:
  assumes "set_ok allow"
  shows "set_ok (seeWithRun allow)"
    "set (seeWithRun allow) = set allow \<union> (if set allow \<inter> {ComputersAgents, ComputersCommands, ComputersLogs} = {} then {} else {ComputersSee})"
  using assms by (auto simp: seeWithRun_def Has_iff)


definition computer_runs :: "action list" where
  "computer_runs = [ComputersAgents, ComputersCommands, ComputersLogs]"

text \<open>The actions a rule's list gives on a computer: those of its four actions it names, with See beside any other.\<close>

definition shared_actions :: "action list \<Rightarrow> action set" where
  "shared_actions xs =
     (let g = set xs \<inter> set ComputerActions
      in g \<union> (if g \<inter> set computer_runs = {} then {} else {ComputersSee}))"

lemma seeWithRun_shared:
  "set (seeWithRun (SetOf (filter (\<lambda>a. \<not> a \<notin> set ComputerActions) (parseSet xs)))) = shared_actions xs"
  by (auto simp: seeWithRun_laws shared_actions_def computer_runs_def parseSet_def SetOfStrings_def Let_def)

lemma ComputerPermissions_Inr:
  assumes "ComputerPermissions s c u i = Inr (ow, held)"
  obtains cp allow where "svc_computers s = Some cp" "cp_ComputerAccess cp i u = Inr (ow, allow)" "viewedWorkspace c = None"
    "held = (if ow = u then SetOf ComputerActions
             else seeWithRun (SetOf (filter (\<lambda>a. \<not> a \<notin> set ComputerActions) allow)))"
    "Has held ComputersSee"
  using assms unfolding ComputerPermissions_def Let_def
  by (auto split: if_splits option.splits sum.splits prod.splits simp del: filter.simps)

section \<open>Properties\<close>

text \<open>Who reaches a computer, over the storage's tables: whoever \<open>ComputerPermissions\<close> lets through is an
  active account, and either owns the computer, holding all four of its actions, or is named by a rule on it
  while its active owner shares a workspace with them, holding exactly what the rule allows of the four with
  See beside any other; nothing else, no role and no Owner role, lets anyone through.\<close>

theorem ComputerPermissions_exact:
  assumes "svc_computers s = Some (ComputersRepo db)" "ComputerPermissions s c u i = Inr (ow, held)"
  shows "u \<in> set (db_active db) \<and> (i, ow) \<in> set (db_computers db) \<and> set_ok held \<and> ComputersSee \<in> set held \<and>
    (if ow = u then set held = set ComputerActions
     else ow \<in> set (db_active db) \<and> share_workspace db u ow \<and>
       (\<exists>row \<in> set (db_overwrites db). key3 row = (resourceTypeComputer, i, for_person u) \<and>
          set held = shared_actions (po_Allow row)))"
  using assms(2)
proof (rule ComputerPermissions_Inr)
  fix cp allow
  assume cp: "svc_computers s = Some cp" "cp_ComputerAccess cp i u = Inr (ow, allow)"
    and held: "held = (if ow = u then SetOf ComputerActions
             else seeWithRun (SetOf (filter (\<lambda>a. \<not> a \<notin> set ComputerActions) allow)))"
    and see: "Has held ComputersSee"
  from cp assms(1) have acc: "ComputerAccess db i u = Inr (ow, allow)" by (auto simp: ComputersRepo_def)
  have ok: "set_ok held" unfolding held by (simp add: seeWithRun_laws del: filter.simps)
  show ?thesis
  proof (cases "ow = u")
    case True
    with ComputerAccess_owner [OF acc] held ok see show ?thesis by (simp add: Has_iff)
  next
    case False
    with ComputerAccess_owner [OF acc] obtain row where
      row: "live_rule db (i, ow) u = Some row" "allow = parseSet (po_Allow row)" by blast
    have "set held = shared_actions (po_Allow row)"
      unfolding held row(2) using False seeWithRun_shared by simp
    moreover note live_rule_Some [OF row(1)] ComputerAccess_owner [OF acc] ok see
    ultimately show ?thesis using False by (auto simp: Has_iff key3_cols)
  qed
qed

definition example_shared_db :: database where
  "example_shared_db = example_db\<lparr>db_overwrites := [key_row (resourceTypeComputer, ''c1'', for_person ''bob'') ([ComputersAgents], []) 0]\<rparr>"

lemma plain_name: "s \<noteq> [] \<Longrightarrow> hd s \<notin> set (map hd space_runes) \<Longrightarrow> last s \<notin> set (map last space_runes) \<Longrightarrow> TrimSpace s = s"
  by (rule TrimSpace_plain) (simp add: plain_ends_def)

theorem ComputerPermissions_exact_witness:
  "\<exists>held. ComputerPermissions (SetComputers (example_service example_shared_db) (ComputersRepo example_shared_db))
       (person_ctx ''bob'') ''bob'' ''c1'' = Inr (''ann'', held) \<and> share_workspace example_shared_db ''bob'' ''ann''"
proof -
  let ?s = "SetComputers (example_service example_shared_db) (ComputersRepo example_shared_db)"
  have access: "ComputerAccess example_shared_db ''c1'' ''bob'' = Inr (''ann'', parseSet [ComputersAgents])"
    by (simp add: ComputerAccess_def live_rule_def example_shared_db_def example_db_def share_workspace_def key_row_def
        po_Target_def po_UserID_def setJSON_def Actions_def)
  have trim: "TrimSpace ''bob'' = ''bob''" "TrimSpace ''c1'' = ''c1''"
    by (rule plain_name; simp add: space_runes_def)+
  have "Has (seeWithRun (SetOf (filter (\<lambda>a. \<not> a \<notin> set ComputerActions) (parseSet [ComputersAgents])))) ComputersSee"
    by (simp only: Has_iff seeWithRun_laws set_ok_SetOf seeWithRun_shared) (simp add: shared_actions_def computer_runs_def)
  then obtain held where got: "ComputerPermissions ?s (person_ctx ''bob'') ''bob'' ''c1'' = Inr (''ann'', held)"
    using access trim
    by (simp add: ComputerPermissions_def SetComputers_def ComputersRepo_def viewedWorkspace_def person_ctx_def Let_def del: filter.simps)
  have "svc_computers ?s = Some (ComputersRepo example_shared_db)" by (simp add: SetComputers_def)
  from ComputerPermissions_exact [OF this got] got show ?thesis by auto
qed

text \<open>A computer rule never gives a use of a computer without See: whatever a write moved, the rule stored
  is canonical, adds at most See, has See beside any Run or Read logs, and a write that takes See away leaves
  a rule on the four actions with nothing at all.\<close>

theorem computerRule_closed:
  fixes actions :: "action list" and state :: string
  assumes "set_ok allow" "set allow \<subseteq> set ComputerActions"
  defines "r \<equiv> computerRule allow actions state"
  shows "set_ok r \<and> set r \<subseteq> insert ComputersSee (set allow) \<and>
    (if set r \<inter> set computer_runs = {} then True else ComputersSee \<in> set r) \<and>
    (if state \<noteq> StateAllow \<and> ComputersSee \<in> set actions \<and> ComputersSee \<notin> set allow then r = [] else True)"
proof (cases "state \<noteq> StateAllow \<and> ComputersSee \<in> set actions")
  case True
  then have r: "set_ok r" "set r = set allow - set computer_runs"
    by (auto simp: r_def computerRule_def computer_runs_def)
  moreover have "ComputersSee \<notin> set allow \<Longrightarrow> r = []"
  proof -
    assume "ComputersSee \<notin> set allow"
    then have "set r = {}" using r(2) assms(2) by (auto simp: computer_runs_def)
    then show ?thesis by simp
  qed
  ultimately show ?thesis by auto
next
  case False
  then have "r = seeWithRun allow" by (auto simp: r_def computerRule_def)
  then show ?thesis using False seeWithRun_laws [OF assms(1)] by (auto simp: computer_runs_def)
qed

theorem computerRule_closed_witness:
  "set_ok (computerRule [ComputersAgents] [ComputersAgents] StateAllow) \<and>
   computerRule [ComputersAgents] [ComputersSee] StateFallback = []"
  using computerRule_closed [of "[ComputersAgents]" "[ComputersAgents]" StateAllow]
    computerRule_closed [of "[ComputersAgents]" "[ComputersSee]" StateFallback]
  by (simp add: set_ok_def)

text \<open>The rules the run deletes, and the list of them it is given.\<close>

definition ended_rule :: "database \<Rightarrow> PermissionOverwrite \<Rightarrow> bool" where
  "ended_rule db row \<longleftrightarrow> po_ResourceType row = resourceTypeComputer \<and>
     list_ex (\<lambda>(i, ow). i = po_ResourceID row \<and> ended db row ow) (db_computers db)"

definition gone_rules :: "database \<Rightarrow> (string \<times> string \<times> string) list" where
  "gone_rules db = map (\<lambda>(row, ow). (po_ResourceID row, ow, the (po_UserID row))) (ended_rows db)"

definition people_only :: "database \<Rightarrow> bool" where
  "people_only db \<longleftrightarrow>
     list_all (\<lambda>row. po_ResourceType row = resourceTypeComputer \<longrightarrow> po_UserID row \<noteq> None) (db_overwrites db)"

lemma ended_rows_iff:
  "(row, ow) \<in> set (ended_rows db) \<longleftrightarrow> row \<in> set (db_overwrites db) \<and>
     po_ResourceType row = resourceTypeComputer \<and> (po_ResourceID row, ow) \<in> set (db_computers db) \<and> ended db row ow"
  by (force simp: ended_rows_def)

lemma people_only_user:
  "people_only db \<Longrightarrow> row \<in> set (db_overwrites db) \<Longrightarrow> po_ResourceType row = resourceTypeComputer \<Longrightarrow> \<exists>u. po_UserID row = Some u"
  by (auto simp: people_only_def list_all_iff)

lemma ListEnded_gone: "people_only db \<Longrightarrow> ListEndedComputerRules db = Inr (gone_rules db)"
  unfolding ListEndedComputerRules_def gone_rules_def
  by (rule mapr_total) (use ended_rows_iff people_only_user in \<open>force split: option.splits\<close>)

lemma gone_iff_ended:
  assumes "people_only db" and mine: "row \<in> set (db_overwrites db)"
  shows "list_ex (\<lambda>(cid, oid, uid). po_ResourceType row = resourceTypeComputer \<and> po_ResourceID row = cid \<and>
      po_UserID row = Some uid) (gone_rules db) \<longleftrightarrow> ended_rule db row" (is "?gone \<longleftrightarrow> _")
proof
  have same: "ended db row ow = ended db r ow" if "po_UserID row = po_UserID r" for r ow
    using that by (simp add: ended_def)
  assume ?gone
  then obtain r ow where r: "(r, ow) \<in> set (ended_rows db)" "po_ResourceType row = resourceTypeComputer"
    "po_ResourceID row = po_ResourceID r" "po_UserID row = Some (the (po_UserID r))"
    by (auto simp: list_ex_iff gone_rules_def)
  with people_only_user [OF assms(1), of r] ended_rows_iff [of r ow db] same [of r ow] have "ended db row ow" by auto
  with r show "ended_rule db row" using ended_rows_iff [of r ow db] by (auto simp: ended_rule_def list_ex_iff)
next
  assume "ended_rule db row"
  then obtain ow where "(row, ow) \<in> set (ended_rows db)" "po_ResourceType row = resourceTypeComputer"
    using mine ended_rows_iff [of row _ db] by (auto simp: ended_rule_def list_ex_iff)
  with people_only_user [OF assms] show ?gone by (force simp: list_ex_iff gone_rules_def)
qed

lemma EndComputerRules_run:
  assumes "people_only db"
  shows "EndComputerRules db event = Inr (db\<lparr>db_overwrites := filter (\<lambda>row. \<not> ended_rule db row) (db_overwrites db),
      db_outbox := db_outbox db @ map (\<lambda>(cid, oid, uid). event cid oid uid) (gone_rules db)\<rparr>)"
proof -
  have "filter (\<lambda>row. \<not> list_ex (\<lambda>(cid, oid, uid). po_ResourceType row = resourceTypeComputer \<and>
      po_ResourceID row = cid \<and> po_UserID row = Some uid) (gone_rules db)) (db_overwrites db) =
    filter (\<lambda>row. \<not> ended_rule db row) (db_overwrites db)"
    using gone_iff_ended [OF assms] by (intro filter_cong) auto
  then show ?thesis unfolding EndComputerRules_def ListEnded_gone [OF assms] by simp
qed

text \<open>Ending computer rules is complete and safe to repeat: with every computer rule naming a person, the
  run deletes exactly the rules of computers whose owner or named person is not active or who share no
  workspace, leaves every other rule, announces one event per ended rule, and a second run changes nothing
  and announces nothing.\<close>

theorem EndComputerRules_complete:
  assumes "list_all (\<lambda>row. po_ResourceType row = resourceTypeComputer \<longrightarrow> po_UserID row \<noteq> None) (db_overwrites db)"
  shows "\<exists>db'. EndComputerRules db event = Inr db' \<and>
    db_overwrites db' = filter (\<lambda>row. \<not> (po_ResourceType row = resourceTypeComputer \<and>
       list_ex (\<lambda>(i, ow). i = po_ResourceID row \<and> ended db row ow) (db_computers db))) (db_overwrites db) \<and>
    EndComputerRules db' event' = Inr db'"
proof -
  define db' where "db' = db\<lparr>db_overwrites := filter (\<lambda>row. \<not> ended_rule db row) (db_overwrites db),
      db_outbox := db_outbox db @ map (\<lambda>(cid, oid, uid). event cid oid uid) (gone_rules db)\<rparr>"
  have "EndComputerRules db event = Inr db'"
    unfolding db'_def by (rule EndComputerRules_run) (use assms in \<open>simp add: people_only_def\<close>)
  moreover have "ended_rows db' = []"
  proof -
    have "ended db' = ended db" by (simp add: ended_def share_workspace_def db'_def fun_eq_iff split: option.split)
    then show ?thesis by (auto simp: ended_rows_def db'_def ended_rule_def list_ex_iff filter_empty_conv)
  qed
  then have "EndComputerRules db' event' = Inr db'"
    unfolding EndComputerRules_def ListEndedComputerRules_def by simp
  moreover have "db_overwrites db' = filter (\<lambda>row. \<not> ended_rule db row) (db_overwrites db)" by (simp add: db'_def)
  ultimately show ?thesis unfolding ended_rule_def by blast
qed

theorem EndComputerRules_complete_witness:
  "\<exists>db'. EndComputerRules (example_shared_db\<lparr>db_active := [''ann'']\<rparr>) (\<lambda>i ow u. computerGrantEvent i ow u [] []) = Inr db' \<and>
     db_overwrites db' = []"
  using EndComputerRules_complete [of "example_shared_db\<lparr>db_active := [''ann'']\<rparr>" "\<lambda>i ow u. computerGrantEvent i ow u [] []"]
  by (auto simp: example_shared_db_def example_db_def key_row_def po_UserID_def ended_def)

end
