(* ===== verification/Access_Explain.thy ===== *)
theory Access_Explain
  imports Access_Computer
begin

text \<open>
  Explanations (\<^verbatim>\<open>internal/access/explain.go\<close>): what an entity's rules may set, the answer for each of
  those actions with its source, and the answer with the person's or the role's own rule at Fallback.  The
  answers come from the checks that enforce them, and the theorems say so.
\<close>

section \<open>The actions an entity's rules may set\<close>

definition SetNames :: "Service \<Rightarrow> Names \<Rightarrow> Service" where
  "SetNames s n = s\<lparr>svc_names := Some n\<rparr>"

definition catalogActions :: "(Info \<Rightarrow> bool) \<Rightarrow> action list" where
  "catalogActions keep = map info_Value (filter keep Catalog)"

definition docActions :: "action list" where
  "docActions = catalogActions (\<lambda>i. info_Domain i = ''docs'' \<or> info_Value i = PermissionsWrite)"

definition playActions :: "action list" where
  "playActions = [PlaysRead, PlaysRun, PlaysWrite, PlaysDelete]"

definition stackActions :: "action list" where
  "stackActions = catalogActions (\<lambda>i. info_Domain i = ''stacks'') @ catalogActions (\<lambda>i. info_Domain i = ''deploys'')"

definition channelActions :: "action list" where
  "channelActions = [ChannelsRead, ChannelsPost]"

definition projectActions :: "action list" where
  "projectActions = ProjectsOpen # catalogActions (\<lambda>i. info_Area i = AreaProject)"

section \<open>Entities\<close>

record entity =
  ent_kind :: string
  ent_id :: string
  ent_workspaceID :: string
  ent_projectID :: string
  ent_folderID :: string
  ent_machine :: string
  ent_open :: action
  ent_manage :: action
  ent_actions :: "action list"

definition bare_entity :: "string \<Rightarrow> string \<Rightarrow> entity" where
  "bare_entity resourceType resourceID =
     \<lparr>ent_kind = resourceType, ent_id = resourceID, ent_workspaceID = [], ent_projectID = [], ent_folderID = [],
      ent_machine = [], ent_open = [], ent_manage = [], ent_actions = []\<rparr>"

definition stackEntity :: "Service \<Rightarrow> entity \<Rightarrow> entity res" where
  "stackEntity s e =
     bindr (stackScopeOf s (ent_id e)) (\<lambda>scope.
     if ss_ProjectID scope = []
     then Inl (errorf ErrInvalid (''stack '' @ ent_id e @ '' belongs to no project; the instance's own stacks carry no rules''))
     else if ss_BaseID scope \<noteq> []
     then Inl (errorf ErrInvalid (''stack '' @ ent_id e @ '' is a branch deployment; set the rules on its base stack '' @
                 ss_BaseID scope))
     else Inr (e\<lparr>ent_workspaceID := ss_WorkspaceID scope, ent_projectID := ss_ProjectID scope,
                 ent_machine := ss_Machine scope, ent_open := StacksRead, ent_manage := StacksWrite,
                 ent_actions := stackActions\<rparr>))"

definition doc_entity :: "Service \<Rightarrow> string \<Rightarrow> entity" where
  "doc_entity s docID =
     (let scope = scope_at (docScopes s [docID]) docID
      in (bare_entity resourceTypeDoc docID)
           \<lparr>ent_workspaceID := ds_WorkspaceID scope, ent_projectID := ds_ProjectID scope,
            ent_folderID := ds_FolderID scope, ent_open := DocsRead, ent_manage := PermissionsWrite,
            ent_actions := docActions\<rparr>)"

definition entityOf :: "Service \<Rightarrow> string \<Rightarrow> string \<Rightarrow> entity res" where
  "entityOf s resourceType resourceID =
     (let e = bare_entity resourceType resourceID
      in if resourceType = resourceTypeDoc then Inr (doc_entity s resourceID)
         else if resourceType = resourceTypeFolder
         then let scope = folderScope s resourceID
              in if ds_ProjectID scope = [] then Inl (errorf ErrNotFound (''folder '' @ resourceID))
                 else Inr (e\<lparr>ent_workspaceID := ds_WorkspaceID scope, ent_projectID := ds_ProjectID scope,
                             ent_open := Member, ent_manage := PermissionsWrite, ent_actions := docActions\<rparr>)
         else if resourceType = resourceTypeStack then stackEntity s e
         else if resourceType = resourceTypePlay
         then Inr (e\<lparr>ent_workspaceID := resolvePlayWorkspace s resourceID, ent_open := PlaysRead,
                     ent_manage := PlaysWrite, ent_actions := playActions\<rparr>)
         else if resourceType = resourceTypeProject
         then bindr (projectWorkspace s resourceID) (\<lambda>workspaceID.
              Inr (e\<lparr>ent_workspaceID := workspaceID, ent_projectID := resourceID, ent_open := Member,
                     ent_manage := ProjectsAccess, ent_actions := projectActions\<rparr>))
         else if resourceType = resourceTypeChannel
         then (case channelScope s resourceID of
                 Inl _ \<Rightarrow> Inl (errorf ErrNotFound (''channel '' @ resourceID))
               | Inr scope \<Rightarrow>
                   Inr (e\<lparr>ent_workspaceID := cs_WorkspaceID scope, ent_open := ChannelsRead,
                          ent_manage := ChannelsWrite, ent_actions := channelActions\<rparr>))
         else Inl (errorf ErrInvalid (''resource_type '' @ go_q resourceType @
                     '' is not doc, folder, play, project, stack, or channel'')))"

text \<open>The last of a chain at Fallback for an action; an empty chain stays empty.\<close>

definition last_at_fallback :: "Rules option list \<Rightarrow> action \<Rightarrow> Rules option list" where
  "last_at_fallback chain a =
     (if chain = [] then [] else butlast chain @ [personAtFallback (last chain) a])"

definition answer :: "Service \<Rightarrow> ctx \<Rightarrow> string \<Rightarrow> entity \<Rightarrow> action \<Rightarrow> bool \<Rightarrow> bool \<times> Source" where
  "answer s c userID e a own =
     (if own then check s c userID (ent_workspaceID e) (ent_projectID e) a (ent_kind e) (ent_id e)
      else if ent_kind e = resourceTypeChannel \<and> a = ChannelsRead
      then channelRead s c userID (ent_workspaceID e) (ent_id e) False
      else
        let ws = layers s c userID (ent_workspaceID e) (ent_projectID e)
        in if ent_kind e = resourceTypeProject
           then decide (layers_in ws (ent_projectID e) (personAtFallback (ws_project ws) a)) a noRules
           else decide ws a (last_at_fallback (chain_of s (ent_kind e) (ent_id e) userID) a))"

definition Decide :: "Service \<Rightarrow> ctx \<Rightarrow> string \<Rightarrow> string \<Rightarrow> string \<Rightarrow> action \<Rightarrow> (bool \<times> Source) res" where
  "Decide s c userID resourceType resourceID a =
     (if resourceType = resourceTypeMachine then decideMachine s c userID resourceID a
      else bindr (entityOf s resourceType resourceID) (\<lambda>e. Inr (answer s c userID e a True)))"

definition RefuseDoc :: "Service \<Rightarrow> ctx \<Rightarrow> string \<Rightarrow> string \<Rightarrow> action \<Rightarrow> err" where
  "RefuseDoc s c userID docID a = refusal s a (snd (answer s c userID (doc_entity s docID) a True))"

section \<open>Explaining a person\<close>

definition refusedBy :: "bool \<times> Source \<Rightarrow> Source option \<Rightarrow> bool \<times> Source" where
  "refusedBy v by =
     (case by of None \<Rightarrow> v | Some src \<Rightarrow> if \<not> fst v then v else (False, src))"

definition stackNoDeployTo ::
  "Service \<Rightarrow> entity \<Rightarrow> (string \<Rightarrow> machine_view res) \<Rightarrow> string \<Rightarrow> string \<Rightarrow> Source option res" where
  "stackNoDeployTo s e viewer targetType targetID =
     (if ent_kind e \<noteq> resourceTypeStack then Inr None
      else noDeployTo s viewer targetType targetID (ent_machine e))"

text \<open>A play's Run answer carries its See when See is not held; the first answers of the two are meant.\<close>

definition requireSee :: "Answer list \<Rightarrow> Answer list" where
  "requireSee answers =
     (case (find (\<lambda>an. answer_Action an = PlaysRead) answers, find (\<lambda>an. answer_Action an = PlaysRun) answers) of
        (Some see, Some _) \<Rightarrow>
          if verdict_Allowed (answer_Verdict see) then answers
          else let run = length (takeWhile (\<lambda>an. answer_Action an \<noteq> PlaysRun) answers)
               in answers[run := (answers ! run)\<lparr>answer_Requires :=
                    Some \<lparr>req_Action = PlaysRead,
                          req_Sentence = named_Sentence (verdict_Source (answer_Verdict see))\<rparr>\<rparr>]
      | _ \<Rightarrow> answers)"

definition Explain_answer :: "Service \<Rightarrow> Source option \<Rightarrow> action \<Rightarrow> bool \<times> Source \<Rightarrow> bool \<times> Source \<Rightarrow> Answer" where
  "Explain_answer s noDeploy a held inherited =
     (let held = (if a = DeploysWrite then refusedBy held noDeploy else held);
          inherited = (if a = DeploysWrite then refusedBy inherited noDeploy else inherited)
      in \<lparr>answer_Action = a, answer_Verdict = verdict (service_namer s) held,
          answer_Fallback = verdict (service_namer s) inherited, answer_Requires = None\<rparr>)"

definition Explain :: "Service \<Rightarrow> ctx \<Rightarrow> string \<Rightarrow> string \<Rightarrow> string \<Rightarrow> string \<Rightarrow> Explanation res" where
  "Explain s c actorID resourceType resourceID userID0 =
     (if actorID = [] then Inl (errorf ErrUnauthorized ''actor is required'')
      else
        let userID = (if userID0 = [] then actorID else userID0)
        in if resourceType = resourceTypeComputer then explainComputer s c actorID resourceID userID
           else if resourceType = resourceTypeInstanceArea then explainArea s c actorID resourceID userID
           else if resourceType = resourceTypeMachine then explainMachine s c actorID resourceID userID
           else bindr (entityOf s resourceType resourceID) (\<lambda>e.
             if \<not> fst (answer s c actorID e (ent_open e) True)
             then Inl (errorf ErrNotFound (resourceType @ '' '' @ resourceID))
             else if userID \<noteq> actorID \<and> \<not> fst (answer s c actorID e (ent_manage e) True)
             then Inl (refusal s (ent_manage e) (snd (answer s c actorID e (ent_manage e) True)))
             else bindr (stackNoDeployTo s e (viewerOf s c userID) TargetPerson userID) (\<lambda>noDeploy.
               Inr \<lparr>expl_ResourceType = resourceType, expl_ResourceID = resourceID, expl_UserID = userID,
                    expl_RoleID = [],
                    expl_Effective = requireSee (map (\<lambda>a.
                      Explain_answer s noDeploy a (answer s c userID e a True) (answer s c userID e a False))
                      (ent_actions e))\<rparr>)))"

section \<open>Explaining a role\<close>

definition roleRulesOn :: "Service \<Rightarrow> string \<Rightarrow> string \<Rightarrow> string \<Rightarrow> Overwrite list res" where
  "roleRulesOn s resourceType resourceID roleID =
     bindr (map_errr (wrapf (''rules for role '' @ roleID @ '' on '' @ resourceType @ '' '' @ resourceID))
              (repo_RoleRules (svc_repo s) resourceType [resourceID] [roleID])) (\<lambda>got.
     Inr (case map_of got resourceID of None \<Rightarrow> [] | Some rs \<Rightarrow> rs))"

definition roleRulesAround :: "Service \<Rightarrow> entity \<Rightarrow> string \<Rightarrow> (Overwrite list \<times> Overwrite list) res" where
  "roleRulesAround s e roleID =
     bindr (if ent_projectID e \<noteq> [] \<and> ent_kind e \<noteq> resourceTypeProject
            then roleRulesOn s resourceTypeProject (ent_projectID e) roleID else Inr []) (\<lambda>inProject.
     bindr (if ent_folderID e \<noteq> [] then roleRulesOn s resourceTypeFolder (ent_folderID e) roleID else Inr []) (\<lambda>inFolder.
     Inr (inProject, inFolder)))"

definition roleAnswer ::
  "workspaceLayers \<Rightarrow> entity \<Rightarrow> string \<Rightarrow> action \<Rightarrow> Overwrite list \<Rightarrow> Overwrite list \<Rightarrow> Overwrite list \<Rightarrow> bool \<Rightarrow>
   bool \<times> Source" where
  "roleAnswer ws e roleID a inProject inFolder own private =
     (if ent_kind e = resourceTypeChannel \<and> a = ChannelsRead \<and> \<not> ws_owner ws
      then let src = sourceOf SourceEveryMember resourceTypeChannel (ent_id e) TargetRole roleID True;
               src = (if private then src\<lparr>src_Kind := SourceChannelMember\<rparr> else src)
           in applyRules True src (Some \<lparr>rules_Person = None, rules_Roles = own\<rparr>) [roleID] a
      else
        let project = (if ent_kind e = resourceTypeProject then own else inProject);
            chain = (if ent_kind e = resourceTypeProject then []
                     else [Some \<lparr>rules_Person = None, rules_Roles = inFolder\<rparr>,
                           Some \<lparr>rules_Person = None, rules_Roles = own\<rparr>]);
            ws = (if ent_projectID e \<noteq> []
                  then layers_in ws (ent_projectID e) (Some \<lparr>rules_Person = None, rules_Roles = project\<rparr>) else ws);
            (allowed, src) = decide ws a chain
        in (allowed, if src_Kind src = SourceNotInProject
                     then src\<lparr>src_TargetType := TargetRole, src_TargetID := roleID\<rparr> else src))"

definition ExplainRole :: "Service \<Rightarrow> ctx \<Rightarrow> string \<Rightarrow> string \<Rightarrow> string \<Rightarrow> string \<Rightarrow> Explanation res" where
  "ExplainRole s c actorID resourceType resourceID roleID =
     (if actorID = [] then Inl (errorf ErrUnauthorized ''actor is required'')
      else if resourceType = resourceTypeInstanceArea then explainRoleArea s c actorID resourceID roleID
      else if resourceType = resourceTypeMachine then explainRoleMachine s c actorID resourceID roleID
      else bindr (entityOf s resourceType resourceID) (\<lambda>e.
        if \<not> fst (answer s c actorID e (ent_open e) True)
        then Inl (errorf ErrNotFound (resourceType @ '' '' @ resourceID))
        else if \<not> fst (answer s c actorID e (ent_manage e) True)
        then Inl (refusal s (ent_manage e) (snd (answer s c actorID e (ent_manage e) True)))
        else bindr (requireRolesOf s resourceType resourceID [roleID]) (\<lambda>_.
          case svc_roleWorkspace s of
            None \<Rightarrow> Inl (errorf ErrForbidden ''no role lookup wired'')
          | Some rw \<Rightarrow>
              bindr (map_errr (wrapf (''read role '' @ roleID)) (rw_HeldRole rw roleID)) (\<lambda>held.
              bindr (roleRulesOn s (ent_kind e) (ent_id e) roleID) (\<lambda>own.
              bindr (roleRulesAround s e roleID) (\<lambda>(inProject, inFolder).
              let ws = (bare_layers [] (ent_workspaceID e) [])
                         \<lparr>ws_member := True, ws_owner := hr_IsOwner held, ws_roles := RolesHeld [held]\<rparr>;
                  private = (ent_kind e = resourceTypeChannel \<and>
                             cs_Private (zero_on_err no_channel_scope (channelScope s (ent_id e))))
              in bindr (stackNoDeployTo s e (\<lambda>machineID. roleMachineView s rw machineID roleID) TargetRole roleID) (\<lambda>noDeploy.
                 Inr \<lparr>expl_ResourceType = resourceType, expl_ResourceID = resourceID, expl_UserID = [],
                      expl_RoleID = roleID,
                      expl_Effective = requireSee (map (\<lambda>a.
                        Explain_answer s noDeploy a
                          (roleAnswer ws e roleID a inProject inFolder own private)
                          (roleAnswer ws e roleID a inProject inFolder (atFallback own a) private))
                        (ent_actions e))\<rparr>)))))))"

section \<open>Lemmas\<close>

text \<open>The check that enforces an action on a doc, folder, play, project, stack or channel.\<close>

definition enforced :: "Service \<Rightarrow> ctx \<Rightarrow> string \<Rightarrow> string \<Rightarrow> string \<Rightarrow> action \<Rightarrow> bool" where
  "enforced s c u ty i a =
     (if ty = resourceTypeDoc then Can s c u i a else HasPermission s c u (workspaceOf s ty i) a ty i)"

definition entity_kinds :: "string list" where
  "entity_kinds = [resourceTypeDoc, resourceTypeFolder, resourceTypeStack, resourceTypePlay, resourceTypeProject,
     resourceTypeChannel]"

lemma entityOf_kind: "entityOf s ty i = Inr e \<Longrightarrow> ent_kind e = ty \<and> ent_id e = i"
  by (auto simp: entityOf_def stackEntity_def bare_entity_def doc_entity_def Let_def bindr_Inr_iff
      split: if_splits sum.splits)

lemma stackScope_of: "stackScopeOf s i = Inr scope \<Longrightarrow> stackScope s i = scope"
  by (simp add: stackScope_def zero_on_err_def)

lemma Can_check:
  "u \<noteq> [] \<Longrightarrow> i \<noteq> [] \<Longrightarrow>
   Can s c u i a = fst (check s c u (ds_WorkspaceID (scope_at (docScopes s [i]) i))
     (ds_ProjectID (scope_at (docScopes s [i]) i)) a resourceTypeDoc i)"
  by (simp add: Can_def at_bool_def CanDocs_def docScopesIn_def check_def chain_of_def Let_def)

lemma answer_enforced:
  assumes "entityOf s ty i = Inr e" "u \<noteq> []" "i \<noteq> []"
  shows "fst (answer s c u e a True) = enforced s c u ty i a"
proof -
  consider "ty = resourceTypeDoc" | "ty = resourceTypeFolder" | "ty = resourceTypeStack" | "ty = resourceTypePlay"
    | "ty = resourceTypeProject" | "ty = resourceTypeChannel"
    using assms(1) by (auto simp: entityOf_def Let_def split: if_splits)
  then show ?thesis
  proof cases
    case 1
    then show ?thesis using assms
      by (auto simp: entityOf_def answer_def doc_entity_def bare_entity_def Let_def enforced_def Can_check)
  next
    case 3
    with assms(1) obtain scope where "stackScopeOf s i = Inr scope" "ent_workspaceID e = ss_WorkspaceID scope"
      "ent_projectID e = ss_ProjectID scope" "ent_kind e = ty" "ent_id e = i"
      by (auto simp: entityOf_def stackEntity_def bare_entity_def Let_def bindr_Inr_iff split: if_splits)
    then show ?thesis using 3 assms(2)
      by (simp add: answer_def enforced_def HasPermission_def workspaceOf_def stackScope_of)
  next
    case 6
    then show ?thesis using assms
      by (auto simp: entityOf_def answer_def bare_entity_def Let_def enforced_def HasPermission_def workspaceOf_def
          zero_on_err_def split: sum.splits)
  qed (use assms in \<open>auto simp: entityOf_def answer_def bare_entity_def Let_def enforced_def HasPermission_def workspaceOf_def
          bindr_Inr_iff zero_on_err_def split: if_splits\<close>)
qed

lemma requireSee_verdicts:
  "map (\<lambda>an. (answer_Action an, answer_Verdict an, answer_Fallback an)) (requireSee xs) =
   map (\<lambda>an. (answer_Action an, answer_Verdict an, answer_Fallback an)) xs"
proof -
  let ?f = "\<lambda>an. (answer_Action an, answer_Verdict an, answer_Fallback an)"
  have "map ?f (xs[k := (xs ! k)\<lparr>answer_Requires := r\<rparr>]) = map ?f xs" for k r
    by (cases "k < length xs") (simp_all add: map_update list_update_same_conv list_update_beyond)
  then show ?thesis by (auto simp: requireSee_def Let_def split: option.splits)
qed

lemma layers_listed:
  "ws_listed (layers s c u w p) \<longleftrightarrow>
   rule_verdict (ws_project (layers s c u w p)) (roleIDs (ws_roles (layers s c u w p))) ProjectsOpen = Some True"
proof -
  have "ws_listed ws \<longleftrightarrow> rule_verdict (ws_project ws) (roleIDs (ws_roles ws)) ProjectsOpen = Some True"
    if "ws = layers_in ws' p r \<or> ws = bare_layers u w p" for ws ws' r
    using that by (auto simp: ws_listed_in)
  moreover have "\<exists>ws' r. fst (readLayers s c u w p) = layers_in ws' p r \<or> fst (readLayers s c u w p) = bare_layers u w p"
    by (auto simp: readLayers_def Let_def split: sum.splits)
  then have "\<exists>ws' r. layers s c u w p = layers_in ws' p r \<or> layers s c u w p = bare_layers u w p"
    unfolding layers_def by (auto split: option.splits)
  ultimately show ?thesis by blast
qed

section \<open>Properties\<close>



definition example_owner :: HeldRole where
  "example_owner = \<lparr>hr_ID = ''r0'', hr_IsOwner = True, hr_Permissions = []\<rparr>"

definition example_plays :: Service where
  "example_plays = (example_service example_db)
     \<lparr>svc_playWorkspace := Some (\<lambda>_. Inr ''w1''), svc_roles := Some (\<lambda>w u. Inr (RolesHeld [example_owner]))\<rparr>"

lemma length_requireSee [simp]: "length (requireSee xs) = length xs"
  by (simp add: requireSee_def Let_def split: option.splits)

lemma example_plays_owner: "fst (answer example_plays (person_ctx ''ann'') ''ann'' e a True)"
  if "ent_workspaceID e = ''w1''"  "ent_kind e = resourceTypePlay"
proof -
  have "ws_owner (layers example_plays (person_ctx ''ann'') ''ann'' ''w1'' p)" for p
    by (simp add: member_info_def memberRole_def viewedWorkspace_def person_ctx_def example_plays_def RolesHeld_def
        example_owner_def)
  with that show ?thesis by (simp add: answer_def check_def decide_def)
qed


text \<open>Seeing a project and opening it are one check: inside a project of its workspace a person holds
  \<open>ProjectsOpen\<close> exactly when they pass as a member there, so a list cut by the one is the list cut by the
  other.\<close>

theorem ProjectsOpen_is_Member:
  "fst (check s c u w (x # p) ProjectsOpen [] []) = fst (check s c u w (x # p) Member [] [])"
  by (auto simp: check_def chain_of_def decide_answer hidden_def layers_listed has_def applyRules_answer AreaOf_def
      split: option.splits prod.splits)

end
