(* ===== verification/Access_Write.thy ===== *)
theory Access_Write
  imports Access_Explain
begin

text \<open>
  Writing rules (\<^verbatim>\<open>internal/access/usecase.go\<close> from \<open>GrantCreator\<close> on, \<open>checkComputerWrite\<close> and
  \<open>checkComputerTarget\<close> of \<^verbatim>\<open>computer.go\<close>): the checks of a write, its plan, the writes stored in order
  with their outbox events, and the lists of rules.  A write takes the database and returns it changed; its
  checks read through the service's repository.  One clock reading stands for the readings of one call.
\<close>

section \<open>Whom a write names, and what it stores\<close>

record Targets =
  to_UserIDs :: "string list"
  to_RoleIDs :: "string list"

record ruleWrite =
  rule_resourceID :: string
  rule_target :: string
  rule_targetID :: string
  rule_allow :: pset
  rule_deny :: pset
  rule_existed :: bool

definition targets_each :: "Targets \<Rightarrow> (string \<times> string) list" where
  "targets_each t = map (Pair TargetPerson) (to_UserIDs t) @ map (Pair TargetRole) (to_RoleIDs t)"

section \<open>What each entity's rules may set\<close>

definition ruleTypes :: "string list" where
  "ruleTypes = [resourceTypeDoc, resourceTypeFolder, resourceTypePlay, resourceTypeProject, resourceTypeChannel,
     resourceTypeStack, resourceTypeInstanceArea, resourceTypeComputer, resourceTypeMachine]"

definition errNotARuleType :: "string \<Rightarrow> err" where
  "errNotARuleType resourceType = errorf ErrInvalid (''resource_type '' @ go_q resourceType @
     '' is not doc, folder, play, project, channel, stack, computer, machine, or instance_area'')"

definition onlyActions :: "(action list \<times> string) gomap" where
  "onlyActions =
     [(resourceTypePlay, playActions, ''plays:read, plays:run, plays:write and plays:delete''),
      (resourceTypeProject, projectActions, ''projects:open and project-area actions''),
      (resourceTypeFolder, docActions, ''the docs actions and permissions:write''),
      (resourceTypeStack, stackActions, ''the stacks and deploys actions''),
      (resourceTypeChannel, channelActions, ''channels:read and channels:post''),
      (resourceTypeMachine, MachineActions, ''machines:see, machines:deploy, machines:write and machines:delete'')]"

definition checkRuleAction :: "string \<Rightarrow> action \<Rightarrow> unit res" where
  "checkRuleAction resourceType a =
     (if (a \<in> set ComputerActions) \<noteq> (resourceType = resourceTypeComputer)
      then Inl (errorf ErrInvalid (''a computer's rules set computers:see, computers:run_agents, '' @
                  ''computers:run_commands and computers:read_logs, and only they''))
      else if a = ProjectsOpen \<and> resourceType \<noteq> resourceTypeProject
      then Inl (errorf ErrInvalid ''projects:open is set only on a project'')
      else if a = MachinesSee \<and> resourceType \<noteq> resourceTypeMachine
      then Inl (errorf ErrInvalid ''machines:see is set only on a machine'')
      else case map_of onlyActions resourceType of
        None \<Rightarrow> Inr ()
      | Some (only, says) \<Rightarrow>
          if a \<notin> set only
          then Inl (errorf ErrInvalid (a @ '' is not set on a '' @ resourceType @ ''; its rules set '' @ says))
          else Inr ())"

definition checkRuleActions :: "string \<Rightarrow> action list \<Rightarrow> unit res" where
  "checkRuleActions resourceType actions =
     (if resourceType \<notin> set ruleTypes then Inl (errNotARuleType resourceType)
      else bindr (mapr (checkRuleAction resourceType) actions) (\<lambda>_. Inr ()))"

definition checkWrite :: "string \<Rightarrow> string \<Rightarrow> string list \<Rightarrow> Targets \<Rightarrow> action list \<Rightarrow> string \<Rightarrow> unit res" where
  "checkWrite actorID resourceType resourceIDs to actions state =
     (if actorID = [] then Inl (errorf ErrUnauthorized ''actor is required'')
      else if resourceIDs = [] \<or> length (to_UserIDs to) + length (to_RoleIDs to) = 0 \<or> actions = []
      then Inl (errorf ErrInvalid ''at least one resource, one person or role, and one action are required'')
      else if state \<notin> {StateAllow, StateFallback, StateDeny, stateRevoke, stateLift}
      then Inl (errorf ErrInvalid (''state '' @ go_q state @ '' is not allow, fallback, or deny''))
      else checkRuleActions resourceType actions)"

definition checkComputerWrite :: "Targets \<Rightarrow> string \<Rightarrow> unit res" where
  "checkComputerWrite to state =
     (if to_RoleIDs to \<noteq> [] then Inl (errorf ErrInvalid ''a computer is shared with named people, never a role'')
      else if state = StateDeny \<or> state = stateLift
      then Inl (errorf ErrInvalid
             ''a computer rule is allow or fallback, never deny; fallback takes the person off it'')
      else Inr ())"

section \<open>Who may write\<close>

definition requireOpens :: "Service \<Rightarrow> ctx \<Rightarrow> string \<Rightarrow> string \<Rightarrow> string \<Rightarrow> unit res" where
  "requireOpens s c actorID resourceType resourceID =
     (if resourceType = resourceTypeMachine then requireMachineSeen s c actorID resourceID
      else if resourceType \<notin> {resourceTypeProject, resourceTypeFolder, resourceTypePlay, resourceTypeStack,
                resourceTypeChannel} then Inr ()
      else bindr (entityOf s resourceType resourceID) (\<lambda>e.
           guardr (fst (answer s c actorID e (ent_open e) True)) (errorf ErrNotFound (resourceType @ '' '' @ resourceID))))"

definition holds :: "Service \<Rightarrow> ctx \<Rightarrow> string \<Rightarrow> string \<Rightarrow> string \<Rightarrow> action \<Rightarrow> bool" where
  "holds s c actorID resourceType resourceID a =
     (if resourceType = resourceTypeInstanceArea then zero_on_err False (HoldsArea s c actorID resourceID a)
      else if resourceType = resourceTypeComputer
      then (case ComputerPermissions s c actorID resourceID of Inl _ \<Rightarrow> False | Inr (_, held) \<Rightarrow> Has held a)
      else if resourceType = resourceTypeMachine then holdsOnMachine s c actorID resourceID a
      else if resourceType \<noteq> resourceTypeDoc
      then HasPermission s c actorID (workspaceOf s resourceType resourceID) a resourceType resourceID
      else Can s c actorID resourceID a)"

definition canManage :: "Service \<Rightarrow> ctx \<Rightarrow> string \<Rightarrow> string \<Rightarrow> string \<Rightarrow> bool res" where
  "canManage s c actorID resourceType resourceID =
     (if resourceType = resourceTypeInstanceArea then IsInstanceOwner s c actorID
      else if resourceType = resourceTypeComputer
      then bindr (ownedComputer s c actorID resourceID) (\<lambda>_. Inr True)
      else if resourceType = resourceTypeMachine then Inr (holds s c actorID resourceType resourceID MachinesWrite)
      else if resourceType = resourceTypeChannel
      then bindr (requireOpens s c actorID resourceType resourceID) (\<lambda>_.
           if workspaceOf s resourceType resourceID = []
           then Inl (errorf ErrNotFound (''channel '' @ resourceID))
           else Inr (holds s c actorID resourceType resourceID ChannelsWrite))
      else if resourceType = resourceTypePlay then Inr (holds s c actorID resourceType resourceID PlaysWrite)
      else if resourceType = resourceTypeProject then Inr (holds s c actorID resourceType resourceID ProjectsAccess)
      else if resourceType = resourceTypeFolder then Inr (holds s c actorID resourceType resourceID PermissionsWrite)
      else if resourceType = resourceTypeStack then Inr (holds s c actorID resourceType resourceID StacksWrite)
      else Inr (Can s c actorID resourceID PermissionsWrite))"

definition ManagesRules :: "Service \<Rightarrow> ctx \<Rightarrow> string \<Rightarrow> string \<Rightarrow> string \<Rightarrow> bool" where
  "ManagesRules s c userID resourceType resourceID =
     (if userID = [] then False else zero_on_err False (canManage s c userID resourceType resourceID))"

section \<open>Planning and storing\<close>

definition existingRule :: "Service \<Rightarrow> string \<Rightarrow> string \<Rightarrow> string \<Rightarrow> string \<Rightarrow> Overwrite res" where
  "existingRule s resourceType resourceID target targetID =
     (if target = TargetRole then repo_GetRole (svc_repo s) resourceType resourceID targetID
      else repo_Get (svc_repo s) resourceType resourceID targetID)"

text \<open>The loop of \<open>nextRule\<close> over the actions: each is moved in turn, and one that is given (newly allowed, or
  no longer denied) is one the actor holds.\<close>

fun nextRule_loop ::
  "(action \<Rightarrow> bool) \<Rightarrow> string \<Rightarrow> string \<Rightarrow> action list \<Rightarrow> pset \<times> pset \<Rightarrow> (pset \<times> pset) res" where
  "nextRule_loop held resourceType state [] rule = Inr rule"
| "nextRule_loop held resourceType state (a # actions) (allow0, deny0) =
     (let (allow, deny) = moveTo allow0 deny0 a state;
          gives = (Has allow a \<and> \<not> Has allow0 a) \<or> (Has deny0 a \<and> \<not> Has deny a)
      in if gives \<and> \<not> held a
         then Inl (errorf ErrForbidden (''you can't allow, or lift a Deny on, '' @ a @
                     '': you don't hold it on this '' @ resourceType))
         else nextRule_loop held resourceType state actions (allow, deny))"

definition nextRule ::
  "Service \<Rightarrow> ctx \<Rightarrow> string \<Rightarrow> string \<Rightarrow> string \<Rightarrow> string \<times> string \<Rightarrow> action list \<Rightarrow> string \<Rightarrow> ruleWrite res" where
  "nextRule s c actorID resourceType resourceID target actions state =
     (let next = (\<lambda>rule existed.
            bindr (nextRule_loop (holds s c actorID resourceType resourceID) resourceType state actions rule)
              (\<lambda>(allow, deny). Inr \<lparr>rule_resourceID = resourceID, rule_target = fst target, rule_targetID = snd target,
                                     rule_allow = allow, rule_deny = deny, rule_existed = existed\<rparr>))
      in case existingRule s resourceType resourceID (fst target) (snd target) of
           Inr existing \<Rightarrow> next (ow_Allow existing, ow_Deny existing) True
         | Inl e \<Rightarrow>
             if errors_is e ErrNotFound then next ([], []) False
             else Inl (wrapf (''get overwrite '' @ resourceType @ ''/'' @ resourceID @ ''/'' @ snd target) e))"

text \<open>The owner is checked first, which without a computer lookup answers not found, so the missing lookup below is
  never reached.\<close>

definition checkComputerTarget :: "Service \<Rightarrow> string \<Rightarrow> ruleWrite \<Rightarrow> unit res" where
  "checkComputerTarget s ownerID w =
     (if rule_targetID w = ownerID
      then Inl (errorf ErrInvalid ''you own this computer; name the person to share it with'')
      else if rule_allow w = [] then Inr ()
      else case svc_computers s of
        None \<Rightarrow> Inl (errorf ErrNotFound ''no computer lookup wired'')
      | Some cp \<Rightarrow> bindr (cp_SharesWithOwner cp ownerID (rule_targetID w)) (\<lambda>shares.
          guardr shares (errorf ErrInvalid (rule_targetID w @ '' shares no workspace with you''))))"

definition planRule ::
  "Service \<Rightarrow> ctx \<Rightarrow> string \<Rightarrow> string \<Rightarrow> string \<Rightarrow> action list \<Rightarrow> string \<Rightarrow> string \<times> string \<Rightarrow> ruleWrite res" where
  "planRule s c actorID resourceType resourceID actions state target =
     bindr (nextRule s c actorID resourceType resourceID target actions state) (\<lambda>w.
     if resourceType = resourceTypeComputer
     then let w = w\<lparr>rule_allow := computerRule (rule_allow w) actions state, rule_deny := []\<rparr>
          in bindr (checkComputerTarget s actorID w) (\<lambda>_. Inr w)
     else Inr w)"

definition planRules ::
  "Service \<Rightarrow> ctx \<Rightarrow> string \<Rightarrow> string \<Rightarrow> string \<Rightarrow> Targets \<Rightarrow> action list \<Rightarrow> string \<Rightarrow> ruleWrite list res" where
  "planRules s c actorID resourceType resourceID to actions state =
     bindr (requireOpens s c actorID resourceType resourceID) (\<lambda>_.
     bindr (canManage s c actorID resourceType resourceID) (\<lambda>ok.
     if \<not> ok
     then Inl (errorf ErrForbidden (''manage permission required on '' @ resourceType @ '' '' @ resourceID))
     else
       bindr (checkArea s resourceType resourceID actions) (\<lambda>_.
       bindr (requireRolesOf s resourceType resourceID (to_RoleIDs to)) (\<lambda>_.
       bindr (mapr (planRule s c actorID resourceType resourceID actions state) (targets_each to)) (\<lambda>planned.
       Inr (filter (\<lambda>w. rule_existed w \<or> length (rule_allow w) + length (rule_deny w) > 0) planned))))))"

definition store_rule :: "time \<Rightarrow> database \<Rightarrow> string \<Rightarrow> ruleWrite \<Rightarrow> OutboxEvent \<Rightarrow> database res" where
  "store_rule now db resourceType w event =
     (if rule_target w = TargetRole
      then repoSetRole now db resourceType (rule_resourceID w) (rule_targetID w) (rule_allow w) (rule_deny w) [event]
      else repoSet now db resourceType (rule_resourceID w) (rule_targetID w) (rule_allow w) (rule_deny w) [event])"

definition grantEvent :: "string \<Rightarrow> string \<Rightarrow> ruleWrite \<Rightarrow> OutboxEvent" where
  "grantEvent actorID resourceType w =
     (if resourceType = resourceTypeComputer
      then computerGrantEvent (rule_resourceID w) actorID (rule_targetID w) actorID (rule_allow w)
      else TopicGrantChanged \<lparr>ge_ResourceType = resourceType, ge_ResourceID = rule_resourceID w, ge_Target = rule_target w,
             ge_UserID = (if rule_target w = TargetPerson then rule_targetID w else []),
             ge_RoleID = (if rule_target w = TargetRole then rule_targetID w else []), ge_ActorID = actorID\<rparr>)"

text \<open>The second loop of \<open>SetRules\<close>: the writes in order, each in a transaction of its own, stopped by the first
  that fails; what was stored before it stays.\<close>

fun SetRules_store :: "time \<Rightarrow> string \<Rightarrow> string \<Rightarrow> ruleWrite list \<Rightarrow> database \<Rightarrow> database \<times> unit res" where
  "SetRules_store now actorID resourceType [] db = (db, Inr ())"
| "SetRules_store now actorID resourceType (w # ws) db =
     (case store_rule now db resourceType w (grantEvent actorID resourceType w) of
        Inl e \<Rightarrow> (db, Inl (wrapf (''set overwrite '' @ resourceType @ ''/'' @ rule_resourceID w @ ''/'' @ rule_targetID w) e))
      | Inr db' \<Rightarrow> SetRules_store now actorID resourceType ws db')"

definition SetRules_plan ::
  "Service \<Rightarrow> ctx \<Rightarrow> string \<Rightarrow> string \<Rightarrow> string list \<Rightarrow> Targets \<Rightarrow> action list \<Rightarrow> string \<Rightarrow> ruleWrite list res" where
  "SetRules_plan s c actorID resourceType resourceIDs to actions state =
     bindr (checkWrite actorID resourceType resourceIDs to actions state) (\<lambda>_.
     bindr (if resourceType = resourceTypeComputer then checkComputerWrite to state else Inr ()) (\<lambda>_.
     bindr (mapr (\<lambda>i. planRules s c actorID resourceType i to actions state) resourceIDs) (\<lambda>planned.
     Inr (concat planned))))"

definition SetRules ::
  "time \<Rightarrow> Service \<Rightarrow> ctx \<Rightarrow> string \<Rightarrow> string \<Rightarrow> string list \<Rightarrow> Targets \<Rightarrow> action list \<Rightarrow> string \<Rightarrow> database \<Rightarrow>
   database \<times> unit res" where
  "SetRules now s c actorID resourceType resourceIDs to actions state db =
     (case SetRules_plan s c actorID resourceType resourceIDs to actions state of
        Inl e \<Rightarrow> (db, Inl e)
      | Inr writes \<Rightarrow> SetRules_store now actorID resourceType writes db)"

definition SetGrants ::
  "time \<Rightarrow> Service \<Rightarrow> ctx \<Rightarrow> string \<Rightarrow> string list \<Rightarrow> string list \<Rightarrow> action list \<Rightarrow> string \<Rightarrow> database \<Rightarrow>
   database \<times> unit res" where
  "SetGrants now s c actorID docIDs userIDs actions state =
     SetRules now s c actorID resourceTypeDoc docIDs \<lparr>to_UserIDs = userIDs, to_RoleIDs = []\<rparr> actions state"

definition SetPlayGrants ::
  "time \<Rightarrow> Service \<Rightarrow> ctx \<Rightarrow> string \<Rightarrow> string list \<Rightarrow> string list \<Rightarrow> action list \<Rightarrow> string \<Rightarrow> database \<Rightarrow>
   database \<times> unit res" where
  "SetPlayGrants now s c actorID playIDs userIDs actions state =
     SetRules now s c actorID resourceTypePlay playIDs \<lparr>to_UserIDs = userIDs, to_RoleIDs = []\<rparr> actions state"

definition GrantCreator :: "time \<Rightarrow> database \<Rightarrow> string \<Rightarrow> string \<Rightarrow> database res" where
  "GrantCreator now db docID creatorID =
     (if docID = [] \<or> creatorID = [] then Inl (errorf ErrInvalid ''doc and creator are required'')
      else map_errr (wrapf (''grant creator '' @ creatorID @ '' on '' @ docID))
             (repoSet now db resourceTypeDoc docID creatorID CreatorGrant [] []))"

definition DeleteByDoc :: "database \<Rightarrow> string \<Rightarrow> database res" where
  "DeleteByDoc db docID =
     map_errr (wrapf (''delete overwrites '' @ docID)) (repoDeleteByResource db resourceTypeDoc docID)"

section \<open>Listing\<close>

definition listGrants :: "Service \<Rightarrow> ctx \<Rightarrow> string \<Rightarrow> string \<Rightarrow> string \<Rightarrow> Overwrite list res" where
  "listGrants s c actorID resourceType resourceID =
     (if actorID = [] then Inl (errorf ErrUnauthorized ''actor is required'')
      else bindr (canManage s c actorID resourceType resourceID) (\<lambda>ok.
        if \<not> ok
        then Inl (errorf ErrForbidden (''manage permission required on '' @ resourceType @ '' '' @ resourceID))
        else bindr (map_errr (wrapf (''list overwrites '' @ resourceType @ ''/'' @ resourceID))
                      (repo_ListByResource (svc_repo s) resourceType resourceID)) (\<lambda>grants.
             Inr (map (\<lambda>g. g\<lparr>ow_TargetName := targetName_of_rule (service_namer s) g\<rparr>) grants))))"

definition ListGrants :: "Service \<Rightarrow> ctx \<Rightarrow> string \<Rightarrow> string \<Rightarrow> Overwrite list res" where
  "ListGrants s c actorID docID = listGrants s c actorID resourceTypeDoc docID"

definition ListPlayGrants :: "Service \<Rightarrow> ctx \<Rightarrow> string \<Rightarrow> string \<Rightarrow> Overwrite list res" where
  "ListPlayGrants s c actorID playID = listGrants s c actorID resourceTypePlay playID"

definition ListRules :: "Service \<Rightarrow> ctx \<Rightarrow> string \<Rightarrow> string \<Rightarrow> string \<Rightarrow> Overwrite list res" where
  "ListRules s c actorID resourceType resourceID =
     (if actorID = [] then Inl (errorf ErrUnauthorized ''actor is required'')
      else if resourceType \<notin> set ruleTypes then Inl (errNotARuleType resourceType)
      else bindr (checkArea s resourceType resourceID []) (\<lambda>_.
           bindr (requireOpens s c actorID resourceType resourceID) (\<lambda>_.
           listGrants s c actorID resourceType resourceID)))"

definition sharesAnyDoc :: "Service \<Rightarrow> string \<Rightarrow> bool res" where
  "sharesAnyDoc s actorID =
     (let allows = (\<lambda>resourceType. map_errr (wrapf (''check permissions:write for '' @ actorID))
            (repo_HasAllowAny (svc_repo s) resourceType actorID PermissionsWrite))
      in bindr (allows resourceTypeDoc) (\<lambda>has.
         if has then Inr True else bindr (allows resourceTypeFolder) (\<lambda>has. Inr has)))"

definition ListUsers :: "Service \<Rightarrow> ctx \<Rightarrow> string \<Rightarrow> User list res" where
  "ListUsers s c actorID =
     (if actorID = [] then Inl (errorf ErrUnauthorized ''actor is required'')
      else bindr (HoldsAnywhere s c actorID AccountsRead) (\<lambda>readsAccounts.
           bindr (if readsAccounts then Inr True else sharesAnyDoc s actorID) (\<lambda>has.
           if \<not> has then Inl (errorf ErrForbidden ''accounts:read or permissions:write required'')
           else map_errr (wrapf ''list users'') (svc_users s))))"

definition accountsByID :: "Service \<Rightarrow> User gomap res" where
  "accountsByID s =
     bindr (map_errr (wrapf ''list users'') (svc_users s)) (\<lambda>users. Inr (map (\<lambda>u. (user_ID u, u)) (rev users)))"

section \<open>Lemmas\<close>

text \<open>The rule a key holds in the tables, the empty rule when there is none, and the key a planned write stores.\<close>

definition rule_at :: "database \<Rightarrow> rule_key \<Rightarrow> pset \<times> pset" where
  "rule_at db k = (case get_rule db k of None \<Rightarrow> ([], []) | Some v \<Rightarrow> v)"

definition target_key :: "string \<times> string \<Rightarrow> rule_target" where
  "target_key t = (if fst t = TargetRole then for_role (snd t) else for_person (snd t))"

definition write_key :: "string \<Rightarrow> ruleWrite \<Rightarrow> rule_key" where
  "write_key ty w = (ty, rule_resourceID w, target_key (rule_target w, rule_targetID w))"

definition write_rule :: "ruleWrite \<Rightarrow> pset \<times> pset" where
  "write_rule w = (rule_allow w, rule_deny w)"

definition moved :: "string \<Rightarrow> action list \<Rightarrow> pset \<times> pset \<Rightarrow> pset \<times> pset" where
  "moved state actions rule = foldl (\<lambda>(allow, deny) a. moveTo allow deny a state) rule actions"

lemma store_rule_put:
  "store_rule now db ty w e = put_rule (now, [e]) db (write_key ty w) (write_rule w)"
  by (simp add: store_rule_def put_rule_def write_key_def write_rule_def target_key_def)

lemma rule_at_put:
  assumes "put_rule e db k v = Inr db'" "set_ok (fst v)" "set_ok (snd v)"
  shows "rule_at db' j = (if j = k then v else rule_at db j)"
  using table_store.get_put [OF assms] by (auto simp: rule_at_def)

lemma store_rule_at:
  assumes "store_rule now db ty w e = Inr db'" "set_ok (rule_allow w)" "set_ok (rule_deny w)"
  shows "rule_at db' j = (if j = write_key ty w then write_rule w else rule_at db j)"
  using assms by (simp add: store_rule_put rule_at_put write_rule_def)

lemma nextRule_loop_moved:
  "nextRule_loop held ty st actions rule = Inr rule' \<Longrightarrow> rule' = moved st actions rule"
proof (induction held ty st actions rule rule: nextRule_loop.induct)
  case (2 held ty st a actions allow deny)
  then show ?case by (auto simp: moved_def Let_def split: prod.splits if_splits)
qed (simp add: moved_def)

text \<open>An action is given by a change of a rule that allows it newly or lifts a Deny on it.\<close>

definition gives :: "pset \<times> pset \<Rightarrow> pset \<times> pset \<Rightarrow> action \<Rightarrow> bool" where
  "gives old new a \<longleftrightarrow> (Has (fst new) a \<and> \<not> Has (fst old) a) \<or> (Has (snd old) a \<and> \<not> Has (snd new) a)"

lemma gives_trans: "gives r r'' a \<Longrightarrow> gives r r' a \<or> gives r' r'' a"
  by (auto simp: gives_def)

lemma gives_same [simp]: "\<not> gives r r a"
  by (auto simp: gives_def)

lemma moveTo_other:
  assumes "set_ok al" "set_ok de" "gives (al, de) (moveTo al de a st) b"
  shows "b = a"
  using assms by (auto simp: gives_def moveTo_def grid_set.has_ins grid_set.has_del split: if_splits)

lemma nextRule_loop_ok:
  "nextRule_loop held ty st actions rule = Inr rule' \<Longrightarrow> set_ok (fst rule) \<Longrightarrow> set_ok (snd rule) \<Longrightarrow>
   set_ok (fst rule') \<and> set_ok (snd rule') \<and> (gives rule rule' b \<longrightarrow> held b)"
proof (induction held ty st actions rule rule: nextRule_loop.induct)
  case (2 held ty st a actions allow deny)
  obtain al de where m: "moveTo allow deny a st = (al, de)" by (cases "moveTo allow deny a st")
  have ok: "set_ok al" "set_ok de" using moveTo_ok [OF _ _ m] "2.prems" by auto
  from "2.prems"(1) m have *: "nextRule_loop held ty st actions (al, de) = Inr rule'"
    and step: "gives (allow, deny) (al, de) a \<Longrightarrow> held a"
    by (auto simp: gives_def Let_def split: if_splits)
  have "gives (allow, deny) (al, de) b \<Longrightarrow> held b"
    using moveTo_other [of allow deny a st b] "2.prems"(2,3) m step by auto
  then show ?case using "2.IH" [OF m [symmetric] refl refl] "2.prems" m * ok gives_trans [of "(allow, deny)" rule' b "(al, de)"]
    by (auto simp: Let_def gives_def split: if_splits)
qed simp

lemma existingRule_at:
  assumes "svc_repo s = AccessRepo grid db"
  shows "existingRule s ty i (fst t) (snd t) = Inr ow \<Longrightarrow>
      get_rule db (ty, i, target_key t) = Some (ow_Allow ow, ow_Deny ow)"
    "existingRule s ty i (fst t) (snd t) = Inl e \<Longrightarrow> get_rule db (ty, i, target_key t) = None"
  using assms by (simp_all add: existingRule_def AccessRepo_def target_key_def get_rule_def split: if_splits)

lemma get_rule_ok: "get_rule db k = Some v \<Longrightarrow> set_ok (fst v) \<and> set_ok (snd v)"
  by (auto simp: get_rule_rows parseSet_def SetOfStrings_def split: list.splits)

lemma rule_at_ok [simp]: "set_ok (fst (rule_at db k))" "set_ok (snd (rule_at db k))"
  using get_rule_ok by (auto simp: rule_at_def split: option.splits)

lemma nextRule_plan:
  assumes "svc_repo s = AccessRepo grid db" "nextRule s c u ty i t actions st = Inr w"
  shows "write_key ty w = (ty, i, target_key t)"
    "nextRule_loop (holds s c u ty i) ty st actions (rule_at db (ty, i, target_key t)) = Inr (write_rule w)"
    "rule_existed w \<longleftrightarrow> get_rule db (ty, i, target_key t) \<noteq> None"
  using assms(2) existingRule_at [OF assms(1), of ty i t]
  by (auto simp: nextRule_def Let_def rule_at_def write_key_def write_rule_def bindr_Inr_iff split: sum.splits if_splits)

text \<open>What the plan of a write on anything but a computer is: the next rule of each target on each resource, all
  on resources the actor manages, less the ones that would leave nothing where nothing was.\<close>

lemma planRules_planned:
  assumes "planRules s c u ty i to actions st = Inr ws" "ty \<noteq> resourceTypeComputer"
  shows "canManage s c u ty i = Inr True"
    "w \<in> set ws \<Longrightarrow> \<exists>t \<in> set (targets_each to). nextRule s c u ty i t actions st = Inr w"
    "t \<in> set (targets_each to) \<Longrightarrow> \<exists>w. nextRule s c u ty i t actions st = Inr w \<and>
       (w \<in> set ws \<or> \<not> rule_existed w \<and> write_rule w = ([], []))"
proof -
  from assms(1) obtain planned where man: "canManage s c u ty i = Inr True"
    and p: "mapr (planRule s c u ty i actions st) (targets_each to) = Inr planned"
    and ws: "ws = filter (\<lambda>w. rule_existed w \<or> length (rule_allow w) + length (rule_deny w) > 0) planned"
    by (auto simp: planRules_def bindr_Inr_iff split: if_splits)
  have plan: "planRule s c u ty i actions st = (\<lambda>t. nextRule s c u ty i t actions st)"
    using assms(2) by (simp add: planRule_def fun_eq_iff bindr_def split: sum.splits)
  from p have all: "list_all2 (\<lambda>t w. nextRule s c u ty i t actions st = Inr w) (targets_each to) planned"
    by (simp add: mapr_Inr_iff plan)
  show "canManage s c u ty i = Inr True" by (fact man)
  show "w \<in> set ws \<Longrightarrow> \<exists>t \<in> set (targets_each to). nextRule s c u ty i t actions st = Inr w"
    using all unfolding ws by (auto simp: list_all2_conv_all_nth in_set_conv_nth) (metis nth_mem)+
  assume "t \<in> set (targets_each to)"
  then obtain w where "w \<in> set planned" "nextRule s c u ty i t actions st = Inr w"
    using all by (auto simp: list_all2_conv_all_nth in_set_conv_nth) (metis nth_mem)
  then show "\<exists>w. nextRule s c u ty i t actions st = Inr w \<and> (w \<in> set ws \<or> \<not> rule_existed w \<and> write_rule w = ([], []))"
    unfolding ws by (intro exI [of _ w]) (auto simp: write_rule_def)
qed

lemma SetRules_store_at:
  assumes "SetRules_store now u ty ws db = (db', r)" "\<forall>w \<in> set ws. set_ok (rule_allow w) \<and> set_ok (rule_deny w)"
  shows "rule_at db' j = rule_at db j \<or> (\<exists>w \<in> set ws. write_key ty w = j \<and> rule_at db' j = write_rule w)"
  using assms
proof (induction ws arbitrary: db)
  case (Cons w ws)
  show ?case
  proof (cases "store_rule now db ty w (grantEvent u ty w)")
    case (Inr db1)
    then have "rule_at db1 j = (if j = write_key ty w then write_rule w else rule_at db j)"
      using Cons.prems(2) by (auto simp: store_rule_at)
    then show ?thesis using Cons.IH [of db1] Cons.prems Inr by (auto split: if_splits)
  qed (use Cons.prems in auto)
qed simp

lemma SetRules_store_all:
  assumes "SetRules_store now u ty ws db = (db', Inr ())"
    "\<forall>w \<in> set ws. set_ok (rule_allow w) \<and> set_ok (rule_deny w) \<and> write_rule w = v (write_key ty w)"
  shows "rule_at db' j = (if j \<in> write_key ty ` set ws then v j else rule_at db j)"
  using assms
proof (induction ws arbitrary: db)
  case (Cons w ws)
  then obtain db1 where put: "store_rule now db ty w (grantEvent u ty w) = Inr db1"
    and rest: "SetRules_store now u ty ws db1 = (db', Inr ())"
    by (auto split: sum.splits)
  have "rule_at db1 j = (if j = write_key ty w then write_rule w else rule_at db j)"
    using store_rule_at [OF put] Cons.prems(2) by auto
  then show ?case using Cons.IH [OF rest] Cons.prems(2) by auto
qed simp

lemma SetRules_planned:
  assumes "SetRules_plan s c u ty ids to actions st = Inr ws" "ty \<noteq> resourceTypeComputer"
  shows "w \<in> set ws \<Longrightarrow> \<exists>i \<in> set ids. \<exists>t \<in> set (targets_each to).
       canManage s c u ty i = Inr True \<and> nextRule s c u ty i t actions st = Inr w"
    "i \<in> set ids \<Longrightarrow> t \<in> set (targets_each to) \<Longrightarrow> \<exists>w. nextRule s c u ty i t actions st = Inr w \<and>
       (w \<in> set ws \<or> \<not> rule_existed w \<and> write_rule w = ([], []))"
proof -
  from assms obtain planned where p: "list_all2 (\<lambda>i p. planRules s c u ty i to actions st = Inr p) ids planned"
    and ws: "ws = concat planned"
    by (auto simp: SetRules_plan_def bindr_Inr_iff mapr_Inr_iff split: if_splits)
  assume "w \<in> set ws"
  then obtain p i where "p \<in> set planned" "w \<in> set p" "i \<in> set ids" "planRules s c u ty i to actions st = Inr p"
    using p ws by (auto simp: list_all2_conv_all_nth in_set_conv_nth) (metis nth_mem)
  then show "\<exists>i \<in> set ids. \<exists>t \<in> set (targets_each to).
       canManage s c u ty i = Inr True \<and> nextRule s c u ty i t actions st = Inr w"
    using planRules_planned(1) [OF _ assms(2), of s c u i to actions st p]
      planRules_planned(2) [OF _ assms(2), of s c u i to actions st p w] by blast
next
  from assms obtain planned where p: "list_all2 (\<lambda>i p. planRules s c u ty i to actions st = Inr p) ids planned"
    and ws: "ws = concat planned"
    by (auto simp: SetRules_plan_def bindr_Inr_iff mapr_Inr_iff split: if_splits)
  assume it: "i \<in> set ids" "t \<in> set (targets_each to)"
  then obtain p where "p \<in> set planned" "planRules s c u ty i to actions st = Inr p"
    using p by (auto simp: list_all2_conv_all_nth in_set_conv_nth) (metis nth_mem)
  then show "\<exists>w. nextRule s c u ty i t actions st = Inr w \<and> (w \<in> set ws \<or> \<not> rule_existed w \<and> write_rule w = ([], []))"
    using planRules_planned(3) [OF _ assms(2) it(2)] ws by fastforce
qed

lemma planned_write:
  assumes "svc_repo s = AccessRepo grid db" "nextRule s c u ty i t actions st = Inr w"
  shows "set_ok (rule_allow w)" "set_ok (rule_deny w)" "write_rule w = moved st actions (rule_at db (write_key ty w))"
    "gives (rule_at db (write_key ty w)) (write_rule w) a \<Longrightarrow> holds s c u ty i a"
  using nextRule_plan [OF assms] nextRule_loop_ok [OF nextRule_plan(2) [OF assms], of a] nextRule_loop_moved
  by (auto simp: write_rule_def)

lemma SetRules_cases:
  assumes "SetRules now s c u ty ids to actions st db = (db', r)"
  obtains e where "SetRules_plan s c u ty ids to actions st = Inl e" "db' = db" "r = Inl e"
  | ws where "SetRules_plan s c u ty ids to actions st = Inr ws" "SetRules_store now u ty ws db = (db', r)"
  using assms by (auto simp: SetRules_def split: sum.splits)

section \<open>Properties\<close>

text \<open>C3. No one gives what they do not hold: whatever a write of rules on anything but a computer does to the
  tables, finished or stopped half way, an action it newly allows or no longer denies in any rule is on a
  resource of the write, which the actor manages and on which the actor holds that action.\<close>

theorem SetRules_no_escalation:
  assumes "svc_repo s = AccessRepo grid db" "ty \<noteq> resourceTypeComputer"
    "SetRules now s c u ty ids to actions st db = (db', r)" "gives (rule_at db (ty', i, t)) (rule_at db' (ty', i, t)) a"
  shows "ty' = ty \<and> i \<in> set ids \<and> canManage s c u ty i = Inr True \<and> holds s c u ty i a"
  using assms(3)
proof (cases rule: SetRules_cases)
  case (2 ws)
  note plan = SetRules_planned(1) [OF 2(1) assms(2)]
  have "\<forall>w \<in> set ws. set_ok (rule_allow w) \<and> set_ok (rule_deny w)"
    using plan planned_write(1,2) [OF assms(1)] by meson
  with SetRules_store_at [OF 2(2), of "(ty', i, t)"] assms(4) obtain w where w: "w \<in> set ws"
    "write_key ty w = (ty', i, t)" "rule_at db' (ty', i, t) = write_rule w" by auto
  from plan [OF w(1)] obtain j tt where j: "j \<in> set ids" "canManage s c u ty j = Inr True"
    "nextRule s c u ty j tt actions st = Inr w" by blast
  with nextRule_plan(1) [OF assms(1) j(3)] planned_write(4) [OF assms(1) j(3), of a] w assms(4) show ?thesis by auto
qed (use assms(4) in auto)

text \<open>C31. A finished write stores what it was asked to and nothing else: after \<open>SetRules\<close> answers with no error
  on anything but a computer, the rule of every target of the call on every resource of the call is the rule it
  was with each action moved to the state, in the order given, and every other rule is as it was.\<close>

theorem SetRules_exact:
  assumes "svc_repo s = AccessRepo grid db" "ty \<noteq> resourceTypeComputer"
    "SetRules now s c u ty ids to actions st db = (db', Inr ())"
  shows "rule_at db' (ty', i, t) =
    (if ty' = ty \<and> i \<in> set ids \<and> t \<in> set (map target_key (targets_each to))
     then moved st actions (rule_at db (ty', i, t)) else rule_at db (ty', i, t))"
  using assms(3)
proof (cases rule: SetRules_cases)
  case (2 ws)
  let ?k = "(ty', i, t)" and ?v = "\<lambda>k. moved st actions (rule_at db k)"
  note plan = SetRules_planned [OF 2(1) assms(2)]
  have "\<forall>w \<in> set ws. set_ok (rule_allow w) \<and> set_ok (rule_deny w) \<and> write_rule w = ?v (write_key ty w)"
    using plan(1) planned_write(1-3) [OF assms(1)] by meson
  from SetRules_store_all [OF 2(2) this, of ?k]
  have at: "rule_at db' ?k = (if ?k \<in> write_key ty ` set ws then ?v ?k else rule_at db ?k)" .
  have "?k \<in> write_key ty ` set ws \<Longrightarrow> ty' = ty \<and> i \<in> set ids \<and> t \<in> set (map target_key (targets_each to))"
    using plan(1) nextRule_plan(1) [OF assms(1)] by fastforce
  moreover have "?v ?k = rule_at db ?k"
    if "ty' = ty" "i \<in> set ids" "t \<in> set (map target_key (targets_each to))" "?k \<notin> write_key ty ` set ws"
  proof -
    from that(3) obtain tt where tt: "tt \<in> set (targets_each to)" "t = target_key tt" by auto
    from plan(2) [OF that(2) tt(1)] obtain w where w: "nextRule s c u ty i tt actions st = Inr w"
      "w \<in> set ws \<or> \<not> rule_existed w \<and> write_rule w = ([], [])" by blast
    then have "\<not> rule_existed w" "write_rule w = ([], [])"
      using nextRule_plan(1) [OF assms(1) w(1)] that(1,4) tt(2) by (auto simp: image_iff)
    then show ?thesis using nextRule_plan(1,3) [OF assms(1) w(1)] planned_write(3) [OF assms(1) w(1)] that(1) tt(2)
      by (simp add: rule_at_def split: option.splits)
  qed
  ultimately show ?thesis using at by auto
qed simp

abbreviation (input) example_to :: Targets where
  "example_to \<equiv> \<lparr>to_UserIDs = [''bob''], to_RoleIDs = []\<rparr>"

lemma example_check: "checkWrite ''ann'' resourceTypePlay [''x''] example_to [PlaysRun] StateAllow = Inr ()"
  by code_simp

lemma example_plays_workspace: "resolvePlayWorkspace example_plays i = ''w1''"
  by (simp add: resolvePlayWorkspace_def example_plays_def zero_on_err_def)

lemma example_holds: "holds example_plays (person_ctx ''ann'') ''ann'' resourceTypePlay ''x'' a"
proof -
  have "workspaceOf example_plays resourceTypePlay ''x'' = ''w1''"
    by (simp add: workspaceOf_def example_plays_workspace)
  then show ?thesis
    using example_plays_owner [of "(bare_entity resourceTypePlay ''x'')\<lparr>ent_workspaceID := ''w1''\<rparr>" a]
    by (simp add: holds_def HasPermission_def answer_def bare_entity_def)
qed

lemma example_plan:
  "SetRules_plan example_plays (person_ctx ''ann'') ''ann'' resourceTypePlay [''x''] example_to [PlaysRun] StateAllow =
     Inr [\<lparr>rule_resourceID = ''x'', rule_target = TargetPerson, rule_targetID = ''bob'', rule_allow = [PlaysRun],
           rule_deny = [], rule_existed = False\<rparr>]"
proof -
  have "requireOpens example_plays (person_ctx ''ann'') ''ann'' resourceTypePlay ''x'' = Inr ()"
    using example_plays_owner
    by (simp add: requireOpens_def entityOf_def Let_def example_plays_workspace bare_entity_def)
  moreover have "canManage example_plays (person_ctx ''ann'') ''ann'' resourceTypePlay ''x'' = Inr True"
    by (simp add: canManage_def example_holds)
  moreover have "existingRule example_plays resourceTypePlay ''x'' TargetPerson ''bob'' =
      Inl (wrapf ''get overwrite play/x/bob'' (sentinel_err ErrNotFound))"
    by (simp add: existingRule_def example_plays_def example_service_def NewService_def AccessRepo_def repoGet_def
        first_row_def example_db_def)
  moreover have "With [] PlaysRun = [PlaysRun]" "Without [] PlaysRun = []" by code_simp+
  ultimately show ?thesis
    by (simp add: SetRules_plan_def example_check planRules_def checkArea_def requireRolesOf_def targets_each_def
        planRule_def nextRule_def moveTo_def example_holds Let_def)
qed

lemma example_SetRules:
  "\<exists>db'. SetRules 0 example_plays (person_ctx ''ann'') ''ann'' resourceTypePlay [''x''] example_to [PlaysRun] StateAllow
      example_db = (db', Inr ())"
  by (simp add: SetRules_def example_plan store_rule_def repoSet_def repo_set_def foreign_ok_def person_row_def
      po_UserID_def po_RoleID_def example_db_def)

theorem SetRules_exact_witness:
  "\<exists>db'. SetRules 0 example_plays (person_ctx ''ann'') ''ann'' resourceTypePlay [''x''] example_to [PlaysRun] StateAllow
      example_db = (db', Inr ()) \<and>
     rule_at db' (resourceTypePlay, ''x'', for_person ''bob'') = ([PlaysRun], [])"
proof -
  obtain db' where "SetRules 0 example_plays (person_ctx ''ann'') ''ann'' resourceTypePlay [''x''] example_to [PlaysRun]
      StateAllow example_db = (db', Inr ())" using example_SetRules by blast
  moreover have "moved StateAllow [PlaysRun] (rule_at example_db (resourceTypePlay, ''x'', for_person ''bob'')) =
      ([PlaysRun], [])"
    by (simp add: rule_at_def get_rule_def repoGet_def first_row_def example_db_def) code_simp
  ultimately show ?thesis
    using SetRules_exact [of example_plays "\<lambda>w. Inl (sentinel_err ErrNotFound)" example_db resourceTypePlay 0
      "person_ctx ''ann''" "''ann''" "[''x'']" example_to "[PlaysRun]" StateAllow db' resourceTypePlay "''x''"
      "for_person ''bob''"]
    by (simp add: example_plays_def example_service_def NewService_def targets_each_def target_key_def)
qed

theorem SetRules_no_escalation_witness:
  "\<exists>db'. SetRules 0 example_plays (person_ctx ''ann'') ''ann'' resourceTypePlay [''x''] example_to [PlaysRun] StateAllow
      example_db = (db', Inr ()) \<and>
     gives (rule_at example_db (resourceTypePlay, ''x'', for_person ''bob''))
       (rule_at db' (resourceTypePlay, ''x'', for_person ''bob'')) PlaysRun \<and>
     holds example_plays (person_ctx ''ann'') ''ann'' resourceTypePlay ''x'' PlaysRun"
proof -
  define db' where "db' = example_db\<lparr>db_overwrites := [person_row resourceTypePlay ''x'' ''bob'' [PlaysRun] [] 0],
    db_outbox := [grantEvent ''ann'' resourceTypePlay \<lparr>rule_resourceID = ''x'', rule_target = TargetPerson,
      rule_targetID = ''bob'', rule_allow = [PlaysRun], rule_deny = [], rule_existed = False\<rparr>]\<rparr>"
  have set: "SetRules 0 example_plays (person_ctx ''ann'') ''ann'' resourceTypePlay [''x''] example_to [PlaysRun] StateAllow
      example_db = (db', Inr ())"
    by (simp add: SetRules_def example_plan store_rule_def repoSet_def repo_set_def foreign_ok_def
      po_UserID_def po_RoleID_def example_db_def upsert_row_def db'_def) (simp add: person_row_def)
  have gives: "gives (rule_at example_db (resourceTypePlay, ''x'', for_person ''bob''))
       (rule_at db' (resourceTypePlay, ''x'', for_person ''bob'')) PlaysRun"
    by (simp add: rule_at_def get_rule_def repoGet_def first_row_def example_db_def db'_def gives_def person_row_def
        po_UserID_def toOverwrite_def parseSet_def SetOfStrings_def setJSON_def Actions_def)
  have "svc_repo example_plays = AccessRepo (\<lambda>w. Inl (sentinel_err ErrNotFound)) example_db"
    by (simp add: example_plays_def example_service_def NewService_def)
  from SetRules_no_escalation [OF this _ set gives] set gives show ?thesis by auto
qed

text \<open>What a rule may set is what an explanation answers: for a folder, play, project, stack or channel that
  resolves, \<open>checkRuleActions\<close> lets a rule set an action exactly when the action is one of the entity's.\<close>

theorem rule_actions_explained:
  assumes "entityOf s ty i = Inr e" "ty \<noteq> resourceTypeDoc"
  shows "checkRuleActions ty [a] = Inr () \<longleftrightarrow> a \<in> set (ent_actions e)"
proof -
  have ok: "list_all (\<lambda>(ty, acts, says). if ty = resourceTypeMachine then True else
      list_all (\<lambda>a. a \<notin> set ComputerActions \<and> (a = ProjectsOpen \<longrightarrow> ty = resourceTypeProject) \<and> a \<noteq> MachinesSee) acts)
      onlyActions" by code_simp
  have of: "map_of onlyActions ty = Some (ent_actions e, says) \<and> ty \<in> set ruleTypes \<and> ty \<noteq> resourceTypeMachine \<and>
      ty \<noteq> resourceTypeComputer" 
    if "map_of onlyActions ty = Some (acts, says)" for acts says
    using assms that
    by (auto simp: entityOf_def stackEntity_def bare_entity_def Let_def bindr_Inr_iff onlyActions_def ruleTypes_def
      split: if_splits sum.splits)
  have "ty \<in> set (map fst onlyActions)"
    using assms by (auto simp: entityOf_def Let_def onlyActions_def split: if_splits)
  then obtain acts says where acts: "map_of onlyActions ty = Some (acts, says)"
    by (metis map_of_eq_None_iff not_None_eq prod.exhaust set_map)
  from of [OF acts] acts have e: "map_of onlyActions ty = Some (ent_actions e, says)" "ty \<in> set ruleTypes"
     "ty \<noteq> resourceTypeMachine" "ty \<noteq> resourceTypeComputer" by auto
  have "list_all (\<lambda>a. a \<notin> set ComputerActions \<and> (a = ProjectsOpen \<longrightarrow> ty = resourceTypeProject) \<and> a \<noteq> MachinesSee)
      (ent_actions e)"
    using bspec [OF ok [unfolded list_all_iff] map_of_SomeD [OF e(1)]] e(3) by (simp only: case_prod_conv if_False list_all_iff)
  then have "a \<in> set (ent_actions e) \<Longrightarrow>
      a \<notin> set ComputerActions \<and> (a = ProjectsOpen \<longrightarrow> ty = resourceTypeProject) \<and> a \<noteq> MachinesSee"
    unfolding list_all_iff by blast
  with e show ?thesis
    by (cases "a \<in> set (ent_actions e)") (simp_all add: checkRuleActions_def checkRuleAction_def del: set_simps)
qed

theorem rule_actions_explained_witness:
  "(checkRuleActions resourceTypePlay [PlaysRun] = Inr ()) = (PlaysRun \<in> set playActions)"
  using rule_actions_explained [of example_plays resourceTypePlay "''x''" _ PlaysRun]
  by (simp add: entityOf_def Let_def)

lemma planRules_computer:
  assumes "planRules s c u ty i to actions st = Inr ws" "w \<in> set ws"
  shows "canManage s c u ty i = Inr True \<and>
    (\<exists>t \<in> set (targets_each to). planRule s c u ty i actions st t = Inr w)"
proof -
  from assms obtain planned where "canManage s c u ty i = Inr True" "w \<in> set planned"
    "list_all2 (\<lambda>t w. planRule s c u ty i actions st t = Inr w) (targets_each to) planned"
    by (auto simp: planRules_def bindr_Inr_iff mapr_Inr_iff split: if_splits)
  then show ?thesis by (auto simp: list_all2_conv_all_nth in_set_conv_nth) (metis nth_mem)
qed

lemma SetRules_plan_computer:
  assumes "SetRules_plan s c u resourceTypeComputer ids to actions st = Inr ws" "w \<in> set ws"
  shows "\<exists>i \<in> set ids. \<exists>v \<in> set (to_UserIDs to). canManage s c u resourceTypeComputer i = Inr True \<and>
     planRule s c u resourceTypeComputer i actions st (TargetPerson, v) = Inr w"
proof -
  from assms obtain planned where p: "list_all2 (\<lambda>i p. planRules s c u resourceTypeComputer i to actions st = Inr p) ids planned"
    and ws: "ws = concat planned" and to: "to_RoleIDs to = []"
    by (auto simp: SetRules_plan_def checkComputerWrite_def bindr_Inr_iff mapr_Inr_iff split: if_splits)
  from assms(2) ws p obtain i p where "i \<in> set ids" "w \<in> set p" "planRules s c u resourceTypeComputer i to actions st = Inr p"
    by (auto simp: list_all2_conv_all_nth in_set_conv_nth) (metis nth_mem)
  with planRules_computer to show ?thesis by (fastforce simp: targets_each_def)
qed

lemma computerRule_laws:
  assumes "set_ok allow"
  shows "set_ok (computerRule allow actions st)"
    "set (computerRule allow actions st) \<inter> set computer_runs \<noteq> {} \<Longrightarrow> ComputersSee \<in> set (computerRule allow actions st)"
  using assms seeWithRun_laws [OF assms]
  by (auto simp: computerRule_def computer_runs_def split: if_splits)

lemma planRule_computer:
  assumes "svc_repo s = AccessRepo grid db" "svc_computers s = Some (ComputersRepo db)"
    "planRule s c u resourceTypeComputer i actions st (TargetPerson, v) = Inr w"
  shows "write_key resourceTypeComputer w = (resourceTypeComputer, i, for_person v)" "v \<noteq> u"
    "set_ok (rule_allow w)" "rule_deny w = []" "rule_allow w = [] \<or> (v \<in> set (db_active db) \<and> share_workspace db v u)"
    "set (rule_allow w) \<inter> set computer_runs \<noteq> {} \<Longrightarrow> ComputersSee \<in> set (rule_allow w)"
proof -
  from assms(3) obtain w0 where w0: "nextRule s c u resourceTypeComputer i (TargetPerson, v) actions st = Inr w0"
    and w: "w = w0\<lparr>rule_allow := computerRule (rule_allow w0) actions st, rule_deny := []\<rparr>"
    and t: "checkComputerTarget s u w = Inr ()"
    by (auto simp: planRule_def bindr_Inr_iff Let_def)
  have k: "write_key resourceTypeComputer w = (resourceTypeComputer, i, for_person v)"
    using nextRule_plan(1) [OF assms(1) w0] by (simp add: w write_key_def target_key_def)
  then have v: "rule_targetID w = v" using w0 w 
    by (auto simp: nextRule_def Let_def bindr_Inr_iff split: sum.splits if_splits)
  show "write_key resourceTypeComputer w = (resourceTypeComputer, i, for_person v)" by (fact k)
  show "v \<noteq> u" "rule_allow w = [] \<or> (v \<in> set (db_active db) \<and> share_workspace db v u)"
    using t assms(2) v by (auto simp: checkComputerTarget_def ComputersRepo_def SharesWithOwner_def split: if_splits)
  show "set_ok (rule_allow w)" "rule_deny w = []"
    "set (rule_allow w) \<inter> set computer_runs \<noteq> {} \<Longrightarrow> ComputersSee \<in> set (rule_allow w)"
    using planned_write(1) [OF assms(1) w0] computerRule_laws [of "rule_allow w0"] by (auto simp: w)
qed

text \<open>C36. A computer is shared by its owner alone, with people alone: whatever a write of rules on computers
  changes, finished or stopped half way, is a rule naming another person on a computer the actor owns; it
  denies nothing, gives something only to an active person who shares a workspace with the owner, and gives
  no use of the computer without See.\<close>

theorem SetRules_computer:
  assumes "svc_repo s = AccessRepo grid db" "svc_computers s = Some (ComputersRepo db)"
    "SetRules now s c u resourceTypeComputer ids to actions st db = (db', r)"
    "rule_at db' (ty, i, t) \<noteq> rule_at db (ty, i, t)" "rule_at db' (ty, i, t) = (allow, deny)"
  shows "\<exists>v. ty = resourceTypeComputer \<and> i \<in> set ids \<and> t = for_person v \<and> v \<in> set (to_UserIDs to) \<and> v \<noteq> u \<and>
    (i, u) \<in> set (db_computers db) \<and> deny = [] \<and>
    (if allow = [] then True else v \<in> set (db_active db) \<and> share_workspace db v u) \<and>
    (if set allow \<inter> set computer_runs = {} then True else ComputersSee \<in> set allow)"
  using assms(3)
proof (cases rule: SetRules_cases)
  case (2 ws)
  note plan = SetRules_plan_computer [OF 2(1)] and rule = planRule_computer [OF assms(1,2)]
  have "\<forall>w \<in> set ws. set_ok (rule_allow w) \<and> set_ok (rule_deny w)" using plan rule(3,4) by (metis set_ok_Nil)
  with SetRules_store_at [OF 2(2), of "(ty, i, t)"] assms(4,5) obtain w where w: "w \<in> set ws"
    "write_key resourceTypeComputer w = (ty, i, t)" "write_rule w = (allow, deny)" by auto
  from plan [OF w(1)] obtain j v where j: "j \<in> set ids" "v \<in> set (to_UserIDs to)"
    "canManage s c u resourceTypeComputer j = Inr True" "planRule s c u resourceTypeComputer j actions st (TargetPerson, v) = Inr w"
    by blast
  from j(3) obtain held where "ComputerPermissions s c u j = Inr (u, held)"
    by (auto simp: canManage_def ownedComputer_def bindr_Inr_iff)
  then have "(j, u) \<in> set (db_computers db)"
    using assms(2) ComputerAccess_owner by (elim ComputerPermissions_Inr) (auto simp: ComputersRepo_def)
  with j w rule [OF j(4)] show ?thesis by (auto simp: write_rule_def)
qed (use assms(4) in auto)

definition example_computers :: Service where
  "example_computers = SetComputers (example_service example_db) (ComputersRepo example_db)"

lemma example_owner_computer:
  "ComputerPermissions example_computers (person_ctx ''ann'') ''ann'' ''c1'' = Inr (''ann'', SetOf ComputerActions)"
proof -
  have "ComputerAccess example_db ''c1'' ''ann'' = Inr (''ann'', [])"
    by (simp add: ComputerAccess_def live_rule_def example_db_def share_workspace_def)
  moreover have "TrimSpace ''ann'' = ''ann''" "TrimSpace ''c1'' = ''c1''"
    by (rule plain_name; simp add: space_runes_def)+
  moreover have "Has (SetOf ComputerActions) ComputersSee" by simp
  ultimately show ?thesis
    by (simp add: example_computers_def ComputerPermissions_def SetComputers_def ComputersRepo_def viewedWorkspace_def
        person_ctx_def Let_def)
qed

lemma example_computer_plan:
  "SetRules_plan example_computers (person_ctx ''ann'') ''ann'' resourceTypeComputer [''c1''] example_to [ComputersAgents]
     StateAllow = Inr [\<lparr>rule_resourceID = ''c1'', rule_target = TargetPerson, rule_targetID = ''bob'',
       rule_allow = [ComputersAgents, ComputersSee], rule_deny = [], rule_existed = False\<rparr>]"
proof -
  have check: "checkWrite ''ann'' resourceTypeComputer [''c1''] example_to [ComputersAgents] StateAllow = Inr ()" by code_simp
  have sets: "With [] ComputersAgents = [ComputersAgents]" "Without [] ComputersAgents = []"
    "computerRule [ComputersAgents] [ComputersAgents] StateAllow = [ComputersAgents, ComputersSee]" by code_simp+
  have "existingRule example_computers resourceTypeComputer ''c1'' TargetPerson ''bob'' =
      Inl (wrapf ''get overwrite computer/c1/bob'' (sentinel_err ErrNotFound))"
    by (simp add: existingRule_def example_computers_def SetComputers_def example_service_def NewService_def AccessRepo_def
        repoGet_def first_row_def example_db_def)
  moreover have "svc_computers example_computers = Some (ComputersRepo example_db)"
    by (simp add: example_computers_def SetComputers_def)
  moreover have "SharesWithOwner example_db ''ann'' ''bob'' = Inr True"
    by (simp add: SharesWithOwner_def share_workspace_def example_db_def)
  ultimately show ?thesis using sets
    by (simp add: SetRules_plan_def check checkComputerWrite_def planRules_def requireOpens_def canManage_def ownedComputer_def
        example_owner_computer checkArea_def requireRolesOf_def targets_each_def planRule_def nextRule_def moveTo_def
        holds_def checkComputerTarget_def ComputersRepo_def Let_def)
qed

theorem SetRules_computer_witness:
  "\<exists>db' deny. SetRules 0 example_computers (person_ctx ''ann'') ''ann'' resourceTypeComputer [''c1''] example_to
       [ComputersAgents] StateAllow example_db = (db', Inr ()) \<and>
     rule_at db' (resourceTypeComputer, ''c1'', for_person ''bob'') = ([ComputersAgents, ComputersSee], deny) \<and>
     deny = [] \<and> share_workspace example_db ''bob'' ''ann''"
proof -
  define w where "w = \<lparr>rule_resourceID = ''c1'', rule_target = TargetPerson, rule_targetID = ''bob'',
       rule_allow = [ComputersAgents, ComputersSee], rule_deny = [], rule_existed = False\<rparr>"
  obtain db' where st: "store_rule 0 example_db resourceTypeComputer w (grantEvent ''ann'' resourceTypeComputer w) = Inr db'"
    by (simp add: w_def store_rule_def repoSet_def repo_set_def foreign_ok_def person_row_def po_UserID_def po_RoleID_def
        example_db_def)
  have set: "SetRules 0 example_computers (person_ctx ''ann'') ''ann'' resourceTypeComputer [''c1''] example_to
       [ComputersAgents] StateAllow example_db = (db', Inr ())"
    using st by (simp add: SetRules_def example_computer_plan w_def)
  have "set_ok [ComputersAgents, ComputersSee]" by code_simp
  then have at: "rule_at db' (resourceTypeComputer, ''c1'', for_person ''bob'') = ([ComputersAgents, ComputersSee], [])"
    using store_rule_at [OF st] by (simp add: w_def write_key_def target_key_def write_rule_def)
  moreover have "rule_at example_db (resourceTypeComputer, ''c1'', for_person ''bob'') = ([], [])"
    by (simp add: rule_at_def get_rule_def repoGet_def first_row_def example_db_def)
  moreover have "svc_repo example_computers = AccessRepo (\<lambda>w. Inl (sentinel_err ErrNotFound)) example_db"
    "svc_computers example_computers = Some (ComputersRepo example_db)"
    by (simp_all add: example_computers_def SetComputers_def example_service_def NewService_def)
  ultimately show ?thesis using SetRules_computer [OF _ _ set _ at] set by auto
qed

lemma table_row_unique:
  assumes "table_ok rows" "filter (\<lambda>row. key3 row = k) rows = row # rest"
  shows "rest = []"
proof -
  have "distinct (map row_key (row # rest))"
    using assms distinct_map_filter [of row_key rows "\<lambda>row. key3 row = k"] by (simp add: table_ok_def)
  moreover have "\<forall>r \<in> set (row # rest). key3 r = k" by (simp flip: assms(2))
  ultimately show ?thesis by (cases rest) (auto simp: row_key_eq)
qed

lemma rules_Person_row:
  "filter (\<lambda>row. po_Target row \<noteq> TargetRole) rows = [row] \<Longrightarrow>
   rules_Person (rules_of_rows (toOverwrites rows)) = Some (toOverwrite row)"
  by (simp add: rules_of_rows_def toOverwrites_def filter_map comp_def)

text \<open>The rule naming a person on a doc, as the doc's rules are read for them.\<close>

lemma doc_person_rule:
  assumes "table_ok (db_overwrites db)" "get_rule db (resourceTypeDoc, d, for_person u) = Some (allow, deny)"
    "list_all (\<lambda>r. doc_id r = d \<longrightarrow> doc_folder r \<noteq> Some d) (db_docs db)"
  shows "\<exists>dr rs ow. table_doc_rules db d u = Some dr \<and> docrules_Doc dr = Some rs \<and> rules_Person rs = Some ow \<and>
    ow_Allow ow = allow \<and> ow_Deny ow = deny"
proof -
  let ?rows = "filter (\<lambda>row. po_ResourceType row = resourceTypeDoc \<and> po_ResourceID row = d \<and> reaches db u row) (db_overwrites db)"
  let ?mine = "filter (\<lambda>row. key3 row = (resourceTypeDoc, d, for_person u)) (db_overwrites db)"
  let ?at = "map snd (filter (\<lambda>p. fst p = d) (doc_chain_rows db [d] u))"
  have "?mine = filter (\<lambda>row. po_Target row \<noteq> TargetRole) ?rows"
    unfolding filter_filter
    by (rule filter_cong) (auto simp: key3_def reaches_def role_in_def po_UserID_def po_RoleID_def po_Target_def
        split: rule_target.splits)
  moreover have at: "filter (\<lambda>row. po_ResourceID row = d) ?at = ?rows"
  proof -
    let ?own = "map (\<lambda>row. (po_ResourceID row, row)) ?rows"
    obtain fold where fold: "doc_chain_rows db [d] u = ?own @ fold"
      "\<forall>p \<in> set fold. \<exists>r \<in> set (db_docs db). doc_id r = d \<and> Some (po_ResourceID (snd p)) = doc_folder r"
      by (auto simp: doc_chain_rows_def)
    have "filter (\<lambda>row. po_ResourceID row = d) (map snd (filter (\<lambda>p. fst p = d) fold)) = []"
      using fold(2) assms(3) by (fastforce simp: filter_empty_conv list_all_iff)
    moreover have "filter (\<lambda>row. po_ResourceID row = d) (map snd (filter (\<lambda>p. fst p = d) ?own)) = ?rows"
      by (simp add: filter_map comp_def) (simp add: filter_filter conj_ac cong: filter_cong conj_cong)
    ultimately show ?thesis by (simp only: fold(1) filter_append map_append append_Nil2)
  qed
  moreover from assms(2) obtain row where mine: "?mine = [row]" "parseSet (po_Allow row) = allow" "parseSet (po_Deny row) = deny"
    using table_row_unique [OF assms(1)] by (auto simp: get_rule_rows split: list.splits)
  ultimately have row: "filter (\<lambda>row. po_Target row \<noteq> TargetRole) (filter (\<lambda>row. po_ResourceID row = d) ?at) = [row]" by simp
  then have "filter (\<lambda>row. po_ResourceID row = d) ?at \<noteq> []" by (metis filter.simps(1) list.distinct(1))
  then have "map_of (toRules ?at) d = Some (rules_of_rows (toOverwrites (filter (\<lambda>row. po_ResourceID row = d) ?at)))"
    by (simp add: toRules_at)
  moreover have "d \<in> fst ` set (doc_chain_rows db [d] u)" using \<open>filter _ ?at \<noteq> []\<close> by (force simp: filter_empty_conv)
  ultimately have "\<exists>dr. table_doc_rules db d u = Some dr \<and>
      docrules_Doc dr = Some (rules_of_rows (toOverwrites (filter (\<lambda>row. po_ResourceID row = d) ?at)))"
    by (auto simp: table_doc_rules_def repoDocRules_def Let_def filter_map_of_map)
  moreover have "rules_Person (rules_of_rows (toOverwrites (filter (\<lambda>row. po_ResourceID row = d) ?at))) = Some (toOverwrite row)"
    by (rule rules_Person_row) (fact row)
  ultimately show ?thesis using mine(2,3) by (auto simp: toOverwrite_def)
qed

lemma CreatorGrant_some: "CreatorGrant \<noteq> []"
  by (metis CreatorGrant_def Has_Nil Has_SetOf list.set_intros(1))

text \<open>Whoever creates a doc can use it: once \<open>GrantCreator\<close> has stored the creator's rule, the creator holds
  each action of \<open>CreatorGrant\<close> on the doc, whatever the rules for their roles and the folder's rules say, as
  long as the doc's project is not hidden from them.\<close>

theorem GrantCreator_opens:
  assumes "table_ok (db_overwrites db)" "GrantCreator now db d u = Inr db'" "svc_repo s = AccessRepo grid db'"
    "list_all (\<lambda>r. doc_id r = d \<longrightarrow> doc_folder r \<noteq> Some d) (db_docs db)"
    "\<not> hidden (layers s c u (ds_WorkspaceID (scope_at (docScopes s [d]) d)) (ds_ProjectID (scope_at (docScopes s [d]) d)))"
    "a \<in> set CreatorGrant"
  shows "Can s c u d a"
proof -
  let ?k = "(resourceTypeDoc, d, for_person u)"
  from assms(2) have ne: "d \<noteq> []" "u \<noteq> []" and put: "put_rule (now, []) db ?k (CreatorGrant, []) = Inr db'"
    by (auto simp: GrantCreator_def put_rule_def split: if_splits)
  have ok: "set_ok CreatorGrant" by (simp add: CreatorGrant_def)
  have "get_rule db' ?k = Some (CreatorGrant, [])" "table_ok (db_overwrites db')"
    using table_store.get_put [OF put, of ?k] table_store.inv_put [OF assms(1) put] ok CreatorGrant_some by auto
  moreover have "db_docs db' = db_docs db"
    using put by (auto simp: put_rule_def repoSet_def repo_set_def split: if_splits)
  ultimately obtain dr rs ow where dr: "table_doc_rules db' d u = Some dr" "docrules_Doc dr = Some rs" "rules_Person rs = Some ow"
    "ow_Allow ow = CreatorGrant" "ow_Deny ow = []" using doc_person_rule [of db' d u] assms(4) by fastforce
  have "map_of (docRules s [d] u) d = table_doc_rules db' d u" using assms(3) by (intro tables.docRules_at) auto
  moreover have "stateOf ow a = StateAllow" using dr(4,5) assms(6) ok by (simp add: stateOf_def Has_iff)
  moreover have "a \<noteq> Member" using assms(6) by (auto simp: CreatorGrant_def)
  ultimately show ?thesis using assms(5) ne dr
    by (simp add: Can_check check_def chain_of_def doc_chain_def decide_answer rule_verdict_def state_verdict_def)
qed

definition example_doc_service :: "database \<Rightarrow> Service" where
  "example_doc_service db = (example_service db)
     \<lparr>svc_docWorkspace := Some example_docs, svc_roles := Some (\<lambda>w u. Inr (RolesHeld [example_owner]))\<rparr>"

theorem GrantCreator_opens_witness:
  "\<exists>db'. GrantCreator 0 example_db ''d1'' ''bob'' = Inr db' \<and>
     Can (example_doc_service db') (person_ctx ''bob'') ''bob'' ''d1'' DocsWrite"
proof -
  obtain db' where db': "GrantCreator 0 example_db ''d1'' ''bob'' = Inr db'"
    by (simp add: GrantCreator_def repoSet_def repo_set_def CreatorGrant_some foreign_ok_def person_row_def po_UserID_def
        po_RoleID_def) (simp add: example_db_def)
  have "Can (example_doc_service db') (person_ctx ''bob'') ''bob'' ''d1'' DocsWrite"
  proof (rule GrantCreator_opens [OF _ db'])
    show "\<not> hidden (layers (example_doc_service db') (person_ctx ''bob'') ''bob''
      (ds_WorkspaceID (scope_at (docScopes (example_doc_service db') [''d1'']) ''d1''))
      (ds_ProjectID (scope_at (docScopes (example_doc_service db') [''d1'']) ''d1'')))"
      by (simp add: hidden_def member_info_def memberRole_def viewedWorkspace_def person_ctx_def example_doc_service_def
          RolesHeld_def example_owner_def docScopes_def example_docs_def scope_at_def)
  qed (simp_all add: example_db_def table_ok_def example_doc_service_def example_service_def NewService_def CreatorGrant_def)
  with db' show ?thesis by blast
qed

end
