(* ===== verification/Access_Grid.thy ===== *)
theory Access_Grid
  imports Access_Write "HOL-Library.AList" "HOL-Library.Product_Lexorder"
begin

text \<open>
  The Access page (\<^verbatim>\<open>internal/access/grid.go\<close>, \<^verbatim>\<open>platform/storage/access_grid_repo.go\<close> with its statements
  of \<^verbatim>\<open>queries/access.sql\<close>): the grid of a workspace as the caller may manage it, the plan of a save, which
  moves rules one by one in memory, and the one transaction that stores the moved rules, deletes the emptied
  ones, ends the setup and announces the change.
\<close>

section \<open>What a save asks for\<close>

record GridProjectSave =
  ps_ProjectID :: string
  ps_RoleIDs :: "string list"
  ps_UserIDs :: "string list"

record GridChannelSave =
  chs_ChannelID :: string
  chs_HiddenRoleIDs :: "string list"

record GridSave =
  save_Projects :: "GridProjectSave list"
  save_Channels :: "GridChannelSave list"
  save_Finish :: bool

section \<open>The rules of the source\<close>

definition ruleTarget :: "Overwrite \<Rightarrow> string" where
  "ruleTarget ow = (if ow_Target ow = TargetRole then ow_RoleID ow else ow_UserID ow)"

definition src_rule :: "GridSource \<Rightarrow> string \<Rightarrow> string \<Rightarrow> string \<Rightarrow> string \<Rightarrow> Overwrite option" where
  "src_rule src resourceType resourceID target targetID =
     find (\<lambda>ow. ow_ResourceType ow = resourceType \<and> ow_ResourceID ow = resourceID \<and> ow_Target ow = target \<and>
                ruleTarget ow = targetID) (gsrc_Rules src)"

definition listed :: "GridSource \<Rightarrow> string \<Rightarrow> string list \<times> string list" where
  "listed src projectID =
     (map gr_ID (filter (\<lambda>r. case src_rule src resourceTypeProject projectID TargetRole (gr_ID r) of
          None \<Rightarrow> False | Some ow \<Rightarrow> stateOf ow ProjectsOpen = StateAllow) (grid_Roles src)),
      map ow_UserID (filter (\<lambda>ow. ow_ResourceType ow = resourceTypeProject \<and> ow_ResourceID ow = projectID \<and>
          ow_Target ow = TargetPerson \<and> stateOf ow ProjectsOpen = StateAllow) (gsrc_Rules src)))"

definition hiddenFrom :: "GridSource \<Rightarrow> string \<Rightarrow> string list" where
  "hiddenFrom src channelID =
     map gr_ID (filter (\<lambda>r. case src_rule src resourceTypeChannel channelID TargetRole (gr_ID r) of
          None \<Rightarrow> False | Some ow \<Rightarrow> stateOf ow ChannelsRead = StateDeny) (grid_Roles src))"

section \<open>Planning a save\<close>

type_synonym grid_key = "string \<times> string \<times> string \<times> string"

record gridPlan =
  plan_src :: GridSource
  plan_changed :: "(grid_key \<times> Overwrite) list"

definition newPlan :: "GridSource \<Rightarrow> gridPlan" where
  "newPlan src = \<lparr>plan_src = src, plan_changed = []\<rparr>"

definition knownRoles :: "gridPlan \<Rightarrow> string list \<Rightarrow> unit res" where
  "knownRoles p rids =
     (case find (\<lambda>i. i \<notin> set (map gr_ID (grid_Roles (plan_src p)))) rids of
        None \<Rightarrow> Inr ()
      | Some i \<Rightarrow> Inl (errorf ErrNotFound (''role '' @ i @
          '' is not one of this workspace's roles other than the Owner's'')))"

definition plan_start :: "gridPlan \<Rightarrow> grid_key \<Rightarrow> Overwrite" where
  "plan_start p key =
     (case map_of (plan_changed p) key of
        Some ow \<Rightarrow> ow
      | None \<Rightarrow>
          (case key of (resourceType, resourceID, target, targetID) \<Rightarrow>
            (case src_rule (plan_src p) resourceType resourceID target targetID of
               Some ow \<Rightarrow> ow
             | None \<Rightarrow>
                 \<lparr>ow_ResourceType = resourceType, ow_ResourceID = resourceID, ow_Target = target,
                  ow_UserID = (if target = TargetRole then [] else targetID),
                  ow_RoleID = (if target = TargetRole then targetID else []),
                  ow_Allow = [], ow_Deny = [], ow_CreatedAt = 0, ow_UpdatedAt = 0, ow_TargetName = []\<rparr>)))"

definition plan_set :: "gridPlan \<Rightarrow> grid_key \<Rightarrow> action \<Rightarrow> string \<Rightarrow> bool \<Rightarrow> gridPlan" where
  "plan_set p key a state on =
     (let ow = plan_start p key;
          current = (stateOf ow a = state)
      in if current = on then p
         else let (allow, deny) = (if on then moveTo (ow_Allow ow) (ow_Deny ow) a state
                                   else moveTo (ow_Allow ow) (ow_Deny ow) a StateFallback)
              in p\<lparr>plan_changed := AList.update key (ow\<lparr>ow_Allow := allow, ow_Deny := deny\<rparr>) (plan_changed p)\<rparr>)"

definition plan_project :: "gridPlan \<Rightarrow> GridProjectSave \<Rightarrow> string list \<Rightarrow> gridPlan res" where
  "plan_project p inp managed =
     (if ps_ProjectID inp \<notin> set managed then Inl (errorf ErrNotFound (''project '' @ ps_ProjectID inp))
      else bindr (knownRoles p (ps_RoleIDs inp)) (\<lambda>_.
        case find (\<lambda>i. i \<notin> set (gsrc_MemberIDs (plan_src p))) (ps_UserIDs inp) of
          Some i \<Rightarrow> Inl (errorf ErrInvalid (i @ '' is not a member of this workspace''))
        | None \<Rightarrow>
            let p1 = foldl (\<lambda>p r. plan_set p (resourceTypeProject, ps_ProjectID inp, TargetRole, gr_ID r) ProjectsOpen StateAllow
                                (gr_ID r \<in> set (ps_RoleIDs inp))) p (grid_Roles (plan_src p))
            in Inr (foldl (\<lambda>p i. plan_set p (resourceTypeProject, ps_ProjectID inp, TargetPerson, i) ProjectsOpen StateAllow
                                (i \<in> set (ps_UserIDs inp))) p1
                      (snd (listed (plan_src p) (ps_ProjectID inp)) @ ps_UserIDs inp))))"

definition plan_channel :: "gridPlan \<Rightarrow> GridChannelSave \<Rightarrow> gridPlan res" where
  "plan_channel p inp =
     (if chs_ChannelID inp \<notin> set (map gc_ID (grid_Channels (plan_src p)))
      then Inl (errorf ErrNotFound (''public channel '' @ chs_ChannelID inp))
      else bindr (knownRoles p (chs_HiddenRoleIDs inp)) (\<lambda>_.
        Inr (foldl (\<lambda>p r. plan_set p (resourceTypeChannel, chs_ChannelID inp, TargetRole, gr_ID r) ChannelsRead StateDeny
                            (gr_ID r \<in> set (chs_HiddenRoleIDs inp))) p (grid_Roles (plan_src p)))))"

definition plan_writes :: "gridPlan \<Rightarrow> Overwrite list" where
  "plan_writes p =
     sort_key (\<lambda>ow. [ow_ResourceType ow, ow_ResourceID ow, ow_Target ow, ruleTarget ow]) (map snd (plan_changed p))"

section \<open>The Access page's tables\<close>

text \<open>The columns the Access page alone reads: a workspace's setup, and the names and the order of its projects,
  roles and conversations.  Members, the roles they hold and the rules are in the other tables.\<close>

record workspace_row =
  wsr_id :: string
  wsr_finished :: bool
  wsr_by :: string
  wsr_at :: time

record project_row =
  pjr_id :: string
  pjr_workspace :: string
  pjr_name :: string
  pjr_prefix :: string
  pjr_position :: int

record named_role_row =
  rlr_id :: string
  rlr_workspace :: string
  rlr_name :: string
  rlr_is_owner :: bool
  rlr_created :: time

record conversation_row =
  cvr_id :: string
  cvr_workspace :: string
  cvr_kind :: string
  cvr_name :: string
  cvr_private :: bool
  cvr_general :: bool

record grid_tables =
  gt_workspaces :: "workspace_row list"
  gt_projects :: "project_row list"
  gt_roles :: "named_role_row list"
  gt_conversations :: "conversation_row list"
  gt_logins :: "(string \<times> string) list"

definition toGridSetup :: "grid_tables \<Rightarrow> workspace_row \<Rightarrow> GridSetup" where
  "toGridSetup g row =
     \<lparr>gs_Finished = wsr_finished row, gs_FinishedBy = wsr_by row,
      gs_Login = (case map_of (gt_logins g) (wsr_by row) of None \<Rightarrow> [] | Some login \<Rightarrow> login),
      gs_FinishedAt = (if wsr_at row \<noteq> 0 then Some (wsr_at row) else None)\<rparr>"

definition ListAccessGridProjects :: "grid_tables \<Rightarrow> string \<Rightarrow> GridProject list" where
  "ListAccessGridProjects g workspaceID =
     map (\<lambda>row. \<lparr>gp_ID = pjr_id row, gp_Name = pjr_name row, gp_Prefix = pjr_prefix row, gp_RoleIDs = [], gp_UserIDs = []\<rparr>)
       (sort_key (\<lambda>row. (pjr_position row, pjr_id row)) (filter (\<lambda>row. pjr_workspace row = workspaceID) (gt_projects g)))"

definition ListAccessGridRoles :: "grid_tables \<Rightarrow> database \<Rightarrow> string \<Rightarrow> GridRole list" where
  "ListAccessGridRoles g db workspaceID =
     map (\<lambda>row. \<lparr>gr_ID = rlr_id row, gr_Name = rlr_name row,
                 gr_Holders = length (filter (\<lambda>m. mr_role m = rlr_id row) (db_member_roles db))\<rparr>)
       (sort_key (\<lambda>row. (rlr_created row, rlr_id row))
         (filter (\<lambda>row. rlr_workspace row = workspaceID \<and> \<not> rlr_is_owner row) (gt_roles g)))"

definition ListAccessGridChannels :: "grid_tables \<Rightarrow> string \<Rightarrow> GridChannel list" where
  "ListAccessGridChannels g workspaceID =
     map (\<lambda>row. \<lparr>gc_ID = cvr_id row, gc_Name = cvr_name row, gc_Kind = cvr_kind row, gc_HiddenRoleIDs = []\<rparr>)
       (sort_key (\<lambda>row. (\<not> cvr_general row, cvr_kind row, cvr_name row, cvr_id row))
         (filter (\<lambda>row. cvr_workspace row = workspaceID \<and> cvr_kind row \<in> {''channel'', ''voice_channel''} \<and>
                        \<not> cvr_private row) (gt_conversations g)))"

definition ListAccessGridRules :: "grid_tables \<Rightarrow> database \<Rightarrow> string \<Rightarrow> PermissionOverwrite list" where
  "ListAccessGridRules g db workspaceID =
     concat (map (\<lambda>po. map (\<lambda>_. po)
         (filter (\<lambda>p. pjr_id p = po_ResourceID po \<and> pjr_workspace p = workspaceID) (gt_projects g)))
       (filter (\<lambda>po. po_ResourceType po = resourceTypeProject) (db_overwrites db))) @
     concat (map (\<lambda>po. map (\<lambda>_. po)
         (filter (\<lambda>p. cvr_id p = po_ResourceID po \<and> cvr_workspace p = workspaceID) (gt_conversations g)))
       (filter (\<lambda>po. po_ResourceType po = resourceTypeChannel) (db_overwrites db)))"

definition repoGrid :: "grid_tables \<Rightarrow> database \<Rightarrow> string \<Rightarrow> GridSource res" where
  "repoGrid g db workspaceID =
     (case find (\<lambda>row. wsr_id row = workspaceID) (gt_workspaces g) of
        None \<Rightarrow> Inl (wrapf (''get the access setup of workspace '' @ workspaceID) (sentinel_err ErrNotFound))
      | Some row \<Rightarrow>
          Inr \<lparr>grid_WorkspaceID = workspaceID, grid_Setup = toGridSetup g row,
               grid_Roles = ListAccessGridRoles g db workspaceID, grid_Projects = ListAccessGridProjects g workspaceID,
               grid_Channels = ListAccessGridChannels g workspaceID,
               gsrc_MemberIDs = map snd (filter (\<lambda>m. fst m = workspaceID) (db_members db)),
               gsrc_Rules = toOverwrites (ListAccessGridRules g db workspaceID)\<rparr>)"

text \<open>A rule as the bulk statements store it: it names a role or a person, as every rule of a plan does.\<close>

definition gridRule :: "time \<Rightarrow> Overwrite \<Rightarrow> PermissionOverwrite" where
  "gridRule now ow =
     \<lparr>po_ResourceType = ow_ResourceType ow, po_ResourceID = ow_ResourceID ow,
      po_For = (if ow_Target ow = TargetRole then for_role (ow_RoleID ow) else for_person (ow_UserID ow)),
      po_Allow = setJSON (ow_Allow ow), po_Deny = setJSON (ow_Deny ow), po_CreatedAt = now, po_UpdatedAt = now\<rparr>"

definition FinishAccessSetup :: "string \<Rightarrow> time \<Rightarrow> string \<Rightarrow> grid_tables \<Rightarrow> grid_tables" where
  "FinishAccessSetup by at workspaceID g =
     g\<lparr>gt_workspaces := map (\<lambda>row. if wsr_id row = workspaceID
                                   then row\<lparr>wsr_finished := True, wsr_by := by, wsr_at := at\<rparr> else row) (gt_workspaces g)\<rparr>"

definition repoSaveGrid ::
  "time \<Rightarrow> string \<Rightarrow> Overwrite list \<Rightarrow> string \<Rightarrow> OutboxEvent list \<Rightarrow> grid_tables \<times> database \<Rightarrow> (grid_tables \<times> database) res" where
  "repoSaveGrid now workspaceID rules finishedBy events st =
     (let (g, db) = st;
          kept = map (gridRule now) (filter (\<lambda>ow. length (ow_Allow ow) + length (ow_Deny ow) \<noteq> 0) rules);
          emptied = map (gridRule now) (filter (\<lambda>ow. length (ow_Allow ow) + length (ow_Deny ow) = 0) rules)
      in if \<not> list_all (foreign_ok db) kept
         then Inl (wrapf (''set the rules of workspace '' @ workspaceID) (sentinel_err ErrConflict))
         else Inr (if finishedBy = [] then g else FinishAccessSetup finishedBy now workspaceID g,
                   db\<lparr>db_overwrites := filter (\<lambda>row. row_key row \<notin> set (map row_key emptied))
                                        (foldl upsert_row (db_overwrites db) kept),
                      db_outbox := db_outbox db @ events\<rparr>))"

section \<open>The Access page\<close>

definition gridFor :: "Service \<Rightarrow> ctx \<Rightarrow> string \<Rightarrow> string \<Rightarrow> (GridSource \<times> string list \<times> bool) res" where
  "gridFor s c actorID workspaceID =
     (if actorID = [] then Inl (errorf ErrUnauthorized ''actor is required'')
      else
        let ws = layers s c actorID workspaceID []
        in if \<not> ws_member ws then Inl (errorf ErrNotFound (''workspace '' @ workspaceID))
           else bindr (ProjectsWith s c actorID workspaceID ProjectsAccess) (\<lambda>managed.
             if \<not> ws_owner ws \<and> managed = []
             then Inl (errorf ErrForbidden ''manage access on a project required'')
             else bindr (map_errr (wrapf (''read the access of workspace '' @ workspaceID))
                           (repo_Grid (svc_repo s) workspaceID)) (\<lambda>src.
                  Inr (src, managed, ws_owner ws))))"

definition svc_Grid :: "Service \<Rightarrow> ctx \<Rightarrow> string \<Rightarrow> string \<Rightarrow> Grid res" where
  "svc_Grid s c actorID workspaceID =
     bindr (gridFor s c actorID workspaceID) (\<lambda>(src, managed, owner).
     Inr \<lparr>grid_WorkspaceID = grid_WorkspaceID src, grid_Setup = grid_Setup src, grid_Roles = grid_Roles src,
          grid_Projects = map (\<lambda>p. p\<lparr>gp_RoleIDs := fst (listed src (gp_ID p)), gp_UserIDs := snd (listed src (gp_ID p))\<rparr>)
            (filter (\<lambda>p. gp_ID p \<in> set managed) (grid_Projects src)),
          grid_Channels = (if \<not> owner then []
            else map (\<lambda>ch. ch\<lparr>gc_HiddenRoleIDs := hiddenFrom src (gc_ID ch)\<rparr>) (grid_Channels src))\<rparr>)"

definition SaveGrid_plan :: "GridSource \<Rightarrow> string list \<Rightarrow> GridSave \<Rightarrow> gridPlan res" where
  "SaveGrid_plan src managed inp =
     foldl (\<lambda>r ch. bindr r (\<lambda>p. plan_channel p ch))
       (foldl (\<lambda>r pr. bindr r (\<lambda>p. plan_project p pr managed)) (Inr (newPlan src)) (save_Projects inp))
       (save_Channels inp)"

definition SaveGrid ::
  "time \<Rightarrow> Service \<Rightarrow> ctx \<Rightarrow> string \<Rightarrow> string \<Rightarrow> GridSave \<Rightarrow> grid_tables \<times> database \<Rightarrow> (grid_tables \<times> database) res" where
  "SaveGrid now s c actorID workspaceID inp st =
     bindr (gridFor s c actorID workspaceID) (\<lambda>(src, managed, owner).
     if \<not> owner \<and> (save_Finish inp \<or> save_Channels inp \<noteq> [])
     then Inl (errorf ErrForbidden ''only an Owner hides public channels or finishes the access setup'')
     else bindr (SaveGrid_plan src managed inp) (\<lambda>plan.
       let finishedBy = (if save_Finish inp \<and> \<not> gs_Finished (grid_Setup src) then actorID else [])
       in if plan_changed plan = [] \<and> finishedBy = [] then Inr st
          else map_errr (wrapf (''save the access of workspace '' @ workspaceID))
                 (repoSaveGrid now workspaceID (plan_writes plan) finishedBy
                    [TopicGrantChanged \<lparr>ge_ResourceType = resourceTypeWorkspace, ge_ResourceID = workspaceID,
                       ge_Target = TargetRole, ge_UserID = [], ge_RoleID = [], ge_ActorID = actorID\<rparr>] st)))"

section \<open>Lemmas: rows\<close>

text \<open>The rule a key holds among rows, and one statement's upserts over it.\<close>

definition row_rule :: "PermissionOverwrite list \<Rightarrow> rule_key \<Rightarrow> pset \<times> pset" where
  "row_rule rows k =
     (case filter (\<lambda>row. key3 row = k) rows of
        [] \<Rightarrow> ([], [])
      | row # _ \<Rightarrow> (parseSet (po_Allow row), parseSet (po_Deny row)))"

lemma find_unique:
  assumes "x \<in> set xs" "P x" "\<And>y. y \<in> set xs \<Longrightarrow> P y \<Longrightarrow> y = x"
  shows "find P xs = Some x"
proof (cases "find P xs")
  case (Some y)
  then have "y \<in> set xs" "P y" by (auto simp: find_Some_iff)
  with assms(3) Some show ?thesis by simp
qed (use assms(1,2) in \<open>auto simp: find_None_iff\<close>)

lemma rule_at_rows: "rule_at db k = row_rule (db_overwrites db) k"
  by (auto simp: rule_at_def get_rule_rows row_rule_def split: list.splits)

lemma row_rule_upsert:
  "row_rule (upsert_row rows new) k =
     (if key3 new = k then (parseSet (po_Allow new), parseSet (po_Deny new)) else row_rule rows k)"
  by (auto simp: row_rule_def upsert_rows_at split: list.splits)

lemma row_rule_upserts:
  assumes "distinct (map key3 news)"
  shows "row_rule (foldl upsert_row rows news) k =
     (case find (\<lambda>new. key3 new = k) news of
        None \<Rightarrow> row_rule rows k
      | Some new \<Rightarrow> (parseSet (po_Allow new), parseSet (po_Deny new)))"
  using assms
proof (induction news arbitrary: rows)
  case (Cons new news)
  have "find (\<lambda>x. key3 x = k) news = None" if "key3 new = k"
    using Cons.prems that by (auto simp: find_None_iff image_iff)
  with Cons show ?case by (auto simp: row_rule_upsert split: option.splits)
qed simp

lemma row_rule_delete:
  "row_rule (filter (\<lambda>row. key3 row \<notin> K) rows) k = (if k \<in> K then ([], []) else row_rule rows k)"
proof -
  have "filter (\<lambda>row. key3 row = k) (filter (\<lambda>row. key3 row \<notin> K) rows) =
      (if k \<in> K then [] else filter (\<lambda>row. key3 row = k) rows)"
    by (induction rows) auto
  then show ?thesis by (simp add: row_rule_def)
qed

section \<open>Lemmas: plans\<close>

definition key_target :: "grid_key \<Rightarrow> rule_key" where
  "key_target k = (case k of (ty, i, target, tid) \<Rightarrow> (ty, i, target_key (target, tid)))"

definition ow_key :: "Overwrite \<Rightarrow> grid_key" where
  "ow_key ow = (ow_ResourceType ow, ow_ResourceID ow, ow_Target ow, ruleTarget ow)"

definition plan_ok :: "gridPlan \<Rightarrow> bool" where
  "plan_ok p \<longleftrightarrow> distinct (map fst (plan_changed p)) \<and>
     list_all (\<lambda>(k, ow). ow_key ow = k \<and> overwrite_ok ow \<and> fst (snd (snd k)) \<in> {TargetRole, TargetPerson}) (plan_changed p) \<and>
     list_all overwrite_ok (gsrc_Rules (plan_src p))"

lemma plan_start_ok:
  assumes "plan_ok p"
  shows "overwrite_ok (plan_start p k)" "ow_key (plan_start p k) = k"
proof -
  obtain ty i t ti where k: "k = (ty, i, t, ti)" by (cases k)
  show "overwrite_ok (plan_start p k)"
  proof (cases "map_of (plan_changed p) k")
    case (Some ow)
    then show ?thesis using assms by (force simp: plan_start_def plan_ok_def list_all_iff dest: map_of_SomeD)
  next
    case None
    then show ?thesis using assms
      by (auto simp: k plan_start_def plan_ok_def list_all_iff src_rule_def find_Some_iff overwrite_ok_def split: option.splits)
  qed
  show "ow_key (plan_start p k) = k"
  proof (cases "map_of (plan_changed p) k")
    case (Some ow)
    then show ?thesis using assms by (force simp: plan_start_def plan_ok_def list_all_iff dest: map_of_SomeD)
  next
    case None
    then show ?thesis
      by (auto simp: k plan_start_def src_rule_def find_Some_iff ow_key_def ruleTarget_def split: option.splits)
  qed
qed

lemma set_update_cases: "x \<in> set (AList.update k v xs) \<Longrightarrow> x = (k, v) \<or> x \<in> set xs"
  by (induction xs) (auto split: if_splits)

lemma plan_set_src [simp]: "plan_src (plan_set p k a st on) = plan_src p"
  by (simp add: plan_set_def Let_def split: prod.splits)

lemma plan_start_update:
  "plan_start (p\<lparr>plan_changed := AList.update k ow (plan_changed p)\<rparr>) k' = (if k' = k then ow else plan_start p k')"
  by (cases k'; cases "map_of (plan_changed p) k'") (simp_all add: plan_start_def update_conv)

lemma plan_set_at:
  assumes "plan_ok p" "fst (snd (snd k)) \<in> {TargetRole, TargetPerson}" "st \<in> {StateAllow, StateDeny}"
  shows "plan_ok (plan_set p k a st on)"
    "stateOf (plan_start (plan_set p k a st on) k') b =
      (if k' = k \<and> b = a \<and> (stateOf (plan_start p k) a = st) \<noteq> on then (if on then st else [])
       else stateOf (plan_start p k') b)"
proof -
  let ?ow = "plan_start p k" and ?to = "if on then st else StateFallback"
  obtain al de where m: "moveTo (ow_Allow ?ow) (ow_Deny ?ow) a ?to = (al, de)"
    by (cases "moveTo (ow_Allow ?ow) (ow_Deny ?ow) a ?to")
  let ?new = "?ow\<lparr>ow_Allow := al, ow_Deny := de\<rparr>"
  have set: "plan_set p k a st on = (if (stateOf ?ow a = st) = on then p
      else p\<lparr>plan_changed := AList.update k ?new (plan_changed p)\<rparr>)"
    using m by (simp add: plan_set_def Let_def split: if_splits)
  have ok: "overwrite_ok ?ow" "ow_key ?ow = k" using plan_start_ok [OF assms(1)] by auto
  then have "overwrite_ok ?new" "ow_key ?new = k"
    using moveTo_ok [OF _ _ m] by (auto simp: overwrite_ok_def ow_key_def ruleTarget_def)
  then show "plan_ok (plan_set p k a st on)"
    using assms(1,2) by (auto simp: set plan_ok_def distinct_update list_all_iff dest!: set_update_cases)
  have at: "plan_start (plan_set p k a st on) k' =
      (if k' = k \<and> (stateOf ?ow a = st) \<noteq> on then ?new else plan_start p k')"
    by (simp add: set plan_start_update)
  have "stateOf ?new b = (if b \<noteq> a then stateOf ?ow b else if on then st else [])"
    using stateOf_moveTo [OF ok(1) m, of b] assms(3) by auto
  with at show "stateOf (plan_start (plan_set p k a st on) k') b =
      (if k' = k \<and> b = a \<and> (stateOf (plan_start p k) a = st) \<noteq> on then (if on then st else [])
       else stateOf (plan_start p k') b)" by auto
qed

text \<open>One row of a save: a rule per element of a list, each moved on or off by whether the save names it.\<close>

lemma plan_sets_at:
  assumes "plan_ok p" "foldl (\<lambda>p x. plan_set p (K x) a st (On x)) p xs = q" "st \<in> {StateAllow, StateDeny}"
    "\<forall>x \<in> set xs. fst (snd (snd (K x))) \<in> {TargetRole, TargetPerson}" "\<forall>x \<in> set xs. On x = W (K x)"
  shows "plan_ok q \<and> plan_src q = plan_src p \<and>
    (\<forall>k b. (if k \<in> K ` set xs \<and> b = a then (stateOf (plan_start q k) b = st) = W k
            else stateOf (plan_start q k) b = stateOf (plan_start p k) b))"
  using assms(2,4,5)
proof (induction xs arbitrary: q rule: rev_induct)
  case (snoc x xs)
  let ?q = "foldl (\<lambda>p x. plan_set p (K x) a st (On x)) p xs"
  have IH: "plan_ok ?q \<and> plan_src ?q = plan_src p \<and>
    (\<forall>k b. (if k \<in> K ` set xs \<and> b = a then (stateOf (plan_start ?q k) b = st) = W k
            else stateOf (plan_start ?q k) b = stateOf (plan_start p k) b))"
    by (rule snoc.IH [OF refl]) (use snoc.prems(2,3) in auto)
  note at = conjunct2 [OF conjunct2 [OF IH], rule_format] and ok = conjunct1 [OF IH]
  have q: "q = plan_set ?q (K x) a st (On x)" using snoc.prems(1) by simp
  have st: "st \<noteq> []" using assms(3) by auto
  have K: "fst (snd (snd (K x))) \<in> {TargetRole, TargetPerson}" "On x = W (K x)" using snoc.prems(2,3) by auto
  have "if k \<in> K ` set (xs @ [x]) \<and> b = a then (stateOf (plan_start q k) b = st) = W k
      else stateOf (plan_start q k) b = stateOf (plan_start p k) b" for k b
    using at [of k b] plan_set_at(2) [OF ok K(1) assms(3), of a "On x" k b] K(2) st unfolding q by (auto split: if_splits)
  moreover have "plan_ok q" "plan_src q = plan_src p"
    using IH plan_set_at(1) [OF ok K(1) assms(3), of a "On x"] by (simp_all add: q)
  ultimately show ?case by blast
qed (use assms(1) in simp)

lemma plan_channel_at:
  assumes "plan_ok p" "plan_channel p inp = Inr q"
  shows "plan_ok q \<and> plan_src q = plan_src p \<and>
    (\<forall>k b. (if k \<in> (\<lambda>r. (resourceTypeChannel, chs_ChannelID inp, TargetRole, gr_ID r)) ` set (grid_Roles (plan_src p)) \<and>
              b = ChannelsRead
            then (stateOf (plan_start q k) b = StateDeny) = (snd (snd (snd k)) \<in> set (chs_HiddenRoleIDs inp))
            else stateOf (plan_start q k) b = stateOf (plan_start p k) b))"
  using assms(2) by (intro plan_sets_at [OF assms(1)]) (auto simp: plan_channel_def bindr_Inr_iff split: if_splits)

definition project_row_keys :: "GridSource \<Rightarrow> GridProjectSave \<Rightarrow> grid_key set" where
  "project_row_keys src inp =
     (\<lambda>r. (resourceTypeProject, ps_ProjectID inp, TargetRole, gr_ID r)) ` set (grid_Roles src) \<union>
     (\<lambda>i. (resourceTypeProject, ps_ProjectID inp, TargetPerson, i)) `
       (set (snd (listed src (ps_ProjectID inp))) \<union> set (ps_UserIDs inp))"

definition named_in :: "GridProjectSave \<Rightarrow> grid_key \<Rightarrow> bool" where
  "named_in inp k =
     (snd (snd (snd k)) \<in> set (if fst (snd (snd k)) = TargetRole then ps_RoleIDs inp else ps_UserIDs inp))"

lemma project_row_keys_id: "k \<in> project_row_keys src inp \<Longrightarrow> fst k = resourceTypeProject \<and> fst (snd k) = ps_ProjectID inp"
  by (auto simp: project_row_keys_def)

lemma plan_project_at:
  assumes "plan_ok p" "plan_project p inp managed = Inr q"
  shows "ps_ProjectID inp \<in> set managed \<and> plan_ok q \<and> plan_src q = plan_src p \<and>
    (\<forall>k b. (if k \<in> project_row_keys (plan_src p) inp \<and> b = ProjectsOpen
            then (stateOf (plan_start q k) b = StateAllow) = named_in inp k
            else stateOf (plan_start q k) b = stateOf (plan_start p k) b))"
proof -
  let ?K = "\<lambda>t i. (resourceTypeProject, ps_ProjectID inp, t, i)"
  let ?p1 = "foldl (\<lambda>p r. plan_set p (?K TargetRole (gr_ID r)) ProjectsOpen StateAllow (gr_ID r \<in> set (ps_RoleIDs inp)))
      p (grid_Roles (plan_src p))"
  have q: "ps_ProjectID inp \<in> set managed"
    "foldl (\<lambda>p i. plan_set p (?K TargetPerson i) ProjectsOpen StateAllow (i \<in> set (ps_UserIDs inp))) ?p1
      (snd (listed (plan_src p) (ps_ProjectID inp)) @ ps_UserIDs inp) = q"
    using assms(2) by (auto simp: plan_project_def bindr_Inr_iff Let_def split: if_splits option.splits)
  define p1 where "p1 = ?p1"
  define R where "R = (\<lambda>r. ?K TargetRole (gr_ID r)) ` set (grid_Roles (plan_src p))"
  define P where "P = ?K TargetPerson ` set (snd (listed (plan_src p) (ps_ProjectID inp)) @ ps_UserIDs inp)"
  have 1: "plan_ok p1 \<and> plan_src p1 = plan_src p \<and>
      (\<forall>k b. (if k \<in> R \<and> b = ProjectsOpen then (stateOf (plan_start p1 k) b = StateAllow) = named_in inp k
        else stateOf (plan_start p1 k) b = stateOf (plan_start p k) b))"
    unfolding p1_def R_def by (rule plan_sets_at [OF assms(1) refl]) (auto simp: named_in_def)
  then have 2: "plan_ok q \<and> plan_src q = plan_src p1 \<and>
      (\<forall>k b. (if k \<in> P \<and> b = ProjectsOpen then (stateOf (plan_start q k) b = StateAllow) = named_in inp k
        else stateOf (plan_start q k) b = stateOf (plan_start p1 k) b))"
    unfolding P_def by (intro plan_sets_at [OF _ q(2) [folded p1_def]]) (auto simp: named_in_def)
  have keys: "project_row_keys (plan_src p) inp = R \<union> P" "R \<inter> P = {}"
    unfolding R_def P_def by (auto simp: project_row_keys_def)
  have "if k \<in> R \<union> P \<and> b = ProjectsOpen then (stateOf (plan_start q k) b = StateAllow) = named_in inp k
      else stateOf (plan_start q k) b = stateOf (plan_start p k) b" for k b
    using conjunct2 [OF conjunct2 [OF 1], rule_format, of k b] conjunct2 [OF conjunct2 [OF 2], rule_format, of k b] keys(2)
    by (auto split: if_splits)
  moreover have "plan_ok q" "plan_src q = plan_src p"
    using conjunct1 [OF conjunct2 [OF 1]] conjunct1 [OF conjunct2 [OF 2]] conjunct1 [OF 2] by simp_all
  ultimately show ?thesis using q(1) unfolding keys(1) by blast
qed

text \<open>What a run of rows, projects or channels, leaves in a plan: any rule that moves is of a row, in the one
  action a row moves.\<close>

lemma plan_projects_at:
  assumes "plan_ok p" "foldl (\<lambda>r pr. bindr r (\<lambda>p. plan_project p pr managed)) (Inr p) prs = Inr q"
  shows "plan_ok q \<and> plan_src q = plan_src p \<and> (\<forall>pr \<in> set prs. ps_ProjectID pr \<in> set managed)"
    "stateOf (plan_start q k) b \<noteq> stateOf (plan_start p k) b \<Longrightarrow>
       b = ProjectsOpen \<and> (\<exists>pr \<in> set prs. k \<in> project_row_keys (plan_src p) pr)"
    "distinct (map ps_ProjectID prs) \<Longrightarrow> pr \<in> set prs \<Longrightarrow> k \<in> project_row_keys (plan_src p) pr \<Longrightarrow>
       (stateOf (plan_start q k) ProjectsOpen = StateAllow) = named_in pr k"
  using assms(2)
proof (induction prs arbitrary: q k b pr rule: rev_induct)
  case Nil
  { case 1 then show ?case using assms(1) by simp next case 2 then show ?case by simp next case 3 then show ?case by simp }
next
  case (snoc x prs)
  have step: "\<exists>q0. foldl (\<lambda>r pr. bindr r (\<lambda>p. plan_project p pr managed)) (Inr p) prs = Inr q0 \<and> plan_project q0 x managed = Inr q"
    if "foldl (\<lambda>r pr. bindr r (\<lambda>p. plan_project p pr managed)) (Inr p) (prs @ [x]) = Inr q" for q
    using that by (auto simp: bindr_Inr_iff)
  have at: "ps_ProjectID x \<in> set managed \<and> plan_ok q \<and> plan_src q = plan_src p \<and> plan_src q0 = plan_src p \<and>
      (\<forall>k b. (if k \<in> project_row_keys (plan_src p) x \<and> b = ProjectsOpen
            then (stateOf (plan_start q k) b = StateAllow) = named_in x k
            else stateOf (plan_start q k) b = stateOf (plan_start q0 k) b))"
    if "foldl (\<lambda>r pr. bindr r (\<lambda>p. plan_project p pr managed)) (Inr p) prs = Inr q0" "plan_project q0 x managed = Inr q" for q0 q
  proof -
    note ok = snoc.IH(1) [OF that(1)]
    show ?thesis using plan_project_at [OF conjunct1 [OF ok] that(2)] ok unfolding conjunct1 [OF conjunct2 [OF ok]] by blast
  qed
  {
    case 1
    from step [OF 1] at snoc.IH(1) show ?case by (metis UnE empty_iff insert_iff list.set(1,2) set_append)
  next
    case 2
    from step [OF 2(2)] obtain q0 where q0: "foldl (\<lambda>r pr. bindr r (\<lambda>p. plan_project p pr managed)) (Inr p) prs = Inr q0"
      "plan_project q0 x managed = Inr q" by blast
    note x = conjunct2 [OF conjunct2 [OF conjunct2 [OF conjunct2 [OF at [OF q0]]]], rule_format, of k b]
    show ?case using x snoc.IH(2) [OF _ q0(1), of k b] 2(1) by (auto split: if_splits)
  next
    case 3
    from step [OF 3(4)] obtain q0 where q0: "foldl (\<lambda>r pr. bindr r (\<lambda>p. plan_project p pr managed)) (Inr p) prs = Inr q0"
      "plan_project q0 x managed = Inr q" by blast
    note x = conjunct2 [OF conjunct2 [OF conjunct2 [OF conjunct2 [OF at [OF q0]]]], rule_format, of k ProjectsOpen]
    have "k \<notin> project_row_keys (plan_src p) x" if "pr \<in> set prs"
      using 3(1) that project_row_keys_id [OF 3(3)] project_row_keys_id [of k "plan_src p" x] by (auto simp: image_iff)
    then show ?case using x snoc.IH(3) [OF _ _ 3(3) q0(1)] 3(1,2,3) by (auto split: if_splits)
  }
qed

lemma plan_channels_at:
  assumes "plan_ok p" "foldl (\<lambda>r ch. bindr r (\<lambda>p. plan_channel p ch)) (Inr p) chs = Inr q"
  shows "plan_ok q \<and> plan_src q = plan_src p"
    "stateOf (plan_start q k) b \<noteq> stateOf (plan_start p k) b \<Longrightarrow>
       chs \<noteq> [] \<and> b = ChannelsRead \<and> fst k = resourceTypeChannel \<and> fst (snd k) \<in> set (map chs_ChannelID chs)"
  using assms(2)
proof (induction chs arbitrary: q k b rule: rev_induct)
  case Nil
  { case 1 then show ?case using assms(1) by simp next case 2 then show ?case by simp }
next
  case (snoc x chs)
  have at: "\<exists>q0. foldl (\<lambda>r ch. bindr r (\<lambda>p. plan_channel p ch)) (Inr p) chs = Inr q0 \<and> plan_ok q \<and> plan_src q = plan_src p \<and>
      (\<forall>k b. (if k \<in> (\<lambda>r. (resourceTypeChannel, chs_ChannelID x, TargetRole, gr_ID r)) ` set (grid_Roles (plan_src p)) \<and>
              b = ChannelsRead
            then (stateOf (plan_start q k) b = StateDeny) = (snd (snd (snd k)) \<in> set (chs_HiddenRoleIDs x))
            else stateOf (plan_start q k) b = stateOf (plan_start q0 k) b))"
    if "foldl (\<lambda>r ch. bindr r (\<lambda>p. plan_channel p ch)) (Inr p) (chs @ [x]) = Inr q" for q
  proof -
    from that obtain q0 where q0: "foldl (\<lambda>r ch. bindr r (\<lambda>p. plan_channel p ch)) (Inr p) chs = Inr q0"
      "plan_channel q0 x = Inr q" by (auto simp: bindr_Inr_iff)
    note ok = snoc.IH(1) [OF q0(1)]
    show ?thesis using plan_channel_at [OF conjunct1 [OF ok] q0(2)] q0(1) unfolding conjunct2 [OF ok] by blast
  qed
  {
    case 1 show ?case using at [OF 1] by blast
  next
    case 2
    from at [OF 2(2)] obtain q0 where q0: "foldl (\<lambda>r ch. bindr r (\<lambda>p. plan_channel p ch)) (Inr p) chs = Inr q0" and
      x: "if k \<in> (\<lambda>r. (resourceTypeChannel, chs_ChannelID x, TargetRole, gr_ID r)) ` set (grid_Roles (plan_src p)) \<and>
              b = ChannelsRead
            then (stateOf (plan_start q k) b = StateDeny) = (snd (snd (snd k)) \<in> set (chs_HiddenRoleIDs x))
            else stateOf (plan_start q k) b = stateOf (plan_start q0 k) b" by blast
    show ?case using x snoc.IH(2) [OF _ q0, of k b] 2(1) by (auto split: if_splits)
  }
qed

section \<open>Lemmas: storing a plan\<close>

definition rule_state :: "pset \<times> pset \<Rightarrow> action \<Rightarrow> string" where
  "rule_state r a = (if Has (snd r) a then StateDeny else if Has (fst r) a then StateAllow else [])"

definition named_target :: "grid_key \<Rightarrow> bool" where
  "named_target k \<longleftrightarrow> fst (snd (snd k)) \<in> {TargetRole, TargetPerson}"

lemma stateOf_rule_state: "stateOf ow a = rule_state (ow_Allow ow, ow_Deny ow) a"
  by (simp add: stateOf_def rule_state_def)

lemma key_target_inj: "named_target k \<Longrightarrow> named_target j \<Longrightarrow> key_target k = key_target j \<Longrightarrow> k = j"
  by (cases k; cases j) (auto simp: named_target_def key_target_def target_key_def split: if_splits)

lemma gridRule_key: "named_target (ow_key ow) \<Longrightarrow> key3 (gridRule now ow) = key_target (ow_key ow)"
  by (auto simp: gridRule_def key3_def ow_key_def key_target_def target_key_def named_target_def ruleTarget_def)

lemma gridRule_sets:
  "overwrite_ok ow \<Longrightarrow> parseSet (po_Allow (gridRule now ow)) = ow_Allow ow \<and> parseSet (po_Deny (gridRule now ow)) = ow_Deny ow"
  by (simp add: gridRule_def parseSet_def setJSON_def SetOfStrings_def Actions_def SetOf_id overwrite_ok_def)

lemma plan_writes_ok:
  assumes "plan_ok p"
  shows "ow \<in> set (plan_writes p) \<longleftrightarrow> (ow_key ow, ow) \<in> set (plan_changed p)"
    "ow \<in> set (plan_writes p) \<Longrightarrow> overwrite_ok ow \<and> named_target (ow_key ow)"
    "inj_on (\<lambda>ow. key3 (gridRule now ow)) (set (plan_writes p))" "distinct (plan_writes p)"
proof -
  show mem: "ow \<in> set (plan_writes p) \<longleftrightarrow> (ow_key ow, ow) \<in> set (plan_changed p)" for ow
    using assms by (force simp: plan_writes_def plan_ok_def list_all_iff)
  show ok: "ow \<in> set (plan_writes p) \<Longrightarrow> overwrite_ok ow \<and> named_target (ow_key ow)" for ow
    using assms mem [of ow] by (auto simp: plan_ok_def list_all_iff named_target_def)
  have dist: "distinct (map fst (plan_changed p))" using assms by (simp add: plan_ok_def)
  show "inj_on (\<lambda>ow. key3 (gridRule now ow)) (set (plan_writes p))"
  proof (rule inj_onI)
    fix x y assume xy: "x \<in> set (plan_writes p)" "y \<in> set (plan_writes p)" "key3 (gridRule now x) = key3 (gridRule now y)"
    then have "ow_key x = ow_key y" using ok gridRule_key key_target_inj by metis
    with mem [of x] mem [of y] xy dist show "x = y" by (metis eq_key_imp_eq_value)
  qed
  have "fst z = ow_key (snd z)" if "z \<in> set (plan_changed p)" for z
    using assms that by (auto simp: plan_ok_def list_all_iff)
  then have "inj_on snd (set (plan_changed p))" by (intro inj_onI) (metis prod_eqI)
  with dist [unfolded distinct_map] show "distinct (plan_writes p)" by (simp add: plan_writes_def distinct_map)
qed

lemma row_keys: "row_key r \<in> set (map row_key rs) \<longleftrightarrow> key3 r \<in> key3 ` set rs"
  by (force simp: row_key_eq)

text \<open>The transaction stores each moved rule under its key, whichever of the two statements it goes to.\<close>

lemma repoSaveGrid_at:
  assumes "plan_ok p" "repoSaveGrid now w (plan_writes p) fin ev (g, db) = Inr (g', db')"
  shows "(ow_key ow, ow) \<in> set (plan_changed p) \<Longrightarrow> rule_at db' (key_target (ow_key ow)) = (ow_Allow ow, ow_Deny ow)"
    "named_target k \<Longrightarrow> map_of (plan_changed p) k = None \<Longrightarrow> rule_at db' (key_target k) = rule_at db (key_target k)"
proof -
  let ?full = "\<lambda>ow. length (ow_Allow ow) + length (ow_Deny ow) \<noteq> 0"
  let ?ws = "plan_writes p" and ?key = "\<lambda>ow. key3 (gridRule now ow)"
  let ?kept = "map (gridRule now) (filter ?full ?ws)"
  define rows where "rows = foldl upsert_row (db_overwrites db) ?kept"
  note ok = plan_writes_ok [OF assms(1)]
  have db': "rule_at db' k = (if k \<in> ?key ` {ow \<in> set ?ws. \<not> ?full ow} then ([], []) else row_rule rows k)" for k
  proof -
    have "db_overwrites db' = filter (\<lambda>row. key3 row \<notin> ?key ` {ow \<in> set ?ws. \<not> ?full ow}) rows"
      using assms(2) unfolding repoSaveGrid_def row_keys rows_def
      by (auto simp: Let_def image_image split: if_splits intro!: filter_cong)
    then show ?thesis by (simp only: rule_at_rows row_rule_delete)
  qed
  have "distinct (map key3 ?kept)"
    using ok(3,4) by (auto simp: distinct_map comp_def inj_on_def)
  note rows = row_rule_upserts [OF this, of "db_overwrites db", folded rows_def]
  {
    assume "(ow_key ow, ow) \<in> set (plan_changed p)"
    then have ow: "ow \<in> set ?ws" by (simp add: ok(1))
    note key = gridRule_key [of ow now] and sets = gridRule_sets [of ow now]
    show "rule_at db' (key_target (ow_key ow)) = (ow_Allow ow, ow_Deny ow)"
    proof (cases "?full ow")
      case True
      have "find (\<lambda>new. key3 new = ?key ow) ?kept = Some (gridRule now ow)"
        using True ow ok(3) by (intro find_unique) (auto dest: inj_onD)
      moreover have "?key ow \<notin> ?key ` {ow \<in> set ?ws. \<not> ?full ow}"
        using True ow ok(3) by (auto dest: inj_onD)
      ultimately show ?thesis using db' rows key sets ok(2) [OF ow] by simp
    next
      case False
      then have "?key ow \<in> ?key ` {ow \<in> set ?ws. \<not> ?full ow}" using ow by blast
      then show ?thesis using False db' [of "?key ow"] key ok(2) [OF ow] by simp
    qed
  next
    assume k: "named_target k" "map_of (plan_changed p) k = None"
    have ne: "\<forall>x \<in> set ?ws. ?key x \<noteq> key_target k"
    proof
      fix x assume x: "x \<in> set ?ws"
      with k ok(1) [of x] have "ow_key x \<noteq> k" by (auto simp: map_of_eq_None_iff image_iff)
      then show "?key x \<noteq> key_target k" using k(1) ok(2) [OF x] gridRule_key [of x now] key_target_inj [of k "ow_key x"] by auto
    qed
    then have "key_target k \<notin> ?key ` {ow \<in> set ?ws. \<not> ?full ow}" by (auto simp: image_iff)
    moreover have "find (\<lambda>new. key3 new = key_target k) ?kept = None" using ne by (auto simp: find_None_iff)
    ultimately show "rule_at db' (key_target k) = rule_at db (key_target k)"
      using db' [of "key_target k"] rows [of "key_target k"] by (simp add: rule_at_rows)
  }
qed

section \<open>Lemmas: the source\<close>

definition in_grid :: "grid_tables \<Rightarrow> string \<Rightarrow> grid_key \<Rightarrow> bool" where
  "in_grid g w k \<longleftrightarrow>
     (fst k = resourceTypeProject \<and> list_ex (\<lambda>r. pjr_id r = fst (snd k) \<and> pjr_workspace r = w) (gt_projects g)) \<or>
     (fst k = resourceTypeChannel \<and> list_ex (\<lambda>r. cvr_id r = fst (snd k) \<and> cvr_workspace r = w) (gt_conversations g))"

lemma find_copies:
  assumes "\<And>x. P x \<Longrightarrow> m x \<noteq> []"
  shows "find P (concat (map (\<lambda>x. map (\<lambda>_. x) (m x)) xs)) = find P xs"
proof (induction xs)
  case (Cons x xs)
  have "find P (map (\<lambda>_. x) ys @ zs) = (if P x \<and> ys \<noteq> [] then Some x else find P zs)" for ys :: "'b list" and zs
    by (induction ys) auto
  with Cons assms [of x] show ?case by auto
qed simp

lemma find_filter_id: "(\<And>x. P x \<Longrightarrow> Q x) \<Longrightarrow> find P (filter Q xs) = find P xs"
  by (induction xs) auto

lemma find_case: "find P xs = (case filter P xs of [] \<Rightarrow> None | x # _ \<Rightarrow> Some x)"
  by (induction xs) auto

lemma find_map_some: "find P (map f xs) = map_option f (find (\<lambda>x. P (f x)) xs)"
  by (induction xs) auto

lemma grid_rules_at:
  assumes "in_grid g w k" "named_target k"
  shows "find (\<lambda>row. key3 row = key_target k) (ListAccessGridRules g db w) =
    find (\<lambda>row. key3 row = key_target k) (db_overwrites db)"
proof -
  obtain ty i t ti where k: "k = (ty, i, t, ti)" by (cases k)
  let ?P = "\<lambda>row. key3 row = key_target k"
  have P: "?P row \<Longrightarrow> po_ResourceType row = ty \<and> po_ResourceID row = i" for row
    by (auto simp: k key_target_def key3_def)
  let ?A = "concat (map (\<lambda>po. map (\<lambda>_. po)
         (filter (\<lambda>p. pjr_id p = po_ResourceID po \<and> pjr_workspace p = w) (gt_projects g)))
       (filter (\<lambda>po. po_ResourceType po = resourceTypeProject) (db_overwrites db)))"
  let ?B = "concat (map (\<lambda>po. map (\<lambda>_. po)
         (filter (\<lambda>p. cvr_id p = po_ResourceID po \<and> cvr_workspace p = w) (gt_conversations g)))
       (filter (\<lambda>po. po_ResourceType po = resourceTypeChannel) (db_overwrites db)))"
  have all: "ListAccessGridRules g db w = ?A @ ?B" by (simp add: ListAccessGridRules_def)
  show ?thesis
  proof (cases "ty = resourceTypeProject")
    case True
    have "find ?P ?A = find ?P (db_overwrites db)"
      using assms(1) True P
      by (subst find_copies) (auto simp: k in_grid_def list_ex_iff filter_empty_conv intro!: find_filter_id)
    moreover have "find ?P ?B = None" using True P by (auto simp: find_None_iff)
    ultimately show ?thesis by (simp add: all find_append split: option.splits)
  next
    case False
    then have ty: "ty = resourceTypeChannel" using assms(1) by (auto simp: k in_grid_def)
    have "find ?P ?B = find ?P (db_overwrites db)"
      using assms(1) False P ty
      by (subst find_copies) (auto simp: k in_grid_def list_ex_iff filter_empty_conv intro!: find_filter_id)
    moreover have "find ?P ?A = None" using False P by (auto simp: find_None_iff)
    ultimately show ?thesis by (simp add: all find_append)
  qed
qed

lemma toOverwrite_key:
  assumes "named_target (ty, i, t, ti)"
  shows "(ow_ResourceType (toOverwrite row) = ty \<and> ow_ResourceID (toOverwrite row) = i \<and> ow_Target (toOverwrite row) = t \<and>
    ruleTarget (toOverwrite row) = ti) \<longleftrightarrow> key3 row = key_target (ty, i, t, ti)"
  using assms by (auto simp: named_target_def key_target_def target_key_def key3_def ruleTarget_def toOverwrite_def po_Target_def
      po_UserID_def po_RoleID_def null_text_def split: rule_target.splits)

lemma src_rule_at:
  assumes "repoGrid g db w = Inr src" "in_grid g w (ty, i, t, ti)" "named_target (ty, i, t, ti)"
  shows "map_option (\<lambda>ow. (ow_Allow ow, ow_Deny ow)) (src_rule src ty i t ti) = get_rule db (key_target (ty, i, t, ti))"
proof -
  have "gsrc_Rules src = map toOverwrite (ListAccessGridRules g db w)"
    using assms(1) by (auto simp: repoGrid_def toOverwrites_def split: option.splits)
  then have "src_rule src ty i t ti = map_option toOverwrite (find (\<lambda>row. key3 row = key_target (ty, i, t, ti)) (db_overwrites db))"
    unfolding src_rule_def by (simp only: find_map_some toOverwrite_key [OF assms(3)] grid_rules_at [OF assms(2,3)])
  then show ?thesis by (simp add: get_rule_rows find_case toOverwrite_def split: list.splits)
qed

lemma plan_start_at:
  assumes "repoGrid g db w = Inr src" "in_grid g w k" "named_target k"
  shows "stateOf (plan_start (newPlan src) k) b = rule_state (rule_at db (key_target k)) b"
proof -
  obtain ty i t ti where k: "k = (ty, i, t, ti)" by (cases k)
  have "map_option (\<lambda>ow. (ow_Allow ow, ow_Deny ow)) (src_rule src ty i t ti) = get_rule db (key_target k)"
    unfolding k using assms by (intro src_rule_at) (auto simp: k)
  then show ?thesis
    by (cases "src_rule src ty i t ti")
       (auto simp: k plan_start_def newPlan_def stateOf_rule_state rule_at_def split: option.splits)
qed

lemma newPlan_ok:
  assumes "repoGrid g db w = Inr src"
  shows "plan_ok (newPlan src)"
  using assms by (auto simp: plan_ok_def newPlan_def repoGrid_def toOverwrites_def list_all_iff overwrite_ok_def toOverwrite_def
      parseSet_def SetOfStrings_def split: option.splits)

text \<open>The keys a plan moves are those of its rows.\<close>

definition plan_keys :: "gridPlan \<Rightarrow> grid_key set" where
  "plan_keys p = fst ` set (plan_changed p)"

lemma plan_keys_new [simp]: "plan_keys (newPlan src) = {}"
  by (simp add: plan_keys_def newPlan_def)

lemma plan_set_keys: "plan_keys (plan_set p k a st on) \<subseteq> insert k (plan_keys p)"
  by (auto simp: plan_keys_def plan_set_def Let_def dom_update split: prod.splits if_splits)

lemma plan_sets_keys: "plan_keys (foldl (\<lambda>p x. plan_set p (K x) a st (On x)) p xs) \<subseteq> plan_keys p \<union> K ` set xs"
proof (induction xs arbitrary: p)
  case (Cons x xs)
  show ?case using Cons [of "plan_set p (K x) a st (On x)"] plan_set_keys [of p "K x" a st "On x"] by auto
qed simp

lemma plan_project_keys:
  assumes "plan_project p inp managed = Inr q"
  shows "plan_keys q \<subseteq> plan_keys p \<union> {k. fst k = resourceTypeProject \<and> fst (snd k) = ps_ProjectID inp}"
proof -
  let ?K = "\<lambda>t i. (resourceTypeProject, ps_ProjectID inp, t, i)"
  let ?p1 = "foldl (\<lambda>p r. plan_set p (?K TargetRole (gr_ID r)) ProjectsOpen StateAllow (gr_ID r \<in> set (ps_RoleIDs inp)))
      p (grid_Roles (plan_src p))"
  have "q = foldl (\<lambda>p i. plan_set p (?K TargetPerson i) ProjectsOpen StateAllow (i \<in> set (ps_UserIDs inp))) ?p1
      (snd (listed (plan_src p) (ps_ProjectID inp)) @ ps_UserIDs inp)"
    using assms by (auto simp: plan_project_def bindr_Inr_iff Let_def split: if_splits option.splits)
  then have "plan_keys q \<subseteq> plan_keys ?p1 \<union> ?K TargetPerson ` set (snd (listed (plan_src p) (ps_ProjectID inp)) @ ps_UserIDs inp)"
    by (simp only: plan_sets_keys)
  moreover have "plan_keys ?p1 \<subseteq> plan_keys p \<union> (\<lambda>r. ?K TargetRole (gr_ID r)) ` set (grid_Roles (plan_src p))"
    by (rule plan_sets_keys)
  moreover have "?K TargetPerson ` X \<union> (\<lambda>r. ?K TargetRole (gr_ID r)) ` Y \<subseteq>
      {k. fst k = resourceTypeProject \<and> fst (snd k) = ps_ProjectID inp}" for X Y by auto
  ultimately show ?thesis by blast
qed

lemma plan_channel_keys:
  assumes "plan_channel p inp = Inr q"
  shows "plan_keys q \<subseteq> plan_keys p \<union> {k. fst k = resourceTypeChannel \<and> fst (snd k) \<in> set (map gc_ID (grid_Channels (plan_src p)))}"
proof -
  have "q = foldl (\<lambda>p r. plan_set p (resourceTypeChannel, chs_ChannelID inp, TargetRole, gr_ID r) ChannelsRead StateDeny
                            (gr_ID r \<in> set (chs_HiddenRoleIDs inp))) p (grid_Roles (plan_src p))"
    "chs_ChannelID inp \<in> set (map gc_ID (grid_Channels (plan_src p)))"
    using assms by (auto simp: plan_channel_def bindr_Inr_iff split: if_splits)
  then have "plan_keys q \<subseteq> plan_keys p \<union> (\<lambda>r. (resourceTypeChannel, chs_ChannelID inp, TargetRole, gr_ID r)) ` set (grid_Roles (plan_src p))"
    by (simp only: plan_sets_keys)
  with \<open>chs_ChannelID inp \<in> _\<close> show ?thesis by auto
qed

lemma plan_projects_keys:
  "foldl (\<lambda>r pr. bindr r (\<lambda>p. plan_project p pr managed)) (Inr p) prs = Inr q \<Longrightarrow>
   plan_keys q \<subseteq> plan_keys p \<union> {k. fst k = resourceTypeProject \<and> fst (snd k) \<in> set (map ps_ProjectID prs)}"
proof (induction prs arbitrary: q rule: rev_induct)
  case (snoc x prs)
  then obtain q0 where q0: "foldl (\<lambda>r pr. bindr r (\<lambda>p. plan_project p pr managed)) (Inr p) prs = Inr q0"
    "plan_project q0 x managed = Inr q" by (auto simp: bindr_Inr_iff)
  show ?case using snoc.IH [OF q0(1)] plan_project_keys [OF q0(2)] by auto
qed simp

lemma plan_channels_keys:
  assumes "plan_ok p" "foldl (\<lambda>r ch. bindr r (\<lambda>p. plan_channel p ch)) (Inr p) chs = Inr q"
  shows "plan_keys q \<subseteq> plan_keys p \<union> {k. fst k = resourceTypeChannel \<and> fst (snd k) \<in> set (map gc_ID (grid_Channels (plan_src p)))}"
  using assms(2)
proof (induction chs arbitrary: q rule: rev_induct)
  case (snoc x chs)
  then obtain q0 where q0: "foldl (\<lambda>r ch. bindr r (\<lambda>p. plan_channel p ch)) (Inr p) chs = Inr q0"
    "plan_channel q0 x = Inr q" by (auto simp: bindr_Inr_iff)
  have "plan_src q0 = plan_src p" using plan_channels_at(1) [OF assms(1) q0(1)] by simp
  then show ?case using snoc.IH [OF q0(1)] plan_channel_keys [OF q0(2)] by auto
qed simp

section \<open>Lemmas: a save\<close>

lemma gridFor_Inr:
  assumes "gridFor s c u w = Inr (src, managed, owner)" "svc_repo s = AccessRepo (repoGrid g db) db"
  shows "repoGrid g db w = Inr src" "ProjectsWith s c u w ProjectsAccess = Inr managed" "owner \<longleftrightarrow> ws_owner (layers s c u w [])"
  using assms by (auto simp: gridFor_def Let_def bindr_Inr_iff AccessRepo_def split: if_splits)

lemma SaveGrid_Inr:
  assumes "SaveGrid now s c u w inp (g, db) = Inr (g', db')" "svc_repo s = AccessRepo (repoGrid g db) db"
  obtains src managed p q where "repoGrid g db w = Inr src" "ProjectsWith s c u w ProjectsAccess = Inr managed"
    "save_Channels inp \<noteq> [] \<Longrightarrow> ws_owner (layers s c u w [])"
    "foldl (\<lambda>r pr. bindr r (\<lambda>p. plan_project p pr managed)) (Inr (newPlan src)) (save_Projects inp) = Inr p"
    "foldl (\<lambda>r ch. bindr r (\<lambda>p. plan_channel p ch)) (Inr p) (save_Channels inp) = Inr q" "plan_ok p" "plan_ok q"
    "\<And>k. named_target k \<Longrightarrow> in_grid g w k \<Longrightarrow> rule_state (rule_at db' (key_target k)) b = stateOf (plan_start q k) b"
    "\<And>k. named_target k \<Longrightarrow> \<not> in_grid g w k \<Longrightarrow> map_of (plan_changed q) k = None \<Longrightarrow>
       rule_at db' (key_target k) = rule_at db (key_target k)"
proof -
  obtain src managed owner where gf0: "gridFor s c u w = Inr (src, managed, owner)"
    using assms(1) by (auto simp: SaveGrid_def bindr_Inr_iff)
  have own: "save_Channels inp \<noteq> [] \<Longrightarrow> owner"
    using assms(1) gf0 by (auto simp: SaveGrid_def split: if_splits)
  obtain q where plan: "SaveGrid_plan src managed inp = Inr q"
    using assms(1) gf0 by (cases "SaveGrid_plan src managed inp") (auto simp: SaveGrid_def split: if_splits)
  have st: "(plan_changed q = [] \<and> db' = db) \<or> (\<exists>fin ev. repoSaveGrid now w (plan_writes q) fin ev (g, db) = Inr (g', db'))"
    using assms(1) gf0 plan by (auto simp: SaveGrid_def Let_def split: if_splits)
  note gf = gridFor_Inr [OF gf0 assms(2)]
  have err: "foldl (\<lambda>r ch. bindr r (\<lambda>p. plan_channel p ch)) (Inl e) chs = Inl e" for e chs by (induction chs) auto
  from plan obtain p where p: "foldl (\<lambda>r pr. bindr r (\<lambda>p. plan_project p pr managed)) (Inr (newPlan src)) (save_Projects inp) = Inr p"
    "foldl (\<lambda>r ch. bindr r (\<lambda>p. plan_channel p ch)) (Inr p) (save_Channels inp) = Inr q"
    unfolding SaveGrid_plan_def
    by (cases "foldl (\<lambda>r pr. bindr r (\<lambda>p. plan_project p pr managed)) (Inr (newPlan src)) (save_Projects inp)") (auto simp: err)
  note okp = plan_projects_at(1) [OF newPlan_ok [OF gf(1)] p(1)]
  note okq = plan_channels_at(1) [OF conjunct1 [OF okp] p(2)]
  have src: "plan_src q = src" using okp okq by (simp add: newPlan_def)
  have keep: "rule_at db' (key_target k) = rule_at db (key_target k)" if "named_target k" "map_of (plan_changed q) k = None" for k
    using st repoSaveGrid_at(2) [OF conjunct1 [OF okq] _ that] by auto
  have "rule_state (rule_at db' (key_target k)) b = stateOf (plan_start q k) b" if k: "named_target k" "in_grid g w k" for k
  proof (cases "map_of (plan_changed q) k")
    case None
    then have "plan_start q k = plan_start (newPlan src) k" by (cases k) (simp add: plan_start_def newPlan_def src)
    then show ?thesis using keep [OF k(1) None] plan_start_at [OF gf(1) k(2,1)] by simp
  next
    case (Some ow)
    then have "ow_key ow = k" "(ow_key ow, ow) \<in> set (plan_changed q)"
      using okq map_of_SomeD [OF Some] by (auto simp: plan_ok_def list_all_iff)
    then have "rule_at db' (key_target k) = (ow_Allow ow, ow_Deny ow)"
      using st repoSaveGrid_at(1) [OF conjunct1 [OF okq], of now w _ _ g db g' db' ow] by auto
    then show ?thesis using Some by (simp add: plan_start_def stateOf_rule_state)
  qed
  with gf own p okp okq keep show thesis by (intro that) auto
qed


lemma grid_channels_in:
  assumes "repoGrid g db w = Inr src" "i \<in> set (map gc_ID (grid_Channels src))"
  shows "in_grid g w (resourceTypeChannel, i, t, ti)"
proof -
  from assms obtain row where "row \<in> set (gt_conversations g)" "cvr_workspace row = w" "cvr_id row = i"
    by (auto simp: repoGrid_def ListAccessGridChannels_def split: option.splits)
  then show ?thesis by (auto simp: in_grid_def list_ex_iff)
qed

lemma key_target_of: "\<exists>k. named_target k \<and> key_target k = (ty, i, t) \<and> fst k = ty \<and> fst (snd k) = i"
proof (cases t)
  case (for_person u)
  then show ?thesis by (intro exI [of _ "(ty, i, TargetPerson, u)"]) (auto simp: named_target_def key_target_def target_key_def)
next
  case (for_role r)
  then show ?thesis by (intro exI [of _ "(ty, i, TargetRole, r)"]) (auto simp: named_target_def key_target_def target_key_def)
qed

section \<open>Properties\<close>


lemma newPlan_unlisted:
  assumes "v \<notin> set (snd (listed src pid))"
  shows "stateOf (plan_start (newPlan src) (resourceTypeProject, pid, TargetPerson, v)) ProjectsOpen \<noteq> StateAllow"
proof (cases "src_rule src resourceTypeProject pid TargetPerson v")
  case None
  then show ?thesis by (simp add: plan_start_def newPlan_def stateOf_def)
next
  case (Some ow)
  then have "ow \<in> set (gsrc_Rules src)" "ow_ResourceType ow = resourceTypeProject" "ow_ResourceID ow = pid"
    "ow_Target ow = TargetPerson" "ow_UserID ow = v"
    by (auto simp: src_rule_def find_Some_iff ruleTarget_def)
  then have "stateOf ow ProjectsOpen \<noteq> StateAllow" using assms by (auto simp: listed_def)
  then show ?thesis using Some by (simp add: plan_start_def newPlan_def)
qed

text \<open>A key of one project's row is in no other row of the page.\<close>

lemma project_rows_apart:
  assumes "distinct (map ps_ProjectID prs)" "pr \<in> set prs" "pr' \<in> set prs" "k \<notin> project_row_keys src pr"
    and "fst (snd k) = ps_ProjectID pr"
  shows "k \<notin> project_row_keys src pr'"
proof
  assume k: "k \<in> project_row_keys src pr'"
  then have "ps_ProjectID pr' = ps_ProjectID pr" using project_row_keys_id [OF k] assms(5) by simp
  then have "pr' = pr" by (rule inj_onD [OF conjunct2 [OF assms(1) [unfolded distinct_map]] _ assms(3,2)])
  with k assms(4) show False by simp
qed

text \<open>C22. A save of the Access page makes each project it names list exactly whom it names: when a save naming
  each project once ends with no error, a person is let into a named project of the workspace by a rule
  naming them exactly when the save lists them, and a role of the workspace other than the Owner's by its rule
  exactly when the save lists the role.\<close>

theorem SaveGrid_exact:
  assumes "svc_repo s = AccessRepo (repoGrid g db) db" "SaveGrid now s c u w inp (g, db) = Inr (g', db')"
    "distinct (map ps_ProjectID (save_Projects inp))" "pr \<in> set (save_Projects inp)"
    "list_ex (\<lambda>r. pjr_id r = ps_ProjectID pr \<and> pjr_workspace r = w) (gt_projects g)"
  shows "(rule_state (rule_at db' (resourceTypeProject, ps_ProjectID pr, for_person v)) ProjectsOpen = StateAllow \<longleftrightarrow>
      v \<in> set (ps_UserIDs pr)) \<and>
    (if list_ex (\<lambda>r. rlr_id r = ro \<and> rlr_workspace r = w \<and> \<not> rlr_is_owner r) (gt_roles g)
     then rule_state (rule_at db' (resourceTypeProject, ps_ProjectID pr, for_role ro)) ProjectsOpen = StateAllow \<longleftrightarrow>
       ro \<in> set (ps_RoleIDs pr)
     else True)"
proof -
  obtain src managed p q where S: "repoGrid g db w = Inr src"
    "foldl (\<lambda>r pr. bindr r (\<lambda>p. plan_project p pr managed)) (Inr (newPlan src)) (save_Projects inp) = Inr p"
    "foldl (\<lambda>r ch. bindr r (\<lambda>p. plan_channel p ch)) (Inr p) (save_Channels inp) = Inr q" "plan_ok p"
    "\<And>k. named_target k \<Longrightarrow> in_grid g w k \<Longrightarrow>
       rule_state (rule_at db' (key_target k)) ProjectsOpen = stateOf (plan_start q k) ProjectsOpen"
    using SaveGrid_Inr [OF assms(2,1)] by metis
  let ?K = "\<lambda>t i. (resourceTypeProject, ps_ProjectID pr, t, i)"
  note okn = newPlan_ok [OF S(1)]
  have at: "rule_state (rule_at db' (key_target (?K t i))) ProjectsOpen = stateOf (plan_start p (?K t i)) ProjectsOpen"
    if "t \<in> {TargetRole, TargetPerson}" for t i
    using that S(5) [of "?K t i"] assms(5) plan_channels_at(2) [OF S(4,3), of "?K t i" ProjectsOpen]
    by (auto simp: named_target_def in_grid_def)
  have row: "stateOf (plan_start p (?K t i)) ProjectsOpen = StateAllow \<longleftrightarrow> named_in pr (?K t i)"
    if "?K t i \<in> project_row_keys src pr" for t i
    using plan_projects_at(3) [OF okn S(2) assms(3,4), of "?K t i"] that by (simp add: newPlan_def)
  have "stateOf (plan_start p (?K TargetPerson v)) ProjectsOpen = StateAllow \<longleftrightarrow> v \<in> set (ps_UserIDs pr)"
  proof (cases "?K TargetPerson v \<in> project_row_keys src pr")
    case False
    then have v: "v \<notin> set (snd (listed src (ps_ProjectID pr)))" "v \<notin> set (ps_UserIDs pr)" by (auto simp: project_row_keys_def)
    have "?K TargetPerson v \<notin> project_row_keys src pr'" if "pr' \<in> set (save_Projects inp)" for pr'
      using project_rows_apart [OF assms(3,4) that False] by simp
    then have "stateOf (plan_start p (?K TargetPerson v)) ProjectsOpen =
        stateOf (plan_start (newPlan src) (?K TargetPerson v)) ProjectsOpen"
      using plan_projects_at(2) [OF okn S(2), of "?K TargetPerson v" ProjectsOpen] by (auto simp: newPlan_def)
    moreover note newPlan_unlisted [OF v(1)]
    ultimately show ?thesis using v(2) by simp
  qed (simp add: row named_in_def)
  moreover have "stateOf (plan_start p (?K TargetRole ro)) ProjectsOpen = StateAllow \<longleftrightarrow> ro \<in> set (ps_RoleIDs pr)"
    if "list_ex (\<lambda>r. rlr_id r = ro \<and> rlr_workspace r = w \<and> \<not> rlr_is_owner r) (gt_roles g)"
  proof -
    have "ro \<in> set (map gr_ID (grid_Roles src))"
      using S(1) that by (auto simp: repoGrid_def ListAccessGridRoles_def list_ex_iff image_image split: option.splits)
    then have "?K TargetRole ro \<in> project_row_keys src pr" by (auto simp: project_row_keys_def)
    then show ?thesis by (simp add: row named_in_def)
  qed
  ultimately show ?thesis using at [of TargetPerson v] at [of TargetRole ro] by (simp add: key_target_def target_key_def)
qed

definition example_grid :: grid_tables where
  "example_grid =
     \<lparr>gt_workspaces = [\<lparr>wsr_id = ''w1'', wsr_finished = False, wsr_by = [], wsr_at = 0\<rparr>],
      gt_projects = [\<lparr>pjr_id = ''p1'', pjr_workspace = ''w1'', pjr_name = ''P'', pjr_prefix = ''P'', pjr_position = 0\<rparr>],
      gt_roles = [\<lparr>rlr_id = ''r1'', rlr_workspace = ''w1'', rlr_name = ''R'', rlr_is_owner = False, rlr_created = 0\<rparr>],
      gt_conversations = [], gt_logins = []\<rparr>"

definition example_save :: GridSave where
  "example_save = \<lparr>save_Projects = [\<lparr>ps_ProjectID = ''p1'', ps_RoleIDs = [''r1''], ps_UserIDs = [''bob'']\<rparr>],
     save_Channels = [], save_Finish = True\<rparr>"

definition example_grid_service :: Service where
  "example_grid_service = (example_service example_db)
     \<lparr>svc_repo := AccessRepo (repoGrid example_grid example_db) example_db,
      svc_roles := Some (\<lambda>w u. Inr (RolesHeld [example_owner]))\<rparr>"

lemma example_saved:
  "\<exists>g' db'. SaveGrid 0 example_grid_service (person_ctx ''ann'') ''ann'' ''w1'' example_save (example_grid, example_db) = Inr (g', db')"
proof -
  let ?s = example_grid_service
  have owner: "ws_owner (layers ?s (person_ctx ''ann'') ''ann'' ''w1'' p)" "ws_member (layers ?s (person_ctx ''ann'') ''ann'' ''w1'' p)" for p
    by (simp_all add: member_info_def memberRole_def viewedWorkspace_def person_ctx_def example_grid_service_def RolesHeld_def
        example_owner_def)
  have "ProjectsWith ?s (person_ctx ''ann'') ''ann'' ''w1'' ProjectsAccess =
      Inr (filter (\<lambda>p. fst (check ?s (person_ctx ''ann'') ''ann'' ''w1'' p ProjectsAccess [] [])) [''p1'', ''p2''])"
    by (rule tables.ProjectsWith_single [where sc = example_scopes])
       (simp_all add: example_grid_service_def example_service_def NewService_def example_scopes_def)
  also have "\<dots> = Inr [''p1'', ''p2'']" using owner by (simp add: check_def decide_def)
  finally have managed: "ProjectsWith ?s (person_ctx ''ann'') ''ann'' ''w1'' ProjectsAccess = Inr [''p1'', ''p2'']" .
  obtain src where src: "repoGrid example_grid example_db ''w1'' = Inr src"
    by (simp add: repoGrid_def example_grid_def)
  have "case repoGrid example_grid example_db ''w1'' of Inl _ \<Rightarrow> False | Inr src \<Rightarrow>
      (case SaveGrid_plan src [''p1'', ''p2''] example_save of Inl _ \<Rightarrow> False | Inr q \<Rightarrow>
        list_all (\<lambda>ow. foreign_ok example_db (gridRule 0 ow)) (plan_writes q))"
    by code_simp
  then obtain q where q: "SaveGrid_plan src [''p1'', ''p2''] example_save = Inr q"
    "list_all (\<lambda>ow. foreign_ok example_db (gridRule 0 ow)) (plan_writes q)"
    by (auto simp: src split: sum.splits)
  have "\<exists>g' db'. repoSaveGrid 0 ''w1'' (plan_writes q) fin ev (example_grid, example_db) = Inr (g', db')" for fin ev
    using q(2) by (auto simp: repoSaveGrid_def Let_def list_all_iff)
  moreover have "gridFor ?s (person_ctx ''ann'') ''ann'' ''w1'' = Inr (src, [''p1'', ''p2''], True)"
    using owner src managed by (simp add: gridFor_def Let_def) (simp add: example_grid_service_def AccessRepo_def)
  ultimately show ?thesis using q(1) by (auto simp: SaveGrid_def Let_def)
qed

theorem SaveGrid_exact_witness:
  "\<exists>g' db'. SaveGrid 0 example_grid_service (person_ctx ''ann'') ''ann'' ''w1'' example_save (example_grid, example_db) = Inr (g', db') \<and>
     rule_state (rule_at db' (resourceTypeProject, ''p1'', for_person ''bob'')) ProjectsOpen = StateAllow"
proof -
  obtain g' db' where sv: "SaveGrid 0 example_grid_service (person_ctx ''ann'') ''ann'' ''w1'' example_save (example_grid, example_db) =
    Inr (g', db')" using example_saved by blast
  have "svc_repo example_grid_service = AccessRepo (repoGrid example_grid example_db) example_db"
    by (simp add: example_grid_service_def)
  from SaveGrid_exact [OF this sv, of "\<lparr>ps_ProjectID = ''p1'', ps_RoleIDs = [''r1''], ps_UserIDs = [''bob'']\<rparr>" "''bob''"] sv
  show ?thesis by (auto simp: example_save_def example_grid_def)
qed


end
