(* ===== verification/Access_Memo.thy ===== *)
theory Access_Memo
  imports Nexul_Prelude
begin

text \<open>
  The memo of a request's access reads (\<^verbatim>\<open>internal/access/memo.go\<close>), the broadcast that clears it
  (\<^verbatim>\<open>platform/wake/wake.go\<close>) and the write transactions that announce themselves on it
  (\<^verbatim>\<open>platform/storage/serializer.go\<close>).  A channel is its number, a closed channel one that receives at once;
  the memo carried by a context is an option, and the keys and values are type parameters.  The critical
  sections under a mutex are single steps, and the last part runs them interleaved.  The definitions of the
  access service read without a memo; the theorems here say what a memo in between may answer.
\<close>

section \<open>The broadcast\<close>

type_synonym chan = nat

record Broadcast =
  bc_ch :: "chan option"
  bc_made :: nat
  bc_closed :: "chan list"

definition zero_Broadcast :: Broadcast where
  "zero_Broadcast = \<lparr>bc_ch = None, bc_made = 0, bc_closed = []\<rparr>"

definition Next :: "Broadcast \<Rightarrow> Broadcast \<times> chan" where
  "Next b =
     (case bc_ch b of
        None \<Rightarrow> (b\<lparr>bc_ch := Some (bc_made b), bc_made := bc_made b + 1\<rparr>, bc_made b)
      | Some ch \<Rightarrow> (b, ch))"

definition Notify :: "Broadcast \<Rightarrow> Broadcast" where
  "Notify b =
     (case bc_ch b of
        None \<Rightarrow> b
      | Some ch \<Rightarrow> b\<lparr>bc_closed := ch # bc_closed b, bc_ch := None\<rparr>)"

definition is_closed :: "Broadcast \<Rightarrow> chan \<Rightarrow> bool" where
  "is_closed b ch \<longleftrightarrow> ch \<in> set (bc_closed b)"

section \<open>Write transactions\<close>

definition WithTx ::
  "err option \<Rightarrow> err option \<Rightarrow> ('db \<Rightarrow> 'db res) \<Rightarrow> 'db \<times> Broadcast \<Rightarrow> ('db \<times> Broadcast) \<times> unit res" where
  "WithTx begins commits fn st =
     (case begins of
        Some e \<Rightarrow> (st, Inl (wrapf ''begin tx'' e))
      | None \<Rightarrow>
          (case fn (fst st) of
             Inl e \<Rightarrow> (st, Inl e)
           | Inr db' \<Rightarrow>
               (case commits of
                  Some e \<Rightarrow> (st, Inl (wrapf ''commit tx'' e))
                | None \<Rightarrow> ((db', Notify (snd st)), Inr ()))))"

section \<open>The memo of a request\<close>

record ('k, 'v) Memo =
  memo_commits :: bool
  memo_fence :: "chan option"
  memo_reads :: "('k \<times> 'v res) list"

definition NewMemo :: "bool \<Rightarrow> Broadcast \<Rightarrow> Broadcast \<times> ('k, 'v) Memo" where
  "NewMemo wired b =
     (if wired
      then let (b', ch) = Next b in (b', \<lparr>memo_commits = True, memo_fence = Some ch, memo_reads = []\<rparr>)
      else (b, \<lparr>memo_commits = False, memo_fence = None, memo_reads = []\<rparr>))"

definition memoized :: "bool \<Rightarrow> Broadcast \<Rightarrow> ('k, 'v) Memo option \<Rightarrow> Broadcast \<times> ('k, 'v) Memo" where
  "memoized wired b carried = (case carried of Some m \<Rightarrow> (b, m) | None \<Rightarrow> NewMemo wired b)"

definition memo_get ::
  "Broadcast \<Rightarrow> ('k, 'v) Memo \<Rightarrow> 'k \<Rightarrow> (Broadcast \<times> ('k, 'v) Memo) \<times> chan option \<times> 'v res option" where
  "memo_get b m key =
     (let (b, m) =
        (case memo_fence m of
           None \<Rightarrow> (b, m)
         | Some ch \<Rightarrow>
             if is_closed b ch
             then let (b', ch') = Next b in (b', m\<lparr>memo_fence := Some ch', memo_reads := []\<rparr>)
             else (b, m))
      in ((b, m), memo_fence m, map_of (memo_reads m) key))"

definition memo_put :: "('k, 'v) Memo \<Rightarrow> chan option \<Rightarrow> 'k \<Rightarrow> 'v res \<Rightarrow> ('k, 'v) Memo" where
  "memo_put m fence key r =
     (if (case r of Inl e \<Rightarrow> \<not> errors_is e ErrNotFound | Inr _ \<Rightarrow> False) then m
      else if fence = memo_fence m then m\<lparr>memo_reads := (key, r) # memo_reads m\<rparr>
      else m)"

definition remember ::
  "Broadcast \<Rightarrow> ('k, 'v) Memo option \<Rightarrow> 'k \<Rightarrow> 'v res \<Rightarrow> (Broadcast \<times> ('k, 'v) Memo option) \<times> 'v res" where
  "remember b carried key read =
     (case carried of
        None \<Rightarrow> ((b, None), read)
      | Some m \<Rightarrow>
          let ((b, m), fence, r) = memo_get b m key
          in (case r of
                Some r \<Rightarrow> ((b, Some m), r)
              | None \<Rightarrow> ((b, Some (memo_put m fence key read)), read)))"

text \<open>\<open>rememberEach\<close>: the loop that splits the ids into answered and missing, and the loop that keeps what was read.\<close>

fun rememberEach_split ::
  "Broadcast \<Rightarrow> ('k, 'v) Memo \<Rightarrow> (string \<Rightarrow> 'k) \<Rightarrow> string list \<Rightarrow> chan option \<Rightarrow>
   (Broadcast \<times> ('k, 'v) Memo) \<times> chan option \<times> (string \<times> 'v) list \<times> string list" where
  "rememberEach_split b m key [] fence = ((b, m), fence, [], [])"
| "rememberEach_split b m key (i # is) fence =
     (let ((b, m), f, r) = memo_get b m (key i);
          (st, f', out, missing) = rememberEach_split b m key is f
      in (st, f', (case r of Some (Inr v) \<Rightarrow> (i, v) # out | _ \<Rightarrow> out),
          (case r of None \<Rightarrow> i # missing | Some _ \<Rightarrow> missing)))"

definition rememberEach ::
  "Broadcast \<Rightarrow> ('k, 'v) Memo option \<Rightarrow> string list \<Rightarrow> (string \<Rightarrow> 'k) \<Rightarrow> (string list \<Rightarrow> (string \<times> 'v) list res) \<Rightarrow>
   (Broadcast \<times> ('k, 'v) Memo option) \<times> (string \<times> 'v) list res" where
  "rememberEach b carried is key read =
     (case carried of
        None \<Rightarrow> ((b, None), read is)
      | Some m \<Rightarrow>
          let ((b, m), fence, out, missing) = rememberEach_split b m key is None
          in if missing = [] then ((b, Some m), Inr out)
             else (case read missing of
                     Inl e \<Rightarrow> ((b, Some m), Inl e)
                   | Inr got \<Rightarrow>
                       ((b, Some (foldl (\<lambda>m i. memo_put m fence (key i)
                             (case map_of got i of None \<Rightarrow> Inl (sentinel_err ErrNotFound) | Some v \<Rightarrow> Inr v)) m missing)),
                        Inr (filter (\<lambda>p. fst p \<in> set missing) got @ out))))"


section \<open>The interface of a broadcast\<close>

datatype bc_op = NextOp | NotifyOp

locale broadcast =
  fixes inv :: "'b \<Rightarrow> bool"
    and issued closed :: "'b \<Rightarrow> 'c \<Rightarrow> bool"
    and next_ch :: "'b \<Rightarrow> 'b \<times> 'c"
    and notify :: "'b \<Rightarrow> 'b"
  assumes next_law: "inv b \<Longrightarrow> next_ch b = (b', ch) \<Longrightarrow> inv b' \<and> issued b' ch \<and> \<not> closed b' ch"
    and next_keeps: "inv b \<Longrightarrow> next_ch b = (b', ch) \<Longrightarrow> issued b d \<Longrightarrow> issued b' d \<and> closed b' d = closed b d"
    and notify_law: "inv b \<Longrightarrow> inv (notify b)"
    and notify_closes: "inv b \<Longrightarrow> issued b d \<Longrightarrow> issued (notify b) d \<and> closed (notify b) d"
begin

fun run :: "'b \<Rightarrow> bc_op list \<Rightarrow> 'b" where
  "run b [] = b"
| "run b (NextOp # ops) = run (fst (next_ch b)) ops"
| "run b (NotifyOp # ops) = run (notify b) ops"

lemma run_closed:
  "inv b \<Longrightarrow> issued b d \<Longrightarrow> closed (run b ops) d \<longleftrightarrow> closed b d \<or> NotifyOp \<in> set ops"
proof (induction b ops rule: run.induct)
  case (2 b ops)
  obtain b' ch where "next_ch b = (b', ch)" by (cases "next_ch b")
  with 2 next_law [of b b' ch] next_keeps [of b b' ch d] show ?case by auto
next
  case (3 b ops)
  with notify_law [of b] notify_closes [of b d] show ?case by auto
qed simp

lemma no_lost_wakeup:
  "inv b \<Longrightarrow> next_ch b = (b', ch) \<Longrightarrow> closed (run b' ops) ch \<longleftrightarrow> NotifyOp \<in> set ops"
  using next_law [of b b' ch] run_closed [of b' ch ops] by auto

end

definition bc_ok :: "Broadcast \<Rightarrow> bool" where
  "bc_ok b \<longleftrightarrow>
     (case bc_ch b of None \<Rightarrow> True | Some ch \<Rightarrow> ch < bc_made b \<and> ch \<notin> set (bc_closed b)) \<and>
     (\<forall>ch < bc_made b. ch \<in> set (bc_closed b) \<or> bc_ch b = Some ch) \<and> (\<forall>ch \<in> set (bc_closed b). ch < bc_made b)"

definition bc_issued :: "Broadcast \<Rightarrow> chan \<Rightarrow> bool" where
  "bc_issued b ch \<longleftrightarrow> ch < bc_made b"

lemma bc_ok_zero [simp]: "bc_ok zero_Broadcast"
  by (simp add: bc_ok_def zero_Broadcast_def)

interpretation bc: broadcast bc_ok bc_issued is_closed Next Notify
  by unfold_locales (auto simp: bc_ok_def bc_issued_def is_closed_def Next_def Notify_def less_Suc_eq split: option.splits)

section \<open>Requests beside writers\<close>

text \<open>One memo shared by the goroutines of a request, beside writers that commit and then announce.  A goroutine
  inside \<open>remember\<close> has missed under a fence, then has read, then keeps the answer; every commit makes a new
  version of the database, and \<open>w_announced\<close> is the version current at the last \<open>Notify\<close>.\<close>

datatype ('k, 'v) call = Idle | Missed 'k "chan option" | HasRead 'k "chan option" "'v res"

record ('d, 'k, 'v) world =
  w_versions :: "'d list"
  w_announced :: nat
  w_bc :: Broadcast
  w_memo :: "('k, 'v) Memo"
  w_calls :: "nat \<Rightarrow> ('k, 'v) call"

definition version :: "('d, 'k, 'v) world \<Rightarrow> nat" where
  "version w = length (w_versions w) - 1"

inductive memo_step :: "('d \<Rightarrow> 'k \<Rightarrow> 'v res) \<Rightarrow> ('d, 'k, 'v) world \<Rightarrow> ('d, 'k, 'v) world \<Rightarrow> bool" for R where
  commit: "memo_step R w (w\<lparr>w_versions := w_versions w @ [db]\<rparr>)"
| announce: "memo_step R w (w\<lparr>w_bc := Notify (w_bc w), w_announced := version w\<rparr>)"
| lookup: "w_calls w t = Idle \<Longrightarrow> memo_get (w_bc w) (w_memo w) k = ((b, m), fence, r) \<Longrightarrow>
    memo_step R w (w\<lparr>w_bc := b, w_memo := m,
      w_calls := (w_calls w)(t := (case r of None \<Rightarrow> Missed k fence | Some _ \<Rightarrow> Idle))\<rparr>)"
| read: "w_calls w t = Missed k fence \<Longrightarrow>
    memo_step R w (w\<lparr>w_calls := (w_calls w)(t := HasRead k fence (R (w_versions w ! version w) k))\<rparr>)"
| keep: "w_calls w t = HasRead k fence r \<Longrightarrow>
    memo_step R w (w\<lparr>w_memo := memo_put (w_memo w) fence k r, w_calls := (w_calls w)(t := Idle)\<rparr>)"

definition memo_start :: "'d \<Rightarrow> Broadcast \<Rightarrow> ('d, 'k, 'v) world" where
  "memo_start db b =
     (let (b', m) = NewMemo True b
      in \<lparr>w_versions = [db], w_announced = 0, w_bc = b', w_memo = m, w_calls = (\<lambda>_. Idle)\<rparr>)"

text \<open>An answer is current when it is the read of a version no announcement has gone past.\<close>

definition current :: "('d \<Rightarrow> 'k \<Rightarrow> 'v res) \<Rightarrow> ('d, 'k, 'v) world \<Rightarrow> 'k \<Rightarrow> 'v res \<Rightarrow> bool" where
  "current R w k r \<longleftrightarrow> (\<exists>v. w_announced w \<le> v \<and> v \<le> version w \<and> r = R (w_versions w ! v) k)"

definition issued_fence :: "('d, 'k, 'v) world \<Rightarrow> chan option \<Rightarrow> bool" where
  "issued_fence w fence \<longleftrightarrow> (case fence of None \<Rightarrow> False | Some f \<Rightarrow> bc_issued (w_bc w) f)"

definition fenced :: "('d \<Rightarrow> 'k \<Rightarrow> 'v res) \<Rightarrow> ('d, 'k, 'v) world \<Rightarrow> chan option \<Rightarrow> 'k \<Rightarrow> 'v res \<Rightarrow> bool" where
  "fenced R w fence k r \<longleftrightarrow> issued_fence w fence \<and> (is_closed (w_bc w) (the fence) \<or> current R w k r)"

fun call_ok :: "('d \<Rightarrow> 'k \<Rightarrow> 'v res) \<Rightarrow> ('d, 'k, 'v) world \<Rightarrow> ('k, 'v) call \<Rightarrow> bool" where
  "call_ok R w Idle = True"
| "call_ok R w (Missed k fence) = issued_fence w fence"
| "call_ok R w (HasRead k fence r) = fenced R w fence k r"

definition world_ok :: "('d, 'k, 'v) world \<Rightarrow> bool" where
  "world_ok w \<longleftrightarrow> bc_ok (w_bc w) \<and> w_versions w \<noteq> [] \<and> w_announced w \<le> version w"

definition memo_inv :: "('d \<Rightarrow> 'k \<Rightarrow> 'v res) \<Rightarrow> ('d, 'k, 'v) world \<Rightarrow> bool" where
  "memo_inv R w \<longleftrightarrow> world_ok w \<and> issued_fence w (memo_fence (w_memo w)) \<and>
     (\<forall>(k, r) \<in> set (memo_reads (w_memo w)). fenced R w (memo_fence (w_memo w)) k r) \<and>
     (\<forall>t. call_ok R w (w_calls w t))"

text \<open>What the rest of the world does keeps every answer fenced: a commit adds a version, an announcement closes
  every fence given out, and a new fence touches no other.\<close>

definition grows :: "('d \<Rightarrow> 'k \<Rightarrow> 'v res) \<Rightarrow> ('d, 'k, 'v) world \<Rightarrow> ('d, 'k, 'v) world \<Rightarrow> bool" where
  "grows R w w' \<longleftrightarrow> world_ok w' \<and> (\<forall>fence. issued_fence w fence \<longrightarrow> issued_fence w' fence) \<and>
     (\<forall>fence k r. fenced R w fence k r \<longrightarrow> fenced R w' fence k r)"

lemma current_commit:
  assumes "current R w k r" "w_versions w \<noteq> []"
  shows "current R (w\<lparr>w_versions := w_versions w @ [db]\<rparr>) k r"
proof -
  from assms(1) obtain v where "w_announced w \<le> v" "v \<le> version w" "r = R (w_versions w ! v) k" by (auto simp: current_def)
  moreover have "v < length (w_versions w)" using \<open>v \<le> version w\<close> assms(2) by (cases "w_versions w") (auto simp: version_def)
  ultimately show ?thesis
    unfolding current_def by (intro exI [of _ v]) (auto simp: version_def nth_append)
qed

lemma grows_commit: "world_ok w \<Longrightarrow> grows R w (w\<lparr>w_versions := w_versions w @ [db]\<rparr>)"
  using current_commit [of R w]
  by (auto simp: grows_def world_ok_def fenced_def issued_fence_def version_def split: option.splits)

lemma grows_announce: "world_ok w \<Longrightarrow> grows R w (w\<lparr>w_bc := Notify (w_bc w), w_announced := version w\<rparr>)"
  using bc.notify_law [of "w_bc w"] bc.notify_closes [of "w_bc w"]
  by (auto simp: grows_def world_ok_def fenced_def issued_fence_def version_def split: option.splits)

lemma grows_next: "world_ok w \<Longrightarrow> Next (w_bc w) = (b, ch) \<Longrightarrow> grows R w (w\<lparr>w_bc := b\<rparr>)"
  using bc.next_law [of "w_bc w" b ch] bc.next_keeps [of "w_bc w" b ch]
  by (auto simp: grows_def world_ok_def fenced_def issued_fence_def version_def current_def split: option.splits)

lemma grows_refl: "world_ok w \<Longrightarrow> grows R w w"
  by (simp add: grows_def)

lemma fenced_upd [simp]:
  "issued_fence (w\<lparr>w_memo := m\<rparr>) = issued_fence w" "issued_fence (w\<lparr>w_calls := cs\<rparr>) = issued_fence w"
  "fenced R (w\<lparr>w_memo := m\<rparr>) = fenced R w" "fenced R (w\<lparr>w_calls := cs\<rparr>) = fenced R w"
  "world_ok (w\<lparr>w_memo := m\<rparr>) = world_ok w" "world_ok (w\<lparr>w_calls := cs\<rparr>) = world_ok w"
  by (auto simp: fun_eq_iff fenced_def issued_fence_def current_def version_def world_ok_def split: option.splits)

lemma call_ok_upd [simp]: "call_ok R (w\<lparr>w_memo := m\<rparr>) c = call_ok R w c" "call_ok R (w\<lparr>w_calls := cs\<rparr>) c = call_ok R w c"
  by (cases c; simp)+

lemma call_ok_grows: "grows R w w' \<Longrightarrow> call_ok R w c \<Longrightarrow> call_ok R w' c"
  by (cases c) (auto simp: grows_def)

lemma memo_inv_grows:
  assumes "grows R w w'" "w_memo w' = w_memo w" "w_calls w' = w_calls w" "memo_inv R w"
  shows "memo_inv R w'"
  using assms call_ok_grows [OF assms(1)] by (fastforce simp: memo_inv_def grows_def)

lemma memo_inv_start: "bc_ok b \<Longrightarrow> memo_inv R (memo_start db b)"
  using bc.next_law [of b]
  by (auto simp: memo_start_def NewMemo_def memo_inv_def world_ok_def issued_fence_def version_def split: prod.splits)

text \<open>A lookup leaves the memo alone, or starts it over under a fresh fence.\<close>

lemma memo_get_cases:
  assumes "memo_get b m k = ((b', m'), fence, r)" "memo_fence m = Some f"
  obtains "\<not> is_closed b f" "b' = b" "m' = m" "fence = Some f" "r = map_of (memo_reads m) k"
  | ch where "is_closed b f" "Next b = (b', ch)" "m' = m\<lparr>memo_fence := Some ch, memo_reads := []\<rparr>" "fence = Some ch" "r = None"
  using assms by (auto simp: memo_get_def Let_def split: if_splits prod.splits)

lemma memo_inv_lookup:
  assumes "memo_get (w_bc w) (w_memo w) k = ((b, m), fence, r)" "memo_inv R w"
  shows "memo_inv R (w\<lparr>w_bc := b, w_memo := m, w_calls := (w_calls w)(t := (case r of None \<Rightarrow> Missed k fence | Some _ \<Rightarrow> Idle))\<rparr>)"
proof -
  from assms(2) obtain f where f: "memo_fence (w_memo w) = Some f" "issued_fence w (Some f)" and ok: "world_ok w"
    by (auto simp: memo_inv_def issued_fence_def split: option.splits)
  show ?thesis using assms(1) f(1)
  proof (cases rule: memo_get_cases)
    case 1
    then show ?thesis using assms(2) f by (auto simp: memo_inv_def split: option.splits)
  next
    case (2 ch)
    let ?w = "w\<lparr>w_bc := b\<rparr>"
    have g: "grows R w ?w" by (rule grows_next [OF ok 2(2)])
    have "issued_fence ?w (Some ch)" using bc.next_law [OF _ 2(2)] ok by (simp add: world_ok_def issued_fence_def)
    then show ?thesis using 2 g assms(2) call_ok_grows [OF g] unfolding memo_inv_def grows_def by auto
  qed
qed

lemma memo_inv_step: "memo_step R w w' \<Longrightarrow> memo_inv R w \<Longrightarrow> memo_inv R w'"
proof (induction rule: memo_step.induct)
  case (commit w db)
  then show ?case by (intro memo_inv_grows [OF grows_commit]) (auto simp: memo_inv_def)
next
  case (announce w)
  then show ?case by (intro memo_inv_grows [OF grows_announce]) (auto simp: memo_inv_def)
next
  case (lookup w t k b m fence r)
  then show ?case by (intro memo_inv_lookup)
next
  case (read w t k fence)
  from read.prems have "call_ok R w (w_calls w t)" "world_ok w" by (auto simp: memo_inv_def)
  then have "fenced R w fence k (R (w_versions w ! version w) k)"
    using read.hyps by (auto simp: fenced_def current_def world_ok_def)
  then show ?case using read.prems by (auto simp: memo_inv_def)
next
  case (keep w t k fence r)
  then have "fenced R w fence k r" by (metis call_ok.simps(3) memo_inv_def)
  then show ?case using keep.prems by (auto simp: memo_inv_def memo_put_def split: if_splits)
qed

section \<open>Lemmas: one request alone\<close>

text \<open>A memo whose answers all satisfy a predicate, as long as its fence is open.\<close>

definition memo_sat :: "('k \<Rightarrow> 'v res \<Rightarrow> bool) \<Rightarrow> Broadcast \<Rightarrow> ('k, 'v) Memo \<Rightarrow> bool" where
  "memo_sat P b m \<longleftrightarrow> bc_ok b \<and>
     (case memo_fence m of
        None \<Rightarrow> list_all (\<lambda>(k, r). P k r) (memo_reads m)
      | Some f \<Rightarrow> bc_issued b f \<and> (is_closed b f \<or> list_all (\<lambda>(k, r). P k r) (memo_reads m)))"

lemma memo_get_sat:
  assumes "memo_sat P b m" "memo_get b m k = ((b', m'), fence, r)"
  shows "memo_sat P b' m'" "fence = memo_fence m'" "r = Some v \<Longrightarrow> P k v"
    "case fence of None \<Rightarrow> True | Some f \<Rightarrow> \<not> is_closed b' f"
proof -
  have "memo_sat P b' m' \<and> fence = memo_fence m' \<and> (r = Some v \<longrightarrow> P k v) \<and> (case fence of None \<Rightarrow> True | Some f \<Rightarrow> \<not> is_closed b' f)"
  proof (cases "memo_fence m")
    case None
    with assms show ?thesis by (auto simp: memo_get_def memo_sat_def list_all_iff dest!: map_of_SomeD)
  next
    case (Some f)
    from assms(2) Some show ?thesis
    proof (cases rule: memo_get_cases)
      case 1
      then show ?thesis using assms(1) Some by (auto simp: memo_sat_def list_all_iff dest!: map_of_SomeD)
    next
      case (2 ch)
      then show ?thesis using assms(1) bc.next_law [OF _ 2(2)] by (auto simp: memo_sat_def)
    qed
  qed
  then show "memo_sat P b' m'" "fence = memo_fence m'" "r = Some v \<Longrightarrow> P k v"
    "case fence of None \<Rightarrow> True | Some f \<Rightarrow> \<not> is_closed b' f" by auto
qed

lemma memo_put_sat: "memo_sat P b m \<Longrightarrow> P k r \<Longrightarrow> memo_sat P b (memo_put m fence k r)"
  by (auto simp: memo_sat_def memo_put_def split: option.splits)

lemma memo_put_fence [simp]: "memo_fence (memo_put m fence k r) = memo_fence m"
  by (simp add: memo_put_def)

lemma memo_puts_sat:
  "memo_sat P b m \<Longrightarrow> (\<And>i. i \<in> set is \<Longrightarrow> P (key i) (r i)) \<Longrightarrow> memo_sat P b (foldl (\<lambda>m i. memo_put m fence (key i) (r i)) m is)"
  by (induction "is" arbitrary: m) (auto intro: memo_put_sat)

lemma map_of_filter_fst: "map_of (filter (\<lambda>p. fst p \<in> A) xs) i = (if i \<in> A then map_of xs i else None)"
  by (induction xs) auto

definition answers :: "(string \<Rightarrow> 'v option) \<Rightarrow> (string \<Rightarrow> 'k) \<Rightarrow> 'k \<Rightarrow> 'v res \<Rightarrow> bool" where
  "answers f key k r \<longleftrightarrow> (\<forall>i. key i = k \<longrightarrow> f i = (case r of Inl _ \<Rightarrow> None | Inr v \<Rightarrow> Some v))"

lemma rememberEach_split_answers:
  assumes "memo_sat (answers f key) b m" "rememberEach_split b m key is fence0 = ((b', m'), fence, out, missing)"
  shows "memo_sat (answers f key) b' m'" "set missing \<subseteq> set is"
    "i \<in> set is \<Longrightarrow> i \<notin> set missing \<Longrightarrow> map_of out i = f i"
    "\<And>j v. (j, v) \<in> set out \<Longrightarrow> f j = Some v"
proof -
  have "memo_sat (answers f key) b' m' \<and> set missing \<subseteq> set is \<and>
      (\<forall>i \<in> set is. i \<notin> set missing \<longrightarrow> f i = None \<or> i \<in> fst ` set out) \<and> (\<forall>(j, v) \<in> set out. f j = Some v)"
    using assms
  proof (induction "is" arbitrary: b m fence0 b' m' fence out missing)
    case (Cons i "is")
    obtain b1 m1 f1 r where get: "memo_get b m (key i) = ((b1, m1), f1, r)" by (metis prod.exhaust)
    obtain b2 m2 f2 out2 missing2 where rest: "rememberEach_split b1 m1 key is f1 = ((b2, m2), f2, out2, missing2)"
      by (metis prod.exhaust)
    note sat = memo_get_sat [OF Cons.prems(1) get]
    have "r = Some v \<Longrightarrow> f i = (case v of Inl _ \<Rightarrow> None | Inr x \<Rightarrow> Some x)" for v
      using sat(3) [of v] by (auto simp: answers_def)
    with Cons.IH [OF sat(1) rest] Cons.prems(2) get rest show ?case
      by (auto split: option.splits sum.splits)
  qed auto
  note all = this
  show "memo_sat (answers f key) b' m'" "set missing \<subseteq> set is" "\<And>j v. (j, v) \<in> set out \<Longrightarrow> f j = Some v" using all by auto
  assume "i \<in> set is" "i \<notin> set missing"
  then show "map_of out i = f i"
    using all by (cases "map_of out i") (force simp: map_of_eq_None_iff dest: map_of_SomeD)+
qed

section \<open>Properties\<close>

text \<open>C21. A memo never answers past a write that was announced: in any run of commits, announcements and goroutines
  sharing the memo, an answer a lookup finds is what the read gives on a version of the database at least as
  new as the one current at the last announcement, a read that an announcement overtook included.\<close>

theorem memo_never_stale:
  assumes "(memo_step R)\<^sup>*\<^sup>* (memo_start db b) w" "bc_ok b"
    "memo_get (w_bc w) (w_memo w) k = (st, fence, Some r)"
  shows "\<exists>v. w_announced w \<le> v \<and> v \<le> version w \<and> r = R (w_versions w ! v) k"
proof -
  have inv: "memo_inv R w" using assms(1)
    by (induction rule: rtranclp_induct) (auto intro: memo_inv_start [OF assms(2)] memo_inv_step)
  then obtain f where f: "memo_fence (w_memo w) = Some f"
    by (auto simp: memo_inv_def issued_fence_def split: option.splits)
  obtain b' m' where st: "st = (b', m')" by (cases st)
  from assms(3) f have "\<not> is_closed (w_bc w) f" "map_of (memo_reads (w_memo w)) k = Some r"
    unfolding st by (auto elim: memo_get_cases)
  with inv f show ?thesis by (auto simp: memo_inv_def fenced_def current_def dest!: map_of_SomeD)
qed

definition example_read :: "nat \<Rightarrow> string \<Rightarrow> nat res" where
  "example_read d k = Inr d"

definition example_world :: "(nat, string, nat) world" where
  "example_world = (memo_start 0 zero_Broadcast)
     \<lparr>w_memo := \<lparr>memo_commits = True, memo_fence = Some 0, memo_reads = [(''k'', Inr 0)]\<rparr>\<rparr>"

lemma example_world_reached: "(memo_step example_read)\<^sup>*\<^sup>* (memo_start 0 zero_Broadcast) example_world"
proof -
  define s where "s = (memo_start 0 zero_Broadcast :: (nat, string, nat) world)"
  have m: "w_memo s = \<lparr>memo_commits = True, memo_fence = Some 0, memo_reads = []\<rparr>" "w_calls s = (\<lambda>_. Idle)"
    "is_closed (w_bc s) 0 = False" "w_versions s = [0]"
    by (simp_all add: s_def memo_start_def NewMemo_def Next_def zero_Broadcast_def is_closed_def)
  let ?s = "s\<lparr>w_memo := \<lparr>memo_commits = True, memo_fence = Some 0, memo_reads = []\<rparr>\<rparr>"
  have 1: "memo_step example_read s (?s\<lparr>w_calls := (\<lambda>_. Idle)(0 := Missed ''k'' (Some 0))\<rparr>)"
    using memo_step.lookup [of s 0 "''k''" "w_bc s" "w_memo s" "Some 0" None] m by (simp add: memo_get_def)
  have 2: "memo_step example_read (?s\<lparr>w_calls := (\<lambda>_. Idle)(0 := Missed ''k'' (Some 0))\<rparr>)
      (?s\<lparr>w_calls := (\<lambda>_. Idle)(0 := HasRead ''k'' (Some 0) (Inr 0))\<rparr>)"
    using memo_step.read [of "?s\<lparr>w_calls := (\<lambda>_. Idle)(0 := Missed ''k'' (Some 0))\<rparr>" 0 "''k''" "Some 0" example_read] m
    by (simp add: version_def example_read_def)
  have "memo_step example_read (?s\<lparr>w_calls := (\<lambda>_. Idle)(0 := HasRead ''k'' (Some 0) (Inr 0))\<rparr>)
      (s\<lparr>w_memo := \<lparr>memo_commits = True, memo_fence = Some 0, memo_reads = [(''k'', Inr 0)]\<rparr>, w_calls := (\<lambda>_. Idle)\<rparr>)"
    using memo_step.keep [of "?s\<lparr>w_calls := (\<lambda>_. Idle)(0 := HasRead ''k'' (Some 0) (Inr 0))\<rparr>" 0 "''k''" "Some 0" "Inr 0" example_read] m
    by (simp add: memo_put_def fun_upd_idem)
  then have 3: "memo_step example_read (?s\<lparr>w_calls := (\<lambda>_. Idle)(0 := HasRead ''k'' (Some 0) (Inr 0))\<rparr>) example_world"
    by (simp add: example_world_def s_def memo_start_def NewMemo_def Next_def zero_Broadcast_def)
  show ?thesis using 1 2 3 unfolding s_def by (meson converse_rtranclp_into_rtranclp rtranclp.rtrancl_refl)
qed

theorem memo_never_stale_witness:
  "\<exists>st fence. memo_get (w_bc example_world) (w_memo example_world) ''k'' = (st, fence, Some (Inr 0)) \<and>
     (\<exists>v. w_announced example_world \<le> v \<and> v \<le> version example_world \<and>
        Inr 0 = example_read (w_versions example_world ! v) ''k'')"
proof -
  have get: "memo_get (w_bc example_world) (w_memo example_world) ''k'' =
      ((w_bc example_world, w_memo example_world), Some 0, Some (Inr 0))"
    by (simp add: memo_get_def example_world_def memo_start_def NewMemo_def Next_def zero_Broadcast_def is_closed_def)
  from memo_never_stale [OF example_world_reached bc_ok_zero get] get show ?thesis by blast
qed

text \<open>One request alone: a request's memo answers what the read answers.  When every kept answer agrees with
  the source, \<open>rememberEach\<close> gives each id of the batch the source's answer, whatever it kept already, reads
  only ids of the batch, and leaves a memo whose answers agree.\<close>

theorem rememberEach_exact:
  assumes "memo_sat (answers f key) b m" "inj key"
    "\<forall>js. set js \<subseteq> set is \<longrightarrow> (\<exists>got. read js = Inr got \<and> (\<forall>j \<in> set js. map_of got j = f j))"
  shows "\<exists>b' m' out. rememberEach b (Some m) is key read = ((b', Some m'), Inr out) \<and>
    memo_sat (answers f key) b' m' \<and> (\<forall>i \<in> set is. map_of out i = f i)"
proof -
  obtain b1 m1 fence out missing where split: "rememberEach_split b m key is None = ((b1, m1), fence, out, missing)"
    by (metis prod.exhaust)
  note S = rememberEach_split_answers [OF assms(1) split]
  from assms(3) S(2) obtain got where got: "read missing = Inr got" "\<forall>j \<in> set missing. map_of got j = f j" by blast
  let ?r = "\<lambda>i. case map_of got i of None \<Rightarrow> Inl (sentinel_err ErrNotFound) | Some v \<Rightarrow> Inr v"
  have "answers f key (key i) (?r i)" if "i \<in> set missing" for i
    using that got(2) assms(2) by (auto simp: answers_def inj_eq split: option.splits)
  then have sat: "memo_sat (answers f key) b1 (foldl (\<lambda>m i. memo_put m fence (key i) (?r i)) m1 missing)"
    by (intro memo_puts_sat S(1)) auto
  have out: "map_of (filter (\<lambda>p. fst p \<in> set missing) got @ out) i = f i" if "i \<in> set is" for i
  proof (cases "i \<in> set missing")
    case True
    then have "map_of (filter (\<lambda>p. fst p \<in> set missing) got) i = f i"
      using got(2) by (simp add: map_of_filter_fst)
    then show ?thesis using S(4) [of i]
      by (cases "map_of out i") (auto simp: map_add_def split: option.splits dest: map_of_SomeD)
  next
    case False
    then have "map_of (filter (\<lambda>p. fst p \<in> set missing) got) i = None" by (simp add: map_of_filter_fst)
    then show ?thesis using S(3) [OF that False] by (simp add: map_add_def)
  qed
  show ?thesis
  proof (cases "missing = []")
    case True
    then show ?thesis using split S(1,3) by (auto simp: rememberEach_def)
  next
    case False
    then show ?thesis using split sat out got(1) by (simp add: rememberEach_def)
  qed
qed

theorem rememberEach_exact_witness:
  "\<exists>b' m' out. rememberEach zero_Broadcast (Some \<lparr>memo_commits = False, memo_fence = None, memo_reads = [(''a'', Inr 1)]\<rparr>)
     [''a'', ''b''] id (\<lambda>js. Inr (filter (\<lambda>p. fst p \<in> set js) [(''a'', 1), (''c'', 2::nat)])) = ((b', Some m'), Inr out) \<and>
     map_of out ''a'' = Some 1 \<and> map_of out ''b'' = None"
proof -
  let ?f = "map_of [(''a'', 1), (''c'', 2::nat)]"
  have "\<exists>b' m' out. rememberEach zero_Broadcast (Some \<lparr>memo_commits = False, memo_fence = None, memo_reads = [(''a'', Inr 1)]\<rparr>)
     [''a'', ''b''] id (\<lambda>js. Inr (filter (\<lambda>p. fst p \<in> set js) [(''a'', 1), (''c'', 2::nat)])) = ((b', Some m'), Inr out) \<and>
     memo_sat (answers ?f id) b' m' \<and> (\<forall>i \<in> set [''a'', ''b'']. map_of out i = ?f i)"
  proof (rule rememberEach_exact)
    show "memo_sat (answers ?f id) zero_Broadcast \<lparr>memo_commits = False, memo_fence = None, memo_reads = [(''a'', Inr 1)]\<rparr>"
      by (simp add: memo_sat_def answers_def)
  qed (auto simp: map_of_filter_fst simp del: filter.simps map_of.simps)
  then show ?thesis by auto
qed

text \<open>No wakeup is lost: a channel taken from a broadcast is closed by what happens next exactly when a notify
  is among it, however many more waiters take a channel before or after.\<close>

theorem broadcast_no_lost_wakeup:
  assumes "bc_ok b" "Next b = (b', ch)"
  shows "is_closed (foldl (\<lambda>b op. case op of NextOp \<Rightarrow> fst (Next b) | NotifyOp \<Rightarrow> Notify b) b' ops) ch \<longleftrightarrow> NotifyOp \<in> set ops"
proof -
  have "foldl (\<lambda>b op. case op of NextOp \<Rightarrow> fst (Next b) | NotifyOp \<Rightarrow> Notify b) c ops = bc.run c ops" for c
    by (induction c ops rule: bc.run.induct) auto
  then show ?thesis using bc.no_lost_wakeup [OF assms] by simp
qed

theorem broadcast_no_lost_wakeup_witness:
  "is_closed (foldl (\<lambda>b op. case op of NextOp \<Rightarrow> fst (Next b) | NotifyOp \<Rightarrow> Notify b) (fst (Next zero_Broadcast))
     [NextOp, NotifyOp, NextOp]) 0"
  using broadcast_no_lost_wakeup [of zero_Broadcast "fst (Next zero_Broadcast)" 0 "[NextOp, NotifyOp, NextOp]"]
  by (simp add: Next_def zero_Broadcast_def bc_ok_def)
end
