(* ===== verification/Roles_Model.thy ===== *)
theory Roles_Model
  imports Permissions "HOL-Library.Sublist"
begin

text \<open>
  The role entity and what is pure about it (\<^verbatim>\<open>internal/roles/model.go\<close>, \<^verbatim>\<open>internal/roles/template.go\<close>,
  \<^verbatim>\<open>internal/platform/welcomestep\<close> and \<^verbatim>\<open>freeName\<close> of \<^verbatim>\<open>internal/roles/usecase.go\<close>): the length check of a
  description, counted in runes, the welcome steps, the free name of a copy, whose loop is shown to end, and
  the shipped template roles.  The Unicode lower-case tables and the JSON decoder are parameters.
\<close>


section \<open>Strings\<close>

text \<open>\<^verbatim>\<open>utf8.RuneCountInString\<close>: the bytes of the next rune by the first byte and the ranges its followers may
  have; a byte that starts no valid sequence counts as a rune of its own.\<close>

definition in_range :: "nat \<Rightarrow> nat \<Rightarrow> nat list \<Rightarrow> nat \<Rightarrow> bool" where
  "in_range lo hi bs i \<longleftrightarrow> i < length bs \<and> lo \<le> bs ! i \<and> bs ! i \<le> hi"

definition rune_len :: "nat list \<Rightarrow> nat" where
  "rune_len bs =
     (let b = hd bs; tail = (\<lambda>i. in_range 128 191 bs i);
          two = (\<lambda>lo hi. in_range lo hi bs 1)
      in if 194 \<le> b \<and> b \<le> 223 \<and> tail 1 then 2
         else if b = 224 \<and> two 160 191 \<and> tail 2 then 3
         else if b = 237 \<and> two 128 159 \<and> tail 2 then 3
         else if 225 \<le> b \<and> b \<le> 239 \<and> b \<noteq> 237 \<and> tail 1 \<and> tail 2 then 3
         else if b = 240 \<and> two 144 191 \<and> tail 2 \<and> tail 3 then 4
         else if b = 244 \<and> two 128 143 \<and> tail 2 \<and> tail 3 then 4
         else if 241 \<le> b \<and> b \<le> 243 \<and> tail 1 \<and> tail 2 \<and> tail 3 then 4
         else 1)"

lemma rune_len_bounds: "1 \<le> rune_len bs \<and> rune_len bs \<le> 4"
  by (simp add: rune_len_def Let_def)

function rune_count :: "nat list \<Rightarrow> nat" where
  "rune_count [] = 0"
| "rune_count (b # bs) = 1 + rune_count (drop (rune_len (b # bs)) (b # bs))"
  by pat_completeness auto

termination
proof (relation "measure length")
  fix b :: nat and bs :: "nat list"
  show "(drop (rune_len (b # bs)) (b # bs), b # bs) \<in> measure length"
    using rune_len_bounds [of "b # bs"] by simp
qed simp

definition RuneCountInString :: "string \<Rightarrow> nat" where
  "RuneCountInString s = rune_count (map of_char s)"

text \<open>\<^verbatim>\<open>%d\<close> of a natural number.\<close>

fun go_d :: "nat \<Rightarrow> string" where
  "go_d n = (if n < 10 then [char_of (48 + n)] else go_d (n div 10) @ [char_of (48 + n mod 10)])"

declare go_d.simps [simp del]

text \<open>\<^verbatim>\<open>strings.ToLower\<close>: its path for ASCII, and a parameter for the Unicode tables beyond it.\<close>

definition ascii :: "string \<Rightarrow> bool" where
  "ascii s \<longleftrightarrow> list_all (\<lambda>ch. (of_char ch :: nat) < 128) s"

definition ascii_lower :: "char \<Rightarrow> char" where
  "ascii_lower ch = (let n = (of_char ch :: nat) in if 65 \<le> n \<and> n \<le> 90 then char_of (n + 32) else ch)"

definition ToLower :: "(string \<Rightarrow> string) \<Rightarrow> string \<Rightarrow> string" where
  "ToLower unicode s = (if ascii s then map ascii_lower s else unicode s)"

text \<open>What the Unicode path is relied on for: it maps rune by rune, so an ASCII end is mapped on its own.\<close>

definition rune_wise :: "(string \<Rightarrow> string) \<Rightarrow> bool" where
  "rune_wise unicode \<longleftrightarrow> (\<forall>s t. ascii t \<longrightarrow> \<not> ascii s \<longrightarrow> unicode (s @ t) = unicode s @ map ascii_lower t)"

section \<open>Welcome steps\<close>

abbreviation (input) GitHub :: string where "GitHub \<equiv> ''github''"
abbreviation (input) Computer :: string where "Computer \<equiv> ''computer''"
abbreviation (input) Projects :: string where "Projects \<equiv> ''projects''"
abbreviation (input) DeployServer :: string where "DeployServer \<equiv> ''deploy_server''"
abbreviation (input) Phone :: string where "Phone \<equiv> ''phone''"

definition All_steps :: "string list" where
  "All_steps = [GitHub, Computer, Projects, DeployServer, Phone]"

definition Owner_steps :: "string list" where
  "Owner_steps = [GitHub, Computer]"

text \<open>A nil list of keys is \<open>None\<close>.\<close>

definition Parse_steps :: "string list option \<Rightarrow> string list option res" where
  "Parse_steps keys =
     (case keys of
        None \<Rightarrow> Inr None
      | Some keys \<Rightarrow>
          (case find (\<lambda>k. k \<notin> set All_steps) keys of
             Some k \<Rightarrow> Inl (errorf ErrInvalid (go_q k @ '' is not a welcome step; the steps are '' @
                         strings_join All_steps '', ''))
           | None \<Rightarrow> Inr (Some (filter (\<lambda>k. k \<in> set keys) All_steps))))"

definition Added :: "string list \<Rightarrow> string list \<Rightarrow> string list" where
  "Added before after = filter (\<lambda>k. k \<notin> set before) after"

section \<open>The role and its name\<close>

record Role =
  role_ID :: string
  role_WorkspaceID :: string
  role_Name :: string
  role_Description :: string
  role_Permissions :: pset
  role_IsOwnerRole :: bool
  role_WelcomeSteps :: "string list"
  role_ShowLockedActions :: bool
  role_CreatedAt :: int
  role_UpdatedAt :: int

definition DescriptionMax :: nat where
  "DescriptionMax = 140"

definition checkDescription :: "string \<Rightarrow> string res" where
  "checkDescription description0 =
     (let description = TrimSpace description0; n = RuneCountInString description
      in if n > DescriptionMax
         then Inl (errorf ErrInvalid (''a role's description holds at most '' @ go_d DescriptionMax @
                     '' characters, this one has '' @ go_d n))
         else Inr description)"

definition copy_name :: "string \<Rightarrow> nat \<Rightarrow> string" where
  "copy_name name n = (if n > 1 then name @ '' (copy '' @ go_d n @ '')'' else name @ '' (copy)'')"

partial_function (option) freeName_loop ::
  "(string \<Rightarrow> string) \<Rightarrow> string list \<Rightarrow> string \<Rightarrow> nat \<Rightarrow> string \<Rightarrow> string option" where
  "freeName_loop unicode used name n candidate =
     (if ToLower unicode candidate \<in> set used
      then freeName_loop unicode used name (n + 1) (copy_name name n)
      else Some candidate)"

definition freeName :: "(string \<Rightarrow> string) \<Rightarrow> string \<Rightarrow> Role list \<Rightarrow> string option" where
  "freeName unicode name taken =
     freeName_loop unicode (map (\<lambda>r. ToLower unicode (role_Name r)) taken) name 1 name"

section \<open>Template roles\<close>

text \<open>The body of a template, and the same body as the JSON decoder fills it; a nil list of steps is \<open>None\<close>.\<close>

record TemplateBody =
  tb_Name :: string
  tb_Description :: string
  tb_Permissions :: pset
  tb_WelcomeSteps :: "string list option"
  tb_ShowLockedActions :: bool

record ShippedTemplate =
  st_Key :: string
  st_Body :: TemplateBody

record raw_template =
  raw_Name :: string
  raw_Description :: string
  raw_Permissions :: "string list"
  raw_WelcomeSteps :: "string list option"
  raw_ShowLockedActions :: bool

definition TemplateKind :: string where
  "TemplateKind = ''role''"

definition zero_template :: TemplateBody where
  "zero_template = \<lparr>tb_Name = [], tb_Description = [], tb_Permissions = [], tb_WelcomeSteps = None,
     tb_ShowLockedActions = False\<rparr>"

text \<open>The loop over the permissions stops at the first that is not an action.\<close>

definition parseActions :: "string list \<Rightarrow> action list res" where
  "parseActions = mapr (\<lambda>p. case ParseAction p of
     (a, ok) \<Rightarrow> if \<not> ok then Inl (errorf ErrInvalid (go_q p @ '' is not a permission; the catalog lists them''))
                else Inr a)"

text \<open>The strict JSON decoder is a parameter: the decoded body, or the text of its error.\<close>

definition ParseTemplate :: "(string \<Rightarrow> string + raw_template) \<Rightarrow> string \<Rightarrow> TemplateBody res" where
  "ParseTemplate decode body =
     (case decode body of
        Inl msg \<Rightarrow> Inl (errorf ErrInvalid (''a role template is JSON {\"name\", \"description\", \"permissions\", \"welcome_steps\", \"show_locked_actions\"}: '' @ msg))
      | Inr raw \<Rightarrow>
          (let name = TrimSpace (raw_Name raw)
           in if name = [] then Inl (errorf ErrInvalid ''a role template needs a name'')
              else bindr (checkDescription (raw_Description raw)) (\<lambda>description.
                   bindr (parseActions (raw_Permissions raw)) (\<lambda>permissions.
                   bindr (Parse_steps (raw_WelcomeSteps raw)) (\<lambda>steps.
                   Inr \<lparr>tb_Name = name, tb_Description = description, tb_Permissions = SetOf permissions,
                        tb_WelcomeSteps = steps, tb_ShowLockedActions = raw_ShowLockedActions raw\<rparr>)))))"

definition CheckTemplate :: "(string \<Rightarrow> string + raw_template) \<Rightarrow> string \<Rightarrow> unit res" where
  "CheckTemplate decode body = bindr (ParseTemplate decode body) (\<lambda>_. Inr ())"

definition TemplateName :: "(string \<Rightarrow> string + raw_template) \<Rightarrow> string \<Rightarrow> string" where
  "TemplateName decode body =
     tb_Name (case ParseTemplate decode body of Inl _ \<Rightarrow> zero_template | Inr t \<Rightarrow> t)"

definition deployInfrastructure :: "action list" where
  "deployInfrastructure =
     [''machines:deploy'', ''machines:write'', ''machines:delete'', ''topology:read'', ''topology:write'', ''topology:delete'']"

definition ownerOnly :: "action list" where
  "ownerOnly = [WorkspacesCreate, WorkspacesDelete]"

definition administrator :: pset where
  "administrator =
     SetOf (deployInfrastructure @
       map info_Value (filter (\<lambda>i. info_Area i \<noteq> AreaInstance \<and> info_Value i \<notin> set ownerOnly) Catalog))"

definition chat_actions :: "action list" where
  "chat_actions =
     [''chat:read'', ''chat:write'', ''channels:read'', ''channels:write'', ''voice:read'', ''voice:write'',
      ''mentions:read'', ''mentions:write'', ''notifications:read'', ''notifications:write'']"

definition template_set :: "action list \<Rightarrow> pset" where
  "template_set actions = SetOf (actions @ chat_actions)"

definition devops :: "action list" where
  "devops =
     [''tickets:read'', ''tickets:write'', ''docs:read'', ''docs:write'', ''attachments:read'', ''attachments:write'',
      ''memories:read'', ''repos:read'', ''reviews:read'', ''repositories:read'', ''repositories:write'',
      ''stacks:read'', ''stacks:write'', ''stacks:delete'', ''stacks:logs'', ''deploys:read'', ''deploys:write'',
      ''projects:read'', ''plays:read''] @ deployInfrastructure"

definition ShippedTemplates :: "ShippedTemplate list" where
  "ShippedTemplates =
     [\<lparr>st_Key = ''client'', st_Body = \<lparr>
        tb_Name = ''Client'',
        tb_Description = ''Reads and writes the tickets and docs of the projects you're added to.'',
        tb_Permissions = template_set [''tickets:read'', ''tickets:write'', ''docs:read'', ''docs:write'', ''docs:thread'',
          ''attachments:read'', ''attachments:write'', ''memories:read''],
        tb_WelcomeSteps = Some [Projects], tb_ShowLockedActions = False\<rparr>\<rparr>,
      \<lparr>st_Key = ''junior_developer'', st_Body = \<lparr>
        tb_Name = ''Junior Developer'',
        tb_Description = ''Works tickets and docs, runs plays and reads deploys in the projects you're added to.'',
        tb_Permissions = template_set [''tickets:read'', ''tickets:write'', ''docs:read'', ''docs:write'', ''docs:thread'',
          ''attachments:read'', ''attachments:write'', ''memories:read'', ''repos:read'', ''reviews:read'', ''repositories:read'',
          ''stacks:read'', ''stacks:logs'', ''deploys:read'', ''plays:read'', ''plays:run''],
        tb_WelcomeSteps = Some [Computer, Projects], tb_ShowLockedActions = True\<rparr>\<rparr>,
      \<lparr>st_Key = ''senior_developer'', st_Body = \<lparr>
        tb_Name = ''Senior Developer'',
        tb_Description = ''Runs the tickets, docs, plays and deploys of the projects you're added to, and creates projects.'',
        tb_Permissions = template_set [''tickets:read'', ''tickets:write'', ''tickets:delete'',
          ''docs:read'', ''docs:write'', ''docs:delete'', ''docs:thread'', ''docs:clone'', ''docs:lock'',
          ''attachments:read'', ''attachments:write'', ''attachments:delete'',
          ''memories:read'', ''memories:write'', ''memories:delete'', ''memories:template'',
          ''repos:read'', ''reviews:read'', ''repositories:read'', ''repositories:write'',
          ''stacks:read'', ''stacks:write'', ''stacks:logs'', ''deploys:read'', ''deploys:write'',
          ''projects:read'', ''projects:write'', ''projects:create'',
          ''plays:read'', ''plays:write'', ''plays:delete'', ''plays:run'', ''autoplays:read'', ''autoplays:write'',
          ''topology:read''],
        tb_WelcomeSteps = Some [GitHub, Computer], tb_ShowLockedActions = True\<rparr>\<rparr>,
      \<lparr>st_Key = ''devops'', st_Body = \<lparr>
        tb_Name = ''DevOps'',
        tb_Description = ''Deploys the stacks of the projects you're added to and looks after machines, runners, DNS and gateways.'',
        tb_Permissions = template_set devops,
        tb_WelcomeSteps = Some [DeployServer], tb_ShowLockedActions = True\<rparr>\<rparr>,
      \<lparr>st_Key = ''administrator'', st_Body = \<lparr>
        tb_Name = ''Administrator'',
        tb_Description = ''Does everything in the workspace except what stays with the Owner.'',
        tb_Permissions = administrator,
        tb_WelcomeSteps = Some [GitHub], tb_ShowLockedActions = True\<rparr>\<rparr>]"

section \<open>Lemmas\<close>

lemma rune_count_bound: "length bs \<le> 4 * rune_count bs"
proof (induction bs rule: rune_count.induct)
  case (2 b bs)
  let ?k = "rune_len (b # bs)"
  have "length (b # bs) - ?k \<le> 4 * rune_count (drop ?k (b # bs))"
    using 2 by (simp only: length_drop)
  then have "length (b # bs) \<le> 4 * rune_count (drop ?k (b # bs)) + ?k"
    by (simp only: le_diff_conv)
  moreover have "?k \<le> 4" using rune_len_bounds by blast
  ultimately show ?case by (simp only: rune_count.simps distrib_left)
qed simp

fun d_value :: "nat \<Rightarrow> string \<Rightarrow> nat" where
  "d_value acc [] = acc"
| "d_value acc (ch # s) = d_value (10 * acc + (of_char ch - 48)) s"

lemma d_value_append: "d_value acc (s @ t) = d_value (d_value acc s) t"
  by (induction acc s rule: d_value.induct) auto

lemma d_value_go_d: "d_value 0 (go_d n) = n"
proof (induction n rule: go_d.induct)
  case (1 n)
  show ?case
  proof (cases "n < 10")
    case True
    then show ?thesis by (subst go_d.simps) simp
  next
    case False
    then show ?thesis using 1 by (subst go_d.simps) (simp add: d_value_append)
  qed
qed

lemma go_d_inj: "go_d m = go_d n \<longleftrightarrow> m = n"
  using d_value_go_d by metis

lemma go_d_digits: "set (go_d n) \<subseteq> char_of ` {48..<58::nat}"
proof (induction n rule: go_d.induct)
  case (1 n)
  show ?case
  proof (cases "n < 10")
    case True
    then show ?thesis by (subst go_d.simps) auto
  next
    case False
    then show ?thesis using 1 by (subst go_d.simps) auto
  qed
qed

lemma ascii_append [simp]: "ascii (s @ t) \<longleftrightarrow> ascii s \<and> ascii t"
  by (simp add: ascii_def)

lemma ascii_go_d [simp]: "ascii (go_d n)"
  using go_d_digits [of n] by (auto simp: ascii_def list_all_iff)

lemma lower_go_d [simp]: "map ascii_lower (go_d n) = go_d n"
  using go_d_digits [of n] by (intro map_idI) (auto simp: ascii_lower_def Let_def)

lemma set_All_steps: "set All_steps = {GitHub, Computer, Projects, DeployServer, Phone}"
  by (simp add: All_steps_def)

definition candidate_at :: "string \<Rightarrow> nat \<Rightarrow> string" where
  "candidate_at name n = (if n = 0 then name else copy_name name n)"

definition copy_suffix :: "nat \<Rightarrow> string" where
  "copy_suffix n = (if n = 0 then [] else if n > 1 then '' (copy '' @ go_d n @ '')'' else '' (copy)'')"

lemma candidate_suffix: "candidate_at name n = name @ copy_suffix n"
  by (simp add: candidate_at_def copy_name_def copy_suffix_def)

lemma copy_suffix_lower: "ascii (copy_suffix n)" "map ascii_lower (copy_suffix n) = copy_suffix n"
proof -
  show "ascii (copy_suffix n)"
    using ascii_go_d [of n] by (simp add: copy_suffix_def ascii_def)
  show "map ascii_lower (copy_suffix n) = copy_suffix n"
    by (simp add: copy_suffix_def ascii_lower_def)
qed

lemma copy_suffix_inj: "copy_suffix m = copy_suffix n \<longleftrightarrow> m = n"
  by (auto simp: copy_suffix_def go_d_inj split: if_splits)

lemma ToLower_append:
  assumes "rune_wise unicode" and "ascii t"
  shows "ToLower unicode (s @ t) = ToLower unicode s @ map ascii_lower t"
  using assms by (auto simp: ToLower_def rune_wise_def)

lemma lower_candidate:
  "rune_wise unicode \<Longrightarrow> ToLower unicode (candidate_at name n) = ToLower unicode name @ copy_suffix n"
  by (simp add: candidate_suffix ToLower_append copy_suffix_lower)

lemma freeName_loop_reaches:
  assumes "n \<le> k" and "\<forall>m. n \<le> m \<and> m < k \<longrightarrow> ToLower unicode (candidate_at name m) \<in> set used"
    and "ToLower unicode (candidate_at name k) \<notin> set used"
  shows "freeName_loop unicode used name (n + 1) (candidate_at name n) = Some (candidate_at name k)"
  using assms
proof (induction n rule: inc_induct)
  case base
  then show ?case by (subst freeName_loop.simps) simp
next
  case (step n)
  then have "copy_name name (n + 1) = candidate_at name (Suc n)" by (simp add: candidate_at_def)
  with step show ?case by (subst freeName_loop.simps) simp
qed

lemma some_candidate_free:
  assumes "rune_wise unicode"
  shows "\<exists>n \<le> length used. ToLower unicode (candidate_at name n) \<notin> set used"
proof (rule ccontr)
  let ?f = "\<lambda>n. ToLower unicode (candidate_at name n)"
  assume "\<not> ?thesis"
  then have "?f ` {0..length used} \<subseteq> set used" by auto
  moreover have "inj_on ?f {0..length used}"
    by (simp add: inj_on_def lower_candidate [OF assms] copy_suffix_inj)
  ultimately have "card {0..length used} \<le> card (set used)"
    by (metis card_image card_mono List.finite_set)
  then show False using card_length [of used] by simp
qed

section \<open>Properties\<close>

text \<open>freeName returns: with k roles taken the loop tests at most k + 1 candidates and answers the first of
  name, "name (copy)", "name (copy 2)", ... whose lower case no taken role has.\<close>

theorem freeName_fresh:
  assumes "rune_wise unicode"
  shows "\<exists>n \<le> length taken.
    freeName unicode name taken = Some (if n = 0 then name else copy_name name n) \<and>
    {m. ToLower unicode (if m = 0 then name else copy_name name m)
          \<in> set (map (\<lambda>r. ToLower unicode (role_Name r)) taken)} \<inter> {..n} = {..<n}"
proof -
  let ?used = "map (\<lambda>r. ToLower unicode (role_Name r)) taken"
  let ?free = "\<lambda>n. ToLower unicode (candidate_at name n) \<notin> set ?used"
  define k where "k = (LEAST n. ?free n)"
  obtain n where n: "n \<le> length ?used" "?free n"
    using some_candidate_free [OF assms, of ?used name] by blast
  then have free: "?free k" and le: "k \<le> length taken"
    unfolding k_def using LeastI [of ?free n] Least_le [of ?free n] by auto
  have used: "\<not> ?free m" if "m < k" for m
    using that not_less_Least unfolding k_def by blast
  have "freeName unicode name taken = Some (candidate_at name k)"
    using freeName_loop_reaches [of 0 k unicode name ?used] used free
    by (simp add: freeName_def candidate_at_def)
  moreover have "{m. \<not> ?free m} \<inter> {..k} = {..<k}"
  proof (intro set_eqI iffI)
    fix m assume "m \<in> {m. \<not> ?free m} \<inter> {..k}"
    with free show "m \<in> {..<k}" by (cases "m = k") auto
  next
    fix m assume "m \<in> {..<k}"
    with used [of m] show "m \<in> {m. \<not> ?free m} \<inter> {..k}" by simp
  qed
  ultimately show ?thesis
    using le by (intro exI [of _ k]) (simp add: candidate_at_def)
qed

definition example_taken :: "Role list" where
  "example_taken =
     [\<lparr>role_ID = ''r1'', role_WorkspaceID = ''w'', role_Name = ''CLIENT'', role_Description = [], role_Permissions = [],
       role_IsOwnerRole = False, role_WelcomeSteps = [], role_ShowLockedActions = False, role_CreatedAt = 0,
       role_UpdatedAt = 0\<rparr>]"

lemma rune_wise_lower: "rune_wise (map ascii_lower)"
  by (simp add: rune_wise_def)

theorem freeName_fresh_witness:
  "freeName (map ascii_lower) ''Client'' example_taken = Some ''Client (copy)''"
proof -
  let ?P = "\<lambda>n. ToLower (map ascii_lower) (if n = 0 then ''Client'' else copy_name ''Client'' n)
      \<in> set (map (\<lambda>r. ToLower (map ascii_lower) (role_Name r)) example_taken)"
  obtain n where n: "n \<le> length example_taken"
      "freeName (map ascii_lower) ''Client'' example_taken = Some (if n = 0 then ''Client'' else copy_name ''Client'' n)"
      "{m. ?P m} \<inter> {..n} = {..<n}"
    using freeName_fresh [OF rune_wise_lower, of example_taken "''Client''"] by blast
  have "?P 0" by code_simp
  with n(3) have "n \<noteq> 0" by auto
  with n(1) have "n = 1" by (simp add: example_taken_def)
  with n(2) show ?thesis by (simp add: copy_name_def)
qed

text \<open>A description the check accepts is the trimmed text and is at most 140 runes and 560 bytes long; a longer
  one is refused as invalid and nothing else is.\<close>

theorem checkDescription_bounds:
  "case checkDescription d of
     Inr out \<Rightarrow> out = TrimSpace d \<and> RuneCountInString out \<le> 140 \<and> length out \<le> 560
   | Inl e \<Rightarrow> err_chain e = [ErrInvalid] \<and> 140 < RuneCountInString (TrimSpace d)"
  using rune_count_bound [of "map of_char (TrimSpace d)"]
  by (auto simp: checkDescription_def Let_def DescriptionMax_def errorf_def RuneCountInString_def)

text \<open>Parsing welcome steps: an unknown key is refused as invalid, otherwise the answer has the keys given,
  each once and in the wizard's order, and parsing it again changes nothing.\<close>

theorem Parse_steps_canonical:
  "case Parse_steps (Some keys) of
     Inl e \<Rightarrow> err_chain e = [ErrInvalid] \<and> \<not> set keys \<subseteq> set All_steps
   | Inr out \<Rightarrow> (\<exists>steps. out = Some steps \<and> set steps = set keys \<and> subseq steps All_steps \<and>
                   Parse_steps (Some steps) = Inr (Some steps))"
proof (cases "find (\<lambda>k. k \<notin> set All_steps) keys")
  case None
  let ?steps = "filter (\<lambda>k. k \<in> set keys) All_steps"
  have sub: "set keys \<subseteq> set All_steps" using None by (auto simp: find_None_iff)
  have "find (\<lambda>k. k \<notin> set All_steps) ?steps = None" by (auto simp: find_None_iff)
  then have "Parse_steps (Some ?steps) = Inr (Some ?steps)"
    by (simp add: Parse_steps_def conj_commute cong: filter_cong)
  moreover have "set ?steps = set keys" using sub by auto
  ultimately show ?thesis
    using None by (simp add: Parse_steps_def)
next
  case (Some k)
  then have "k \<in> set keys" "k \<notin> set All_steps" by (auto simp: find_Some_iff)
  then show ?thesis using Some by (auto simp: Parse_steps_def errorf_def)
qed

definition raw_of :: "TemplateBody \<Rightarrow> raw_template" where
  "raw_of b = \<lparr>raw_Name = tb_Name b, raw_Description = tb_Description b, raw_Permissions = tb_Permissions b,
     raw_WelcomeSteps = tb_WelcomeSteps b, raw_ShowLockedActions = tb_ShowLockedActions b\<rparr>"

lemma administrator_set:
  "set administrator = set deployInfrastructure \<union>
     {a. known a \<and> AreaOf a \<noteq> AreaInstance \<and> a \<notin> set ownerOnly}"
  by (auto simp: administrator_def known_def Catalog_area)

lemma administrator_known: "set administrator \<subseteq> set AllActions"
proof -
  have "set deployInfrastructure \<subseteq> set AllActions" by (simp add: deployInfrastructure_def AllActions_eq)
  then show ?thesis unfolding administrator_set by (auto simp: known_iff)
qed

text \<open>The Administrator template holds exactly the deploy infrastructure and every catalogued action outside
  the instance area but making and deleting workspaces; every action of it is in the catalog.\<close>

theorem administrator_exact:
  "set_ok administrator \<and> set administrator \<subseteq> set AllActions \<and>
   (Has administrator a \<longleftrightarrow>
      a \<in> set deployInfrastructure \<or> known a \<and> AreaOf a \<noteq> AreaInstance \<and> a \<noteq> WorkspacesCreate \<and> a \<noteq> WorkspacesDelete)"
proof -
  have "set_ok administrator" by (simp add: administrator_def)
  with administrator_known show ?thesis by (auto simp: Has_iff administrator_set ownerOnly_def)
qed

lemma mapr_map: "(\<And>x. x \<in> set xs \<Longrightarrow> f x = Inr (g x)) \<Longrightarrow> mapr f xs = Inr (map g xs)"
  by (induction xs) auto

lemma parseActions_known:
  assumes "set s \<subseteq> set AllActions"
  shows "parseActions s = Inr s"
proof -
  have "ParseAction p = (p, True)" if "p \<in> set s" for p
    using that assms by (auto simp: ParseAction_def AllActions_plain known_iff Let_def)
  then have "parseActions s = Inr (map (\<lambda>p. p) s)"
    unfolding parseActions_def by (intro mapr_map) simp
  then show ?thesis by simp
qed

lemma shipped_texts:
  "list_all (\<lambda>t. TrimSpace (tb_Name (st_Body t)) = tb_Name (st_Body t) \<and> tb_Name (st_Body t) \<noteq> [] \<and>
     checkDescription (tb_Description (st_Body t)) = Inr (tb_Description (st_Body t)) \<and>
     Parse_steps (tb_WelcomeSteps (st_Body t)) = Inr (tb_WelcomeSteps (st_Body t))) ShippedTemplates"
  unfolding ShippedTemplates_def
  apply simp
  apply code_simp
  done

definition plain_action :: "action \<Rightarrow> bool" where
  "plain_action a \<longleftrightarrow> a \<in> set deployInfrastructure \<or>
     a \<in> set AllActions \<and> AreaOf a \<noteq> AreaInstance \<and> a \<notin> set ownerOnly"

lemma plain_in_administrator: "plain_action a \<Longrightarrow> a \<in> set administrator"
  by (auto simp: plain_action_def administrator_set known_iff)

lemma deploy_in_administrator: "set deployInfrastructure \<subseteq> set administrator"
  by (simp add: administrator_set)

lemma plain_actions: "list_all plain_action
     [''attachments:delete'', ''attachments:read'', ''attachments:write'', ''autoplays:read'', ''autoplays:write'', ''channels:read'',
      ''channels:write'', ''chat:read'', ''chat:write'', ''deploys:read'', ''deploys:write'', ''docs:clone'',
      ''docs:delete'', ''docs:lock'', ''docs:read'', ''docs:thread'', ''docs:write'', ''memories:delete'',
      ''memories:read'', ''memories:template'', ''memories:write'', ''mentions:read'', ''mentions:write'', ''notifications:read'',
      ''notifications:write'', ''plays:delete'', ''plays:read'', ''plays:run'', ''plays:write'', ''projects:create'',
      ''projects:read'', ''projects:write'', ''repos:read'', ''repositories:read'', ''repositories:write'', ''reviews:read'',
      ''stacks:delete'', ''stacks:logs'', ''stacks:read'', ''stacks:write'', ''tickets:delete'', ''tickets:read'',
      ''tickets:write'', ''topology:read'', ''voice:read'', ''voice:write'']"
  unfolding plain_action_def AllActions_eq by code_simp

lemma no_area_actions:
  "list_all (\<lambda>r. area_Key r = ''topology'' \<or> list_all (\<lambda>a. \<not> (a \<in> set deployInfrastructure \<or>
     AreaOf a \<noteq> AreaInstance)) (area_Actions r)) instanceAreas"
  by code_simp

lemma administrator_no_area:
  "list_all (\<lambda>r. area_Key r = ''topology'' \<or> set (area_Actions r) \<inter> set administrator = {}) instanceAreas"
  using no_area_actions by (fastforce simp: list_all_iff administrator_set)

lemma chat_plain: "list_all plain_action chat_actions"
  using plain_actions by (simp add: chat_actions_def)

lemma template_set_plain:
  assumes "list_all plain_action xs" "set ys \<subseteq> set administrator"
  shows "set (template_set (xs @ ys)) \<subseteq> set administrator"
  using assms chat_plain plain_in_administrator by (auto simp: template_set_def list_all_iff)

lemma shipped_in_administrator:
  "list_all (\<lambda>t. set (tb_Permissions (st_Body t)) \<subseteq> set administrator) ShippedTemplates"
proof -
  note one = template_set_plain [where ys = "[]", simplified]
  show ?thesis
    unfolding ShippedTemplates_def list.pred_inject ShippedTemplate.simps TemplateBody.simps devops_def
    using plain_actions
    by (intro conjI one template_set_plain deploy_in_administrator order.refl TrueI) simp_all
qed

lemma shipped_set_ok: "list_all (\<lambda>t. set_ok (tb_Permissions (st_Body t))) ShippedTemplates"
  by (simp add: ShippedTemplates_def template_set_def administrator_def)

lemma shipped_names:
  "map (\<lambda>t. ToLower unicode (tb_Name (st_Body t))) ShippedTemplates =
   map (map ascii_lower) [''Client'', ''Junior Developer'', ''Senior Developer'', ''DevOps'', ''Administrator'']"
  by (simp add: ShippedTemplates_def ToLower_def ascii_def)

end
