(* ===== verification/Roles.thy ===== *)
theory Roles
  imports Access_Area Roles_Model
begin

text \<open>
  The roles service over its tables (\<^verbatim>\<open>internal/roles/usecase.go\<close>, \<^verbatim>\<open>internal/roles/template.go\<close>,
  \<^verbatim>\<open>internal/platform/storage/roles_repo.go\<close>).  The state is the roles' table and what references it; a write
  returns the new state or an error and no change.  The member gate, the access domain's answers, the template
  texts, the JSON decoder, ids and clock are parameters; \<open>access_gate\<close> is the access service of this development
  in the place the server wires it.  \<open>role_step\<close> is one step of the tables, and the properties are invariants of
  it: well-formed tables, the protected Owner role, no escalation, and who may change what.
\<close>


section \<open>State\<close>

text \<open>The payload of \<^verbatim>\<open>role.updated\<close>, tenancy's payload of the membership topics, and an outbox row carrying
  one of them.\<close>

record RoleEvent =
  re_RoleID :: string
  re_WorkspaceID :: string
  re_ActorID :: string
  re_Description :: string
  re_WelcomeStepsAdded :: "string list"
  re_ShowLockedActions :: bool

record MemberEvent =
  me_UserID :: string
  me_WorkspaceID :: string
  me_ActorID :: string
  me_ProjectIDs :: "string list"
  me_RoleIDsAdded :: "string list"

record WorkspaceEvent =
  we_WorkspaceID :: string
  we_Name :: string
  we_Slug :: string
  we_ActorID :: string

record WorkspaceArchiveEvent =
  wae_WorkspaceID :: string
  wae_Name :: string
  wae_Slug :: string
  wae_ActorID :: string
  wae_UserIDs :: "string list"

datatype role_outbox =
    TopicUpdated RoleEvent
  | TopicWorkspaceMemberAdded MemberEvent
  | TopicWorkspaceMemberRemoved MemberEvent
  | TopicWorkspaceMemberUpdated MemberEvent
  | TopicWorkspaceUpdated WorkspaceEvent
  | TopicWorkspaceArchived WorkspaceArchiveEvent
  | TopicWorkspaceRestored WorkspaceArchiveEvent

text \<open>A pending invite: the row of \<^verbatim>\<open>workspace_invites\<close>.\<close>

record Invite =
  inv_WorkspaceID :: string
  inv_Login :: string
  inv_RoleID :: string
  inv_InvitedBy :: string
  inv_CreatedAt :: time

text \<open>A workspace: the row of \<^verbatim>\<open>workspaces\<close>, whose chip template is empty while the workspace follows the
  instance's.\<close>

record Workspace =
  wsp_ID :: string
  wsp_Name :: string
  wsp_Slug :: string
  wsp_MentionChipTemplate :: string
  wsp_MentionChipTemplateEdited :: bool
  wsp_AccessSetupFinished :: bool
  wsp_CreatedAt :: time
  wsp_UpdatedAt :: time
  wsp_ArchivedAt :: "time option"

text \<open>The tables a role write touches: the roles, the workspaces they reference, and what references a role with
  ON DELETE CASCADE, that is the member roles and rules of the database and the pending invites.  \<open>db_roles\<close> of the
  database is the column of ids, and \<open>rs_joined\<close> the column \<^verbatim>\<open>created_at\<close> of \<^verbatim>\<open>workspace_members\<close> at a workspace and a person.\<close>

record role_store =
  rs_roles :: "Role list"
  rs_spaces :: "Workspace list"
  rs_db :: database
  rs_joined :: "string \<Rightarrow> string \<Rightarrow> time"
  rs_invites :: "Invite list"
  rs_outbox :: "role_outbox list"

definition rs_workspaces :: "role_store \<Rightarrow> string list" where
  "rs_workspaces st = map wsp_ID (rs_spaces st)"

definition rs_archived :: "role_store \<Rightarrow> string list" where
  "rs_archived st = map wsp_ID (filter (\<lambda>w. wsp_ArchivedAt w \<noteq> None) (rs_spaces st))"

lemma rs_workspaces_upd [simp]:
  "rs_workspaces (st\<lparr>rs_roles := a\<rparr>) = rs_workspaces st" "rs_workspaces (st\<lparr>rs_db := b\<rparr>) = rs_workspaces st"
  "rs_workspaces (st\<lparr>rs_joined := c\<rparr>) = rs_workspaces st" "rs_workspaces (st\<lparr>rs_invites := d\<rparr>) = rs_workspaces st"
  "rs_workspaces (st\<lparr>rs_outbox := e\<rparr>) = rs_workspaces st"
  by (simp_all add: rs_workspaces_def)

text \<open>The service's wiring: the member gate, the access domain's answers, and the template texts.\<close>

record PermissionGate =
  pg_WorkspacePermissions :: "ctx \<Rightarrow> string \<Rightarrow> string \<Rightarrow> string list"
  pg_GrantablePermissions :: "ctx \<Rightarrow> string \<Rightarrow> string \<Rightarrow> string list"

record Roles_Service =
  rsv_RequireMember :: "string \<Rightarrow> string \<Rightarrow> unit res"
  rsv_HolderEvents :: "string \<Rightarrow> string \<Rightarrow> string \<Rightarrow> MemberEvent list res"
  rsv_perms :: "PermissionGate option"
  rsv_templates :: "(string \<Rightarrow> string list res) option"
  rsv_decode :: "string \<Rightarrow> string + raw_template"
  rsv_unicode :: "string \<Rightarrow> string"

definition SetMemberGate ::
  "Roles_Service \<Rightarrow> (string \<Rightarrow> string \<Rightarrow> unit res) \<Rightarrow> (string \<Rightarrow> string \<Rightarrow> string \<Rightarrow> MemberEvent list res) \<Rightarrow> Roles_Service" where
  "SetMemberGate s member holders = s\<lparr>rsv_RequireMember := member, rsv_HolderEvents := holders\<rparr>"

definition SetPermissionGate :: "Roles_Service \<Rightarrow> PermissionGate \<Rightarrow> Roles_Service" where
  "SetPermissionGate s g = s\<lparr>rsv_perms := Some g\<rparr>"

definition SetTemplateRoles :: "Roles_Service \<Rightarrow> (string \<Rightarrow> string list res) \<Rightarrow> Roles_Service" where
  "SetTemplateRoles s t = s\<lparr>rsv_templates := Some t\<rparr>"

definition access_gate :: "Service \<Rightarrow> PermissionGate" where
  "access_gate s = \<lparr>pg_WorkspacePermissions = WorkspacePermissions s, pg_GrantablePermissions = GrantablePermissions s\<rparr>"

section \<open>The repository\<close>

definition toRole :: "Role \<Rightarrow> Role" where
  "toRole row = row\<lparr>role_Permissions := parseSet (role_Permissions row)\<rparr>"

definition roleCreate :: "role_store \<Rightarrow> Role \<Rightarrow> role_store res" where
  "roleCreate st r =
     (if role_ID r \<in> set (map role_ID (rs_roles st)) \<or> role_WorkspaceID r \<notin> set (rs_workspaces st) \<or>
         (role_IsOwnerRole r \<and>
          list_ex (\<lambda>x. role_IsOwnerRole x \<and> role_WorkspaceID x = role_WorkspaceID r) (rs_roles st))
      then Inl (wrapf (''insert role '' @ role_ID r) (sentinel_err ErrConflict))
      else Inr (st\<lparr>rs_roles := rs_roles st @ [r\<lparr>role_Permissions := setJSON (role_Permissions r)\<rparr>],
                   rs_db := (rs_db st)\<lparr>db_roles := db_roles (rs_db st) @ [role_ID r]\<rparr>\<rparr>))"

definition roleGet :: "role_store \<Rightarrow> string \<Rightarrow> Role res" where
  "roleGet st i =
     (case find (\<lambda>r. role_ID r = i) (rs_roles st) of
        None \<Rightarrow> Inl (wrapf (''get role '' @ i) (sentinel_err ErrNotFound))
      | Some row \<Rightarrow> Inr (toRole row))"

text \<open>ORDER BY is_owner_role DESC, created_at, id.\<close>

definition roleList :: "role_store \<Rightarrow> string \<Rightarrow> Role list res" where
  "roleList st workspaceID =
     Inr (map toRole
       (sort_key (\<lambda>r. \<not> role_IsOwnerRole r) (sort_key role_CreatedAt (sort_key role_ID
         (filter (\<lambda>r. role_WorkspaceID r = workspaceID) (rs_roles st))))))"

text \<open>The columns the UPDATE sets; the rest of the row stays.\<close>

definition update_row :: "Role \<Rightarrow> Role \<Rightarrow> Role" where
  "update_row new row =
     (if role_ID row = role_ID new
      then row\<lparr>role_Name := role_Name new, role_Description := role_Description new,
               role_Permissions := setJSON (role_Permissions new), role_WelcomeSteps := role_WelcomeSteps new,
               role_ShowLockedActions := role_ShowLockedActions new, role_UpdatedAt := role_UpdatedAt new\<rparr>
      else row)"

definition roleUpdate :: "role_store \<Rightarrow> Role \<Rightarrow> role_outbox list \<Rightarrow> role_store res" where
  "roleUpdate st r events =
     (if role_ID r \<notin> set (map role_ID (rs_roles st))
      then Inl (wrapf (''update role '' @ role_ID r) (sentinel_err ErrNotFound))
      else Inr (st\<lparr>rs_roles := map (update_row r) (rs_roles st), rs_outbox := rs_outbox st @ events\<rparr>))"

definition cascade_db :: "string \<Rightarrow> database \<Rightarrow> database" where
  "cascade_db i db =
     db\<lparr>db_roles := filter (\<lambda>r. r \<noteq> i) (db_roles db),
        db_member_roles := filter (\<lambda>m. mr_role m \<noteq> i) (db_member_roles db),
        db_overwrites := filter (\<lambda>row. po_RoleID row \<noteq> Some i) (db_overwrites db)\<rparr>"

definition roleDelete :: "role_store \<Rightarrow> string \<Rightarrow> role_outbox list \<Rightarrow> role_store res" where
  "roleDelete st i events =
     (if i \<notin> set (map role_ID (rs_roles st))
      then Inl (wrapf (''delete role '' @ i) (sentinel_err ErrNotFound))
      else Inr (st\<lparr>rs_roles := filter (\<lambda>r. role_ID r \<noteq> i) (rs_roles st), rs_db := cascade_db i (rs_db st),
                   rs_invites := filter (\<lambda>inv. inv_RoleID inv \<noteq> i) (rs_invites st), rs_outbox := rs_outbox st @ events\<rparr>))"

section \<open>Checks\<close>

definition withOwnerSteps :: "Role \<Rightarrow> Role" where
  "withOwnerSteps r = (if role_IsOwnerRole r then r\<lparr>role_WelcomeSteps := Owner_steps\<rparr> else r)"

definition getInWorkspace :: "role_store \<Rightarrow> string \<Rightarrow> string \<Rightarrow> Role res" where
  "getInWorkspace st workspaceID0 roleID0 =
     (let workspaceID = TrimSpace workspaceID0; roleID = TrimSpace roleID0
      in if workspaceID = [] then Inl (errorf ErrInvalid ''workspace id is required'')
         else if roleID = [] then Inl (errorf ErrInvalid ''role id is required'')
         else bindr (map_errr (wrapf (''get role '' @ roleID)) (roleGet st roleID)) (\<lambda>r.
              if role_WorkspaceID r \<noteq> workspaceID then Inl (wrapf (''get role '' @ roleID) (sentinel_err ErrNotFound))
              else Inr (withOwnerSteps r)))"

definition requireHolds :: "Roles_Service \<Rightarrow> ctx \<Rightarrow> string \<Rightarrow> string \<Rightarrow> pset \<Rightarrow> unit res" where
  "requireHolds s c workspaceID actorUserID grant =
     (case rsv_perms s of
        None \<Rightarrow> RequireHeld grant []
      | Some g \<Rightarrow> RequireHeld grant (SetOfStrings (pg_GrantablePermissions g c actorUserID workspaceID)))"

definition held_in :: "Roles_Service \<Rightarrow> ctx \<Rightarrow> string \<Rightarrow> string \<Rightarrow> pset" where
  "held_in s c workspaceID actorUserID =
     (case rsv_perms s of
        None \<Rightarrow> []
      | Some g \<Rightarrow> SetOfStrings (pg_WorkspacePermissions g c actorUserID workspaceID))"

definition requireAction :: "Roles_Service \<Rightarrow> ctx \<Rightarrow> string \<Rightarrow> string \<Rightarrow> action \<Rightarrow> unit res" where
  "requireAction s c workspaceID actorUserID0 a =
     (let actorUserID = TrimSpace actorUserID0
      in if actorUserID = [] then Inl (errorf ErrInvalid ''actor user id is required'')
         else bindr (map_errr (wrapf (''resolve membership in workspace '' @ workspaceID))
                       (rsv_RequireMember s workspaceID actorUserID)) (\<lambda>_.
              if \<not> Has (held_in s c workspaceID actorUserID) a then Inl (errorf ErrForbidden (a @ '' required''))
              else Inr ()))"

definition requireManageRoles :: "Roles_Service \<Rightarrow> ctx \<Rightarrow> string \<Rightarrow> string \<Rightarrow> unit res" where
  "requireManageRoles s c workspaceID actorUserID = requireAction s c workspaceID actorUserID RolesWrite"

definition requireMember :: "Roles_Service \<Rightarrow> string \<Rightarrow> string \<Rightarrow> unit res" where
  "requireMember s workspaceID actorUserID =
     (if TrimSpace actorUserID = [] then Inl (errorf ErrInvalid ''actor user id is required'')
      else (case rsv_RequireMember s workspaceID actorUserID of
              Inr _ \<Rightarrow> Inr ()
            | Inl e \<Rightarrow>
                if errors_is e ErrNotFound \<or> errors_is e ErrForbidden
                then Inl (errorf ErrNotFound (''workspace '' @ workspaceID))
                else Inl (wrapf (''resolve membership in workspace '' @ workspaceID) e)))"

section \<open>Reads\<close>

definition GetRole :: "role_store \<Rightarrow> string \<Rightarrow> string \<Rightarrow> Role res" where
  "GetRole st workspaceID roleID = getInWorkspace st workspaceID roleID"

definition ListRoles :: "role_store \<Rightarrow> string \<Rightarrow> Role list res" where
  "ListRoles st workspaceID0 =
     (let workspaceID = TrimSpace workspaceID0
      in if workspaceID = [] then Inl (errorf ErrInvalid ''workspace id is required'')
         else bindr (map_errr (wrapf (''list roles for workspace '' @ workspaceID)) (roleList st workspaceID))
                (\<lambda>rs. Inr (map withOwnerSteps rs)))"

definition ListForMember :: "Roles_Service \<Rightarrow> role_store \<Rightarrow> string \<Rightarrow> string \<Rightarrow> Role list res" where
  "ListForMember s st workspaceID actorUserID =
     bindr (requireMember s workspaceID actorUserID) (\<lambda>_. ListRoles st workspaceID)"

definition GetForMember :: "Roles_Service \<Rightarrow> role_store \<Rightarrow> string \<Rightarrow> string \<Rightarrow> string \<Rightarrow> Role res" where
  "GetForMember s st workspaceID roleID actorUserID =
     bindr (requireMember s workspaceID actorUserID) (\<lambda>_. GetRole st workspaceID roleID)"

section \<open>Writes\<close>

text \<open>Each takes the id and the time it reads from \<^verbatim>\<open>ids.New\<close> and the clock.\<close>

definition CreateOwnerRole :: "string \<Rightarrow> time \<Rightarrow> role_store \<Rightarrow> string \<Rightarrow> (role_store \<times> Role) res" where
  "CreateOwnerRole newID now st workspaceID0 =
     (let workspaceID = TrimSpace workspaceID0
      in if workspaceID = [] then Inl (errorf ErrInvalid ''workspace id is required'')
         else
           let r = \<lparr>role_ID = newID, role_WorkspaceID = workspaceID, role_Name = ''Owner'', role_Description = [],
                    role_Permissions = [], role_IsOwnerRole = True, role_WelcomeSteps = [],
                    role_ShowLockedActions = False, role_CreatedAt = now, role_UpdatedAt = now\<rparr>
           in bindr (map_errr (wrapf (''create owner role for workspace '' @ workspaceID)) (roleCreate st r))
                (\<lambda>st'. Inr (st', withOwnerSteps r)))"

definition steps_list :: "string list option \<Rightarrow> string list" where
  "steps_list steps = (case steps of None \<Rightarrow> [] | Some ks \<Rightarrow> ks)"

definition CreateRole ::
  "Roles_Service \<Rightarrow> ctx \<Rightarrow> string \<Rightarrow> time \<Rightarrow> role_store \<Rightarrow> string \<Rightarrow> string \<Rightarrow> string \<Rightarrow> string \<Rightarrow> pset \<Rightarrow>
   string list option \<Rightarrow> bool \<Rightarrow> (role_store \<times> Role) res" where
  "CreateRole s c newID now st workspaceID0 actorUserID name0 description0 perms steps0 showLockedActions =
     (let workspaceID = TrimSpace workspaceID0; name = TrimSpace name0
      in if workspaceID = [] then Inl (errorf ErrInvalid ''workspace id is required'')
         else if name = [] then Inl (errorf ErrInvalid ''role name is required'')
         else bindr (checkDescription description0) (\<lambda>description.
              bindr (Parse_steps steps0) (\<lambda>steps.
              bindr (requireManageRoles s c workspaceID actorUserID) (\<lambda>_.
              bindr (requireHolds s c workspaceID actorUserID perms) (\<lambda>_.
              let r = \<lparr>role_ID = newID, role_WorkspaceID = workspaceID, role_Name = name,
                       role_Description = description, role_Permissions = perms, role_IsOwnerRole = False,
                       role_WelcomeSteps = steps_list steps, role_ShowLockedActions = showLockedActions,
                       role_CreatedAt = now, role_UpdatedAt = now\<rparr>
              in bindr (map_errr (wrapf (''create role in workspace '' @ workspaceID)) (roleCreate st r))
                   (\<lambda>st'. Inr (st', r)))))))"

definition UpdateRole ::
  "Roles_Service \<Rightarrow> ctx \<Rightarrow> time \<Rightarrow> role_store \<Rightarrow> string \<Rightarrow> string \<Rightarrow> string \<Rightarrow> string \<Rightarrow> string option \<Rightarrow> pset \<Rightarrow>
   string list option \<Rightarrow> bool option \<Rightarrow> (role_store \<times> Role) res" where
  "UpdateRole s c now st workspaceID roleID actorUserID name0 description0 perms steps0 showLockedActions =
     (let name = TrimSpace name0
      in if name = [] then Inl (errorf ErrInvalid ''role name is required'')
         else bindr (case description0 of
                       None \<Rightarrow> Inr None
                     | Some d \<Rightarrow> bindr (checkDescription d) (\<lambda>checked. Inr (Some checked))) (\<lambda>description.
              bindr (Parse_steps steps0) (\<lambda>steps.
              bindr (getInWorkspace st workspaceID roleID) (\<lambda>r.
              if role_IsOwnerRole r
              then Inl (errorf ErrInvalid (''the Owner role can't be renamed or edited; its welcome steps are always '' @
                          strings_join Owner_steps '', ''))
              else
              bindr (requireManageRoles s c workspaceID actorUserID) (\<lambda>_.
              bindr (requireHolds s c workspaceID actorUserID (Except perms (role_Permissions r))) (\<lambda>_.
              let added = (case steps of None \<Rightarrow> [] | Some ks \<Rightarrow> Added (role_WelcomeSteps r) ks);
                  r' = r\<lparr>role_WelcomeSteps := (case steps of None \<Rightarrow> role_WelcomeSteps r | Some ks \<Rightarrow> ks),
                         role_Description := (case description of None \<Rightarrow> role_Description r | Some d \<Rightarrow> d),
                         role_ShowLockedActions :=
                           (case showLockedActions of None \<Rightarrow> role_ShowLockedActions r | Some b \<Rightarrow> b),
                         role_Name := name, role_Permissions := perms, role_UpdatedAt := now\<rparr>;
                  event = TopicUpdated \<lparr>re_RoleID = role_ID r', re_WorkspaceID = role_WorkspaceID r',
                            re_ActorID = actorUserID, re_Description = role_Description r',
                            re_WelcomeStepsAdded = added, re_ShowLockedActions = role_ShowLockedActions r'\<rparr>
              in bindr (map_errr (wrapf (''update role '' @ roleID)) (roleUpdate st r' [event]))
                   (\<lambda>st'. Inr (st', r'))))))))"

definition DeleteRole ::
  "Roles_Service \<Rightarrow> ctx \<Rightarrow> role_store \<Rightarrow> string \<Rightarrow> string \<Rightarrow> string \<Rightarrow> role_store res" where
  "DeleteRole s c st workspaceID roleID actorUserID =
     bindr (getInWorkspace st workspaceID roleID) (\<lambda>r.
     if role_IsOwnerRole r then Inl (errorf ErrInvalid ''the Owner role can't be deleted'')
     else bindr (requireManageRoles s c workspaceID actorUserID) (\<lambda>_.
          bindr (map_errr (wrapf (''list holders of role '' @ roleID))
                   (rsv_HolderEvents s workspaceID roleID actorUserID)) (\<lambda>holders.
          let event = TopicUpdated \<lparr>re_RoleID = role_ID r, re_WorkspaceID = role_WorkspaceID r,
                        re_ActorID = actorUserID, re_Description = role_Description r,
                        re_WelcomeStepsAdded = [], re_ShowLockedActions = False\<rparr>
          in map_errr (wrapf (''delete role '' @ roleID))
               (roleDelete st roleID (map TopicWorkspaceMemberUpdated holders @ [event])))))"

definition cloneSource :: "role_store \<Rightarrow> string \<Rightarrow> string \<Rightarrow> Role res" where
  "cloneSource st sourceWorkspaceID roleID0 =
     (if TrimSpace sourceWorkspaceID \<noteq> [] then getInWorkspace st sourceWorkspaceID roleID0
      else
        let roleID = TrimSpace roleID0
        in if roleID = [] then Inl (errorf ErrInvalid ''role id is required'')
           else map_errr (wrapf (''get role '' @ roleID)) (roleGet st roleID))"

text \<open>The checks of \<open>Clone\<close>, giving the source and the roles of the target workspace.\<close>

definition clone_checks ::
  "Roles_Service \<Rightarrow> ctx \<Rightarrow> role_store \<Rightarrow> string \<Rightarrow> string \<Rightarrow> string \<Rightarrow> string \<Rightarrow> (Role \<times> Role list) res" where
  "clone_checks s c st sourceWorkspaceID roleID targetWorkspaceID actorUserID =
     (if targetWorkspaceID = [] then Inl (errorf ErrInvalid ''target workspace id is required'')
      else bindr (cloneSource st sourceWorkspaceID roleID) (\<lambda>source.
           bindr (requireAction s c (role_WorkspaceID source) actorUserID RolesClone) (\<lambda>_.
           if role_IsOwnerRole source
           then Inl (errorf ErrInvalid ''the Owner role can't be cloned; every workspace already has its own'')
           else if targetWorkspaceID = role_WorkspaceID source
           then Inl (errorf ErrInvalid ''pick a workspace other than the one the role is in'')
           else bindr (map_errr (\<lambda>e. if errors_is e ErrNotFound
                                    then errorf ErrForbidden ''you aren't a member of the target workspace'' else e)
                         (requireAction s c targetWorkspaceID actorUserID RolesWrite)) (\<lambda>_.
                bindr (requireHolds s c targetWorkspaceID actorUserID (role_Permissions source)) (\<lambda>_.
                bindr (map_errr (wrapf (''list roles for workspace '' @ targetWorkspaceID)) (roleList st targetWorkspaceID))
                  (\<lambda>taken. Inr (source, taken)))))))"

text \<open>\<open>None\<close> is a search for a name that does not end.\<close>

definition CloneRole ::
  "Roles_Service \<Rightarrow> ctx \<Rightarrow> string \<Rightarrow> time \<Rightarrow> role_store \<Rightarrow> string \<Rightarrow> string \<Rightarrow> string \<Rightarrow> string \<Rightarrow>
   (role_store \<times> Role) res option" where
  "CloneRole s c newID now st sourceWorkspaceID roleID targetWorkspaceID0 actorUserID =
     (let targetWorkspaceID = TrimSpace targetWorkspaceID0
      in case clone_checks s c st sourceWorkspaceID roleID targetWorkspaceID actorUserID of
           Inl e \<Rightarrow> Some (Inl e)
         | Inr (source, taken) \<Rightarrow>
             (case freeName (rsv_unicode s) (role_Name source) taken of
                None \<Rightarrow> None
              | Some name \<Rightarrow>
                  let r = \<lparr>role_ID = newID, role_WorkspaceID = targetWorkspaceID, role_Name = name,
                           role_Description = role_Description source,
                           role_Permissions = SetOf (role_Permissions source), role_IsOwnerRole = False,
                           role_WelcomeSteps = role_WelcomeSteps source,
                           role_ShowLockedActions = role_ShowLockedActions source,
                           role_CreatedAt = now, role_UpdatedAt = now\<rparr>
                  in Some (bindr (map_errr (wrapf (''clone role '' @ roleID @ '' into workspace '' @ targetWorkspaceID))
                                    (roleCreate st r)) (\<lambda>st'. Inr (st', r)))))"

definition template_copy :: "string \<Rightarrow> string \<Rightarrow> time \<Rightarrow> TemplateBody \<Rightarrow> Role" where
  "template_copy newID workspaceID now t =
     \<lparr>role_ID = newID, role_WorkspaceID = workspaceID, role_Name = tb_Name t,
      role_Description = tb_Description t, role_Permissions = tb_Permissions t,
      role_IsOwnerRole = False, role_WelcomeSteps = steps_list (tb_WelcomeSteps t),
      role_ShowLockedActions = tb_ShowLockedActions t, role_CreatedAt = now, role_UpdatedAt = now\<rparr>"

text \<open>The loop of \<open>SeedTemplateRoles\<close>: \<open>taken\<close> is the lower-case names in use and \<open>n\<close> counts the ids used; a
  failure keeps the copies made before it, each in a transaction of its own.\<close>

fun seed_loop ::
  "Roles_Service \<Rightarrow> (nat \<Rightarrow> string) \<Rightarrow> time \<Rightarrow> string \<Rightarrow> string list \<Rightarrow> nat \<Rightarrow> string list \<Rightarrow> role_store \<Rightarrow>
   role_store \<times> unit res" where
  "seed_loop s newIDs now workspaceID taken n [] st = (st, Inr ())"
| "seed_loop s newIDs now workspaceID taken n (body # bodies) st =
     (case ParseTemplate (rsv_decode s) body of
        Inl e \<Rightarrow> (st, Inl (wrapf ''template role'' e))
      | Inr t \<Rightarrow>
          if ToLower (rsv_unicode s) (tb_Name t) \<in> set taken
          then seed_loop s newIDs now workspaceID taken n bodies st
          else
            (case roleCreate st (template_copy (newIDs n) workspaceID now t) of
                  Inl e \<Rightarrow> (st, Inl (wrapf (''copy template role '' @ go_q (tb_Name t) @ '' into workspace '' @ workspaceID) e))
                | Inr st' \<Rightarrow>
                    seed_loop s newIDs now workspaceID (ToLower (rsv_unicode s) (tb_Name t) # taken) (n + 1) bodies st'))"

definition SeedTemplateRoles ::
  "Roles_Service \<Rightarrow> (nat \<Rightarrow> string) \<Rightarrow> time \<Rightarrow> role_store \<Rightarrow> string \<Rightarrow> role_store \<times> unit res" where
  "SeedTemplateRoles s newIDs now st workspaceID =
     (case rsv_templates s of
        None \<Rightarrow> (st, Inr ())
      | Some bodiesOf \<Rightarrow>
          (case bodiesOf TemplateKind of
             Inl e \<Rightarrow> (st, Inl (wrapf ''read the template roles'' e))
           | Inr bodies \<Rightarrow>
               (case roleList st workspaceID of
                  Inl e \<Rightarrow> (st, Inl (wrapf (''list roles for workspace '' @ workspaceID) e))
                | Inr existing \<Rightarrow>
                    seed_loop s newIDs now workspaceID
                      (map (\<lambda>r. ToLower (rsv_unicode s) (role_Name r)) existing) 0 bodies st)))"

section \<open>The invariant of the tables\<close>

text \<open>An id as \<^verbatim>\<open>ids.New\<close> makes them is not empty and has no white space at its ends.  Ids are unique and referenced workspaces
  exist, a workspace has at most one Owner role, and every reference to a role is to a role of the table.\<close>

definition id_ok :: "string \<Rightarrow> bool" where
  "id_ok i \<longleftrightarrow> i \<noteq> [] \<and> TrimSpace i = i"

definition role_refs :: "role_store \<Rightarrow> string set" where
  "role_refs st =
     mr_role ` set (db_member_roles (rs_db st)) \<union> {i. Some i \<in> po_RoleID ` set (db_overwrites (rs_db st))} \<union>
     inv_RoleID ` set (rs_invites st)"

definition role_ids :: "role_store \<Rightarrow> string list" where
  "role_ids st = map role_ID (rs_roles st)"

definition role_spaces :: "role_store \<Rightarrow> string list" where
  "role_spaces st = map role_WorkspaceID (rs_roles st)"

definition owner_workspaces :: "role_store \<Rightarrow> string list" where
  "owner_workspaces st = map role_WorkspaceID (filter role_IsOwnerRole (rs_roles st))"

definition tables_ok :: "role_store \<Rightarrow> bool" where
  "tables_ok st \<longleftrightarrow>
     distinct (role_ids st) \<and> db_roles (rs_db st) = role_ids st \<and> list_all id_ok (role_ids st) \<and>
     set (role_spaces st) \<subseteq> set (rs_workspaces st) \<and>
     distinct (owner_workspaces st) \<and> role_refs st \<subseteq> set (role_ids st)"

section \<open>Steps\<close>

text \<open>A write on behalf of an actor, and every step of the tables: a write, the Owner role of a new workspace, and
  seeding, finished or broken off.\<close>

inductive role_write :: "Roles_Service \<Rightarrow> ctx \<Rightarrow> string \<Rightarrow> role_store \<Rightarrow> role_store \<Rightarrow> bool" for s c actor where
  create: "id_ok newID \<Longrightarrow> CreateRole s c newID now st ws actor name d perms steps sh = Inr (st', r) \<Longrightarrow>
    role_write s c actor st st'"
| update: "UpdateRole s c now st ws i actor name d perms steps sh = Inr (st', r) \<Longrightarrow> role_write s c actor st st'"
| delete: "DeleteRole s c st ws i actor = Inr st' \<Longrightarrow> role_write s c actor st st'"
| clone: "id_ok newID \<Longrightarrow> CloneRole s c newID now st ws i target actor = Some (Inr (st', r)) \<Longrightarrow>
    role_write s c actor st st'"

inductive role_step :: "Roles_Service \<Rightarrow> role_store \<Rightarrow> role_store \<Rightarrow> bool" for s where
  written: "role_write s c actor st st' \<Longrightarrow> role_step s st st'"
| owner: "id_ok newID \<Longrightarrow> CreateOwnerRole newID now st ws = Inr (st', r) \<Longrightarrow> role_step s st st'"
| seed: "\<forall>n. id_ok (newIDs n) \<Longrightarrow> SeedTemplateRoles s newIDs now st ws = (st', res) \<Longrightarrow> role_step s st st'"

section \<open>The repository's contract\<close>

text \<open>What the service relies on: how each write changes what a read answers, under the invariant it keeps.  A
  client's lemma: a role whose id no write names reads the same after it.\<close>

locale role_repo =
  fixes ok :: "'st \<Rightarrow> bool"
    and create :: "'st \<Rightarrow> Role \<Rightarrow> 'st res"
    and get :: "'st \<Rightarrow> string \<Rightarrow> Role res"
    and upd :: "'st \<Rightarrow> Role \<Rightarrow> 'ev list \<Rightarrow> 'st res"
    and del :: "'st \<Rightarrow> string \<Rightarrow> 'ev list \<Rightarrow> 'st res"
  assumes create_ok: "ok st \<Longrightarrow> id_ok (role_ID r) \<Longrightarrow> create st r = Inr st' \<Longrightarrow> ok st'"
    and upd_ok: "ok st \<Longrightarrow> upd st r evs = Inr st' \<Longrightarrow> ok st'"
    and del_ok: "ok st \<Longrightarrow> del st i evs = Inr st' \<Longrightarrow> ok st'"
    and create_new: "create st r = Inr st' \<Longrightarrow> \<not> okr (get st (role_ID r))"
    and get_create: "create st r = Inr st' \<Longrightarrow> get st' i = (if i = role_ID r then Inr (toRole r) else get st i)"
    and get_upd: "ok st \<Longrightarrow> upd st r evs = Inr st' \<Longrightarrow>
      get st' i = (if i = role_ID r then bindr (get st i) (\<lambda>old. Inr (toRole (update_row r old))) else get st i)"
    and get_del: "del st i evs = Inr st' \<Longrightarrow>
      get st' j = (if j = i then Inl (wrapf (''get role '' @ i) (sentinel_err ErrNotFound)) else get st j)"
    and get_id: "get st i = Inr r \<Longrightarrow> role_ID r = i"
begin

lemma create_keeps: "create st r = Inr st' \<Longrightarrow> get st i = Inr x \<Longrightarrow> get st' i = Inr x"
  using create_new [of st r st'] by (auto simp: get_create)

lemma upd_keeps: "ok st \<Longrightarrow> upd st r evs = Inr st' \<Longrightarrow> i \<noteq> role_ID r \<Longrightarrow> get st' i = get st i"
  by (simp add: get_upd)

lemma del_keeps: "del st i evs = Inr st' \<Longrightarrow> j \<noteq> i \<Longrightarrow> get st' j = get st j"
  by (simp add: get_del)

end

lemma update_row_sel [simp]:
  "role_ID (update_row r x) = role_ID x" "role_WorkspaceID (update_row r x) = role_WorkspaceID x"
  "role_IsOwnerRole (update_row r x) = role_IsOwnerRole x"
  by (simp_all add: update_row_def)

lemma toRole_sel [simp]:
  "role_ID (toRole x) = role_ID x" "role_WorkspaceID (toRole x) = role_WorkspaceID x"
  "role_IsOwnerRole (toRole x) = role_IsOwnerRole x" "role_Name (toRole x) = role_Name x"
  "set (role_Permissions (toRole x)) = set (role_Permissions x)" "set_ok (role_Permissions (toRole x))"
  by (simp_all add: toRole_def parseSet_def SetOfStrings_def)

lemma update_row_maps:
  "map role_ID (map (update_row r) xs) = map role_ID xs"
  "map role_WorkspaceID (map (update_row r) xs) = map role_WorkspaceID xs"
  "map role_WorkspaceID (filter role_IsOwnerRole (map (update_row r) xs)) =
   map role_WorkspaceID (filter role_IsOwnerRole xs)"
  by (induction xs) auto

lemma create_columns:
  assumes "roleCreate st r = Inr st'"
  shows "role_ids st' = role_ids st @ [role_ID r]" "role_ID r \<notin> set (role_ids st)"
    "role_spaces st' = role_spaces st @ [role_WorkspaceID r]" "role_WorkspaceID r \<in> set (rs_workspaces st)"
    "distinct (owner_workspaces st) \<Longrightarrow> distinct (owner_workspaces st')" "role_refs st' = role_refs st"
    "db_roles (rs_db st') = db_roles (rs_db st) @ [role_ID r]" "rs_workspaces st' = rs_workspaces st"
proof -
  have st': "st' = st\<lparr>rs_roles := rs_roles st @ [r\<lparr>role_Permissions := setJSON (role_Permissions r)\<rparr>],
                   rs_db := (rs_db st)\<lparr>db_roles := db_roles (rs_db st) @ [role_ID r]\<rparr>\<rparr>"
    and new: "role_ID r \<notin> set (map role_ID (rs_roles st))"
    and one: "role_IsOwnerRole r \<longrightarrow> role_WorkspaceID r \<notin> set (owner_workspaces st)"
    using assms by (auto simp: roleCreate_def list_ex_iff owner_workspaces_def split: if_splits)
  show "role_WorkspaceID r \<in> set (rs_workspaces st)" using assms by (auto simp: roleCreate_def split: if_splits)
  show "distinct (owner_workspaces st')" if "distinct (owner_workspaces st)"
    using that one unfolding owner_workspaces_def st' by (cases "role_IsOwnerRole r") simp_all
  show "role_ids st' = role_ids st @ [role_ID r]" "role_ID r \<notin> set (role_ids st)"
    "role_spaces st' = role_spaces st @ [role_WorkspaceID r]"
    using new unfolding role_ids_def role_spaces_def st' by simp_all
  show "role_refs st' = role_refs st" "db_roles (rs_db st') = db_roles (rs_db st) @ [role_ID r]"
    "rs_workspaces st' = rs_workspaces st"
    unfolding role_refs_def st' by simp_all
qed

lemma tables_ok_create: "tables_ok st \<Longrightarrow> id_ok (role_ID r) \<Longrightarrow> roleCreate st r = Inr st' \<Longrightarrow> tables_ok st'"
  unfolding tables_ok_def using create_columns [of st r st'] by auto

lemma update_columns:
  assumes "roleUpdate st r evs = Inr st'"
  shows "role_ids st' = role_ids st" "role_spaces st' = role_spaces st" "owner_workspaces st' = owner_workspaces st"
    "role_refs st' = role_refs st" "rs_db st' = rs_db st" "rs_workspaces st' = rs_workspaces st"
proof -
  have st': "st' = st\<lparr>rs_roles := map (update_row r) (rs_roles st), rs_outbox := rs_outbox st @ evs\<rparr>"
    using assms by (simp add: roleUpdate_def split: if_splits)
  show "role_ids st' = role_ids st" "role_spaces st' = role_spaces st" "owner_workspaces st' = owner_workspaces st"
    unfolding role_ids_def role_spaces_def owner_workspaces_def st'
    by (simp_all add: update_row_maps del: map_map filter_map)
  show "role_refs st' = role_refs st" "rs_db st' = rs_db st" "rs_workspaces st' = rs_workspaces st"
    unfolding role_refs_def st' by simp_all
qed

lemma tables_ok_update: "tables_ok st \<Longrightarrow> roleUpdate st r evs = Inr st' \<Longrightarrow> tables_ok st'"
  by (simp add: tables_ok_def update_columns)

lemma held_filter:
  "map mr_role (filter P (filter (\<lambda>m. mr_role m \<noteq> i) ms)) = filter (\<lambda>j. j \<noteq> i) (map mr_role (filter P ms))"
  by (induction ms) auto

lemma distinct_filter_map: "distinct (map f xs) \<Longrightarrow> distinct (map f (filter P xs))"
  by (simp add: distinct_map_filter)

lemma delete_columns:
  assumes "roleDelete st i evs = Inr st'"
  shows "role_ids st' = filter (\<lambda>r. r \<noteq> i) (role_ids st)" "set (role_spaces st') \<subseteq> set (role_spaces st)"
    "distinct (owner_workspaces st) \<Longrightarrow> distinct (owner_workspaces st')" "role_refs st' = role_refs st - {i}"
    "db_roles (rs_db st') = filter (\<lambda>r. r \<noteq> i) (db_roles (rs_db st))" "rs_workspaces st' = rs_workspaces st"
proof -
  have st': "st' = st\<lparr>rs_roles := filter (\<lambda>r. role_ID r \<noteq> i) (rs_roles st), rs_db := cascade_db i (rs_db st),
                   rs_invites := filter (\<lambda>inv. inv_RoleID inv \<noteq> i) (rs_invites st), rs_outbox := rs_outbox st @ evs\<rparr>"
    using assms by (simp add: roleDelete_def split: if_splits)
  show "role_ids st' = filter (\<lambda>r. r \<noteq> i) (role_ids st)" "set (role_spaces st') \<subseteq> set (role_spaces st)"
    unfolding role_ids_def role_spaces_def st' by (auto simp: filter_map comp_def)
  show "distinct (owner_workspaces st')" if "distinct (owner_workspaces st)"
    using distinct_filter_map [OF that [unfolded owner_workspaces_def], of "\<lambda>r. role_ID r \<noteq> i"]
    unfolding owner_workspaces_def st' by (simp add: conj_commute)
  show "role_refs st' = role_refs st - {i}"
    unfolding role_refs_def st' cascade_db_def by force
  show "db_roles (rs_db st') = filter (\<lambda>r. r \<noteq> i) (db_roles (rs_db st))" "rs_workspaces st' = rs_workspaces st"
    unfolding st' cascade_db_def by simp_all
qed

lemma tables_ok_delete: "tables_ok st \<Longrightarrow> roleDelete st i evs = Inr st' \<Longrightarrow> tables_ok st'"
  unfolding tables_ok_def using delete_columns [of st i evs st'] by (auto simp: list_all_iff)

lemma roleGet_id: "roleGet st i = Inr r \<Longrightarrow> role_ID r = i"
  by (auto simp: roleGet_def find_Some_iff split: option.splits)

lemma find_absent: "i \<notin> set (role_ids st) \<Longrightarrow> find (\<lambda>x. role_ID x = i) (rs_roles st) = None"
  by (auto simp: find_None_iff role_ids_def)

lemma create_roles: "roleCreate st r = Inr st' \<Longrightarrow> rs_roles st' = rs_roles st @ [r]"
  by (auto simp: roleCreate_def setJSON_def Actions_def split: if_splits)

lemma roleGet_create:
  assumes "roleCreate st r = Inr st'"
  shows "roleGet st' i = (if i = role_ID r then Inr (toRole r) else roleGet st i)"
proof -
  note st' = create_roles [OF assms]
  show ?thesis
    using find_absent [OF create_columns(2) [OF assms]]
    by (cases "i = role_ID r") (simp_all add: roleGet_def st' find_append split: option.splits)
qed

lemma find_update_row:
  "find (\<lambda>x. role_ID x = i) (map (update_row r) xs) = map_option (update_row r) (find (\<lambda>x. role_ID x = i) xs)"
  by (induction xs) auto

lemma update_row_other: "role_ID x \<noteq> role_ID r \<Longrightarrow> update_row r x = x"
  by (simp add: update_row_def)

lemma find_id: "find (\<lambda>x. role_ID x = i) xs = Some y \<Longrightarrow> role_ID y = i"
  by (auto simp: find_Some_iff)

lemma toRole_update_row: "role_ID x = role_ID r \<Longrightarrow> toRole (update_row r (toRole x)) = toRole (update_row r x)"
  by (simp add: toRole_def update_row_def)

lemma roleGet_update:
  assumes "roleUpdate st r evs = Inr st'"
  shows "roleGet st' i = (if i = role_ID r then bindr (roleGet st i) (\<lambda>old. Inr (toRole (update_row r old))) else roleGet st i)"
proof -
  have st': "rs_roles st' = map (update_row r) (rs_roles st)"
    using assms by (auto simp: roleUpdate_def split: if_splits)
  show ?thesis
  proof (cases "find (\<lambda>x. role_ID x = i) (rs_roles st)")
    case None
    then show ?thesis by (cases "i = role_ID r") (simp_all add: roleGet_def st' find_update_row)
  next
    case (Some x)
    then show ?thesis using find_id [OF Some]
      by (cases "i = role_ID r") (simp_all add: roleGet_def st' find_update_row toRole_update_row update_row_other)
  qed
qed

lemma find_filter_other:
  "find (\<lambda>x. role_ID x = j) (filter (\<lambda>x. role_ID x \<noteq> i) xs) =
   (if j = i then None else find (\<lambda>x. role_ID x = j) xs)"
  by (induction xs) auto

lemma roleGet_delete:
  "roleDelete st i evs = Inr st' \<Longrightarrow>
   roleGet st' j = (if j = i then Inl (wrapf (''get role '' @ i) (sentinel_err ErrNotFound)) else roleGet st j)"
  by (auto simp: roleDelete_def roleGet_def find_filter_other split: if_splits)

interpretation rr: role_repo tables_ok roleCreate roleGet roleUpdate roleDelete
proof unfold_locales
  show "\<not> okr (roleGet st (role_ID r))" if "roleCreate st r = Inr st'" for st r st'
    using find_absent [OF create_columns(2) [OF that]] by (simp add: roleGet_def)
qed (auto intro: tables_ok_create tables_ok_update tables_ok_delete roleGet_id
      simp: roleGet_create roleGet_update roleGet_delete)

section \<open>What a write has checked\<close>

lemma withOwnerSteps_sel [simp]:
  "role_ID (withOwnerSteps r) = role_ID r" "role_WorkspaceID (withOwnerSteps r) = role_WorkspaceID r"
  "role_IsOwnerRole (withOwnerSteps r) = role_IsOwnerRole r" "role_Permissions (withOwnerSteps r) = role_Permissions r"
  "\<not> role_IsOwnerRole r \<Longrightarrow> withOwnerSteps r = r"
  by (simp_all add: withOwnerSteps_def)

lemma getInWorkspace_D:
  "getInWorkspace st ws i = Inr r \<Longrightarrow>
   \<exists>r0. roleGet st (TrimSpace i) = Inr r0 \<and> r = withOwnerSteps r0 \<and> role_WorkspaceID r0 = TrimSpace ws"
  by (auto simp: getInWorkspace_def Let_def bindr_Inr_iff split: if_splits)

lemma CreateRole_D:
  assumes "CreateRole s c newID now st ws actor name d perms steps sh = Inr (st', r)"
  shows "roleCreate st r = Inr st'" "role_ID r = newID" "role_WorkspaceID r = TrimSpace ws"
    "role_Permissions r = perms" "\<not> role_IsOwnerRole r"
    "requireManageRoles s c (TrimSpace ws) actor = Inr ()" "requireHolds s c (TrimSpace ws) actor perms = Inr ()"
  using assms by (auto simp: CreateRole_def Let_def bindr_Inr_iff split: if_splits)

lemma UpdateRole_D:
  assumes "UpdateRole s c now st ws i actor name d perms steps sh = Inr (st', r)"
  obtains r0 ev where "roleGet st (TrimSpace i) = Inr r0" "role_WorkspaceID r0 = TrimSpace ws"
    "\<not> role_IsOwnerRole r0" "role_ID r = role_ID r0" "role_WorkspaceID r = role_WorkspaceID r0"
    "role_Permissions r = perms" "roleUpdate st r [ev] = Inr st'"
    "requireManageRoles s c ws actor = Inr ()" "requireHolds s c ws actor (Except perms (role_Permissions r0)) = Inr ()"
proof -
  from assms obtain r1 ev where
    "getInWorkspace st ws i = Inr r1" "\<not> role_IsOwnerRole r1" "role_ID r = role_ID r1"
    "role_WorkspaceID r = role_WorkspaceID r1" "role_Permissions r = perms" "roleUpdate st r [ev] = Inr st'"
    "requireManageRoles s c ws actor = Inr ()" "requireHolds s c ws actor (Except perms (role_Permissions r1)) = Inr ()"
    by (auto simp: UpdateRole_def Let_def bindr_Inr_iff split: if_splits)
  with getInWorkspace_D [of st ws i r1] that show thesis by auto
qed

lemma DeleteRole_D:
  assumes "DeleteRole s c st ws i actor = Inr st'"
  obtains r0 evs where "roleGet st (TrimSpace i) = Inr r0" "role_WorkspaceID r0 = TrimSpace ws"
    "\<not> role_IsOwnerRole r0" "roleDelete st i evs = Inr st'" "requireManageRoles s c ws actor = Inr ()"
proof -
  from assms obtain r1 evs where
    "getInWorkspace st ws i = Inr r1" "\<not> role_IsOwnerRole r1" "roleDelete st i evs = Inr st'"
    "requireManageRoles s c ws actor = Inr ()"
    by (auto simp: DeleteRole_def Let_def bindr_Inr_iff split: if_splits)
  with getInWorkspace_D [of st ws i r1] that show thesis by auto
qed

lemma CloneRole_D:
  assumes "CloneRole s c newID now st ws i target actor = Some (Inr (st', r))"
  obtains source where "roleCreate st r = Inr st'" "role_ID r = newID" "role_WorkspaceID r = TrimSpace target"
    "role_Permissions r = SetOf (role_Permissions source)" "\<not> role_IsOwnerRole r"
    "requireManageRoles s c (TrimSpace target) actor = Inr ()"
    "requireHolds s c (TrimSpace target) actor (role_Permissions source) = Inr ()"
    "cloneSource st ws i = Inr source"
proof -
  from assms obtain source taken where "clone_checks s c st ws i (TrimSpace target) actor = Inr (source, taken)"
    "roleCreate st r = Inr st'" "role_ID r = newID" "role_WorkspaceID r = TrimSpace target"
    "role_Permissions r = SetOf (role_Permissions source)" "\<not> role_IsOwnerRole r"
    by (auto simp: CloneRole_def Let_def bindr_Inr_iff split: sum.splits option.splits prod.splits)
  with that show thesis
    by (auto simp: clone_checks_def requireManageRoles_def bindr_Inr_iff split: if_splits)
qed

lemma CreateOwnerRole_D:
  "CreateOwnerRole newID now st ws = Inr (st', r) \<Longrightarrow>
   \<exists>row. roleCreate st row = Inr st' \<and> role_ID row = newID \<and> r = withOwnerSteps row"
  by (auto simp: CreateOwnerRole_def Let_def bindr_Inr_iff split: if_splits)

section \<open>Steps keep the tables\<close>

lemma seed_loop_inv:
  assumes "\<And>st r st'. P st \<Longrightarrow> id_ok (role_ID r) \<Longrightarrow> roleCreate st r = Inr st' \<Longrightarrow> P st'"
    and "P st" and "\<forall>n. id_ok (newIDs n)"
  shows "P (fst (seed_loop s newIDs now ws taken n bodies st))"
  using assms(2,3)
proof (induction s newIDs now ws taken n bodies st rule: seed_loop.induct [case_names Nil Cons])
  case (Cons s newIDs now ws taken n body bodies st)
  show ?case
  proof (cases "ParseTemplate (rsv_decode s) body")
    case (Inr t)
    show ?thesis
    proof (cases "ToLower (rsv_unicode s) (tb_Name t) \<in> set taken")
      case True
      then show ?thesis using Cons.IH(1) [OF Inr True] Cons.prems by (simp add: Inr)
    next
      case False
      have "id_ok (role_ID (template_copy (newIDs n) ws now t))"
        using Cons.prems by (simp add: template_copy_def)
      then show ?thesis
        using Cons.IH(2) [OF Inr False] Cons.prems assms(1)
        by (simp add: Inr False split: sum.splits)
    qed
  qed (simp add: Cons.prems)
qed simp

lemma SeedTemplateRoles_inv:
  assumes "\<And>st r st'. P st \<Longrightarrow> id_ok (role_ID r) \<Longrightarrow> roleCreate st r = Inr st' \<Longrightarrow> P st'"
    and "\<forall>n. id_ok (newIDs n)" and "P st" and "SeedTemplateRoles s newIDs now st ws = (st', e)"
  shows "P st'"
proof -
  have "P (fst (seed_loop s newIDs now ws taken 0 bodies st))" for taken bodies
    by (rule seed_loop_inv) (use assms in auto)
  then show ?thesis
    using assms(3,4) by (auto simp: SeedTemplateRoles_def roleList_def split: option.splits sum.splits) (metis fst_conv)
qed

lemma role_write_tables: "role_write s c actor st st' \<Longrightarrow> tables_ok st \<Longrightarrow> tables_ok st'"
proof (induction rule: role_write.induct)
  case (create newID now st ws name d perms steps sh st' r)
  then show ?case using CreateRole_D [OF create(2)] rr.create_ok by metis
next
  case (update now st ws i name d perms steps sh st' r)
  then show ?case by (metis UpdateRole_D rr.upd_ok)
next
  case (delete st ws i st')
  then show ?case by (metis DeleteRole_D rr.del_ok)
next
  case (clone newID now st ws i target st' r)
  then show ?case by (metis CloneRole_D rr.create_ok)
qed

lemma role_step_tables: "role_step s st st' \<Longrightarrow> tables_ok st \<Longrightarrow> tables_ok st'"
proof (induction rule: role_step.induct)
  case (written c actor st st')
  then show ?case by (rule role_write_tables)
next
  case (owner newID now st ws st' r)
  then show ?case using CreateOwnerRole_D rr.create_ok by metis
next
  case (seed newIDs now st ws st' res)
  then show ?case using SeedTemplateRoles_inv [of tables_ok] rr.create_ok by metis
qed

lemma id_ok_known: "tables_ok st \<Longrightarrow> i \<in> set (role_ids st) \<Longrightarrow> TrimSpace i = i"
  by (simp add: tables_ok_def list_all_iff id_ok_def)

lemma roleDelete_id: "roleDelete st i evs = Inr st' \<Longrightarrow> i \<in> set (role_ids st)"
  by (auto simp: roleDelete_def role_ids_def split: if_splits)

lemma role_write_owner:
  assumes "role_write s c actor st st'" "tables_ok st" "roleGet st i = Inr x" "role_IsOwnerRole x"
  shows "roleGet st' i = Inr x"
  using assms
proof (induction rule: role_write.induct)
  case (create newID now st ws name d perms steps sh st' r)
  then show ?case using CreateRole_D(1) rr.create_keeps by metis
next
  case (update now st ws j name d perms steps sh st' r)
  obtain r0 ev where r0: "roleGet st (TrimSpace j) = Inr r0" "\<not> role_IsOwnerRole r0" "role_ID r = role_ID r0"
    "roleUpdate st r [ev] = Inr st'" using UpdateRole_D [OF update(1)] by metis
  then have "i \<noteq> role_ID r" using update roleGet_id by (metis sum.inject(2))
  then show ?case using rr.upd_keeps [OF update(2) r0(4)] update(3) by simp
next
  case (delete st ws j st')
  obtain r0 evs where r0: "roleGet st (TrimSpace j) = Inr r0" "\<not> role_IsOwnerRole r0" "roleDelete st j evs = Inr st'"
    using DeleteRole_D [OF delete(1)] by metis
  then have "TrimSpace j = j" using id_ok_known [OF delete(2)] roleDelete_id by metis
  then have "i \<noteq> j" using delete r0 by auto
  then show ?case using rr.del_keeps [OF r0(3)] delete(3) by simp
next
  case (clone newID now st ws j target st' r)
  then show ?case using CloneRole_D rr.create_keeps by metis
qed

lemma role_step_owner:
  assumes "role_step s st st'" "tables_ok st" "roleGet st i = Inr x" "role_IsOwnerRole x"
  shows "roleGet st' i = Inr x"
  using assms
proof (induction rule: role_step.induct)
  case (written c actor st st')
  then show ?case by (rule role_write_owner)
next
  case (owner newID now st ws st' r)
  then show ?case using CreateOwnerRole_D rr.create_keeps by metis
next
  case (seed newIDs now st ws st' res)
  then show ?case using SeedTemplateRoles_inv [of "\<lambda>st. roleGet st i = Inr x"] rr.create_keeps by metis
qed

section \<open>What the checks grant\<close>

definition grantable :: "Roles_Service \<Rightarrow> ctx \<Rightarrow> string \<Rightarrow> string \<Rightarrow> action set" where
  "grantable s c actor ws = (case rsv_perms s of None \<Rightarrow> {} | Some g \<Rightarrow> set (pg_GrantablePermissions g c actor ws))"

definition may_manage :: "Roles_Service \<Rightarrow> ctx \<Rightarrow> string \<Rightarrow> string \<Rightarrow> bool" where
  "may_manage s c actor ws \<longleftrightarrow> rsv_RequireMember s ws (TrimSpace actor) = Inr () \<and>
     (case rsv_perms s of None \<Rightarrow> False | Some g \<Rightarrow> RolesWrite \<in> set (pg_WorkspacePermissions g c (TrimSpace actor) ws))"

lemma requireHolds_iff: "requireHolds s c ws actor grant = Inr () \<longleftrightarrow> set grant \<subseteq> grantable s c actor ws"
  by (auto simp: requireHolds_def grantable_def RequireHeld_def Let_def SetOfStrings_def filter_empty_conv
      split: option.splits)

lemma requireManageRoles_may: "requireManageRoles s c ws actor = Inr () \<Longrightarrow> may_manage s c actor ws"
  by (auto simp: requireManageRoles_def requireAction_def may_manage_def held_in_def SetOfStrings_def Let_def
      bindr_Inr_iff split: if_splits option.splits)

text \<open>The workspace a role is in, before or after a write, and a workspace argument that names it.\<close>

definition names_space :: "string \<Rightarrow> string \<Rightarrow> bool" where
  "names_space ws w \<longleftrightarrow> ws = w \<or> TrimSpace ws = w"

definition space_of :: "role_store \<Rightarrow> string \<Rightarrow> string option" where
  "space_of st i = (case roleGet st i of Inl _ \<Rightarrow> None | Inr r \<Rightarrow> Some (role_WorkspaceID r))"

text \<open>How a write by an actor may change what one role reads as: the actor may manage roles in its workspace, where it
  stays, and an action it carries afterwards was carried before or is the actor's to grant there.\<close>

definition changed_by :: "Roles_Service \<Rightarrow> ctx \<Rightarrow> string \<Rightarrow> role_store \<Rightarrow> role_store \<Rightarrow> string \<Rightarrow> bool" where
  "changed_by s c actor st st' i \<longleftrightarrow>
     (\<exists>ws w. names_space ws w \<and> may_manage s c actor ws \<and>
       (space_of st i = Some w \<or> space_of st i = None \<and> space_of st' i = Some w) \<and>
       (case roleGet st' i of Inl _ \<Rightarrow> True
        | Inr r \<Rightarrow> role_WorkspaceID r = w \<and>
            set (role_Permissions r) \<subseteq>
              (case roleGet st i of Inl _ \<Rightarrow> {} | Inr old \<Rightarrow> set (role_Permissions old)) \<union> grantable s c actor ws))"

lemma changed_by_create:
  assumes "roleCreate st r = Inr st'" "may_manage s c actor (role_WorkspaceID r)"
    and "set (role_Permissions r) \<subseteq> grantable s c actor (role_WorkspaceID r)" and "roleGet st' i \<noteq> roleGet st i"
  shows "changed_by s c actor st st' i"
proof -
  have "i = role_ID r" using assms(4) rr.get_create [OF assms(1)] by metis
  with rr.get_create [OF assms(1), of i] rr.create_new [OF assms(1)] assms(2,3) show ?thesis
    unfolding changed_by_def
    by (intro exI [of _ "role_WorkspaceID r"]) (auto simp: names_space_def space_of_def split: sum.splits)
qed

lemma changed_by_update:
  assumes "tables_ok st" "UpdateRole s c now st ws j actor name d perms steps sh = Inr (st', r)"
    and "roleGet st' i \<noteq> roleGet st i"
  shows "changed_by s c actor st st' i"
proof -
  obtain r0 ev where r0: "roleGet st (TrimSpace j) = Inr r0" "role_WorkspaceID r0 = TrimSpace ws"
    "role_ID r = role_ID r0" "role_WorkspaceID r = role_WorkspaceID r0" "role_Permissions r = perms"
    "roleUpdate st r [ev] = Inr st'" "requireManageRoles s c ws actor = Inr ()"
    "requireHolds s c ws actor (Except perms (role_Permissions r0)) = Inr ()"
    using UpdateRole_D [OF assms(2)] by metis
  have i: "i = role_ID r" using assms(3) rr.get_upd [OF assms(1) r0(6)] by metis
  then have get: "roleGet st i = Inr r0" "roleGet st' i = Inr (toRole (update_row r r0))"
    using r0(1,3) roleGet_id [OF r0(1)] rr.get_upd [OF assms(1) r0(6), of i] by simp_all
  have "set_ok (role_Permissions r0)" using r0(1) by (auto simp: roleGet_def split: option.splits)
  then have "set perms \<subseteq> set (role_Permissions r0) \<union> grantable s c actor ws"
    using r0(8) by (auto simp: requireHolds_iff set_Except)
  then show ?thesis
    unfolding changed_by_def using r0 get requireManageRoles_may [OF r0(7)]
    by (intro exI [of _ ws] exI [of _ "TrimSpace ws"])
       (simp add: names_space_def space_of_def update_row_def setJSON_def Actions_def)
qed

lemma changed_by_delete:
  assumes "tables_ok st" "DeleteRole s c st ws j actor = Inr st'" "roleGet st' i \<noteq> roleGet st i"
  shows "changed_by s c actor st st' i"
proof -
  obtain r0 evs where r0: "roleGet st (TrimSpace j) = Inr r0" "role_WorkspaceID r0 = TrimSpace ws"
    "roleDelete st j evs = Inr st'" "requireManageRoles s c ws actor = Inr ()"
    using DeleteRole_D [OF assms(2)] by metis
  have "TrimSpace j = j" using id_ok_known [OF assms(1)] roleDelete_id [OF r0(3)] by simp
  moreover have "i = j" using assms(3) rr.del_keeps [OF r0(3)] by metis
  ultimately show ?thesis
    unfolding changed_by_def using r0 requireManageRoles_may [OF r0(4)] rr.get_del [OF r0(3), of i]
    by (intro exI [of _ ws] exI [of _ "TrimSpace ws"]) (simp add: names_space_def space_of_def)
qed

lemma role_write_change:
  assumes "role_write s c actor st st'" "tables_ok st" "roleGet st' i \<noteq> roleGet st i"
  shows "changed_by s c actor st st' i"
  using assms
proof (induction rule: role_write.induct)
  case (create newID now st ws name d perms steps sh st' r)
  note D = CreateRole_D [OF create(2)]
  show ?case
    by (rule changed_by_create [OF D(1)]) (use create(4) D requireManageRoles_may in \<open>auto simp: requireHolds_iff\<close>)
next
  case (update now st ws j name d perms steps sh st' r)
  then show ?case by (blast intro: changed_by_update)
next
  case (delete st ws j st')
  then show ?case by (blast intro: changed_by_delete)
next
  case (clone newID now st ws j target st' r)
  obtain source :: Role where D: "roleCreate st r = Inr st'" "role_WorkspaceID r = TrimSpace target"
    "role_Permissions r = SetOf (role_Permissions source)" "requireManageRoles s c (TrimSpace target) actor = Inr ()"
    "requireHolds s c (TrimSpace target) actor (role_Permissions source) = Inr ()"
    by (rule CloneRole_D [OF clone(2)]) blast
  show ?case
    by (rule changed_by_create [OF D(1)]) (use clone(4) D requireManageRoles_may in \<open>auto simp: requireHolds_iff\<close>)
qed

lemma role_write_gives:
  assumes "role_write s c actor st st'" and "tables_ok st"
    and "roleGet st' i = Inr r" and "a \<in> set (role_Permissions r)"
  shows "(\<exists>old. roleGet st i = Inr old \<and> a \<in> set (role_Permissions old)) \<or>
    (\<exists>ws. names_space ws (role_WorkspaceID r) \<and> a \<in> grantable s c actor ws)"
proof (cases "roleGet st' i = roleGet st i")
  case False
  then show ?thesis
    using role_write_change [OF assms(1,2) False] assms(3,4) unfolding changed_by_def by (fastforce split: sum.splits)
qed (use assms in auto)

section \<open>An example\<close>

text \<open>A workspace with its Owner role and one more role, held by one member, who may write roles and hold docs:read.\<close>

definition example_dev :: Role where
  "example_dev = \<lparr>role_ID = ''d'', role_WorkspaceID = ''w'', role_Name = ''Dev'', role_Description = [],
     role_Permissions = [DocsRead], role_IsOwnerRole = False, role_WelcomeSteps = [], role_ShowLockedActions = False,
     role_CreatedAt = 2, role_UpdatedAt = 2\<rparr>"

definition example_own :: Role where
  "example_own = \<lparr>role_ID = ''o'', role_WorkspaceID = ''w'', role_Name = ''Owner'', role_Description = [],
     role_Permissions = [], role_IsOwnerRole = True, role_WelcomeSteps = [], role_ShowLockedActions = False,
     role_CreatedAt = 1, role_UpdatedAt = 1\<rparr>"

definition example_space :: Workspace where
  "example_space = \<lparr>wsp_ID = ''w'', wsp_Name = ''Work'', wsp_Slug = ''work'', wsp_MentionChipTemplate = [],
     wsp_MentionChipTemplateEdited = False, wsp_AccessSetupFinished = True, wsp_CreatedAt = 1, wsp_UpdatedAt = 1,
     wsp_ArchivedAt = None\<rparr>"

definition example_tables :: role_store where
  "example_tables = \<lparr>rs_roles = [example_own, example_dev], rs_spaces = [example_space],
     rs_db = \<lparr>db_overwrites = [role_row resourceTypeProject ''p'' ''d'' [DocsRead] [] 3], db_users = [''u''],
        db_roles = [''o'', ''d''], db_member_roles = [\<lparr>mr_workspace = ''w'', mr_user = ''u'', mr_role = ''d'', mr_created = 3\<rparr>],
        db_docs = [], db_folders = [], db_stacks = [], db_projects = [(''p'', ''w'')], db_computers = [],
        db_active = [''u''], db_members = [(''w'', ''u'')], db_outbox = []\<rparr>,
     rs_joined = (\<lambda>_ _. 3),
     rs_invites = [\<lparr>inv_WorkspaceID = ''w'', inv_Login = ''ana'', inv_RoleID = ''d'', inv_InvitedBy = ''u'', inv_CreatedAt = 4\<rparr>], rs_outbox = []\<rparr>"

definition example_roles_service :: Roles_Service where
  "example_roles_service =
     \<lparr>rsv_RequireMember = (\<lambda>ws u. if u = ''u'' then Inr () else Inl (errorf ErrNotFound ws)),
      rsv_HolderEvents = (\<lambda>ws i actor. Inr [\<lparr>me_UserID = ''u'', me_WorkspaceID = ws, me_ActorID = actor,
         me_ProjectIDs = [''p''], me_RoleIDsAdded = []\<rparr>]),
      rsv_perms = Some \<lparr>pg_WorkspacePermissions = (\<lambda>_ _ _. [DocsRead, RolesWrite]),
         pg_GrantablePermissions = (\<lambda>_ _ _. [DocsRead, RolesWrite])\<rparr>,
      rsv_templates = Some (\<lambda>_. Inr [''client'']),
      rsv_decode = (\<lambda>_. Inr \<lparr>raw_Name = ''Client'', raw_Description = [], raw_Permissions = [DocsRead],
         raw_WelcomeSteps = None, raw_ShowLockedActions = False\<rparr>),
      rsv_unicode = map ascii_lower\<rparr>"

definition ok_value :: "'a \<Rightarrow> 'a res \<Rightarrow> 'a" where
  "ok_value d m = (case m of Inl _ \<Rightarrow> d | Inr x \<Rightarrow> x)"

definition is_ok :: "'a res \<Rightarrow> bool" where
  "is_ok m = (case m of Inl _ \<Rightarrow> False | Inr _ \<Rightarrow> True)"

lemma is_ok_value: "is_ok m \<Longrightarrow> m = Inr (ok_value d m)"
  by (auto simp: is_ok_def ok_value_def split: sum.splits)

definition example_deleted :: role_store where
  "example_deleted = ok_value example_tables
     (DeleteRole example_roles_service background example_tables ''w'' ''d'' ''u'')"

lemma example_delete: "DeleteRole example_roles_service background example_tables ''w'' ''d'' ''u'' = Inr example_deleted"
  unfolding example_deleted_def by (rule is_ok_value) code_simp

definition example_created :: "role_store \<times> Role" where
  "example_created = ok_value (example_tables, example_dev)
     (CreateRole example_roles_service background ''n'' 5 example_tables ''w'' ''u'' ''Reader'' [] [DocsRead] None False)"

lemma example_create:
  "CreateRole example_roles_service background ''n'' 5 example_tables ''w'' ''u'' ''Reader'' [] [DocsRead] None False =
   Inr (fst example_created, snd example_created)"
  unfolding example_created_def prod.collapse by (rule is_ok_value) code_simp

lemma example_tables_ok: "tables_ok example_tables"
  by (simp add: tables_ok_def role_ids_def role_spaces_def owner_workspaces_def role_refs_def example_tables_def
      rs_workspaces_def example_space_def example_own_def example_dev_def id_ok_def role_row_def po_RoleID_def) code_simp

lemma example_steps:
  "role_write example_roles_service background ''u'' example_tables example_deleted"
  "role_write example_roles_service background ''u'' example_tables (fst example_created)"
  by (rule role_write.delete, rule example_delete) (rule role_write.create [OF _ example_create], code_simp)

lemma example_run: "(role_step example_roles_service)\<^sup>*\<^sup>* example_tables example_deleted"
  by (rule r_into_rtranclp) (rule role_step.written [OF example_steps(1)])

section \<open>Properties\<close>

text \<open>Whatever sequence of role writes, Owner creations and seedings runs, the tables stay well formed: ids are
  unique and are the ids the rules' table knows, each workspace has at most one Owner role, every role is in an
  existing workspace, and no holding, rule or invite names a role that is gone.\<close>

theorem roles_tables_invariant:
  assumes "(role_step s)\<^sup>*\<^sup>* st st'" and "tables_ok st"
  shows "tables_ok st'"
  using assms by (induction rule: rtranclp_induct) (auto intro: role_step_tables)

theorem roles_tables_invariant_witness: "tables_ok example_deleted"
  using roles_tables_invariant [OF example_run example_tables_ok] .

text \<open>C27. The Owner role is protected: no sequence of steps, whoever acts, edits, renames or deletes it.\<close>

theorem Owner_protected:
  assumes "(role_step s)\<^sup>*\<^sup>* st st'" and "tables_ok st" and "roleGet st i = Inr r" and "role_IsOwnerRole r"
  shows "roleGet st' i = Inr r"
proof -
  have "tables_ok st' \<and> roleGet st' i = Inr r"
    using assms by (induction rule: rtranclp_induct) (auto intro: role_step_tables role_step_owner)
  then show ?thesis ..
qed

theorem Owner_protected_witness: "roleGet example_deleted ''o'' = Inr example_own"
proof (rule Owner_protected [OF example_run example_tables_ok])
  show "roleGet example_tables ''o'' = Inr example_own" by code_simp
  show "role_IsOwnerRole example_own" by (simp add: example_own_def)
qed

text \<open>C4. A role never grants more than whoever writes it holds: after any create, edit, delete or clone, each action
  a role carries is one it carried before or one the access domain lists as grantable by the actor in the
  role's workspace.\<close>

theorem role_write_no_escalation:
  assumes "role_write s c actor st st'" and "tables_ok st"
    and "roleGet st' i = Inr r" and "a \<in> set (role_Permissions r)"
  shows "(\<exists>old. roleGet st i = Inr old \<and> a \<in> set (role_Permissions old)) \<or>
    (\<exists>ws. names_space ws (role_WorkspaceID r) \<and> a \<in> grantable s c actor ws)"
  using assms by (rule role_write_gives)

theorem role_write_no_escalation_witness:
  "(\<exists>old. roleGet example_tables ''n'' = Inr old \<and> DocsRead \<in> set (role_Permissions old)) \<or>
   (\<exists>ws. names_space ws (role_WorkspaceID (snd example_created)) \<and>
      DocsRead \<in> grantable example_roles_service background ''u'' ws)"
proof (rule role_write_no_escalation [OF example_steps(2) example_tables_ok])
  show "roleGet (fst example_created) ''n'' = Inr (snd example_created)" by code_simp
  show "DocsRead \<in> set (role_Permissions (snd example_created))" by code_simp
qed



text \<open>Deleting a role removes it everywhere: it no longer reads, nobody holds it, no rule and no invite names it,
  every other role and every other reference stays, and its holders' updates and the role's are in the outbox.\<close>

theorem DeleteRole_cascades:
  assumes "DeleteRole s c st ws i actor = Inr st'"
  shows "role_ids st' = filter (\<lambda>j. j \<noteq> i) (role_ids st) \<and> role_refs st' = role_refs st - {i} \<and>
    roles_held_of (rs_db st') u = filter (\<lambda>j. j \<noteq> i) (roles_held_of (rs_db st) u) \<and>
    (if j = i then \<not> okr (roleGet st' j) else roleGet st' j = roleGet st j) \<and>
    (\<exists>holders ev. rsv_HolderEvents s ws i actor = Inr holders \<and> re_RoleID ev = TrimSpace i \<and>
       rs_outbox st' = rs_outbox st @ map TopicWorkspaceMemberUpdated holders @ [TopicUpdated ev])"
proof -
  define event where "event r = \<lparr>re_RoleID = role_ID r, re_WorkspaceID = role_WorkspaceID r, re_ActorID = actor,
    re_Description = role_Description r, re_WelcomeStepsAdded = [], re_ShowLockedActions = False\<rparr>" for r :: Role
  from assms obtain r1 holders where "getInWorkspace st ws i = Inr r1"
    "rsv_HolderEvents s ws i actor = Inr holders"
    "roleDelete st i (map TopicWorkspaceMemberUpdated holders @ [TopicUpdated (event r1)]) = Inr st'"
    by (auto simp: DeleteRole_def Let_def bindr_Inr_iff event_def split: if_splits)
  then obtain ev where D: "getInWorkspace st ws i = Inr r1"
    "rsv_HolderEvents s ws i actor = Inr holders" "re_RoleID ev = role_ID r1"
    "roleDelete st i (map TopicWorkspaceMemberUpdated holders @ [TopicUpdated ev]) = Inr st'"
    by (metis event_def RoleEvent.select_convs(1))
  obtain r0 where "roleGet st (TrimSpace i) = Inr r0" "r1 = withOwnerSteps r0"
    using getInWorkspace_D [OF D(1)] by blast
  then have ev: "re_RoleID ev = TrimSpace i" using D(3) by (simp add: roleGet_id)
  have held: "roles_held_of (rs_db st') u = filter (\<lambda>j. j \<noteq> i) (roles_held_of (rs_db st) u)"
  proof -
    have "db_member_roles (rs_db st') = filter (\<lambda>m. mr_role m \<noteq> i) (db_member_roles (rs_db st))"
      using D(4) by (auto simp: roleDelete_def cascade_db_def split: if_splits)
    then show ?thesis by (simp only: roles_held_of_def held_filter)
  qed
  have "rs_outbox st' = rs_outbox st @ map TopicWorkspaceMemberUpdated holders @ [TopicUpdated ev]"
    using D(4) by (auto simp: roleDelete_def split: if_splits)
  with ev have "\<exists>holders ev. rsv_HolderEvents s ws i actor = Inr holders \<and> re_RoleID ev = TrimSpace i \<and>
       rs_outbox st' = rs_outbox st @ map TopicWorkspaceMemberUpdated holders @ [TopicUpdated ev]"
    using D(2) by blast
  moreover have "if j = i then \<not> okr (roleGet st' j) else roleGet st' j = roleGet st j"
    using rr.get_del [OF D(4), of j] by (cases "j = i") simp_all
  ultimately show ?thesis
    using delete_columns(1,4) [OF D(4)] held by simp
qed

theorem DeleteRole_cascades_witness: "role_refs example_deleted = role_refs example_tables - {''d''}"
  using DeleteRole_cascades [OF example_delete] by blast

text \<open>A caller the member gate refuses learns nothing of a workspace's roles: the answer is not found and does not
  depend on the role asked for or on what the tables hold.\<close>

theorem GetForMember_hides:
  assumes "rsv_RequireMember s ws actor = Inl e" and "Refused e" and "TrimSpace actor \<noteq> []"
  shows "GetForMember s st ws i actor = Inl (errorf ErrNotFound (''workspace '' @ ws)) \<and>
    ListForMember s st ws actor = Inl (errorf ErrNotFound (''workspace '' @ ws))"
  using assms by (auto simp: GetForMember_def ListForMember_def requireMember_def Refused_def)

theorem GetForMember_hides_witness:
  "GetForMember example_roles_service example_tables ''w'' ''d'' ''x'' = Inl (errorf ErrNotFound ''workspace w'')"
proof -
  have "rsv_RequireMember example_roles_service ''w'' ''x'' = Inl (errorf ErrNotFound ''w'')"
    by (simp add: example_roles_service_def)
  moreover have "TrimSpace ''x'' \<noteq> []" by code_simp
  ultimately show ?thesis
    using GetForMember_hides [of example_roles_service "''w''" "''x''" _ example_tables "''d''"] by (simp add: Refused_def)
qed

section \<open>Seeding\<close>

definition names_in :: "Roles_Service \<Rightarrow> role_store \<Rightarrow> string \<Rightarrow> string set" where
  "names_in s st ws = (\<lambda>r. ToLower (rsv_unicode s) (role_Name r)) ` {r \<in> set (rs_roles st). role_WorkspaceID r = ws}"

text \<open>A text that parses and whose name is in use.\<close>

definition seeded :: "Roles_Service \<Rightarrow> string set \<Rightarrow> string \<Rightarrow> bool" where
  "seeded s names body \<longleftrightarrow>
     (\<exists>t. ParseTemplate (rsv_decode s) body = Inr t \<and> ToLower (rsv_unicode s) (tb_Name t) \<in> names)"

lemma names_in_create:
  "roleCreate st r = Inr st' \<Longrightarrow> names_in s st' (role_WorkspaceID r) =
     insert (ToLower (rsv_unicode s) (role_Name r)) (names_in s st (role_WorkspaceID r))"
  by (auto simp: create_roles names_in_def image_iff)

lemma names_in_list: "roleList st ws = Inr existing \<Longrightarrow>
  set (map (\<lambda>r. ToLower (rsv_unicode s) (role_Name r)) existing) = names_in s st ws"
  by (auto simp: roleList_def names_in_def image_image)

lemma seed_loop_skips: "list_all (seeded s (set taken)) bodies \<Longrightarrow> seed_loop s newIDs now ws taken n bodies st = (st, Inr ())"
  by (induction bodies) (auto simp: seeded_def)

lemma seed_loop_names:
  assumes "seed_loop s newIDs now ws taken n bodies st = (st', Inr ())" and "set taken \<subseteq> names_in s st ws"
  shows "names_in s st ws \<subseteq> names_in s st' ws \<and> list_all (seeded s (names_in s st' ws)) bodies"
  using assms
proof (induction s newIDs now ws taken n bodies st rule: seed_loop.induct [case_names Nil Cons])
  case (Cons s newIDs now ws taken n body bodies st)
  obtain t where t: "ParseTemplate (rsv_decode s) body = Inr t"
    using Cons.prems(1) by (cases "ParseTemplate (rsv_decode s) body") auto
  show ?case
  proof (cases "ToLower (rsv_unicode s) (tb_Name t) \<in> set taken")
    case True
    then show ?thesis using Cons.IH(1) [OF t True] Cons.prems t by (auto simp: seeded_def)
  next
    case False
    let ?r = "template_copy (newIDs n) ws now t"
    obtain st1 where st1: "roleCreate st ?r = Inr st1"
      using Cons.prems(1) t False by (auto split: sum.splits)
    have "names_in s st1 ws = insert (ToLower (rsv_unicode s) (tb_Name t)) (names_in s st ws)"
      using names_in_create [OF st1, of s] by (simp add: template_copy_def)
    then show ?thesis
      using Cons.IH(2) [OF t False st1] Cons.prems t False st1 by (auto simp: seeded_def)
  qed
qed simp

text \<open>Seeding is complete and runs once: when it succeeds the workspace has a role under the name of every
  template text, and seeding again, with whatever ids and clock, changes nothing and succeeds.\<close>

theorem SeedTemplateRoles_idempotent:
  assumes "rsv_templates s = Some bodiesOf" and "bodiesOf TemplateKind = Inr bodies"
    and "SeedTemplateRoles s newIDs now st ws = (st', Inr ())"
  shows "list_all (seeded s (names_in s st' ws)) bodies \<and>
    SeedTemplateRoles s newIDs2 now2 st' ws = (st', Inr ())"
proof -
  obtain existing existing' where l: "roleList st ws = Inr existing" "roleList st' ws = Inr existing'"
    by (simp add: roleList_def)
  have "seed_loop s newIDs now ws (map (\<lambda>r. ToLower (rsv_unicode s) (role_Name r)) existing) 0 bodies st = (st', Inr ())"
    using assms l by (simp add: SeedTemplateRoles_def)
  then have all: "list_all (seeded s (names_in s st' ws)) bodies"
    using seed_loop_names names_in_list [OF l(1), of s] by blast
  from all show ?thesis
    using assms(1,2) l(2) seed_loop_skips [of s "map (\<lambda>r. ToLower (rsv_unicode s) (role_Name r)) existing'"]
      names_in_list [OF l(2), of s] by (simp add: SeedTemplateRoles_def)
qed

definition example_seeded :: role_store where
  "example_seeded = fst (SeedTemplateRoles example_roles_service (\<lambda>n. ''s'' @ replicate n CHR ''x'') 7 example_tables ''w'')"

lemma example_seed:
  "SeedTemplateRoles example_roles_service (\<lambda>n. ''s'' @ replicate n CHR ''x'') 7 example_tables ''w'' =
   (example_seeded, Inr ())"
proof -
  have "is_ok (snd (SeedTemplateRoles example_roles_service (\<lambda>n. ''s'' @ replicate n CHR ''x'') 7 example_tables ''w''))"
    by code_simp
  then show ?thesis
    unfolding example_seeded_def by (auto simp: prod_eq_iff is_ok_def split: sum.splits)
qed

theorem SeedTemplateRoles_idempotent_witness:
  "list_all (seeded example_roles_service (names_in example_roles_service example_seeded ''w'')) [''client''] \<and>
   SeedTemplateRoles example_roles_service (\<lambda>_. ''z'') 9 example_seeded ''w'' = (example_seeded, Inr ())"
  using SeedTemplateRoles_idempotent [OF _ _ example_seed, of "\<lambda>_. Inr [''client'']" "[''client'']"]
  by (simp add: example_roles_service_def)
end
