(* ===== verification/Tenancy.thy ===== *)
theory Tenancy
  imports Roles
begin

text \<open>
  Workspace membership (\<^verbatim>\<open>internal/tenancy/usecase.go\<close>, \<^verbatim>\<open>internal/tenancy/model.go\<close>,
  \<^verbatim>\<open>internal/platform/storage/tenancy_repo.go\<close>, \<^verbatim>\<open>roleNameGate\<close> of \<^verbatim>\<open>server/cmd/wire_gates.go\<close>): who is in a workspace,
  the roles each person holds there, and the invites of logins that have not signed in.  The state is the tables of
  \<open>Roles\<close>; a write returns the new state or an error and no change, except that resolving invites is one pair of
  transactions per invite.  The access domain's answers, the allowlist, the accounts and a workspace's projects are
  parameters.  \<open>tenancy_ok\<close> is the invariant of the tables, \<open>member_write\<close> a write on behalf of an actor and
  \<open>tenancy_step\<close> a step of the whole: a role step with the member gate wired to this service, a member write, or
  the resolving of invites at sign-in.
\<close>

section \<open>Types\<close>

record WorkspaceMember =
  mem_UserID :: string
  mem_WorkspaceID :: string
  mem_RoleID :: string
  mem_RoleIDs :: "string list"
  mem_CreatedAt :: time

definition Held :: "WorkspaceMember \<Rightarrow> string list" where
  "Held m = (if mem_RoleIDs m = [] \<and> mem_RoleID m \<noteq> [] then [mem_RoleID m] else mem_RoleIDs m)"

text \<open>A role and an account as the Team page shows them.\<close>

record TeamRole =
  tr_ID :: string
  tr_Name :: string
  tr_Description :: string
  tr_IsOwner :: bool

record TeamAccount =
  ta_ID :: string
  ta_Login :: string
  ta_Name :: string
  ta_DisplayName :: string
  ta_AvatarURL :: string
  ta_Status :: string
  ta_CreatedAt :: time
  ta_Providers :: "string list"
  ta_Usernames :: "string gomap"
  ta_Online :: bool
  ta_LastSeenAt :: "time option"
  ta_AvatarOverride :: string

record MemberView =
  mv_UserID :: string
  mv_Login :: string
  mv_RoleID :: string

record MembersList =
  ml_Members :: "MemberView list"
  ml_Invites :: "Invite list"

abbreviation (input) AccountStatusRemoved :: string where "AccountStatusRemoved \<equiv> ''removed''"

text \<open>The lookups of projects, and the service's wiring: the access domain's answers, the sign-in allowlist, the
  accounts and who of them is online, the channel and defaults of a new workspace, the instance's chip template.  The
  role gates are the roles service over the same tables, as the server wires them.\<close>

record MeProject =
  mp_ProjectID :: string
  mp_Actions :: pset

record ProjectGate =
  pj_ProjectWorkspace :: "string \<Rightarrow> string res"
  pj_ProjectPermissions :: "ctx \<Rightarrow> string \<Rightarrow> string \<Rightarrow> string list \<times> bool"
  pj_WorkspaceProjects :: "string \<Rightarrow> string list res"
  pj_ProjectActions :: "ctx \<Rightarrow> string \<Rightarrow> string \<Rightarrow> MeProject list res"

record Joined =
  jo_InvitedBy :: string
  jo_AcceptedAt :: time

text \<open>How far people got after joining; the welcome domain's answer is opaque here.\<close>

record TeamProgress =
  tp_WelcomeOf :: "string list \<Rightarrow> string gomap res"
  tp_Joins :: "Joined gomap res"

record Tenancy_Service =
  tsv_wsPerms :: PermissionGate
  tsv_HoldsAnywhere :: "ctx \<Rightarrow> string \<Rightarrow> action \<Rightarrow> bool res"
  tsv_IsAllowlisted :: "string \<Rightarrow> bool res"
  tsv_UserIDForLogin :: "string \<Rightarrow> (string \<times> bool) res"
  tsv_LoginForUserID :: "string \<Rightarrow> string res"
  tsv_ListAccounts :: "TeamAccount list res"
  tsv_Account :: "string \<Rightarrow> TeamAccount res"
  tsv_Presence :: "(bool gomap \<times> time gomap) res"
  tsv_CreateGeneralChannel :: "string \<Rightarrow> string \<Rightarrow> unit res"
  tsv_SeedWorkspaceDefaults :: "time \<Rightarrow> string \<Rightarrow> role_store \<Rightarrow> role_store \<times> unit res"
  tsv_instance :: "(string \<Rightarrow> string \<Rightarrow> string res) option"
  tsv_projects :: "ProjectGate option"
  tsv_progress :: "TeamProgress option"
  tsv_unicode :: "string \<Rightarrow> string"

section \<open>The role gate\<close>

definition RoleName :: "role_store \<Rightarrow> string \<Rightarrow> string \<Rightarrow> string res" where
  "RoleName st workspaceID roleID = bindr (GetRole st workspaceID roleID) (\<lambda>r. Inr (role_Name r))"

definition IsOwnerRole :: "role_store \<Rightarrow> string \<Rightarrow> string \<Rightarrow> bool res" where
  "IsOwnerRole st workspaceID roleID = bindr (GetRole st workspaceID roleID) (\<lambda>r. Inr (role_IsOwnerRole r))"

definition ShowLockedActions :: "role_store \<Rightarrow> string \<Rightarrow> string \<Rightarrow> bool res" where
  "ShowLockedActions st workspaceID roleID = bindr (GetRole st workspaceID roleID) (\<lambda>r. Inr (role_ShowLockedActions r))"

definition RolePermissions :: "role_store \<Rightarrow> string \<Rightarrow> string \<Rightarrow> pset res" where
  "RolePermissions st workspaceID roleID = bindr (GetRole st workspaceID roleID) (\<lambda>r. Inr (role_Permissions r))"

section \<open>The membership repository\<close>

text \<open>A membership of a workspace that is not archived.\<close>

definition live_member :: "role_store \<Rightarrow> string \<Rightarrow> string \<Rightarrow> bool" where
  "live_member st workspaceID userID \<longleftrightarrow>
     (workspaceID, userID) \<in> set (db_members (rs_db st)) \<and> workspaceID \<in> set (rs_workspaces st) \<and>
     workspaceID \<notin> set (rs_archived st)"

definition owner_role :: "role_store \<Rightarrow> string \<Rightarrow> bool" where
  "owner_role st i \<longleftrightarrow> list_ex (\<lambda>r. role_ID r = i \<and> role_IsOwnerRole r) (rs_roles st)"

text \<open>ORDER BY created_at, is_owner_role DESC, role_id, of the rows whose role exists.\<close>

definition in_given_order :: "role_store \<Rightarrow> member_role list \<Rightarrow> member_role list" where
  "in_given_order st rows =
     sort_key mr_created (sort_key (\<lambda>m. \<not> owner_role st (mr_role m)) (sort_key mr_role
       (filter (\<lambda>m. mr_role m \<in> set (role_ids st)) rows)))"

definition ListMemberRoleIDs :: "role_store \<Rightarrow> string \<Rightarrow> string \<Rightarrow> string list" where
  "ListMemberRoleIDs st workspaceID userID =
     map mr_role (in_given_order st
       (filter (\<lambda>m. mr_workspace m = workspaceID \<and> mr_user m = userID) (db_member_roles (rs_db st))))"

definition ListWorkspaceMemberRoles :: "role_store \<Rightarrow> string \<Rightarrow> (string \<times> string) list" where
  "ListWorkspaceMemberRoles st workspaceID =
     map (\<lambda>m. (mr_user m, mr_role m)) (sort_key mr_user (in_given_order st
       (filter (\<lambda>m. mr_workspace m = workspaceID) (db_member_roles (rs_db st)))))"

definition toMember :: "role_store \<Rightarrow> string \<Rightarrow> string \<Rightarrow> string list \<Rightarrow> WorkspaceMember" where
  "toMember st workspaceID userID held =
     \<lparr>mem_UserID = userID, mem_WorkspaceID = workspaceID,
      mem_RoleID = (case held of [] \<Rightarrow> [] | i # _ \<Rightarrow> i), mem_RoleIDs = held,
      mem_CreatedAt = rs_joined st workspaceID userID\<rparr>"

definition memberGet :: "role_store \<Rightarrow> string \<Rightarrow> string \<Rightarrow> WorkspaceMember res" where
  "memberGet st workspaceID userID =
     (if \<not> live_member st workspaceID userID
      then Inl (wrapf (''member '' @ userID @ '' of workspace '' @ workspaceID) (sentinel_err ErrNotFound))
      else Inr (toMember st workspaceID userID (ListMemberRoleIDs st workspaceID userID)))"

definition RoleIDFor :: "role_store \<Rightarrow> string \<Rightarrow> string \<Rightarrow> string res" where
  "RoleIDFor st workspaceID userID = bindr (memberGet st workspaceID userID) (\<lambda>m. Inr (mem_RoleID m))"

definition memberList :: "role_store \<Rightarrow> string \<Rightarrow> WorkspaceMember list res" where
  "memberList st workspaceID =
     (let rows = sort_key (rs_joined st workspaceID) (sort
                   (map snd (filter (\<lambda>m. fst m = workspaceID) (db_members (rs_db st)))));
          held = ListWorkspaceMemberRoles st workspaceID
      in Inr (map (\<lambda>u. toMember st workspaceID u (map snd (filter (\<lambda>h. fst h = u) held))) rows))"

text \<open>What the access domain reads of a member.  Of a live member the joined rows are never empty.\<close>

definition MemberRole :: "role_store \<Rightarrow> string \<Rightarrow> string \<Rightarrow> RoleInfo res" where
  "MemberRole st workspaceID userID =
     (if \<not> live_member st workspaceID userID
      then Inl (wrapf (''member '' @ userID @ '' of workspace '' @ workspaceID) (sentinel_err ErrNotFound))
      else Inr (RolesHeld (List.map_filter
             (\<lambda>i. map_option (\<lambda>r. \<lparr>hr_ID = i, hr_IsOwner = role_IsOwnerRole r, hr_Permissions = parseSet (role_Permissions r)\<rparr>)
                    (find (\<lambda>r. role_ID r = i) (rs_roles st)))
             (ListMemberRoleIDs st workspaceID userID))))"

definition addMemberRole :: "string \<Rightarrow> string \<Rightarrow> time \<Rightarrow> string \<Rightarrow> role_store \<Rightarrow> role_store res" where
  "addMemberRole workspaceID userID at roleID st =
     (if (workspaceID, userID) \<notin> set (db_members (rs_db st)) \<or> roleID \<notin> set (role_ids st) \<or>
         list_ex (\<lambda>m. mr_workspace m = workspaceID \<and> mr_user m = userID \<and> mr_role m = roleID) (db_member_roles (rs_db st))
      then Inl (wrapf (''give '' @ userID @ '' role '' @ roleID @ '' in workspace '' @ workspaceID) (sentinel_err ErrConflict))
      else Inr (st\<lparr>rs_db := (rs_db st)\<lparr>db_member_roles := db_member_roles (rs_db st) @
             [\<lparr>mr_workspace = workspaceID, mr_user = userID, mr_role = roleID, mr_created = at\<rparr>]\<rparr>\<rparr>))"

fun addMemberRoles :: "string \<Rightarrow> string \<Rightarrow> time \<Rightarrow> string list \<Rightarrow> role_store \<Rightarrow> role_store res" where
  "addMemberRoles workspaceID userID at [] st = Inr st"
| "addMemberRoles workspaceID userID at (i # is) st =
     bindr (addMemberRole workspaceID userID at i st) (addMemberRoles workspaceID userID at is)"

definition insert_events :: "role_outbox list \<Rightarrow> role_store \<Rightarrow> role_store" where
  "insert_events events st = st\<lparr>rs_outbox := rs_outbox st @ events\<rparr>"

definition memberAdd :: "role_store \<Rightarrow> WorkspaceMember \<Rightarrow> role_outbox list \<Rightarrow> role_store res" where
  "memberAdd st m events =
     (let w = mem_WorkspaceID m; u = mem_UserID m; db = rs_db st
      in if (w, u) \<in> set (db_members db) \<or> u \<notin> set (db_users db) \<or> w \<notin> set (rs_workspaces st)
         then Inl (wrapf (''add member '' @ u @ '' to workspace '' @ w) (sentinel_err ErrConflict))
         else bindr (addMemberRoles w u (mem_CreatedAt m) (Held m)
                (st\<lparr>rs_db := db\<lparr>db_members := db_members db @ [(w, u)]\<rparr>,
                    rs_joined := (rs_joined st)(w := (rs_joined st w)(u := mem_CreatedAt m))\<rparr>))
              (\<lambda>st'. Inr (insert_events events st')))"

definition memberRemove :: "role_store \<Rightarrow> string \<Rightarrow> string \<Rightarrow> role_outbox list \<Rightarrow> role_store res" where
  "memberRemove st workspaceID userID events =
     (let db = rs_db st
      in if (workspaceID, userID) \<notin> set (db_members db)
         then Inl (wrapf (''remove member '' @ userID @ '' from workspace '' @ workspaceID) (sentinel_err ErrNotFound))
         else Inr (insert_events events (st\<lparr>rs_db := db
                \<lparr>db_members := filter (\<lambda>m. m \<noteq> (workspaceID, userID)) (db_members db),
                 db_member_roles := filter (\<lambda>m. \<not> (mr_workspace m = workspaceID \<and> mr_user m = userID)) (db_member_roles db),
                 db_overwrites := filter (\<lambda>row. \<not> (po_ResourceType row = resourceTypeProject \<and> po_UserID row = Some userID \<and>
                    (po_ResourceID row, workspaceID) \<in> set (db_projects db))) (db_overwrites db)\<rparr>\<rparr>)))"

text \<open>The second argument is the clock of the repository.\<close>

definition memberChangeRoles ::
  "role_store \<Rightarrow> time \<Rightarrow> string \<Rightarrow> string \<Rightarrow> string list \<Rightarrow> string list \<Rightarrow> role_outbox list \<Rightarrow> role_store res" where
  "memberChangeRoles st at workspaceID userID add remove events =
     (if \<not> live_member st workspaceID userID
      then Inl (wrapf (''change roles of '' @ userID @ '' in workspace '' @ workspaceID) (sentinel_err ErrNotFound))
      else bindr (addMemberRoles workspaceID userID at add
             (st\<lparr>rs_db := (rs_db st)\<lparr>db_member_roles := filter
                (\<lambda>m. \<not> (mr_workspace m = workspaceID \<and> mr_user m = userID \<and> mr_role m \<in> set remove))
                (db_member_roles (rs_db st))\<rparr>\<rparr>))
           (\<lambda>st'. Inr (insert_events events st')))"

section \<open>The invite repository\<close>

definition same_invite :: "string \<Rightarrow> string \<Rightarrow> Invite \<Rightarrow> bool" where
  "same_invite workspaceID login iv \<longleftrightarrow> inv_WorkspaceID iv = workspaceID \<and> inv_Login iv = login"

definition inviteUpsert :: "role_store \<Rightarrow> Invite \<Rightarrow> role_store res" where
  "inviteUpsert st iv =
     (let same = same_invite (inv_WorkspaceID iv) (inv_Login iv)
      in if inv_WorkspaceID iv \<notin> set (rs_workspaces st) \<or> inv_RoleID iv \<notin> set (role_ids st) \<or>
            inv_InvitedBy iv \<notin> set (db_users (rs_db st))
         then Inl (wrapf (''upsert invite for '' @ inv_Login iv @ '' to workspace '' @ inv_WorkspaceID iv) (sentinel_err ErrConflict))
         else Inr (st\<lparr>rs_invites := (if list_ex same (rs_invites st)
                then map (\<lambda>row. if same row then iv else row) (rs_invites st) else rs_invites st @ [iv])\<rparr>))"

definition inviteDelete :: "role_store \<Rightarrow> string \<Rightarrow> string \<Rightarrow> role_store" where
  "inviteDelete st workspaceID login = st\<lparr>rs_invites := filter (\<lambda>iv. \<not> same_invite workspaceID login iv) (rs_invites st)\<rparr>"

definition inviteList :: "role_store \<Rightarrow> string \<Rightarrow> Invite list" where
  "inviteList st workspaceID =
     sort_key inv_CreatedAt (sort_key inv_Login (filter (\<lambda>iv. inv_WorkspaceID iv = workspaceID) (rs_invites st)))"

definition inviteListByLogin :: "role_store \<Rightarrow> string \<Rightarrow> Invite list" where
  "inviteListByLogin st login =
     sort_key inv_CreatedAt (sort_key inv_WorkspaceID (filter (\<lambda>iv. inv_Login iv = login) (rs_invites st)))"

section \<open>Checks\<close>

definition requireWorkspacePermission :: "Tenancy_Service \<Rightarrow> ctx \<Rightarrow> string \<Rightarrow> string \<Rightarrow> action \<Rightarrow> unit res" where
  "requireWorkspacePermission s c actorID workspaceID a =
     (if a \<in> set (pg_WorkspacePermissions (tsv_wsPerms s) c actorID workspaceID) then Inr ()
      else Inl (errorf ErrForbidden (a @ '' permission required'')))"

definition requireManageWorkspaceMembers :: "Tenancy_Service \<Rightarrow> ctx \<Rightarrow> string \<Rightarrow> string \<Rightarrow> unit res" where
  "requireManageWorkspaceMembers s c actorID workspaceID =
     requireWorkspacePermission s c actorID workspaceID MembersWrite"

definition requireHoldsGrant :: "Tenancy_Service \<Rightarrow> ctx \<Rightarrow> string \<Rightarrow> string \<Rightarrow> pset \<Rightarrow> unit res" where
  "requireHoldsGrant s c actorID workspaceID grant =
     RequireHeld grant (SetOfStrings (pg_GrantablePermissions (tsv_wsPerms s) c actorID workspaceID))"

definition requireHoldsRole :: "Tenancy_Service \<Rightarrow> ctx \<Rightarrow> role_store \<Rightarrow> string \<Rightarrow> string \<Rightarrow> string \<Rightarrow> unit res" where
  "requireHoldsRole s c st actorID workspaceID roleID =
     bindr (map_errr (wrapf (''read role '' @ roleID)) (RolePermissions st workspaceID roleID))
       (requireHoldsGrant s c actorID workspaceID)"

fun requireGivable ::
  "Tenancy_Service \<Rightarrow> ctx \<Rightarrow> role_store \<Rightarrow> string \<Rightarrow> string \<Rightarrow> string list \<Rightarrow> unit res" where
  "requireGivable s c st actorID workspaceID [] = Inr ()"
| "requireGivable s c st actorID workspaceID (roleID # rest) =
     bindr (map_errr (wrapf (''check owner role '' @ roleID)) (IsOwnerRole st workspaceID roleID)) (\<lambda>isOwner.
     if isOwner then Inl (errorf ErrInvalid ''the Owner role is never given or taken'')
     else bindr (requireHoldsRole s c st actorID workspaceID roleID)
            (\<lambda>_. requireGivable s c st actorID workspaceID rest))"

fun trimmedIDs_loop :: "string list \<Rightarrow> string list \<Rightarrow> string list" where
  "trimmedIDs_loop out [] = out"
| "trimmedIDs_loop out (i # is) =
     (let i = TrimSpace i in trimmedIDs_loop (if i \<noteq> [] \<and> i \<notin> set out then out @ [i] else out) is)"

definition trimmedIDs :: "string list \<Rightarrow> string list" where
  "trimmedIDs is = trimmedIDs_loop [] is"

fun ownerRoleAmong :: "role_store \<Rightarrow> string \<Rightarrow> string list \<Rightarrow> bool res" where
  "ownerRoleAmong st workspaceID [] = Inr False"
| "ownerRoleAmong st workspaceID (roleID # rest) =
     bindr (map_errr (wrapf (''check owner role '' @ roleID)) (IsOwnerRole st workspaceID roleID)) (\<lambda>owner.
     if owner then Inr True else ownerRoleAmong st workspaceID rest)"

definition member_of :: "role_store \<Rightarrow> string \<Rightarrow> string \<Rightarrow> WorkspaceMember res" where
  "member_of st workspaceID userID =
     map_errr (wrapf (''resolve membership of '' @ userID @ '' in workspace '' @ workspaceID)) (memberGet st workspaceID userID)"

definition holdsOwnerRole :: "role_store \<Rightarrow> string \<Rightarrow> string \<Rightarrow> bool res" where
  "holdsOwnerRole st workspaceID userID =
     bindr (member_of st workspaceID userID) (\<lambda>m. ownerRoleAmong st workspaceID (mem_RoleIDs m))"

section \<open>Events\<close>

definition memberEvent :: "string \<Rightarrow> string \<Rightarrow> string \<Rightarrow> MemberEvent" where
  "memberEvent actorID workspaceID userID =
     \<lparr>me_UserID = userID, me_WorkspaceID = workspaceID, me_ActorID = actorID, me_ProjectIDs = [], me_RoleIDsAdded = []\<rparr>"

definition memberUpdated :: "Tenancy_Service \<Rightarrow> string \<Rightarrow> string \<Rightarrow> string \<Rightarrow> string list \<Rightarrow> MemberEvent res" where
  "memberUpdated s actorID workspaceID userID given =
     (let e = \<lparr>me_UserID = userID, me_WorkspaceID = workspaceID, me_ActorID = actorID, me_ProjectIDs = [],
               me_RoleIDsAdded = given\<rparr>
      in case tsv_projects s of
           None \<Rightarrow> Inr e
         | Some g \<Rightarrow>
             bindr (map_errr (wrapf (''list projects of workspace '' @ workspaceID)) (pj_WorkspaceProjects g workspaceID))
               (\<lambda>is. Inr (e\<lparr>me_ProjectIDs := is\<rparr>)))"

fun holder_events ::
  "Tenancy_Service \<Rightarrow> string \<Rightarrow> string \<Rightarrow> string \<Rightarrow> MemberEvent list \<Rightarrow> WorkspaceMember list \<Rightarrow> MemberEvent list res" where
  "holder_events s workspaceID roleID actorID events [] = Inr events"
| "holder_events s workspaceID roleID actorID events (m # ms) =
     (if roleID \<notin> set (Held m) then holder_events s workspaceID roleID actorID events ms
      else if events \<noteq> []
      then holder_events s workspaceID roleID actorID (events @ [(hd events)\<lparr>me_UserID := mem_UserID m\<rparr>]) ms
      else bindr (memberUpdated s actorID workspaceID (mem_UserID m) [])
             (\<lambda>e. holder_events s workspaceID roleID actorID (events @ [e]) ms))"

definition RoleHolderEvents :: "Tenancy_Service \<Rightarrow> role_store \<Rightarrow> string \<Rightarrow> string \<Rightarrow> string \<Rightarrow> MemberEvent list res" where
  "RoleHolderEvents s st workspaceID roleID actorID =
     bindr (map_errr (wrapf (''list members of workspace '' @ workspaceID)) (memberList st workspaceID))
       (holder_events s workspaceID roleID actorID [])"

section \<open>Reads\<close>

definition MemberRoleID :: "role_store \<Rightarrow> string \<Rightarrow> string \<Rightarrow> string res" where
  "MemberRoleID st workspaceID userID =
     map_errr (wrapf (''resolve role for user '' @ userID @ '' in workspace '' @ workspaceID)) (RoleIDFor st workspaceID userID)"

definition teamRole :: "role_store \<Rightarrow> string \<Rightarrow> string \<Rightarrow> TeamRole res" where
  "teamRole st workspaceID roleID =
     bindr (map_errr (wrapf (''resolve role name '' @ roleID)) (RoleName st workspaceID roleID)) (\<lambda>name.
     bindr (map_errr (wrapf (''check owner role '' @ roleID)) (IsOwnerRole st workspaceID roleID)) (\<lambda>owner.
     Inr \<lparr>tr_ID = roleID, tr_Name = name, tr_Description = [], tr_IsOwner = owner\<rparr>))"

definition MemberRoles :: "role_store \<Rightarrow> string \<Rightarrow> string \<Rightarrow> TeamRole list res" where
  "MemberRoles st workspaceID0 userID0 =
     (let workspaceID = TrimSpace workspaceID0; userID = TrimSpace userID0
      in if workspaceID = [] \<or> userID = [] then Inl (errorf ErrInvalid ''workspace id and user id are required'')
         else bindr (member_of st workspaceID userID) (\<lambda>m. mapr (teamRole st workspaceID) (mem_RoleIDs m)))"

definition MemberRoleName :: "role_store \<Rightarrow> string \<Rightarrow> string \<Rightarrow> string res" where
  "MemberRoleName st workspaceID0 userID0 =
     (let workspaceID = TrimSpace workspaceID0; userID = TrimSpace userID0
      in if workspaceID = [] then Inl (errorf ErrInvalid ''workspace id is required'')
         else if userID = [] then Inl (errorf ErrInvalid ''user id is required'')
         else bindr (MemberRoleID st workspaceID userID) (\<lambda>roleID.
              if roleID = [] then Inr []
              else map_errr (wrapf (''resolve role name '' @ roleID)) (RoleName st workspaceID roleID)))"

definition MemberPermissions :: "Tenancy_Service \<Rightarrow> ctx \<Rightarrow> string \<Rightarrow> string \<Rightarrow> string list" where
  "MemberPermissions s c workspaceID userID = pg_WorkspacePermissions (tsv_wsPerms s) c userID workspaceID"

definition ListWorkspaceMembers :: "Tenancy_Service \<Rightarrow> ctx \<Rightarrow> role_store \<Rightarrow> string \<Rightarrow> string \<Rightarrow> MembersList res" where
  "ListWorkspaceMembers s c st actorID workspaceID0 =
     (let workspaceID = TrimSpace workspaceID0
      in bindr (requireManageWorkspaceMembers s c actorID workspaceID) (\<lambda>_.
         bindr (map_errr (wrapf (''list members for workspace '' @ workspaceID)) (memberList st workspaceID)) (\<lambda>members.
         bindr (mapr (\<lambda>m. bindr (map_errr (wrapf (''resolve login for user '' @ mem_UserID m)) (tsv_LoginForUserID s (mem_UserID m)))
                  (\<lambda>login. Inr \<lparr>mv_UserID = mem_UserID m, mv_Login = login, mv_RoleID = mem_RoleID m\<rparr>)) members) (\<lambda>views.
         Inr \<lparr>ml_Members = views, ml_Invites = inviteList st workspaceID\<rparr>))))"

section \<open>Writes\<close>

definition new_member :: "string \<Rightarrow> string \<Rightarrow> string list \<Rightarrow> time \<Rightarrow> WorkspaceMember" where
  "new_member userID workspaceID held now =
     \<lparr>mem_UserID = userID, mem_WorkspaceID = workspaceID, mem_RoleID = hd held, mem_RoleIDs = held, mem_CreatedAt = now\<rparr>"

definition InviteMember ::
  "Tenancy_Service \<Rightarrow> ctx \<Rightarrow> time \<Rightarrow> role_store \<Rightarrow> string \<Rightarrow> string \<Rightarrow> string \<Rightarrow> string list \<Rightarrow> role_store res" where
  "InviteMember s c now st actorID workspaceID0 login0 ids0 =
     (let workspaceID = TrimSpace workspaceID0; login = ToLower (tsv_unicode s) (TrimSpace login0); ids = trimmedIDs ids0
      in if login = [] then Inl (errorf ErrInvalid ''login is required'')
         else if ids = [] then Inl (errorf ErrInvalid ''role id is required'')
         else bindr (requireManageWorkspaceMembers s c actorID workspaceID) (\<lambda>_.
              bindr (requireGivable s c st actorID workspaceID ids) (\<lambda>_.
              bindr (map_errr (wrapf (''check allowlist for '' @ login)) (tsv_IsAllowlisted s login)) (\<lambda>allowed.
              if \<not> allowed
              then Inl (errorf ErrInvalid (login @ '' must be on the instance allowlist before they can be invited to a workspace''))
              else
              bindr (map_errr (wrapf (''resolve user for '' @ login)) (tsv_UserIDForLogin s login)) (\<lambda>(userID, found).
              if found
              then map_errr (wrapf (''add member '' @ userID @ '' to workspace '' @ workspaceID))
                     (memberAdd st (new_member userID workspaceID ids now) [])
              else if length ids > 1
              then Inl (errorf ErrInvalid (login @ '' hasn't signed in yet, and a pending invite gives one role; give the others once they join''))
              else map_errr (wrapf (''upsert invite for '' @ login @ '' to workspace '' @ workspaceID))
                     (inviteUpsert st \<lparr>inv_WorkspaceID = workspaceID, inv_Login = login, inv_RoleID = hd ids,
                                       inv_InvitedBy = actorID, inv_CreatedAt = now\<rparr>))))))"

definition CancelInvite :: "Tenancy_Service \<Rightarrow> ctx \<Rightarrow> role_store \<Rightarrow> string \<Rightarrow> string \<Rightarrow> string \<Rightarrow> role_store res" where
  "CancelInvite s c st actorID workspaceID0 login0 =
     (let workspaceID = TrimSpace workspaceID0; login = ToLower (tsv_unicode s) (TrimSpace login0)
      in bindr (requireManageWorkspaceMembers s c actorID workspaceID) (\<lambda>_. Inr (inviteDelete st workspaceID login)))"

definition RemoveMember :: "Tenancy_Service \<Rightarrow> ctx \<Rightarrow> role_store \<Rightarrow> string \<Rightarrow> string \<Rightarrow> string \<Rightarrow> role_store res" where
  "RemoveMember s c st actorID workspaceID0 userID0 =
     (let workspaceID = TrimSpace workspaceID0; userID = TrimSpace userID0
      in bindr (requireManageWorkspaceMembers s c actorID workspaceID) (\<lambda>_.
         bindr (holdsOwnerRole st workspaceID userID) (\<lambda>isOwner.
         if isOwner then Inl (errorf ErrInvalid ''the workspace Owner cannot be removed'')
         else map_errr (wrapf (''remove member '' @ userID @ '' from workspace '' @ workspaceID))
                (memberRemove st workspaceID userID
                   [TopicWorkspaceMemberRemoved (memberEvent actorID workspaceID userID)]))))"

definition UpdateMemberRoles ::
  "Tenancy_Service \<Rightarrow> ctx \<Rightarrow> time \<Rightarrow> role_store \<Rightarrow> string \<Rightarrow> string \<Rightarrow> string \<Rightarrow> string list \<Rightarrow> string list \<Rightarrow> role_store res" where
  "UpdateMemberRoles s c now st actorID workspaceID0 userID0 add0 remove0 =
     (let workspaceID = TrimSpace workspaceID0; userID = TrimSpace userID0
      in bindr (requireManageWorkspaceMembers s c actorID workspaceID) (\<lambda>_.
         bindr (member_of st workspaceID userID) (\<lambda>m.
         let add = filter (\<lambda>i. i \<notin> set (mem_RoleIDs m)) (trimmedIDs add0);
             remove = filter (\<lambda>i. i \<in> set (mem_RoleIDs m)) (trimmedIDs remove0)
         in bindr (requireGivable s c st actorID workspaceID add) (\<lambda>_.
            bindr (map_errr (\<lambda>e. if errors_is e ErrForbidden then wrapf ''you can't take away a role you couldn't give'' e else e)
                     (requireGivable s c st actorID workspaceID remove)) (\<lambda>_.
            if length add + length remove = 0 then Inr st
            else bindr (memberUpdated s actorID workspaceID userID add) (\<lambda>evt.
                 map_errr (wrapf (''change roles of '' @ userID @ '' in workspace '' @ workspaceID))
                   (memberChangeRoles st now workspaceID userID add remove [TopicWorkspaceMemberUpdated evt])))))))"

definition SetMemberRoles ::
  "Tenancy_Service \<Rightarrow> ctx \<Rightarrow> time \<Rightarrow> role_store \<Rightarrow> string \<Rightarrow> string \<Rightarrow> string \<Rightarrow> string list \<Rightarrow> role_store res" where
  "SetMemberRoles s c now st actorID workspaceID0 userID0 ids =
     (let workspaceID = TrimSpace workspaceID0; userID = TrimSpace userID0
      in bindr (requireManageWorkspaceMembers s c actorID workspaceID) (\<lambda>_.
         bindr (member_of st workspaceID userID) (\<lambda>m.
         let want = trimmedIDs ids
         in UpdateMemberRoles s c now st actorID workspaceID userID want
              (filter (\<lambda>i. i \<notin> set want) (mem_RoleIDs m)))))"

definition AddMember ::
  "Tenancy_Service \<Rightarrow> ctx \<Rightarrow> time \<Rightarrow> role_store \<Rightarrow> string \<Rightarrow> string \<Rightarrow> string \<Rightarrow> string list \<Rightarrow> role_store res" where
  "AddMember s c now st actorID workspaceID0 userID0 ids0 =
     (let workspaceID = TrimSpace workspaceID0; userID = TrimSpace userID0; ids = trimmedIDs ids0
      in if userID = [] then Inl (errorf ErrInvalid ''user id is required'')
         else if ids = [] then Inl (errorf ErrInvalid ''role id is required'')
         else bindr (requireManageWorkspaceMembers s c actorID workspaceID) (\<lambda>_.
              bindr (requireGivable s c st actorID workspaceID ids) (\<lambda>_.
              bindr (map_errr (wrapf (''get account '' @ userID)) (tsv_Account s userID)) (\<lambda>account.
              if ta_Status account = AccountStatusRemoved
              then Inl (errorf ErrInvalid (ta_Login account @ CHR 0x27 # ''s account is removed; restore it before adding them to a workspace''))
              else case RoleIDFor st workspaceID userID of
                Inr _ \<Rightarrow> Inl (errorf ErrConflict (ta_Login account @ '' is already a member of this workspace; change their roles instead''))
              | Inl e \<Rightarrow>
                  if \<not> errors_is e ErrNotFound
                  then Inl (wrapf (''check membership of '' @ userID @ '' in workspace '' @ workspaceID) e)
                  else map_errr (wrapf (''add member '' @ userID @ '' to workspace '' @ workspaceID))
                         (memberAdd st (new_member userID workspaceID ids now)
                            [TopicWorkspaceMemberAdded \<lparr>me_UserID = userID, me_WorkspaceID = workspaceID, me_ActorID = actorID,
                               me_ProjectIDs = [], me_RoleIDsAdded = ids\<rparr>])))))"

text \<open>Each invite is two transactions; a failure keeps what came before it.\<close>

fun resolve_loop :: "time \<Rightarrow> string \<Rightarrow> string \<Rightarrow> Invite list \<Rightarrow> role_store \<Rightarrow> role_store \<times> unit res" where
  "resolve_loop now login userID [] st = (st, Inr ())"
| "resolve_loop now login userID (iv # invs) st =
     (case memberAdd st \<lparr>mem_UserID = userID, mem_WorkspaceID = inv_WorkspaceID iv, mem_RoleID = inv_RoleID iv,
                         mem_RoleIDs = [], mem_CreatedAt = now\<rparr> [] of
        Inl e \<Rightarrow> (st, Inl (wrapf (''resolve invite for '' @ login @ '' to workspace '' @ inv_WorkspaceID iv) e))
      | Inr st' \<Rightarrow> resolve_loop now login userID invs (inviteDelete st' (inv_WorkspaceID iv) login))"

definition ResolvePendingInvites ::
  "Tenancy_Service \<Rightarrow> time \<Rightarrow> role_store \<Rightarrow> string \<Rightarrow> string \<Rightarrow> role_store \<times> unit res" where
  "ResolvePendingInvites s now st login0 userID =
     (let login = ToLower (tsv_unicode s) (TrimSpace login0)
      in resolve_loop now login userID (inviteListByLogin st login) st)"

section \<open>The invariant of memberships\<close>

text \<open>A holding is a workspace, a person and a role.  No membership and no holding is there twice, its person is a member of its
  workspace, and its role, like an invite's, is one of its workspace.  A login has one invite to a workspace.\<close>

definition mr_key :: "member_role \<Rightarrow> string \<times> string \<times> string" where
  "mr_key m = (mr_workspace m, mr_user m, mr_role m)"

definition holdings :: "role_store \<Rightarrow> (string \<times> string \<times> string) list" where
  "holdings st = map mr_key (db_member_roles (rs_db st))"

definition holding_ok :: "role_store \<Rightarrow> string \<times> string \<times> string \<Rightarrow> bool" where
  "holding_ok st h = (case h of (w, u, i) \<Rightarrow> (w, u) \<in> set (db_members (rs_db st)) \<and> space_of st i = Some w)"

definition inv_key :: "Invite \<Rightarrow> string \<times> string" where
  "inv_key iv = (inv_WorkspaceID iv, inv_Login iv)"

definition holdings_ok :: "role_store \<Rightarrow> bool" where
  "holdings_ok st \<longleftrightarrow> distinct (db_members (rs_db st)) \<and> distinct (holdings st) \<and> list_all (holding_ok st) (holdings st) \<and>
     distinct (map inv_key (rs_invites st)) \<and>
     list_all (\<lambda>iv. space_of st (inv_RoleID iv) = Some (inv_WorkspaceID iv)) (rs_invites st)"

definition tenancy_ok :: "role_store \<Rightarrow> bool" where
  "tenancy_ok st \<longleftrightarrow> tables_ok st \<and> holdings_ok st"

section \<open>Steps\<close>

text \<open>The member gate the server gives the roles service: tenancy over the same tables.\<close>

definition wire_roles :: "Tenancy_Service \<Rightarrow> role_store \<Rightarrow> Roles_Service \<Rightarrow> Roles_Service" where
  "wire_roles ts st s =
     SetMemberGate s (\<lambda>w u. bindr (member_of st w u) (\<lambda>_. Inr ())) (RoleHolderEvents ts st)"

inductive member_write :: "Tenancy_Service \<Rightarrow> ctx \<Rightarrow> string \<Rightarrow> role_store \<Rightarrow> role_store \<Rightarrow> bool" for s c actor where
  invite: "InviteMember s c now st actor w login is = Inr st' \<Longrightarrow> member_write s c actor st st'"
| cancel: "CancelInvite s c st actor w login = Inr st' \<Longrightarrow> member_write s c actor st st'"
| remove: "RemoveMember s c st actor w u = Inr st' \<Longrightarrow> member_write s c actor st st'"
| change: "UpdateMemberRoles s c now st actor w u add rem = Inr st' \<Longrightarrow> member_write s c actor st st'"
| replace: "SetMemberRoles s c now st actor w u is = Inr st' \<Longrightarrow> member_write s c actor st st'"
| add: "AddMember s c now st actor w u is = Inr st' \<Longrightarrow> member_write s c actor st st'"

inductive tenancy_step :: "Tenancy_Service \<Rightarrow> Roles_Service \<Rightarrow> role_store \<Rightarrow> role_store \<Rightarrow> bool" for ts rs where
  roles: "role_step (wire_roles ts st rs) st st' \<Longrightarrow> tenancy_step ts rs st st'"
| members: "member_write ts c actor st st' \<Longrightarrow> tenancy_step ts rs st st'"
| resolve: "ResolvePendingInvites ts now st login u = (st', r) \<Longrightarrow> tenancy_step ts rs st st'"

end
