(* ===== verification/Tenancy_Tables.thy ===== *)
theory Tenancy_Tables
  imports Tenancy
begin

text \<open>
  The tables of memberships: what each operation of the repositories does to the holdings, the contract of the
  membership repository as the locale \<open>member_repo\<close> with its interpretation \<open>mr\<close>, what each use case has checked
  when it returns, what a write by an actor may change (\<open>member_change\<close>), and the preservation of \<open>tenancy_ok\<close> by
  every step.
\<close>

section \<open>Lemmas: the tables\<close>

definition with_rows :: "role_store \<Rightarrow> member_role list \<Rightarrow> role_store" where
  "with_rows st rows = st\<lparr>rs_db := (rs_db st)\<lparr>db_member_roles := rows\<rparr>\<rparr>"

definition new_row :: "string \<Rightarrow> string \<Rightarrow> time \<Rightarrow> string \<Rightarrow> member_role" where
  "new_row w u at i = \<lparr>mr_workspace = w, mr_user = u, mr_role = i, mr_created = at\<rparr>"

text \<open>What no membership write touches.\<close>

definition same_roles :: "role_store \<Rightarrow> role_store \<Rightarrow> bool" where
  "same_roles st st' \<longleftrightarrow> rs_roles st' = rs_roles st \<and> rs_spaces st' = rs_spaces st \<and>
     db_roles (rs_db st') = db_roles (rs_db st)"

lemma with_rows_sel [simp]:
  "rs_roles (with_rows st rows) = rs_roles st" "rs_spaces (with_rows st rows) = rs_spaces st"
  "rs_invites (with_rows st rows) = rs_invites st" "db_member_roles (rs_db (with_rows st rows)) = rows"
  "db_members (rs_db (with_rows st rows)) = db_members (rs_db st)"
  "db_roles (rs_db (with_rows st rows)) = db_roles (rs_db st)"
  "db_overwrites (rs_db (with_rows st rows)) = db_overwrites (rs_db st)"
  "rs_outbox (with_rows st rows) = rs_outbox st" "with_rows (with_rows st rows) rows' = with_rows st rows'"
  by (simp_all add: with_rows_def)

lemma new_row_key [simp]: "mr_key (new_row w u at i) = (w, u, i)"
  by (simp add: new_row_def mr_key_def)

lemma same_roles_reads:
  assumes "same_roles st st'"
  shows "role_ids st' = role_ids st" "role_spaces st' = role_spaces st" "owner_workspaces st' = owner_workspaces st"
    "roleGet st' = roleGet st" "space_of st' = space_of st" "owner_role st' = owner_role st"
  using assms
  by (auto simp: same_roles_def role_ids_def role_spaces_def owner_workspaces_def roleGet_def space_of_def
      owner_role_def fun_eq_iff)

lemma same_roles_tables:
  assumes "same_roles st st'" "tables_ok st" "role_refs st' \<subseteq> set (role_ids st)"
  shows "tables_ok st'"
  using assms(2,3) same_roles_reads [OF assms(1)] assms(1) by (simp add: tables_ok_def same_roles_def rs_workspaces_def)

lemma same_roles_refl [simp]: "same_roles st st" "same_roles st (with_rows st rows)" "same_roles st (insert_events evs st)"
  by (simp_all add: same_roles_def insert_events_def)

lemma same_roles_trans: "same_roles a b \<Longrightarrow> same_roles b c \<Longrightarrow> same_roles a c"
  by (simp add: same_roles_def)

lemma role_refs_alt:
  "role_refs st = (\<lambda>h. snd (snd h)) ` set (holdings st) \<union> {i. Some i \<in> po_RoleID ` set (db_overwrites (rs_db st))} \<union>
     inv_RoleID ` set (rs_invites st)"
  by (simp add: role_refs_def holdings_def image_image mr_key_def)

lemma space_of_ids: "space_of st i = Some w \<Longrightarrow> i \<in> set (role_ids st)"
  by (auto simp: space_of_def roleGet_def role_ids_def find_Some_iff split: sum.splits option.splits)

lemma addMemberRole_D:
  assumes "addMemberRole w u at i st = Inr st'"
  shows "st' = with_rows st (db_member_roles (rs_db st) @ [new_row w u at i])"
    "(w, u) \<in> set (db_members (rs_db st))" "i \<in> set (role_ids st)" "(w, u, i) \<notin> set (holdings st)"
  using assms
  by (auto simp: addMemberRole_def with_rows_def new_row_def holdings_def list_ex_iff mr_key_def split: if_splits)

lemma addMemberRoles_D:
  assumes "addMemberRoles w u at is st = Inr st'"
  shows "st' = with_rows st (db_member_roles (rs_db st) @ map (new_row w u at) is) \<and>
    ((w, u) \<in> set (db_members (rs_db st)) \<or> is = []) \<and> set is \<subseteq> set (role_ids st) \<and>
    (distinct (holdings st) \<longrightarrow> distinct (holdings st'))"
  using assms
proof (induction "is" arbitrary: st)
  case Nil
  then show ?case by (simp add: with_rows_def)
next
  case (Cons i "is")
  then obtain st1 where st1: "addMemberRole w u at i st = Inr st1" "addMemberRoles w u at is st1 = Inr st'"
    by (auto simp: bindr_Inr_iff)
  note head = addMemberRole_D [OF st1(1)]
  have "role_ids st1 = role_ids st" "distinct (holdings st) \<longrightarrow> distinct (holdings st1)"
    using head(4) unfolding head(1) by (simp_all add: role_ids_def holdings_def)
  then show ?case using Cons.IH [OF st1(2)] head by auto
qed

lemmas addMemberRoles_rows = addMemberRoles_D [THEN conjunct1]
lemmas addMemberRoles_known = addMemberRoles_D [THEN conjunct2, THEN conjunct2, THEN conjunct1]
lemmas addMemberRoles_distinct = addMemberRoles_D [THEN conjunct2, THEN conjunct2, THEN conjunct2, THEN mp]

section \<open>What each operation of the repositories does to the holdings\<close>

lemma with_rows_holdings [simp]: "holdings (with_rows st rows) = map mr_key rows"
  by (simp add: holdings_def)

lemma map_key_new [simp]: "map mr_key (map (new_row w u at) is) = map (\<lambda>i. (w, u, i)) is"
  by simp

lemma insert_events_sel [simp]:
  "rs_db (insert_events evs st) = rs_db st" "rs_invites (insert_events evs st) = rs_invites st"
  "holdings (insert_events evs st) = holdings st" "rs_outbox (insert_events evs st) = rs_outbox st @ evs"
  by (simp_all add: insert_events_def holdings_def)

lemma memberAdd_D:
  assumes "memberAdd st m evs = Inr st'"
  defines "w \<equiv> mem_WorkspaceID m" and "u \<equiv> mem_UserID m"
  shows "holdings st' = holdings st @ map (\<lambda>i. (w, u, i)) (Held m)"
    "db_members (rs_db st') = db_members (rs_db st) @ [(w, u)]" "(w, u) \<notin> set (db_members (rs_db st))"
    "set (Held m) \<subseteq> set (role_ids st)" "distinct (holdings st) \<Longrightarrow> distinct (holdings st')"
    "rs_invites st' = rs_invites st" "db_overwrites (rs_db st') = db_overwrites (rs_db st)" "same_roles st st'"
    "rs_outbox st' = rs_outbox st @ evs"
proof -
  let ?st0 = "st\<lparr>rs_db := (rs_db st)\<lparr>db_members := db_members (rs_db st) @ [(w, u)]\<rparr>,
                 rs_joined := (rs_joined st)(w := (rs_joined st w)(u := mem_CreatedAt m))\<rparr>"
  obtain st1 where new: "(w, u) \<notin> set (db_members (rs_db st))"
    and st1: "addMemberRoles w u (mem_CreatedAt m) (Held m) ?st0 = Inr st1" and st': "st' = insert_events evs st1"
    using assms(1) by (auto simp: memberAdd_def Let_def bindr_Inr_iff w_def u_def split: if_splits)
  have st0: "holdings ?st0 = holdings st" "role_ids ?st0 = role_ids st" by (simp_all add: holdings_def role_ids_def)
  note st1' = addMemberRoles_rows [OF st1]
  show "holdings st' = holdings st @ map (\<lambda>i. (w, u, i)) (Held m)"
    unfolding st' insert_events_sel st1' with_rows_holdings by (simp add: holdings_def)
  show "db_members (rs_db st') = db_members (rs_db st) @ [(w, u)]" "rs_invites st' = rs_invites st"
    "db_overwrites (rs_db st') = db_overwrites (rs_db st)" "same_roles st st'" "rs_outbox st' = rs_outbox st @ evs"
    unfolding st' st1' by (simp_all add: same_roles_def insert_events_def with_rows_def)
  show "(w, u) \<notin> set (db_members (rs_db st))" by (fact new)
  show "set (Held m) \<subseteq> set (role_ids st)" using addMemberRoles_known [OF st1] unfolding st0 .
  show "distinct (holdings st')" if "distinct (holdings st)"
    using addMemberRoles_distinct [OF st1] that unfolding st0 st' insert_events_sel by blast
qed

lemma map_filter_key:
  "map mr_key (filter (\<lambda>m. P (mr_workspace m) (mr_user m) (mr_role m)) rows) =
   filter (\<lambda>(w, u, i). P w u i) (map mr_key rows)"
  by (induction rows) (simp_all add: mr_key_def)

lemma memberRemove_D:
  assumes "memberRemove st w u evs = Inr st'"
  shows "holdings st' = filter (\<lambda>(w', u', i). \<not> (w' = w \<and> u' = u)) (holdings st)"
    "db_members (rs_db st') = filter (\<lambda>m. m \<noteq> (w, u)) (db_members (rs_db st))" "(w, u) \<in> set (db_members (rs_db st))"
    "db_overwrites (rs_db st') = filter (\<lambda>row. \<not> (po_ResourceType row = resourceTypeProject \<and> po_UserID row = Some u \<and>
       (po_ResourceID row, w) \<in> set (db_projects (rs_db st)))) (db_overwrites (rs_db st))"
    "rs_invites st' = rs_invites st" "same_roles st st'" "rs_outbox st' = rs_outbox st @ evs"
proof -
  have st': "st' = insert_events evs (st\<lparr>rs_db := (rs_db st)
      \<lparr>db_members := filter (\<lambda>m. m \<noteq> (w, u)) (db_members (rs_db st)),
       db_member_roles := filter (\<lambda>m. \<not> (mr_workspace m = w \<and> mr_user m = u)) (db_member_roles (rs_db st)),
       db_overwrites := filter (\<lambda>row. \<not> (po_ResourceType row = resourceTypeProject \<and> po_UserID row = Some u \<and>
         (po_ResourceID row, w) \<in> set (db_projects (rs_db st)))) (db_overwrites (rs_db st))\<rparr>\<rparr>)"
    and mem: "(w, u) \<in> set (db_members (rs_db st))"
    using assms unfolding memberRemove_def Let_def by (simp_all only: if_split sum.inject sum.distinct False_implies_equals split: if_splits)
  show "holdings st' = filter (\<lambda>(w', u', i). \<not> (w' = w \<and> u' = u)) (holdings st)"
    unfolding st' insert_events_sel unfolding holdings_def
    using map_filter_key [of "\<lambda>w' u' i. \<not> (w' = w \<and> u' = u)"] by simp
  show "(w, u) \<in> set (db_members (rs_db st))" by (fact mem)
  show "db_members (rs_db st') = filter (\<lambda>m. m \<noteq> (w, u)) (db_members (rs_db st))"
    "db_overwrites (rs_db st') = filter (\<lambda>row. \<not> (po_ResourceType row = resourceTypeProject \<and> po_UserID row = Some u \<and>
       (po_ResourceID row, w) \<in> set (db_projects (rs_db st)))) (db_overwrites (rs_db st))"
    "rs_invites st' = rs_invites st" "same_roles st st'" "rs_outbox st' = rs_outbox st @ evs"
    unfolding st' by (simp_all add: same_roles_def insert_events_def)
qed

lemma live_memberD: "live_member st w u \<Longrightarrow> (w, u) \<in> set (db_members (rs_db st))"
  by (simp add: live_member_def)

lemma memberChangeRoles_D:
  assumes "memberChangeRoles st at w u add remove evs = Inr st'"
  defines "kept \<equiv> filter (\<lambda>(w', u', i). \<not> (w' = w \<and> u' = u \<and> i \<in> set remove)) (holdings st)"
  shows "holdings st' = kept @ map (\<lambda>i. (w, u, i)) add" "live_member st w u" "set add \<subseteq> set (role_ids st)"
    "distinct (holdings st) \<Longrightarrow> distinct (holdings st')" "rs_invites st' = rs_invites st"
    "db_members (rs_db st') = db_members (rs_db st)" "db_overwrites (rs_db st') = db_overwrites (rs_db st)"
    "same_roles st st'" "rs_outbox st' = rs_outbox st @ evs"
proof -
  let ?rows = "filter (\<lambda>m. \<not> (mr_workspace m = w \<and> mr_user m = u \<and> mr_role m \<in> set remove)) (db_member_roles (rs_db st))"
  obtain st1 where live: "live_member st w u"
    and st1: "addMemberRoles w u at add (with_rows st ?rows) = Inr st1" and st': "st' = insert_events evs st1"
    using assms(1) by (auto simp: memberChangeRoles_def with_rows_def bindr_Inr_iff split: if_splits)
  have kept: "map mr_key ?rows = kept"
    unfolding kept_def holdings_def by (rule map_filter_key)
  have ids: "role_ids (with_rows st ?rows) = role_ids st" by (simp add: role_ids_def)
  note st1' = addMemberRoles_rows [OF st1]
  show "holdings st' = kept @ map (\<lambda>i. (w, u, i)) add"
    unfolding st' insert_events_sel st1' with_rows_holdings map_append with_rows_sel kept map_key_new ..
  show "live_member st w u" by (fact live)
  show "set add \<subseteq> set (role_ids st)" using addMemberRoles_known [OF st1] unfolding ids .
  show "distinct (holdings st')" if "distinct (holdings st)"
  proof -
    have "distinct (holdings (with_rows st ?rows))"
      unfolding with_rows_holdings kept kept_def by (rule distinct_filter [OF that])
    then show ?thesis using addMemberRoles_distinct [OF st1] unfolding st' insert_events_sel by blast
  qed
  show "rs_invites st' = rs_invites st" "db_members (rs_db st') = db_members (rs_db st)"
    "db_overwrites (rs_db st') = db_overwrites (rs_db st)" "same_roles st st'" "rs_outbox st' = rs_outbox st @ evs"
    unfolding st' st1' by (simp_all add: same_roles_def insert_events_def)
qed

lemma inviteUpsert_D:
  assumes "inviteUpsert st iv = Inr st'"
  shows "holdings st' = holdings st" "rs_db st' = rs_db st" "set (rs_invites st') \<subseteq> insert iv (set (rs_invites st))"
    "iv \<in> set (rs_invites st')" "inv_RoleID iv \<in> set (role_ids st)" "same_roles st st'" "rs_outbox st' = rs_outbox st"
  using assms by (auto simp: inviteUpsert_def Let_def holdings_def same_roles_def list_ex_iff same_invite_def split: if_splits)

lemma inviteDelete_D:
  "holdings (inviteDelete st w l) = holdings st" "rs_db (inviteDelete st w l) = rs_db st"
  "set (rs_invites (inviteDelete st w l)) \<subseteq> set (rs_invites st)" "same_roles st (inviteDelete st w l)"
  "rs_invites (inviteDelete st w l) = filter (\<lambda>iv. \<not> same_invite w l iv) (rs_invites st)"
  "rs_outbox (inviteDelete st w l) = rs_outbox st"
  by (auto simp: inviteDelete_def holdings_def same_roles_def)

section \<open>What the use cases have checked\<close>

lemma trimmedIDs_loop_set:
  "set (trimmedIDs_loop out is) = set out \<union> (TrimSpace ` set is - {[]})"
  "distinct out \<Longrightarrow> distinct (trimmedIDs_loop out is)"
  by (induction "is" arbitrary: out) (auto simp: Let_def)

lemma trimmedIDs_set [simp]: "set (trimmedIDs is) = TrimSpace ` set is - {[]}" "distinct (trimmedIDs is)"
  by (simp_all add: trimmedIDs_def trimmedIDs_loop_set)

definition givable :: "Tenancy_Service \<Rightarrow> ctx \<Rightarrow> role_store \<Rightarrow> string \<Rightarrow> string \<Rightarrow> string \<Rightarrow> bool" where
  "givable s c st actorID workspaceID i \<longleftrightarrow>
     (case roleGet st i of
        Inl _ \<Rightarrow> False
      | Inr r \<Rightarrow> role_WorkspaceID r = workspaceID \<and> \<not> role_IsOwnerRole r \<and>
          set (role_Permissions r) \<subseteq> set (pg_GrantablePermissions (tsv_wsPerms s) c actorID workspaceID))"

definition may_manage_members :: "Tenancy_Service \<Rightarrow> ctx \<Rightarrow> string \<Rightarrow> string \<Rightarrow> bool" where
  "may_manage_members s c actorID workspaceID \<longleftrightarrow>
     MembersWrite \<in> set (pg_WorkspacePermissions (tsv_wsPerms s) c actorID workspaceID)"

lemma requireManage_iff: "requireManageWorkspaceMembers s c actor w = Inr () \<longleftrightarrow> may_manage_members s c actor w"
  by (simp add: requireManageWorkspaceMembers_def requireWorkspacePermission_def may_manage_members_def)

lemma requireHoldsGrant_iff:
  "requireHoldsGrant s c actor w grant = Inr () \<longleftrightarrow>
   set grant \<subseteq> set (pg_GrantablePermissions (tsv_wsPerms s) c actor w)"
  by (auto simp: requireHoldsGrant_def RequireHeld_def Let_def SetOfStrings_def filter_empty_conv)

lemma GetRole_iff:
  assumes "TrimSpace w = w" "TrimSpace i = i"
  shows "GetRole st w i = Inr r \<longleftrightarrow>
    w \<noteq> [] \<and> i \<noteq> [] \<and> (\<exists>r0. roleGet st i = Inr r0 \<and> role_WorkspaceID r0 = w \<and> r = withOwnerSteps r0)"
  using assms by (auto simp: GetRole_def getInWorkspace_def bindr_Inr_iff)

lemma requireGivable_D:
  assumes "requireGivable s c st actor w is = Inr ()" "TrimSpace w = w" "\<forall>i \<in> set is. TrimSpace i = i"
  shows "\<forall>i \<in> set is. givable s c st actor w i"
  using assms
proof (induction "is")
  case (Cons i "is")
  have rest: "requireGivable s c st actor w is = Inr ()"
    using Cons.prems(1) by (auto simp: bindr_Inr_iff split: if_splits)
  have "givable s c st actor w i"
    using Cons.prems
    by (auto simp: bindr_Inr_iff requireHoldsRole_def IsOwnerRole_def RolePermissions_def GetRole_iff givable_def
        requireHoldsGrant_iff split: if_splits)
  then show ?case using Cons.IH [OF rest] Cons.prems by simp
qed simp

lemma givable_space: "givable s c st actor w i \<Longrightarrow> space_of st i = Some w"
  by (auto simp: givable_def space_of_def split: sum.splits)

lemma in_given_order_set [simp]:
  "set (in_given_order st rows) = {m \<in> set rows. mr_role m \<in> set (role_ids st)}"
  by (auto simp: in_given_order_def)

lemma ListMemberRoleIDs_set [simp]:
  "set (ListMemberRoleIDs st w u) = {i. (w, u, i) \<in> set (holdings st) \<and> i \<in> set (role_ids st)}"
  by (force simp: ListMemberRoleIDs_def holdings_def mr_key_def)

lemma held_known:
  assumes "tables_ok st" "(w, u, i) \<in> set (holdings st)"
  shows "i \<in> set (role_ids st)"
proof -
  have "i \<in> (\<lambda>h. snd (snd h)) ` set (holdings st)" using assms(2) by (auto intro: image_eqI [of _ _ "(w, u, i)"])
  then show ?thesis using assms(1) unfolding tables_ok_def role_refs_alt by blast
qed

lemma memberGet_D:
  "memberGet st w u = Inr m \<Longrightarrow> live_member st w u \<and> mem_RoleIDs m = ListMemberRoleIDs st w u \<and>
     mem_UserID m = u \<and> mem_WorkspaceID m = w"
  by (auto simp: memberGet_def toMember_def split: if_splits)

lemma ownerRoleAmong_False:
  "ownerRoleAmong st w is = Inr False \<Longrightarrow> \<forall>i \<in> set is. IsOwnerRole st w i = Inr False"
  by (induction "is") (auto simp: bindr_Inr_iff split: if_splits)

lemma holdsOwnerRole_False:
  assumes "holdsOwnerRole st w u = Inr False" "tables_ok st" "(w, u, i) \<in> set (holdings st)"
    and "roleGet st i = Inr r"
  shows "\<not> role_IsOwnerRole r"
proof -
  have known: "i \<in> set (role_ids st)"
    using held_known [OF assms(2,3)] .
  obtain m where "memberGet st w u = Inr m" "ownerRoleAmong st w (mem_RoleIDs m) = Inr False"
    using assms(1) by (auto simp: holdsOwnerRole_def member_of_def bindr_Inr_iff)
  then have "IsOwnerRole st w i = Inr False"
    using ownerRoleAmong_False memberGet_D assms(3) known by fastforce
  then obtain r' where "getInWorkspace st w i = Inr r'" "\<not> role_IsOwnerRole r'"
    by (auto simp: IsOwnerRole_def GetRole_def bindr_Inr_iff)
  then show ?thesis
    using getInWorkspace_D [of st w i r'] id_ok_known [OF assms(2) known] assms(4) by auto
qed

lemma InviteMember_D:
  assumes "InviteMember s c now st actor w0 login is0 = Inr st'"
  obtains (added) u where "may_manage_members s c actor (TrimSpace w0)"
      "\<forall>i \<in> set (trimmedIDs is0). givable s c st actor (TrimSpace w0) i" "trimmedIDs is0 \<noteq> []"
      "memberAdd st (new_member u (TrimSpace w0) (trimmedIDs is0) now) [] = Inr st'"
    | (invited) iv where "may_manage_members s c actor (TrimSpace w0)" "inv_WorkspaceID iv = TrimSpace w0"
      "givable s c st actor (TrimSpace w0) (inv_RoleID iv)" "inviteUpsert st iv = Inr st'"
proof -
  let ?is = "trimmedIDs is0" and ?w = "TrimSpace w0"
  have checks: "may_manage_members s c actor ?w" "requireGivable s c st actor ?w ?is = Inr ()" "?is \<noteq> []"
    using assms by (auto simp: InviteMember_def Let_def bindr_Inr_iff requireManage_iff split: if_splits)
  then have give: "\<forall>i \<in> set ?is. givable s c st actor ?w i" by (intro requireGivable_D) auto
  have "(\<exists>u. memberAdd st (new_member u ?w ?is now) [] = Inr st') \<or>
    (\<exists>login. inviteUpsert st \<lparr>inv_WorkspaceID = ?w, inv_Login = login, inv_RoleID = hd ?is,
       inv_InvitedBy = actor, inv_CreatedAt = now\<rparr> = Inr st')"
    using assms by (auto simp: InviteMember_def Let_def bindr_Inr_iff split: if_splits)
  then show thesis
  proof (elim disjE exE)
    fix u
    assume "memberAdd st (new_member u ?w ?is now) [] = Inr st'"
    with checks give show thesis by (intro added)
  next
    fix login
    assume "inviteUpsert st \<lparr>inv_WorkspaceID = ?w, inv_Login = login, inv_RoleID = hd ?is,
       inv_InvitedBy = actor, inv_CreatedAt = now\<rparr> = Inr st'"
    with checks give hd_in_set [OF checks(3)] show thesis by (intro invited) simp_all
  qed
qed

lemma AddMember_D:
  assumes "AddMember s c now st actor w0 u0 is0 = Inr st'"
  obtains evs where "may_manage_members s c actor (TrimSpace w0)"
    "\<forall>i \<in> set (trimmedIDs is0). givable s c st actor (TrimSpace w0) i" "trimmedIDs is0 \<noteq> []"
    "memberAdd st (new_member (TrimSpace u0) (TrimSpace w0) (trimmedIDs is0) now) evs = Inr st'"
proof -
  let ?is = "trimmedIDs is0" and ?w = "TrimSpace w0"
  have checks: "may_manage_members s c actor ?w" "requireGivable s c st actor ?w ?is = Inr ()" "?is \<noteq> []"
    using assms by (auto simp: AddMember_def Let_def bindr_Inr_iff requireManage_iff split: if_splits)
  then have give: "\<forall>i \<in> set ?is. givable s c st actor ?w i" by (intro requireGivable_D) auto
  show thesis
    using assms that [OF checks(1) give checks(3)]
    by (auto simp: AddMember_def Let_def bindr_Inr_iff split: if_splits sum.splits)
qed

lemma CancelInvite_D:
  "CancelInvite s c st actor w login = Inr st' \<Longrightarrow>
   may_manage_members s c actor (TrimSpace w) \<and> (\<exists>l. st' = inviteDelete st (TrimSpace w) l)"
  by (auto simp: CancelInvite_def Let_def bindr_Inr_iff requireManage_iff)

lemma RemoveMember_D:
  "RemoveMember s c st actor w u = Inr st' \<Longrightarrow>
   may_manage_members s c actor (TrimSpace w) \<and> holdsOwnerRole st (TrimSpace w) (TrimSpace u) = Inr False \<and>
   memberRemove st (TrimSpace w) (TrimSpace u)
     [TopicWorkspaceMemberRemoved (memberEvent actor (TrimSpace w) (TrimSpace u))] = Inr st'"
  by (auto simp: RemoveMember_def Let_def bindr_Inr_iff requireManage_iff split: if_splits)

definition to_add :: "role_store \<Rightarrow> string \<Rightarrow> string \<Rightarrow> string list \<Rightarrow> string list" where
  "to_add st w u is = filter (\<lambda>i. i \<notin> set (ListMemberRoleIDs st w u)) (trimmedIDs is)"

definition to_remove :: "role_store \<Rightarrow> string \<Rightarrow> string \<Rightarrow> string list \<Rightarrow> string list" where
  "to_remove st w u is = filter (\<lambda>i. i \<in> set (ListMemberRoleIDs st w u)) (trimmedIDs is)"

lemma UpdateMemberRoles_D:
  assumes "UpdateMemberRoles s c now st actor w0 u0 add0 remove0 = Inr st'"
  defines "w \<equiv> TrimSpace w0" and "u \<equiv> TrimSpace u0"
  defines "add \<equiv> to_add st w u add0" and "remove \<equiv> to_remove st w u remove0"
  shows "may_manage_members s c actor w" "live_member st w u"
    "\<forall>i \<in> set add \<union> set remove. givable s c st actor w i"
    "if add = [] \<and> remove = [] then st' = st
     else \<exists>evt. memberUpdated s actor w u add = Inr evt \<and>
       memberChangeRoles st now w u add remove [TopicWorkspaceMemberUpdated evt] = Inr st'"
proof -
  obtain m where m: "may_manage_members s c actor w" "memberGet st w u = Inr m"
    using assms(1) by (auto simp: UpdateMemberRoles_def Let_def bindr_Inr_iff requireManage_iff member_of_def w_def u_def)
  note held = memberGet_D [OF m(2)]
  have checks: "requireGivable s c st actor w add = Inr ()" "requireGivable s c st actor w remove = Inr ()"
    using assms(1) m held
    by (auto simp: UpdateMemberRoles_def Let_def bindr_Inr_iff member_of_def to_add_def to_remove_def
        w_def u_def add_def remove_def split: if_splits)
  have "\<forall>i \<in> set add \<union> set remove. TrimSpace i = i"
    by (auto simp: add_def remove_def to_add_def to_remove_def)
  then show "\<forall>i \<in> set add \<union> set remove. givable s c st actor w i"
    using checks [THEN requireGivable_D] by (auto simp: w_def)
  show "may_manage_members s c actor w" "live_member st w u" using m held by auto
  show "if add = [] \<and> remove = [] then st' = st
     else \<exists>evt. memberUpdated s actor w u add = Inr evt \<and>
       memberChangeRoles st now w u add remove [TopicWorkspaceMemberUpdated evt] = Inr st'"
    using assms(1) m held
    by (auto simp: UpdateMemberRoles_def Let_def bindr_Inr_iff member_of_def to_add_def to_remove_def
        w_def u_def add_def remove_def split: if_splits)
qed

lemma SetMemberRoles_D:
  assumes "SetMemberRoles s c now st actor w0 u0 is0 = Inr st'"
  defines "w \<equiv> TrimSpace w0" and "u \<equiv> TrimSpace u0"
  shows "UpdateMemberRoles s c now st actor w u (trimmedIDs is0)
      (filter (\<lambda>i. i \<notin> set (trimmedIDs is0)) (ListMemberRoleIDs st w u)) = Inr st'"
  using assms(1) by (auto simp: SetMemberRoles_def Let_def bindr_Inr_iff member_of_def w_def u_def dest!: memberGet_D)

section \<open>The contract of the membership repository\<close>

locale member_repo =
  fixes held :: "'st \<Rightarrow> (string \<times> string \<times> string) set" and mems :: "'st \<Rightarrow> (string \<times> string) set"
    and add :: "'st \<Rightarrow> WorkspaceMember \<Rightarrow> 'ev list \<Rightarrow> 'st res" and del :: "'st \<Rightarrow> string \<Rightarrow> string \<Rightarrow> 'ev list \<Rightarrow> 'st res"
    and change :: "'st \<Rightarrow> time \<Rightarrow> string \<Rightarrow> string \<Rightarrow> string list \<Rightarrow> string list \<Rightarrow> 'ev list \<Rightarrow> 'st res"
  assumes add_law: "add st m evs = Inr st' \<Longrightarrow>
      held st' = held st \<union> {mem_WorkspaceID m} \<times> {mem_UserID m} \<times> set (Held m) \<and>
      mems st' = insert (mem_WorkspaceID m, mem_UserID m) (mems st)"
    and del_law: "del st w u evs = Inr st' \<Longrightarrow>
      held st' = held st - {w} \<times> {u} \<times> UNIV \<and> mems st' = mems st - {(w, u)}"
    and change_law: "change st at w u is js evs = Inr st' \<Longrightarrow>
      held st' = held st - {w} \<times> {u} \<times> set js \<union> {w} \<times> {u} \<times> set is \<and> mems st' = mems st \<and> (w, u) \<in> mems st"
begin

lemma add_given: "add st m evs = Inr st' \<Longrightarrow> h \<in> held st' \<Longrightarrow>
    h \<in> held st \<or> (\<exists>i \<in> set (Held m). h = (mem_WorkspaceID m, mem_UserID m, i))"
  by (auto dest: add_law)

lemma add_keeps: "add st m evs = Inr st' \<Longrightarrow> h \<in> held st \<Longrightarrow> h \<in> held st'"
  by (auto dest: add_law)

lemma del_given: "del st w u evs = Inr st' \<Longrightarrow> h \<in> held st' \<Longrightarrow> h \<in> held st"
  by (auto dest: del_law)

lemma del_taken: "del st w u evs = Inr st' \<Longrightarrow> h \<in> held st \<Longrightarrow> h \<notin> held st' \<Longrightarrow> \<exists>i. h = (w, u, i)"
  by (cases h) (auto dest: del_law)

lemma change_given: "change st at w u is js evs = Inr st' \<Longrightarrow> h \<in> held st' \<Longrightarrow>
    h \<in> held st \<or> (\<exists>i \<in> set is. h = (w, u, i))"
  by (auto dest: change_law)

lemma change_taken: "change st at w u is js evs = Inr st' \<Longrightarrow> h \<in> held st \<Longrightarrow> h \<notin> held st' \<Longrightarrow>
    \<exists>i \<in> set js. h = (w, u, i)"
  by (cases h) (auto dest: change_law)

lemma change_exact: "change st at w u is js evs = Inr st' \<Longrightarrow>
    {i. (w, u, i) \<in> held st'} = {i. (w, u, i) \<in> held st} - set js \<union> set is"
  by (auto dest: change_law)

text \<open>Every holding names a member: all three operations keep it.\<close>

definition named :: "'st \<Rightarrow> bool" where
  "named st \<longleftrightarrow> (\<forall>(w, u, i) \<in> held st. (w, u) \<in> mems st)"

lemma add_named: "add st m evs = Inr st' \<Longrightarrow> named st \<Longrightarrow> named st'"
  by (auto simp: named_def dest!: add_law)

lemma del_named: "del st w u evs = Inr st' \<Longrightarrow> named st \<Longrightarrow> named st'"
  by (auto simp: named_def dest!: del_law)

lemma change_named: "change st at w u is js evs = Inr st' \<Longrightarrow> named st \<Longrightarrow> named st'"
  by (auto simp: named_def dest!: change_law)

end

definition held_set :: "role_store \<Rightarrow> (string \<times> string \<times> string) set" where
  "held_set st = set (holdings st)"

definition member_set :: "role_store \<Rightarrow> (string \<times> string) set" where
  "member_set st = set (db_members (rs_db st))"

interpretation mr: member_repo held_set member_set memberAdd memberRemove memberChangeRoles
proof unfold_locales
  show "held_set st' = held_set st \<union> {mem_WorkspaceID m} \<times> {mem_UserID m} \<times> set (Held m) \<and>
      member_set st' = insert (mem_WorkspaceID m, mem_UserID m) (member_set st)"
    if "memberAdd st m evs = Inr st'" for st m evs st'
    using memberAdd_D(1,2) [OF that] by (auto simp: held_set_def member_set_def)
  show "held_set st' = held_set st - {w} \<times> {u} \<times> UNIV \<and> member_set st' = member_set st - {(w, u)}"
    if "memberRemove st w u evs = Inr st'" for st w u evs st'
    using memberRemove_D(1,2) [OF that] by (auto simp: held_set_def member_set_def)
  show "held_set st' = held_set st - {w} \<times> {u} \<times> set js \<union> {w} \<times> {u} \<times> set is \<and>
      member_set st' = member_set st \<and> (w, u) \<in> member_set st"
    if "memberChangeRoles st at w u is js evs = Inr st'" for st at w u "is" js evs st'
    using memberChangeRoles_D(1,2,6) [OF that] live_memberD by (auto simp: held_set_def member_set_def)
qed

section \<open>What a write on members changes\<close>

definition member_change :: "Tenancy_Service \<Rightarrow> ctx \<Rightarrow> string \<Rightarrow> role_store \<Rightarrow> role_store \<Rightarrow> bool" where
  "member_change s c actor st st' \<longleftrightarrow>
     same_roles st st' \<and>
     (\<forall>w u i. (w, u, i) \<in> held_set st' \<longrightarrow> (w, u, i) \<notin> held_set st \<longrightarrow>
        may_manage_members s c actor w \<and> givable s c st actor w i) \<and>
     (\<forall>w u i. (w, u, i) \<in> held_set st \<longrightarrow> (w, u, i) \<notin> held_set st' \<longrightarrow>
        may_manage_members s c actor w \<and> (\<forall>r. roleGet st i = Inr r \<longrightarrow> \<not> role_IsOwnerRole r)) \<and>
     (\<forall>iv \<in> set (rs_invites st'). iv \<notin> set (rs_invites st) \<longrightarrow>
        may_manage_members s c actor (inv_WorkspaceID iv) \<and>
        givable s c st actor (inv_WorkspaceID iv) (inv_RoleID iv))"

lemma new_member_sel [simp]:
  "mem_WorkspaceID (new_member u w is now) = w" "mem_UserID (new_member u w is now) = u"
  by (simp_all add: new_member_def)

lemma new_member_Held [simp]: "is \<noteq> [] \<Longrightarrow> Held (new_member u w is now) = is"
  by (simp add: new_member_def Held_def)

lemma givable_not_owner: "givable s c st actor w i \<Longrightarrow> roleGet st i = Inr r \<Longrightarrow> \<not> role_IsOwnerRole r"
  by (simp add: givable_def)

lemma member_changeI:
  assumes "same_roles st st'"
    and "\<And>h. h \<in> held_set st' \<Longrightarrow> h \<notin> held_set st \<Longrightarrow>
      \<exists>w u i. h = (w, u, i) \<and> may_manage_members s c actor w \<and> givable s c st actor w i"
    and "\<And>h. h \<in> held_set st \<Longrightarrow> h \<notin> held_set st' \<Longrightarrow>
      \<exists>w u i. h = (w, u, i) \<and> may_manage_members s c actor w \<and> (\<forall>r. roleGet st i = Inr r \<longrightarrow> \<not> role_IsOwnerRole r)"
    and "\<And>iv. iv \<in> set (rs_invites st') \<Longrightarrow> iv \<notin> set (rs_invites st) \<Longrightarrow>
      may_manage_members s c actor (inv_WorkspaceID iv) \<and>
      givable s c st actor (inv_WorkspaceID iv) (inv_RoleID iv)"
  shows "member_change s c actor st st'"
  unfolding member_change_def
proof (intro conjI allI impI ballI)
  show "same_roles st st'" by (fact assms(1))
next
  fix w u i
  assume "(w, u, i) \<in> held_set st'" "(w, u, i) \<notin> held_set st"
  from assms(2) [OF this]
  show "may_manage_members s c actor w" "givable s c st actor w i" by auto
next
  fix w u i r
  assume "(w, u, i) \<in> held_set st" "(w, u, i) \<notin> held_set st'"
  from assms(3) [OF this]
  show "may_manage_members s c actor w" "roleGet st i = Inr r \<Longrightarrow> \<not> role_IsOwnerRole r" by auto
qed (use assms(4) in auto)

lemma change_add:
  assumes "may_manage_members s c actor w" "\<forall>i \<in> set is. givable s c st actor w i"
    and "memberAdd st (new_member u w is now) evs = Inr st'" and "is \<noteq> []"
  shows "member_change s c actor st st'"
proof (rule member_changeI)
  fix h
  assume "h \<in> held_set st'" "h \<notin> held_set st"
  then obtain i where "i \<in> set is" "h = (w, u, i)" using mr.add_given [OF assms(3), of h] unfolding new_member_sel new_member_Held [OF assms(4)] by blast
  then show "\<exists>w u i. h = (w, u, i) \<and> may_manage_members s c actor w \<and> givable s c st actor w i"
    using assms(1,2) by blast
qed (use mr.add_keeps [OF assms(3)] memberAdd_D(6,8) [OF assms(3)] in auto)

lemma change_update:
  assumes "UpdateMemberRoles s c now st actor w u add0 rem0 = Inr st'"
  shows "member_change s c actor st st'"
proof -
  let ?add = "to_add st (TrimSpace w) (TrimSpace u) add0" and ?rem = "to_remove st (TrimSpace w) (TrimSpace u) rem0"
  note D = UpdateMemberRoles_D [OF assms]
  show ?thesis
  proof (cases "?add = [] \<and> ?rem = []")
    case True
    then show ?thesis using D(4) by (simp add: member_change_def)
  next
    case False
    then obtain evt where "memberChangeRoles st now (TrimSpace w) (TrimSpace u) ?add ?rem
        [TopicWorkspaceMemberUpdated evt] = Inr st'" using D(4) by auto
    note ch = mr.change_given [OF this] mr.change_taken [OF this] memberChangeRoles_D(5,8) [OF this]
    show ?thesis
    proof (rule member_changeI)
      fix h
      assume "h \<in> held_set st'" "h \<notin> held_set st"
      then obtain i where "i \<in> set ?add" "h = (TrimSpace w, TrimSpace u, i)" using ch(1) by blast
      then show "\<exists>w u i. h = (w, u, i) \<and> may_manage_members s c actor w \<and> givable s c st actor w i"
        using D(1,3) by blast
    next
      fix h
      assume "h \<in> held_set st" "h \<notin> held_set st'"
      then obtain i where "i \<in> set ?rem" "h = (TrimSpace w, TrimSpace u, i)" using ch(2) by blast
      moreover from this have "givable s c st actor (TrimSpace w) i" using D(3) by simp
      ultimately show "\<exists>w u i. h = (w, u, i) \<and> may_manage_members s c actor w \<and>
          (\<forall>r. roleGet st i = Inr r \<longrightarrow> \<not> role_IsOwnerRole r)"
        using D(1) by (auto dest: givable_not_owner)
    qed (use ch(3,4) in auto)
  qed
qed

lemma member_write_change:
  assumes "member_write s c actor st st'" "tables_ok st"
  shows "member_change s c actor st st'"
  using assms
proof (induction rule: member_write.induct)
  case (invite now st w login "is" st')
  from invite(1) show ?case
  proof (cases rule: InviteMember_D)
    case (added u)
    then show ?thesis by (intro change_add)
  next
    case (invited iv)
    then show ?thesis using inviteUpsert_D [OF invited(4)] by (auto simp: member_change_def held_set_def)
  qed
next
  case (cancel st w login st')
  then show ?case
    using inviteDelete_D by (fastforce simp: member_change_def held_set_def dest!: CancelInvite_D)
next
  case (remove st w u st')
  note D = RemoveMember_D [OF remove(1)]
  then have rem: "memberRemove st (TrimSpace w) (TrimSpace u)
      [TopicWorkspaceMemberRemoved (memberEvent actor (TrimSpace w) (TrimSpace u))] = Inr st'" by blast
  show ?case
  proof (rule member_changeI)
    fix h
    assume h: "h \<in> held_set st" "h \<notin> held_set st'"
    then obtain i where i: "h = (TrimSpace w, TrimSpace u, i)" using mr.del_taken [OF rem] by blast
    then have "\<not> role_IsOwnerRole r" if "roleGet st i = Inr r" for r
      using holdsOwnerRole_False [OF _ remove(2) _ that] D h by (auto simp: held_set_def)
    then show "\<exists>w u i. h = (w, u, i) \<and> may_manage_members s c actor w \<and>
        (\<forall>r. roleGet st i = Inr r \<longrightarrow> \<not> role_IsOwnerRole r)"
      using i D by blast
  qed (use mr.del_given [OF rem] memberRemove_D(5,6) [OF rem] in auto)
next
  case (change now st w u add rem st')
  then show ?case by (intro change_update)
next
  case (replace now st w u "is" st')
  then show ?case using SetMemberRoles_D change_update by metis
next
  case (add now st w u "is" st')
  from add(1) show ?case by (cases rule: AddMember_D) (rule change_add)
qed

section \<open>The tables stay well formed\<close>

text \<open>Induction over a step of the roles: what creating, editing a role that is not Owner and deleting one keep.\<close>

lemma role_step_inv:
  assumes "role_step s st st'" "tables_ok st" "P st"
    and create: "\<And>st r st'. P st \<Longrightarrow> tables_ok st \<Longrightarrow> roleCreate st r = Inr st' \<Longrightarrow> P st'"
    and upd: "\<And>st r evs st' x. P st \<Longrightarrow> tables_ok st \<Longrightarrow> roleUpdate st r evs = Inr st' \<Longrightarrow>
      roleGet st (role_ID r) = Inr x \<Longrightarrow> \<not> role_IsOwnerRole x \<Longrightarrow> P st'"
    and del: "\<And>st j evs st' x. P st \<Longrightarrow> tables_ok st \<Longrightarrow> roleDelete st j evs = Inr st' \<Longrightarrow>
      roleGet st j = Inr x \<Longrightarrow> \<not> role_IsOwnerRole x \<Longrightarrow> P st'"
  shows "P st'"
  using assms(1-3)
proof (induction rule: role_step.induct)
  case (written c actor st st')
  from written(1) show ?case
  proof (cases rule: role_write.cases)
    case (create newID now ws name d perms steps sh r)
    then show ?thesis using assms(4) written(2,3) CreateRole_D(1) by metis
  next
    case (update now ws i name d perms steps sh r)
    obtain r0 ev where r0: "roleGet st (TrimSpace i) = Inr r0" "\<not> role_IsOwnerRole r0" "role_ID r = role_ID r0"
      "roleUpdate st r [ev] = Inr st'"
      using UpdateRole_D [OF update] by metis
    then have "roleGet st (role_ID r) = Inr r0" using roleGet_id by metis
    then show ?thesis using upd [OF written(3,2) r0(4)] r0(2) by simp
  next
    case (delete ws i)
    obtain r0 evs where r0: "roleGet st (TrimSpace i) = Inr r0" "\<not> role_IsOwnerRole r0" "roleDelete st i evs = Inr st'"
      using DeleteRole_D [OF delete] by metis
    then have "TrimSpace i = i" using id_ok_known [OF written(2)] roleDelete_id by metis
    then show ?thesis using del [OF written(3,2) r0(3)] r0 by simp
  next
    case (clone newID now ws i target r)
    then show ?thesis using assms(4) written(2,3) CloneRole_D by metis
  qed
next
  case (owner newID now st ws st' r)
  then show ?case using CreateOwnerRole_D assms(4) by metis
next
  case (seed newIDs now st ws st' res)
  have "P st' \<and> tables_ok st'"
    by (rule SeedTemplateRoles_inv [of "\<lambda>st. P st \<and> tables_ok st", OF _ seed(1) _ seed(2)])
      (use seed assms(4) tables_ok_create in auto)
  then show ?case ..
qed

lemma holdings_create: "roleCreate st r = Inr st' \<Longrightarrow> holdings st' = holdings st \<and> rs_invites st' = rs_invites st \<and>
    db_members (rs_db st') = db_members (rs_db st) \<and> db_overwrites (rs_db st') = db_overwrites (rs_db st)"
  by (auto simp: roleCreate_def holdings_def split: if_splits)

lemma holdings_update: "roleUpdate st r evs = Inr st' \<Longrightarrow> holdings st' = holdings st \<and> rs_invites st' = rs_invites st \<and>
    db_members (rs_db st') = db_members (rs_db st)"
  by (auto simp: roleUpdate_def holdings_def split: if_splits)

lemma holdings_delete:
  assumes "roleDelete st j evs = Inr st'"
  shows "holdings st' = filter (\<lambda>h. snd (snd h) \<noteq> j) (holdings st)"
    "rs_invites st' = filter (\<lambda>iv. inv_RoleID iv \<noteq> j) (rs_invites st)"
    "db_members (rs_db st') = db_members (rs_db st)"
  using assms by (auto simp: roleDelete_def cascade_db_def holdings_def filter_map comp_def mr_key_def split: if_splits)

lemma space_of_create: "roleCreate st r = Inr st' \<Longrightarrow> space_of st i = Some w \<Longrightarrow> space_of st' i = Some w"
  using rr.create_keeps by (fastforce simp: space_of_def split: sum.splits)

lemma space_of_update:
  assumes "roleUpdate st r evs = Inr st'"
  shows "space_of st' i = space_of st i"
  using roleGet_update [OF assms, of i] by (auto simp: space_of_def toRole_def update_row_def bindr_def split: sum.splits)

lemma space_of_delete: "roleDelete st j evs = Inr st' \<Longrightarrow> i \<noteq> j \<Longrightarrow> space_of st' i = space_of st i"
  using roleGet_delete [of st j evs st' i] by (simp add: space_of_def)

lemma role_step_members:
  assumes "role_step s st st'" "tables_ok st" "holdings_ok st"
  shows "holdings_ok st'"
proof (rule role_step_inv [where P = holdings_ok, OF assms])
  fix st r st'
  assume "holdings_ok st" and c: "roleCreate st r = Inr st'"
  then show "holdings_ok st'"
    using holdings_create [OF c] space_of_create [OF c]
    by (auto simp: holdings_ok_def holding_ok_def list_all_iff split: prod.splits)
next
  fix st r evs st'
  assume "holdings_ok st" and c: "roleUpdate st r evs = Inr st'"
  then show "holdings_ok st'"
    using holdings_update [OF c] space_of_update [OF c] by (simp add: holdings_ok_def holding_ok_def list_all_iff)
next
  fix st j evs st'
  assume "holdings_ok st" and c: "roleDelete st j evs = Inr st'"
  then show "holdings_ok st'"
    using holdings_delete [OF c] space_of_delete [OF c] distinct_filter_map [of inv_key "rs_invites st"]
    by (auto simp: holdings_ok_def holding_ok_def list_all_iff split: prod.splits)
qed

definition member_frame :: "role_store \<Rightarrow> role_store \<Rightarrow> bool" where
  "member_frame st st' \<longleftrightarrow>
     (distinct (db_members (rs_db st)) \<longrightarrow> distinct (db_members (rs_db st'))) \<and>
     (distinct (holdings st) \<longrightarrow> distinct (holdings st')) \<and> (mr.named st \<longrightarrow> mr.named st') \<and>
     set (db_overwrites (rs_db st')) \<subseteq> set (db_overwrites (rs_db st)) \<and>
     (distinct (map inv_key (rs_invites st)) \<longrightarrow> distinct (map inv_key (rs_invites st')))"

lemma frame_add: "memberAdd st m evs = Inr st' \<Longrightarrow> member_frame st st'"
  using memberAdd_D(2,3,5,6,7) mr.add_named by (simp add: member_frame_def)

lemma frame_remove: "memberRemove st w u evs = Inr st' \<Longrightarrow> member_frame st st'"
  using memberRemove_D(1,2,4,5) [of st w u evs st'] mr.del_named by (simp add: member_frame_def)

lemma frame_change: "memberChangeRoles st at w u is js evs = Inr st' \<Longrightarrow> member_frame st st'"
  using memberChangeRoles_D(4,5,6,7) mr.change_named by (simp add: member_frame_def)

lemma same_invite_key: "same_invite w l iv \<longleftrightarrow> inv_key iv = (w, l)"
  by (auto simp: same_invite_def inv_key_def)

lemma frame_upsert:
  assumes "inviteUpsert st iv = Inr st'"
  shows "member_frame st st'"
proof -
  have "map inv_key (rs_invites st') =
      (if inv_key iv \<in> inv_key ` set (rs_invites st) then map inv_key (rs_invites st)
       else map inv_key (rs_invites st) @ [inv_key iv])"
    using assms
    by (auto simp: inviteUpsert_def Let_def same_invite_key list_ex_iff inv_key_def image_iff
        simp del: prod.inject split: if_splits)
  moreover have "mr.named st' = mr.named st"
    using inviteUpsert_D(1,2) [OF assms] by (simp add: mr.named_def held_set_def member_set_def)
  ultimately show ?thesis using inviteUpsert_D(1,2) [OF assms] by (auto simp: member_frame_def)
qed

lemma frame_cancel: "member_frame st (inviteDelete st w l)"
  using inviteDelete_D [of st w l] distinct_filter_map [of inv_key "rs_invites st"]
  by (simp add: member_frame_def mr.named_def held_set_def member_set_def)

lemma frame_update: "UpdateMemberRoles s c now st actor w u add rem = Inr st' \<Longrightarrow> member_frame st st'"
  using UpdateMemberRoles_D(4) frame_change
  by (fastforce split: if_splits simp: member_frame_def)

lemma member_write_frame: "member_write s c actor st st' \<Longrightarrow> member_frame st st'"
proof (induction rule: member_write.induct)
  case (invite now st w login "is" st')
  then show ?case by (rule InviteMember_D) (auto intro: frame_add frame_upsert)
next
  case (cancel st w login st')
  then show ?case using frame_cancel by (auto dest: CancelInvite_D)
next
  case (remove st w u st')
  then show ?case using frame_remove by (auto dest: RemoveMember_D)
next
  case (change now st w u add rem st')
  then show ?case by (rule frame_update)
next
  case (replace now st w u "is" st')
  then show ?case using SetMemberRoles_D frame_update by metis
next
  case (add now st w u "is" st')
  then show ?case by (rule AddMember_D) (rule frame_add)
qed

lemma tenancy_ok_frame:
  assumes ok: "tenancy_ok st" and same: "same_roles st st'" and "member_frame st st'"
    and new: "\<And>w u i. (w, u, i) \<in> held_set st' \<Longrightarrow> (w, u, i) \<notin> held_set st \<Longrightarrow> space_of st i = Some w"
    and inv: "\<And>iv. iv \<in> set (rs_invites st') \<Longrightarrow> iv \<notin> set (rs_invites st) \<Longrightarrow>
      space_of st (inv_RoleID iv) = Some (inv_WorkspaceID iv)"
  shows "tenancy_ok st'"
proof -
  note sp = same_roles_reads(5) [OF same]
  have old: "mr.named st" "\<And>w u i. (w, u, i) \<in> held_set st \<Longrightarrow> space_of st i = Some w"
    "\<And>iv. iv \<in> set (rs_invites st) \<Longrightarrow> space_of st (inv_RoleID iv) = Some (inv_WorkspaceID iv)"
    using ok by (auto simp: tenancy_ok_def holdings_ok_def list_all_iff holding_ok_def held_set_def member_set_def mr.named_def)
  have h: "space_of st i = Some w" if "(w, u, i) \<in> held_set st'" for w u i
    using old(2) new that by blast
  have v: "space_of st (inv_RoleID iv) = Some (inv_WorkspaceID iv)" if "iv \<in> set (rs_invites st')" for iv
    using old(3) inv that by blast
  have "mr.named st'" using assms(3) old(1) by (simp add: member_frame_def)
  then have "holdings_ok st'"
    using assms(3) ok h v
    by (auto simp: holdings_ok_def tenancy_ok_def member_frame_def list_all_iff holding_ok_def held_set_def
        member_set_def mr.named_def sp split: prod.splits)
  moreover have "tables_ok st'"
  proof (rule same_roles_tables [OF same])
    have "role_refs st \<subseteq> set (role_ids st)" using ok by (simp add: tenancy_ok_def tables_ok_def)
    moreover have "set (db_overwrites (rs_db st')) \<subseteq> set (db_overwrites (rs_db st))"
      using assms(3) by (simp add: member_frame_def)
    ultimately have "{i. Some i \<in> po_RoleID ` set (db_overwrites (rs_db st'))} \<subseteq> set (role_ids st)"
      unfolding role_refs_alt using image_mono [of _ _ po_RoleID] by blast
    then show "role_refs st' \<subseteq> set (role_ids st)"
      unfolding role_refs_alt using h v space_of_ids by (fastforce simp: held_set_def)
  qed (use ok in \<open>simp add: tenancy_ok_def\<close>)
  ultimately show ?thesis by (simp add: tenancy_ok_def)
qed

lemma member_write_ok:
  assumes "member_write s c actor st st'" "tenancy_ok st"
  shows "tenancy_ok st'"
proof -
  have ch: "member_change s c actor st st'"
    using assms by (auto simp: tenancy_ok_def intro: member_write_change)
  show ?thesis
  proof (rule tenancy_ok_frame [OF assms(2) _ member_write_frame [OF assms(1)]])
    show "same_roles st st'" using ch by (simp add: member_change_def)
    show "space_of st i = Some w" if "(w, u, i) \<in> held_set st'" "(w, u, i) \<notin> held_set st" for w u i
      using ch that by (intro givable_space [of s c st actor]) (simp add: member_change_def)
    show "space_of st (inv_RoleID iv) = Some (inv_WorkspaceID iv)"
      if "iv \<in> set (rs_invites st')" "iv \<notin> set (rs_invites st)" for iv
      using ch that by (intro givable_space [of s c st actor]) (simp add: member_change_def)
  qed
qed

section \<open>Resolving invites\<close>

definition resolved_member :: "time \<Rightarrow> string \<Rightarrow> Invite \<Rightarrow> WorkspaceMember" where
  "resolved_member now userID iv =
     \<lparr>mem_UserID = userID, mem_WorkspaceID = inv_WorkspaceID iv, mem_RoleID = inv_RoleID iv, mem_RoleIDs = [],
      mem_CreatedAt = now\<rparr>"

lemma resolved_member_sel [simp]:
  "mem_WorkspaceID (resolved_member now u iv) = inv_WorkspaceID iv" "mem_UserID (resolved_member now u iv) = u"
  "Held (resolved_member now u iv) = (if inv_RoleID iv = [] then [] else [inv_RoleID iv])"
  by (simp_all add: resolved_member_def Held_def)

lemma resolve_loop_Cons:
  "resolve_loop now login u (iv # invs) st =
     (case memberAdd st (resolved_member now u iv) [] of
        Inl e \<Rightarrow> (st, Inl (wrapf (''resolve invite for '' @ login @ '' to workspace '' @ inv_WorkspaceID iv) e))
      | Inr st' \<Rightarrow> resolve_loop now login u invs (inviteDelete st' (inv_WorkspaceID iv) login))"
  by (simp add: resolved_member_def)

declare resolve_loop.simps(2) [simp del]

lemma resolve_one:
  fixes login :: string
  assumes "memberAdd st (resolved_member now u iv) [] = Inr st1" "tenancy_ok st"
    and "space_of st (inv_RoleID iv) = Some (inv_WorkspaceID iv)"
  defines "st2 \<equiv> inviteDelete st1 (inv_WorkspaceID iv) login"
  shows "tenancy_ok st2" "same_roles st st2" "held_set st \<subseteq> held_set st2"
proof -
  have same: "same_roles st st1" by (rule memberAdd_D(8) [OF assms(1)])
  have ok1: "tenancy_ok st1"
  proof (rule tenancy_ok_frame [OF assms(2) same frame_add [OF assms(1)]])
    show "space_of st i = Some w" if h: "(w, u', i) \<in> held_set st1" "(w, u', i) \<notin> held_set st" for w u' i
      using mr.add_given [OF assms(1) h(1)] h(2) assms(3) by (auto split: if_splits)
  qed (simp add: memberAdd_D(6) [OF assms(1)])
  have held2: "held_set st2 = held_set st1"
    using inviteDelete_D(1) by (simp add: st2_def held_set_def)
  have same2: "same_roles st1 st2" unfolding st2_def by (rule inviteDelete_D(4))
  show "tenancy_ok st2"
  proof (rule tenancy_ok_frame [OF ok1 same2])
    show "member_frame st1 st2" unfolding st2_def by (rule frame_cancel)
  qed (use inviteDelete_D(3) held2 in \<open>auto simp: st2_def\<close>)
  show "same_roles st st2" using same same2 by (rule same_roles_trans)
  show "held_set st \<subseteq> held_set st2" unfolding held2 using mr.add_keeps [OF assms(1)] by blast
qed

lemma resolve_loop_ok:
  assumes "tenancy_ok st" "\<forall>iv \<in> set invs. space_of st (inv_RoleID iv) = Some (inv_WorkspaceID iv)"
    and "resolve_loop now login u invs st = (st', r)"
  shows "tenancy_ok st' \<and> same_roles st st' \<and> held_set st \<subseteq> held_set st'"
  using assms
proof (induction invs arbitrary: st)
  case (Cons iv invs)
  show ?case
  proof (cases "memberAdd st (resolved_member now u iv) []")
    case (Inl e)
    then show ?thesis using Cons.prems by (auto simp: resolve_loop_Cons)
  next
    case (Inr st1)
    let ?st2 = "inviteDelete st1 (inv_WorkspaceID iv) login"
    have "space_of st (inv_RoleID iv) = Some (inv_WorkspaceID iv)" using Cons.prems(2) by simp
    note one = resolve_one [OF Inr Cons.prems(1) this, of login]
    have "\<forall>iv \<in> set invs. space_of ?st2 (inv_RoleID iv) = Some (inv_WorkspaceID iv)"
      using Cons.prems(2) same_roles_reads(5) [OF one(2)] by simp
    moreover have "resolve_loop now login u invs ?st2 = (st', r)"
      using Cons.prems(3) Inr by (simp add: resolve_loop_Cons)
    ultimately show ?thesis using Cons.IH [OF one(1)] one(2,3) same_roles_trans by blast
  qed
qed simp

lemma inviteListByLogin_set [simp]: "set (inviteListByLogin st l) = {iv \<in> set (rs_invites st). inv_Login iv = l}"
  by (auto simp: inviteListByLogin_def)

lemma ResolvePendingInvites_ok:
  assumes "tenancy_ok st" "ResolvePendingInvites s now st login u = (st', r)"
  shows "tenancy_ok st' \<and> same_roles st st' \<and> held_set st \<subseteq> held_set st'"
proof (rule resolve_loop_ok [OF assms(1)])
  show "resolve_loop now (ToLower (tsv_unicode s) (TrimSpace login)) u
      (inviteListByLogin st (ToLower (tsv_unicode s) (TrimSpace login))) st = (st', r)"
    using assms(2) by (simp add: ResolvePendingInvites_def Let_def)
qed (use assms(1) in \<open>auto simp: tenancy_ok_def holdings_ok_def list_all_iff\<close>)

section \<open>Steps\<close>

lemma tenancy_step_ok: "tenancy_step ts rs st st' \<Longrightarrow> tenancy_ok st \<Longrightarrow> tenancy_ok st'"
proof (induction rule: tenancy_step.induct)
  case (roles st st')
  then show ?case using role_step_tables role_step_members by (auto simp: tenancy_ok_def)
next
  case (members c actor st st')
  then show ?case using member_write_ok by blast
next
  case (resolve now st login u st' r)
  then show ?case using ResolvePendingInvites_ok by blast
qed

lemma tenancy_ok_member: "tenancy_ok st \<Longrightarrow> (w, u, i) \<in> held_set st \<Longrightarrow> (w, u) \<in> member_set st"
  by (auto simp: tenancy_ok_def holdings_ok_def list_all_iff holding_ok_def held_set_def member_set_def)

lemma role_step_owner_held:
  assumes "role_step s st st'" "tables_ok st" "h \<in> held_set st" "roleGet st (snd (snd h)) = Inr x" "role_IsOwnerRole x"
  shows "h \<in> held_set st'"
proof -
  let ?P = "\<lambda>st. h \<in> held_set st \<and> roleGet st (snd (snd h)) = Inr x"
  have "?P st'"
  proof (rule role_step_inv [where P = ?P, OF assms(1,2)])
    show "?P st" using assms by simp
  next
    fix st r st'
    assume "?P st" and c: "roleCreate st r = Inr st'"
    then show "?P st'" using holdings_create [OF c] rr.create_keeps [OF c] by (simp add: held_set_def)
  next
    fix st r evs st' y
    assume P: "?P st" and c: "roleUpdate st r evs = Inr st'" and y: "roleGet st (role_ID r) = Inr y" "\<not> role_IsOwnerRole y"
    then have "snd (snd h) \<noteq> role_ID r" using assms(5) by auto
    then show "?P st'" using P holdings_update [OF c] roleGet_update [OF c] by (simp add: held_set_def)
  next
    fix st j evs st' y
    assume P: "?P st" and d: "roleDelete st j evs = Inr st'" and y: "roleGet st j = Inr y" "\<not> role_IsOwnerRole y"
    then have "snd (snd h) \<noteq> j" using assms(5) by auto
    then show "?P st'" using P holdings_delete(1) [OF d] rr.del_keeps [OF d] by (simp add: held_set_def)
  qed
  then show ?thesis ..
qed

lemma Owner_step_kept:
  assumes "tenancy_step ts rs st st'" "tenancy_ok st" "(w, u, i) \<in> held_set st" "roleGet st i = Inr x" "role_IsOwnerRole x"
  shows "(w, u, i) \<in> held_set st' \<and> roleGet st' i = Inr x"
  using assms
proof (induction rule: tenancy_step.induct)
  case (roles st st')
  then have t: "tables_ok st" by (simp add: tenancy_ok_def)
  show ?case using role_step_owner [OF roles(1) t roles(4,5)] role_step_owner_held [OF roles(1) t roles(3)] roles(4,5) by simp
next
  case (members c actor st st')
  then have "tables_ok st" by (simp add: tenancy_ok_def)
  then have "member_change ts c actor st st'" by (rule member_write_change [OF members(1)])
  then show ?case using members(3-5) same_roles_reads(4) unfolding member_change_def by metis
next
  case (resolve now st login u' st' r)
  then show ?case using ResolvePendingInvites_ok same_roles_reads(4) by (metis subsetD)
qed

end
