(* ===== verification/Tenancy_Members.thy ===== *)
theory Tenancy_Members
  imports Tenancy_Tables
begin

text \<open>
  The properties of workspace membership: no escalation, the exact effect of setting and removing members and of resolving invites, and who is told when a role is deleted.
\<close>

section \<open>An example\<close>

text \<open>A workspace whose Owner is \<^verbatim>\<open>u\<close>, with a developer \<^verbatim>\<open>v\<close> and an invite for \<^verbatim>\<open>ana\<close>, who has since signed in.\<close>

definition example_team :: role_store where
  "example_team = example_tables\<lparr>rs_db := (rs_db example_tables)
     \<lparr>db_users := [''u'', ''v'', ''a''], db_members := [(''w'', ''u''), (''w'', ''v'')],
      db_member_roles := [new_row ''w'' ''u'' 1 ''o'', new_row ''w'' ''v'' 3 ''d'']\<rparr>\<rparr>"

definition example_account :: "string \<Rightarrow> TeamAccount" where
  "example_account u = \<lparr>ta_ID = u, ta_Login = u, ta_Name = u, ta_DisplayName = [], ta_AvatarURL = [],
     ta_Status = ''active'', ta_CreatedAt = 1, ta_Providers = [''github''], ta_Usernames = [], ta_Online = False,
     ta_LastSeenAt = None, ta_AvatarOverride = []\<rparr>"

definition example_tenancy :: Tenancy_Service where
  "example_tenancy = \<lparr>tsv_wsPerms = \<lparr>pg_WorkspacePermissions = (\<lambda>_ _ _. [MembersWrite, MembersViewAs]),
       pg_GrantablePermissions = (\<lambda>_ _ _. [DocsRead])\<rparr>,
     tsv_HoldsAnywhere = (\<lambda>_ u _. Inr (u = ''u'')),
     tsv_IsAllowlisted = (\<lambda>_. Inr True), tsv_UserIDForLogin = (\<lambda>_. Inr ([], False)), tsv_LoginForUserID = Inr,
     tsv_ListAccounts = Inr (map example_account [''a'', ''u'', ''v'']),
     tsv_Account = (\<lambda>u. Inr (example_account u)), tsv_Presence = Inr ([], []),
     tsv_CreateGeneralChannel = (\<lambda>_ _. Inr ()), tsv_SeedWorkspaceDefaults = (\<lambda>_ _ st. (st, Inr ())),
     tsv_instance = None,
     tsv_projects = Some \<lparr>pj_ProjectWorkspace = (\<lambda>_. Inr ''w''), pj_ProjectPermissions = (\<lambda>_ _ _. ([DocsRead], True)),
       pj_WorkspaceProjects = (\<lambda>_. Inr [''p'']), pj_ProjectActions = (\<lambda>_ _ _. Inr [])\<rparr>,
     tsv_progress = None,
     tsv_unicode = map ascii_lower\<rparr>"

lemma example_team_ok: "tenancy_ok example_team"
proof -
  have "tables_ok example_team"
    by (simp add: tables_ok_def role_ids_def role_spaces_def owner_workspaces_def role_refs_def example_team_def
        example_tables_def rs_workspaces_def example_space_def example_own_def example_dev_def id_ok_def role_row_def po_RoleID_def new_row_def) code_simp
  moreover have "holdings_ok example_team" by code_simp
  ultimately show ?thesis by (simp add: tenancy_ok_def)
qed

definition example_given :: role_store where
  "example_given = ok_value example_team
     (AddMember example_tenancy background 5 example_team ''u'' ''w'' ''a'' [''d''])"

lemma example_give: "AddMember example_tenancy background 5 example_team ''u'' ''w'' ''a'' [''d''] = Inr example_given"
  unfolding example_given_def by (rule is_ok_value) code_simp

lemma example_write: "member_write example_tenancy background ''u'' example_team example_given"
  by (rule member_write.add [OF example_give])

lemma example_member_steps: "(tenancy_step example_tenancy example_roles_service)\<^sup>*\<^sup>* example_team example_given"
  by (rule r_into_rtranclp) (rule tenancy_step.members [OF example_write])

definition example_set :: role_store where
  "example_set = ok_value example_team
     (SetMemberRoles example_tenancy background 5 example_team ''u'' ''w'' ''v'' [])"

lemma example_setting: "SetMemberRoles example_tenancy background 5 example_team ''u'' ''w'' ''v'' [] = Inr example_set"
  unfolding example_set_def by (rule is_ok_value) code_simp

section \<open>Properties\<close>



section \<open>Exact effects\<close>

lemma trimmed_id:
  assumes "\<forall>i \<in> set is. i \<noteq> [] \<and> TrimSpace i = i"
  shows "set (trimmedIDs is) = set is"
proof -
  have "TrimSpace ` set is = id ` set is" using assms by (intro image_cong) auto
  moreover have "[] \<notin> set is" using assms by blast
  ultimately show ?thesis by simp
qed

lemma trimmed_known: "tables_ok st \<Longrightarrow> set is \<subseteq> set (role_ids st) \<Longrightarrow> set (trimmedIDs is) = set is"
  by (rule trimmed_id) (auto simp: tables_ok_def list_all_iff id_ok_def)

lemma trimmed_trimmed: "set (trimmedIDs (trimmedIDs is)) = set (trimmedIDs is)"
  by (rule trimmed_id) auto

text \<open>Setting a member's roles sets exactly those asked for: afterwards the member holds the given ids, trimmed, and no other
  role there, every other holding is untouched, and nobody joins or leaves.\<close>

theorem SetMemberRoles_exact:
  assumes "SetMemberRoles s c now st actor w0 u0 ids = Inr st'" and "tables_ok st"
  shows "{i. (TrimSpace w0, TrimSpace u0, i) \<in> held_set st'} = TrimSpace ` set ids - {[]} \<and>
    (\<forall>w u i. (w, u) \<noteq> (TrimSpace w0, TrimSpace u0) \<longrightarrow> ((w, u, i) \<in> held_set st' \<longleftrightarrow> (w, u, i) \<in> held_set st)) \<and>
    member_set st' = member_set st"
proof -
  let ?w = "TrimSpace w0" and ?u = "TrimSpace u0"
  define want where "want = trimmedIDs ids"
  define held where "held = {i. (?w, ?u, i) \<in> held_set st}"
  define drop where "drop = filter (\<lambda>i. i \<notin> set want) (ListMemberRoleIDs st ?w ?u)"
  let ?add = "to_add st ?w ?u want" and ?rem = "to_remove st ?w ?u drop"
  have known: "held \<subseteq> set (role_ids st)" using held_known [OF assms(2)] by (auto simp: held_def held_set_def)
  have L: "set (ListMemberRoleIDs st ?w ?u) = held" using known by (auto simp: held_def held_set_def)
  have add: "set ?add = set want - held" unfolding to_add_def want_def set_filter L trimmed_trimmed by blast
  have rem: "set ?rem = held - set want"
  proof -
    have d: "set drop = held - set want" unfolding drop_def set_filter L by blast
    then have "set (trimmedIDs drop) = set drop" using known by (intro trimmed_known [OF assms(2)]) blast
    then show ?thesis unfolding to_remove_def set_filter L d by blast
  qed
  note D = UpdateMemberRoles_D(4) [OF SetMemberRoles_D [OF assms(1)], unfolded TrimSpace_idem, folded want_def, folded drop_def]
  have "{i. (?w, ?u, i) \<in> held_set st'} = set want \<and> member_set st' = member_set st \<and>
    held_set st' - {?w} \<times> {?u} \<times> UNIV = held_set st - {?w} \<times> {?u} \<times> UNIV"
  proof (cases "?add = [] \<and> ?rem = []")
    case True
    then have "set want = held" using add rem by (metis Diff_eq_empty_iff empty_set subset_antisym)
    then show ?thesis using True D by (simp add: held_def)
  next
    case False
    then obtain evt where ch: "memberChangeRoles st now ?w ?u ?add ?rem [TopicWorkspaceMemberUpdated evt] = Inr st'"
      using D by auto
    have "{i. (?w, ?u, i) \<in> held_set st'} = set want"
      using mr.change_exact [OF ch] add rem by (auto simp: held_def)
    then show ?thesis using mr.change_law [OF ch] by auto
  qed
  then show ?thesis by (auto simp: want_def)
qed

theorem SetMemberRoles_exact_witness: "{i. (''w'', ''v'', i) \<in> held_set example_set} = {}"
proof -
  have "TrimSpace ''w'' = ''w''" "TrimSpace ''v'' = ''v''" by code_simp+
  then show ?thesis
    using SetMemberRoles_exact [OF example_setting] example_team_ok by (simp add: tenancy_ok_def)
qed

text \<open>Someone removed from a workspace comes back to nothing: afterwards they are not a member and hold no role there,
  no rule names them on any of its projects, and every other member, holding and rule stays.\<close>

theorem RemoveMember_clean:
  assumes "RemoveMember s c st actor w0 u0 = Inr st'"
  shows "member_set st' = member_set st - {(TrimSpace w0, TrimSpace u0)} \<and>
    held_set st' = held_set st - {TrimSpace w0} \<times> {TrimSpace u0} \<times> UNIV \<and>
    db_overwrites (rs_db st') = filter (\<lambda>row. \<not> (po_ResourceType row = resourceTypeProject \<and>
      po_UserID row = Some (TrimSpace u0) \<and> (po_ResourceID row, TrimSpace w0) \<in> set (db_projects (rs_db st))))
      (db_overwrites (rs_db st)) \<and>
    rs_outbox st' = rs_outbox st @ [TopicWorkspaceMemberRemoved (memberEvent actor (TrimSpace w0) (TrimSpace u0))]"
proof -
  have rem: "memberRemove st (TrimSpace w0) (TrimSpace u0)
      [TopicWorkspaceMemberRemoved (memberEvent actor (TrimSpace w0) (TrimSpace u0))] = Inr st'"
    using RemoveMember_D [OF assms] by blast
  show ?thesis using mr.del_law [OF rem] memberRemove_D(4,7) [OF rem] by (intro conjI) simp_all
qed

definition example_removed :: role_store where
  "example_removed = ok_value example_team (RemoveMember example_tenancy background example_team ''u'' ''w'' ''v'')"

theorem RemoveMember_clean_witness: "(''w'', ''v'') \<notin> member_set example_removed"
proof -
  have "RemoveMember example_tenancy background example_team ''u'' ''w'' ''v'' = Inr example_removed"
    unfolding example_removed_def by (rule is_ok_value) code_simp
  note clean = RemoveMember_clean [OF this, THEN conjunct1]
  have "TrimSpace ''w'' = ''w''" "TrimSpace ''v'' = ''v''" by code_simp+
  then show ?thesis using clean by simp
qed

section \<open>Who is told\<close>

definition workspace_projects :: "Tenancy_Service \<Rightarrow> string \<Rightarrow> string list res" where
  "workspace_projects s w = (case tsv_projects s of None \<Rightarrow> Inr [] | Some g \<Rightarrow> pj_WorkspaceProjects g w)"

definition holder_event :: "string \<Rightarrow> string \<Rightarrow> string list \<Rightarrow> string \<Rightarrow> MemberEvent" where
  "holder_event workspaceID actorID projectIDs userID =
     \<lparr>me_UserID = userID, me_WorkspaceID = workspaceID, me_ActorID = actorID, me_ProjectIDs = projectIDs,
      me_RoleIDsAdded = []\<rparr>"

lemma memberUpdated_event:
  "workspace_projects s w = Inr ps \<Longrightarrow> memberUpdated s actor w u [] = Inr (holder_event w actor ps u)"
  by (auto simp: memberUpdated_def workspace_projects_def holder_event_def Let_def bindr_def map_errr_def split: option.splits)

lemma holder_events_exact:
  assumes "workspace_projects s w = Inr ps"
  shows "holder_events s w i actor (map (holder_event w actor ps) us) ms =
    Inr (map (holder_event w actor ps) (us @ map mem_UserID (filter (\<lambda>m. i \<in> set (Held m)) ms)))"
proof (induction ms arbitrary: us)
  case (Cons m ms)
  have more: "map (holder_event w actor ps) us @ [holder_event w actor ps (mem_UserID m)] =
      map (holder_event w actor ps) (us @ [mem_UserID m])" by simp
  show ?case
  proof (cases us)
    case Nil
    then show ?thesis
      using Cons.IH [of "[mem_UserID m]"] Cons.IH [of "[]"]
      by (simp add: memberUpdated_event [OF assms] bindr_def)
  next
    case (Cons u us')
    then have "(hd (map (holder_event w actor ps) us))\<lparr>me_UserID := mem_UserID m\<rparr> = holder_event w actor ps (mem_UserID m)"
      by (simp add: holder_event_def)
    then show ?thesis using Cons Cons.IH [of us] Cons.IH [of "us @ [mem_UserID m]"] more by simp
  qed
qed simp

lemma toMember_sel [simp]: "Held (toMember st w u held) = held" "mem_UserID (toMember st w u held) = u"
  by (cases held) (simp_all add: toMember_def Held_def)

lemma ListWorkspaceMemberRoles_set:
  "(u, i) \<in> set (ListWorkspaceMemberRoles st w) \<longleftrightarrow> (w, u, i) \<in> set (holdings st) \<and> i \<in> set (role_ids st)"
  by (force simp: ListWorkspaceMemberRoles_def holdings_def mr_key_def)

lemma memberList_holders:
  fixes i :: string
  assumes "tenancy_ok st" "memberList st w = Inr ms"
  defines "us \<equiv> map mem_UserID (filter (\<lambda>m. i \<in> set (Held m)) ms)"
  shows "distinct us \<and> set us = {u. (w, u, i) \<in> held_set st}"
proof -
  define rows where "rows = sort_key (rs_joined st w) (sort (map snd (filter (\<lambda>m. fst m = w) (db_members (rs_db st)))))"
  define roles where "roles u = map snd (filter (\<lambda>h. fst h = u) (ListWorkspaceMemberRoles st w))" for u
  have ms: "ms = map (\<lambda>u. toMember st w u (roles u)) rows"
    using assms(2) by (simp add: memberList_def Let_def rows_def roles_def)
  have us: "us = filter (\<lambda>u. i \<in> set (roles u)) rows"
    unfolding us_def ms by (simp add: filter_map comp_def)
  have members: "distinct (db_members (rs_db st))" using assms(1) by (simp add: tenancy_ok_def holdings_ok_def)
  have "inj_on snd (set (filter (\<lambda>m. fst m = w) (db_members (rs_db st))))"
    by (auto simp: inj_on_def)
  then have "distinct rows" using members by (simp add: rows_def distinct_map)
  moreover have "i \<in> set (roles u) \<longleftrightarrow> (w, u, i) \<in> held_set st" for u
  proof -
    have "i \<in> set (roles u) \<longleftrightarrow> (u, i) \<in> set (ListWorkspaceMemberRoles st w)" by (force simp: roles_def)
    then show ?thesis
      using held_known [of st w u i] assms(1) unfolding ListWorkspaceMemberRoles_set held_set_def tenancy_ok_def by blast
  qed
  moreover have "u \<in> set rows" if "(w, u, i) \<in> held_set st" for u
    using tenancy_ok_member [OF assms(1) that] by (force simp: rows_def member_set_def)
  ultimately show ?thesis unfolding us by auto
qed

lemma RoleHolderEvents_exact:
  assumes "tenancy_ok st" "workspace_projects s w = Inr ps"
  shows "\<exists>us. RoleHolderEvents s st w i actor = Inr (map (holder_event w actor ps) us) \<and> distinct us \<and>
    set us = {u. (w, u, i) \<in> held_set st}"
proof -
  obtain ms where ms: "memberList st w = Inr ms" by (simp add: memberList_def Let_def)
  then show ?thesis
    using holder_events_exact [OF assms(2), of i actor "[]" ms] memberList_holders [OF assms(1) ms, of i]
    by (intro exI [of _ "map mem_UserID (filter (\<lambda>m. i \<in> set (Held m)) ms)"])
      (simp add: RoleHolderEvents_def bindr_def map_errr_def)
qed

text \<open>C23. Deleting a role tells exactly its holders: wired to the membership service, a successful delete leaves in the outbox
  one workspace.member.updated for every person who held the role, none for anybody else, each naming the
  workspace's projects, and then the role's own event; afterwards nobody holds it.\<close>

theorem DeleteRole_tells_holders:
  assumes "DeleteRole (wire_roles ts st s) c st w i actor = Inr st'" and "tenancy_ok st" and "TrimSpace w = w"
    and "workspace_projects ts w = Inr ps"
  shows "\<exists>us ev. rs_outbox st' = rs_outbox st @
      map TopicWorkspaceMemberUpdated (map (holder_event w actor ps) us) @ [TopicUpdated ev] \<and>
    distinct us \<and> set us = {u. \<exists>w'. (w', u, i) \<in> held_set st} \<and> (\<forall>w' u. (w', u, i) \<notin> held_set st')"
proof -
  obtain us where us: "RoleHolderEvents ts st w i actor = Inr (map (holder_event w actor ps) us)" "distinct us"
    "set us = {u. (w, u, i) \<in> held_set st}"
    using RoleHolderEvents_exact [OF assms(2,4), of i actor] by blast
  have "\<exists>r1 ev. getInWorkspace st w i = Inr r1 \<and>
      roleDelete st i (map TopicWorkspaceMemberUpdated (map (holder_event w actor ps) us) @ [TopicUpdated ev]) = Inr st'"
    using assms(1) us(1)
    by (auto simp: DeleteRole_def Let_def bindr_Inr_iff wire_roles_def SetMemberGate_def split: if_splits)
  then obtain r1 ev where D: "getInWorkspace st w i = Inr r1"
    "roleDelete st i (map TopicWorkspaceMemberUpdated (map (holder_event w actor ps) us) @ [TopicUpdated ev]) = Inr st'"
    by blast
  have "TrimSpace i = i" using id_ok_known roleDelete_id [OF D(2)] assms(2) by (auto simp: tenancy_ok_def)
  then have sp: "space_of st i = Some w" using getInWorkspace_D [OF D(1)] assms(3) by (auto simp: space_of_def)
  have "w' = w" if "(w', u, i) \<in> held_set st" for w' u
    using assms(2) that sp by (auto simp: tenancy_ok_def holdings_ok_def list_all_iff holding_ok_def held_set_def)
  then have "set us = {u. \<exists>w'. (w', u, i) \<in> held_set st}" using us(3) by blast
  moreover have "rs_outbox st' = rs_outbox st @ map TopicWorkspaceMemberUpdated (map (holder_event w actor ps) us) @ [TopicUpdated ev]"
    using D(2) by (auto simp: roleDelete_def split: if_splits)
  moreover have "\<forall>w' u. (w', u, i) \<notin> held_set st'"
    using holdings_delete(1) [OF D(2)] by (auto simp: held_set_def)
  ultimately show ?thesis using us(2) by blast
qed

lemma addMemberRole_ok:
  assumes "(w, u) \<in> member_set st" "i \<in> set (role_ids st)" "(w, u, i) \<notin> held_set st"
  shows "okr (addMemberRole w u at i st)"
  using assms
  by (auto simp: addMemberRole_def member_set_def held_set_def holdings_def mr_key_def list_ex_iff image_iff)

lemma memberAdd_ok:
  assumes "(w, u) \<notin> member_set st" "u \<in> set (db_users (rs_db st))" "w \<in> set (rs_workspaces st)"
    and "tenancy_ok st" "Held m = [i]" "i \<in> set (role_ids st)" "mem_WorkspaceID m = w" "mem_UserID m = u"
  shows "\<exists>st'. memberAdd st m evs = Inr st' \<and> db_users (rs_db st') = db_users (rs_db st)"
proof -
  let ?st0 = "st\<lparr>rs_db := (rs_db st)\<lparr>db_members := db_members (rs_db st) @ [(w, u)]\<rparr>,
                 rs_joined := (rs_joined st)(w := (rs_joined st w)(u := mem_CreatedAt m))\<rparr>"
  have "(w, u, i) \<notin> held_set st" using assms(1) tenancy_ok_member [OF assms(4)] by blast
  then have "(w, u, i) \<notin> held_set ?st0" by (simp add: held_set_def holdings_def)
  moreover have "(w, u) \<in> member_set ?st0" "i \<in> set (role_ids ?st0)"
    using assms(6) by (simp_all add: member_set_def role_ids_def)
  ultimately have "okr (addMemberRole w u (mem_CreatedAt m) i ?st0)" by (intro addMemberRole_ok)
  then obtain st1 where st1: "addMemberRole w u (mem_CreatedAt m) i ?st0 = Inr st1" by (auto simp: okr_def split: sum.splits)
  have "db_users (rs_db st1) = db_users (rs_db st)"
    unfolding addMemberRole_D(1) [OF st1] by (simp add: with_rows_def)
  then show ?thesis
    using assms(1-3,5,7,8) st1
    by (simp add: memberAdd_def Let_def member_set_def bindr_def)
qed

lemma resolve_loop_done:
  assumes "tenancy_ok st" "u \<in> set (db_users (rs_db st))" "set invs \<subseteq> set (rs_invites st)"
    and "\<forall>iv \<in> set invs. inv_Login iv = l" "distinct (map inv_WorkspaceID invs)"
    and "\<forall>iv \<in> set invs. (inv_WorkspaceID iv, u) \<notin> member_set st"
  shows "\<exists>st'. resolve_loop now l u invs st = (st', Inr ()) \<and>
    held_set st' = held_set st \<union> (\<lambda>iv. (inv_WorkspaceID iv, u, inv_RoleID iv)) ` set invs \<and>
    member_set st' = member_set st \<union> (\<lambda>iv. (inv_WorkspaceID iv, u)) ` set invs \<and>
    rs_invites st' = filter (\<lambda>iv. \<not> (inv_Login iv = l \<and> inv_WorkspaceID iv \<in> inv_WorkspaceID ` set invs)) (rs_invites st)"
  using assms
proof (induction invs arbitrary: st)
  case (Cons iv invs)
  let ?w = "inv_WorkspaceID iv" and ?i = "inv_RoleID iv"
  have sp: "space_of st ?i = Some ?w"
    using Cons.prems(1,3) by (auto simp: tenancy_ok_def holdings_ok_def list_all_iff)
  then have i: "?i \<in> set (role_ids st)" by (rule space_of_ids)
  have w: "?w \<in> set (rs_workspaces st)"
  proof -
    have "?w \<in> set (role_spaces st)"
      using sp by (auto simp: space_of_def roleGet_def role_spaces_def toRole_def find_Some_iff split: sum.splits option.splits)
        (metis imageI nth_mem)
    then show ?thesis using Cons.prems(1) by (auto simp: tenancy_ok_def tables_ok_def)
  qed
  have held: "Held (resolved_member now u iv) = [?i]"
    using i Cons.prems(1) by (auto simp: tenancy_ok_def tables_ok_def list_all_iff id_ok_def)
  have "\<exists>st'. memberAdd st (resolved_member now u iv) [] = Inr st' \<and> db_users (rs_db st') = db_users (rs_db st)"
    by (rule memberAdd_ok [OF _ Cons.prems(2) w Cons.prems(1) held i]) (use Cons.prems(6) in auto)
  then obtain st1 where st1: "memberAdd st (resolved_member now u iv) [] = Inr st1"
    and users: "db_users (rs_db st1) = db_users (rs_db st)" by blast
  define st2 where "st2 = inviteDelete st1 ?w l"
  have eff: "held_set st2 = insert (?w, u, ?i) (held_set st)" "member_set st2 = insert (?w, u) (member_set st)"
    "rs_invites st2 = filter (\<lambda>iv. \<not> same_invite ?w l iv) (rs_invites st)"
    using mr.add_law [OF st1] held memberAdd_D(6) [OF st1] inviteDelete_D [of st1 ?w l]
    by (simp_all add: st2_def held_set_def member_set_def)
  have "\<exists>st'. resolve_loop now l u invs st2 = (st', Inr ()) \<and>
    held_set st' = held_set st2 \<union> (\<lambda>iv. (inv_WorkspaceID iv, u, inv_RoleID iv)) ` set invs \<and>
    member_set st' = member_set st2 \<union> (\<lambda>iv. (inv_WorkspaceID iv, u)) ` set invs \<and>
    rs_invites st' = filter (\<lambda>iv. \<not> (inv_Login iv = l \<and> inv_WorkspaceID iv \<in> inv_WorkspaceID ` set invs)) (rs_invites st2)"
  proof (rule Cons.IH)
    show "tenancy_ok st2" unfolding st2_def by (rule resolve_one(1) [OF st1 Cons.prems(1) sp])
    show "u \<in> set (db_users (rs_db st2))" using users Cons.prems(2) inviteDelete_D(2) by (simp add: st2_def)
    show "set invs \<subseteq> set (rs_invites st2)"
      using Cons.prems(3,5) unfolding eff by (auto simp: same_invite_def image_iff)
    show "\<forall>iv \<in> set invs. (inv_WorkspaceID iv, u) \<notin> member_set st2"
      using Cons.prems(5,6) unfolding eff by (auto simp: image_iff)
  qed (use Cons.prems in auto)
  then show ?case
    unfolding eff by (auto simp: resolve_loop_Cons st1 st2_def [symmetric] same_invite_def intro!: filter_cong)
qed simp

lemma distinct_login_invites:
  assumes "tenancy_ok st"
  shows "distinct (map inv_WorkspaceID (inviteListByLogin st l))"
proof -
  have inj: "inj_on inv_key (set (rs_invites st))" "distinct (rs_invites st)"
    using assms by (simp_all add: tenancy_ok_def holdings_ok_def distinct_map)
  then have "distinct (inviteListByLogin st l)" by (simp add: inviteListByLogin_def)
  moreover have "inj_on inv_WorkspaceID (set (inviteListByLogin st l))"
    using inj(1) by (auto simp: inj_on_def inv_key_def)
  ultimately show ?thesis by (simp add: distinct_map)
qed

text \<open>C24. Signing in resolves every invite: for a person with an account who is not yet a member of any workspace their login is
  invited to, resolving succeeds, and afterwards they are a member of exactly those workspaces beside the ones they
  were in, hold in each exactly the invited role, and no invite for the login is left; nobody else changes.\<close>

theorem ResolvePendingInvites_complete:
  assumes "tenancy_ok st" and "u \<in> set (db_users (rs_db st))" and "l = ToLower (tsv_unicode s) (TrimSpace login)"
    and "\<forall>iv \<in> set (rs_invites st). inv_Login iv = l \<longrightarrow> (inv_WorkspaceID iv, u) \<notin> member_set st"
  shows "\<exists>st'. ResolvePendingInvites s now st login u = (st', Inr ()) \<and>
    held_set st' = held_set st \<union> {(inv_WorkspaceID iv, u, inv_RoleID iv) | iv. iv \<in> set (rs_invites st) \<and> inv_Login iv = l} \<and>
    member_set st' = member_set st \<union> {(inv_WorkspaceID iv, u) | iv. iv \<in> set (rs_invites st) \<and> inv_Login iv = l} \<and>
    rs_invites st' = filter (\<lambda>iv. inv_Login iv \<noteq> l) (rs_invites st)"
proof -
  let ?invs = "inviteListByLogin st l"
  have "\<exists>st'. resolve_loop now l u ?invs st = (st', Inr ()) \<and>
    held_set st' = held_set st \<union> (\<lambda>iv. (inv_WorkspaceID iv, u, inv_RoleID iv)) ` set ?invs \<and>
    member_set st' = member_set st \<union> (\<lambda>iv. (inv_WorkspaceID iv, u)) ` set ?invs \<and>
    rs_invites st' = filter (\<lambda>iv. \<not> (inv_Login iv = l \<and> inv_WorkspaceID iv \<in> inv_WorkspaceID ` set ?invs)) (rs_invites st)"
    by (rule resolve_loop_done [OF assms(1,2)]) (use assms(4) distinct_login_invites [OF assms(1)] in auto)
  then obtain st' where st': "resolve_loop now l u ?invs st = (st', Inr ())"
    "held_set st' = held_set st \<union> (\<lambda>iv. (inv_WorkspaceID iv, u, inv_RoleID iv)) ` set ?invs"
    "member_set st' = member_set st \<union> (\<lambda>iv. (inv_WorkspaceID iv, u)) ` set ?invs"
    "rs_invites st' = filter (\<lambda>iv. \<not> (inv_Login iv = l \<and> inv_WorkspaceID iv \<in> inv_WorkspaceID ` set ?invs)) (rs_invites st)"
    by blast
  have "rs_invites st' = filter (\<lambda>iv. inv_Login iv \<noteq> l) (rs_invites st)"
    unfolding st'(4) by (rule filter_cong) auto
  then show ?thesis
    using st'(1-3) assms(3) by (intro exI [of _ st']) (auto simp: ResolvePendingInvites_def Let_def)
qed

definition example_resolved :: role_store where
  "example_resolved = fst (ResolvePendingInvites example_tenancy 9 example_team '' Ana'' ''a'')"

theorem ResolvePendingInvites_complete_witness: "(''w'', ''a'', ''d'') \<in> held_set example_resolved"
proof -
  have "\<exists>st'. ResolvePendingInvites example_tenancy 9 example_team '' Ana'' ''a'' = (st', Inr ()) \<and>
    held_set st' = held_set example_team \<union>
      {(inv_WorkspaceID iv, ''a'', inv_RoleID iv) | iv. iv \<in> set (rs_invites example_team) \<and> inv_Login iv = ''ana''} \<and>
    member_set st' = member_set example_team \<union>
      {(inv_WorkspaceID iv, ''a'') | iv. iv \<in> set (rs_invites example_team) \<and> inv_Login iv = ''ana''} \<and>
    rs_invites st' = filter (\<lambda>iv. inv_Login iv \<noteq> ''ana'') (rs_invites example_team)"
  proof (rule ResolvePendingInvites_complete [OF example_team_ok])
    show "''a'' \<in> set (db_users (rs_db example_team))" by code_simp
    show "''ana'' = ToLower (tsv_unicode example_tenancy) (TrimSpace '' Ana'')" by code_simp
    show "\<forall>iv \<in> set (rs_invites example_team). inv_Login iv = ''ana'' \<longrightarrow> (inv_WorkspaceID iv, ''a'') \<notin> member_set example_team"
      by code_simp
  qed
  then have "held_set example_resolved = held_set example_team \<union>
      {(inv_WorkspaceID iv, ''a'', inv_RoleID iv) | iv. iv \<in> set (rs_invites example_team) \<and> inv_Login iv = ''ana''}"
    by (auto simp: example_resolved_def)
  then show ?thesis by (auto simp: example_team_def example_tables_def)
qed

text \<open>The example wired: the roles service asks the membership service over the same tables.\<close>

definition example_role_gone :: role_store where
  "example_role_gone = ok_value example_team
     (DeleteRole (wire_roles example_tenancy example_team example_roles_service) background example_team ''w'' ''d'' ''u'')"

theorem DeleteRole_tells_holders_witness: "(''w'', ''v'', ''d'') \<notin> held_set example_role_gone"
proof -
  have "DeleteRole (wire_roles example_tenancy example_team example_roles_service) background example_team ''w'' ''d'' ''u'' =
      Inr example_role_gone" unfolding example_role_gone_def by (rule is_ok_value) code_simp
  moreover have "TrimSpace ''w'' = ''w''" by code_simp
  moreover have "workspace_projects example_tenancy ''w'' = Inr [''p'']" by code_simp
  ultimately show ?thesis using DeleteRole_tells_holders [OF _ example_team_ok] by blast
qed

end
