(* ===== verification/Tenancy_Workspaces.thy ===== *)
theory Tenancy_Workspaces
  imports Tenancy_Members
begin

text \<open>
  Workspaces: slugs (\<^verbatim>\<open>internal/tenancy/model.go\<close>), the workspace repository
  (\<^verbatim>\<open>internal/platform/storage/tenancy_repo.go\<close>) and the use cases that make, bind, rename, archive and restore a workspace
  (\<^verbatim>\<open>internal/tenancy/usecase.go\<close>, \<^verbatim>\<open>archive_usecase.go\<close>).  A use case that writes more than once is several
  transactions and returns the state it leaves next to its result.  The search for a free slug is a partial function;
  \<open>Tenancy_Spaces\<close> shows that it returns.
\<close>

section \<open>Slugs\<close>

abbreviation (input) maxSlugLength :: nat where "maxSlugLength \<equiv> 48"

definition DefaultMentionChipTemplate :: string where
  "DefaultMentionChipTemplate = ''{ticket.Ticket} {ticket.Status}''"

abbreviation (input) ChipTemplateKind :: string where "ChipTemplateKind \<equiv> ''mention_chip''"

abbreviation (input) DefaultWorkspaceID :: string where "DefaultWorkspaceID \<equiv> ''workspace-default''"

definition slug_char :: "char \<Rightarrow> bool" where
  "slug_char r \<longleftrightarrow> (let n = of_char r :: nat in (97 \<le> n \<and> n \<le> 122) \<or> (48 \<le> n \<and> n \<le> 57))"

text \<open>\<^verbatim>\<open>^[a-z0-9]+(-[a-z0-9]+)*$\<close> as a scan, with whether a run has still to start as its state.\<close>

fun slug_scan :: "bool \<Rightarrow> string \<Rightarrow> bool option" where
  "slug_scan start [] = Some start"
| "slug_scan start (r # rs) =
     (if r = CHR ''-'' then (if start then None else slug_scan True rs)
      else if slug_char r then slug_scan False rs else None)"

definition slugPattern :: "string \<Rightarrow> bool" where
  "slugPattern slug \<longleftrightarrow> slug_scan True slug = Some False"

definition reservedSlugs :: "string list" where
  "reservedSlugs =
     [''api'', ''assets'', ''auth'', ''hooks'', ''invite'', ''login'', ''logout'', ''mcp'', ''onboarding'',
      ''openobserve'', ''settings'', ''setup'', ''static'', ''swagger'', ''wizard'', ''ws'']"

definition TrimRight_dash :: "string \<Rightarrow> string" where
  "TrimRight_dash s = rev (dropWhile (\<lambda>r. r = CHR ''-'') (rev s))"

definition slug_lower :: "char \<Rightarrow> char" where
  "slug_lower r = (let n = of_char r :: nat in if 65 \<le> n \<and> n \<le> 90 then char_of (n + 32) else r)"

text \<open>The bytes of a name; a byte beyond ASCII belongs to a rune that is no letter or digit here, so it reads as one.\<close>

fun slug_loop :: "string \<Rightarrow> string \<Rightarrow> string" where
  "slug_loop b [] = b"
| "slug_loop b (r # rs) =
     (let r = slug_lower r
      in if slug_char r then slug_loop (b @ [r]) rs
         else if b \<noteq> [] \<and> last b \<noteq> CHR ''-'' then slug_loop (b @ ''-'') rs
         else slug_loop b rs)"

definition Slugify :: "string \<Rightarrow> string" where
  "Slugify name =
     (let slug = TrimRight_dash (slug_loop [] name);
          slug = (if length slug > maxSlugLength then TrimRight_dash (take maxSlugLength slug) else slug)
      in if slug = [] then ''workspace'' else slug)"

definition ValidSlug :: "string \<Rightarrow> bool" where
  "ValidSlug slug \<longleftrightarrow> length slug \<le> maxSlugLength \<and> slugPattern slug \<and> slug \<notin> set reservedSlugs"

lemma slug_char_dash [simp]: "\<not> slug_char CHR ''-''"
  by (simp add: slug_char_def)

lemma slug_scan_append: "slug_scan start (s @ t) = Option.bind (slug_scan start s) (\<lambda>start'. slug_scan start' t)"
  by (induction start s rule: slug_scan.induct) auto

lemma slug_scan_state:
  "slug_scan start s = Some start' \<Longrightarrow> start' \<longleftrightarrow> (if s = [] then start else last s = CHR ''-'')"
  by (induction start s rule: slug_scan.induct) (auto split: if_splits)

lemma slug_scan_prefix: "slug_scan start (s @ t) \<noteq> None \<Longrightarrow> slug_scan start s \<noteq> None"
  by (cases "slug_scan start s") (simp_all add: slug_scan_append)

lemma TrimRight_dash_append: "\<exists>n. s = TrimRight_dash s @ replicate n CHR ''-''"
proof -
  have "rev s = takeWhile (\<lambda>r. r = CHR ''-'') (rev s) @ dropWhile (\<lambda>r. r = CHR ''-'') (rev s)" by simp
  then have "s = TrimRight_dash s @ rev (takeWhile (\<lambda>r. r = CHR ''-'') (rev s))"
    unfolding TrimRight_dash_def by (metis rev_append rev_rev_ident)
  moreover have "takeWhile (\<lambda>r. r = CHR ''-'') (rev s) =
      replicate (length (takeWhile (\<lambda>r. r = CHR ''-'') (rev s))) CHR ''-''"
    by (intro replicate_eqI) (auto dest: set_takeWhileD)
  ultimately show ?thesis by (metis rev_replicate)
qed

lemma TrimRight_dash_last: "TrimRight_dash s \<noteq> [] \<Longrightarrow> last (TrimRight_dash s) \<noteq> CHR ''-''"
  unfolding TrimRight_dash_def using hd_dropWhile [of "\<lambda>r. r = CHR ''-''" "rev s"] by (simp add: last_rev)

lemma TrimRight_dash_id: "s = [] \<or> last s \<noteq> CHR ''-'' \<Longrightarrow> TrimRight_dash s = s"
  unfolding TrimRight_dash_def by (cases s rule: rev_cases) auto

lemma TrimRight_dash_pattern:
  assumes "slug_scan True s \<noteq> None" "TrimRight_dash s \<noteq> []"
  shows "slugPattern (TrimRight_dash s)"
proof -
  obtain n where "s = TrimRight_dash s @ replicate n CHR ''-''" using TrimRight_dash_append by blast
  then obtain start where "slug_scan True (TrimRight_dash s) = Some start"
    using assms(1) slug_scan_prefix by (metis not_None_eq)
  then show ?thesis
    using slug_scan_state TrimRight_dash_last [OF assms(2)] assms(2) unfolding slugPattern_def by fastforce
qed

lemma slug_loop_scan: "slug_scan True b \<noteq> None \<Longrightarrow> slug_scan True (slug_loop b rs) \<noteq> None"
proof (induction b rs rule: slug_loop.induct)
  case (2 b r rs)
  let ?r = "slug_lower r"
  obtain start where start: "slug_scan True b = Some start" using 2(4) by blast
  have "slug_scan True (b @ [?r]) \<noteq> None" if "slug_char ?r"
    using that start by (auto simp: slug_scan_append)
  moreover have "slug_scan True (b @ ''-'') \<noteq> None" if "b \<noteq> []" "last b \<noteq> CHR ''-''"
    using that start slug_scan_state [OF start] by (simp add: slug_scan_append)
  ultimately show ?case using 2 by (simp add: Let_def)
qed simp

lemma slug_lower_id [simp]: "slug_char r \<Longrightarrow> slug_lower r = r" "slug_lower CHR ''-'' = CHR ''-''"
  by (auto simp: slug_char_def slug_lower_def Let_def)

lemma slug_loop_id: "slug_scan True (b @ s) \<noteq> None \<Longrightarrow> slug_loop b s = b @ s"
proof (induction s arbitrary: b)
  case (Cons r s)
  have more: "slug_scan True ((b @ [r]) @ s) \<noteq> None" using Cons.prems by simp
  obtain start where start: "slug_scan True b = Some start" using slug_scan_prefix Cons.prems by blast
  show ?case
  proof (cases "r = CHR ''-''")
    case True
    then have "b \<noteq> [] \<and> last b \<noteq> CHR ''-''"
      using Cons.prems start slug_scan_state [OF start] by (auto simp: slug_scan_append split: if_splits)
    then show ?thesis using Cons.IH [OF more] True by simp
  next
    case False
    then have "slug_char r" using Cons.prems start by (auto simp: slug_scan_append split: if_splits)
    then show ?thesis using Cons.IH [OF more] by simp
  qed
qed simp

lemma Slugify_pattern: "slugPattern (Slugify name) \<and> length (Slugify name) \<le> maxSlugLength"
proof -
  let ?raw = "slug_loop [] name"
  have raw: "slug_scan True ?raw \<noteq> None" by (rule slug_loop_scan) simp
  obtain n where n: "?raw = TrimRight_dash ?raw @ replicate n CHR ''-''" using TrimRight_dash_append by blast
  define t where "t = TrimRight_dash ?raw"
  have t: "slug_scan True t \<noteq> None" unfolding t_def using raw n slug_scan_prefix by metis
  have cut: "slug_scan True (take 48 t) \<noteq> None" using t slug_scan_prefix [of True "take 48 t" "drop 48 t"] by simp
  have len: "length (TrimRight_dash u) \<le> length u" for u by (metis TrimRight_dash_append le_add1 length_append)
  have "slugPattern ''workspace'' \<and> length ''workspace'' \<le> 48" by code_simp
  then show ?thesis
    using TrimRight_dash_pattern [OF raw] TrimRight_dash_pattern [OF cut] len [of "take 48 t"]
    by (auto simp: Slugify_def Let_def t_def [symmetric])
qed

lemma Slugify_valid:
  assumes "ValidSlug name"
  shows "Slugify name = name"
proof -
  have scan: "slug_scan True name = Some False" using assms by (simp add: ValidSlug_def slugPattern_def)
  then have "last name \<noteq> CHR ''-''" "name \<noteq> []" using slug_scan_state [OF scan] by (simp_all split: if_splits)
  moreover have "slug_loop [] name = name" using slug_loop_id [of "[]" name] scan by simp
  ultimately show ?thesis using assms by (simp add: Slugify_def ValidSlug_def TrimRight_dash_id)
qed

text \<open>Any name gives a slug that reads as one: \<^verbatim>\<open>Slugify\<close> answers at most 48 characters of lower case letters and
  digits joined by single dashes, and leaves a slug that is already valid as it is.\<close>

theorem Slugify_slug:
  "slugPattern (Slugify name) \<and> length (Slugify name) \<le> maxSlugLength \<and> (ValidSlug name \<longrightarrow> Slugify name = name)"
  using Slugify_pattern Slugify_valid by blast

theorem Slugify_slug_witness: "Slugify ''my-team-2'' = ''my-team-2''"
proof -
  have "ValidSlug ''my-team-2''" by code_simp
  then show ?thesis using Slugify_slug [of "''my-team-2''"] by blast
qed

section \<open>The workspace repository\<close>

definition storedChip :: "Workspace \<Rightarrow> string" where
  "storedChip w = (if \<not> wsp_MentionChipTemplateEdited w then [] else wsp_MentionChipTemplate w)"

definition toWorkspace :: "Workspace \<Rightarrow> Workspace" where
  "toWorkspace row = row\<lparr>wsp_MentionChipTemplateEdited := wsp_MentionChipTemplate row \<noteq> []\<rparr>"

text \<open>The index on slugs leaves out the empty one.\<close>

definition slug_taken :: "role_store \<Rightarrow> string \<Rightarrow> string \<Rightarrow> bool" where
  "slug_taken st i slug \<longleftrightarrow> slug \<noteq> [] \<and> list_ex (\<lambda>w. wsp_Slug w = slug \<and> wsp_ID w \<noteq> i) (rs_spaces st)"

text \<open>The inserted row; the columns it leaves out have their defaults.\<close>

definition stored_space :: "Workspace \<Rightarrow> Workspace" where
  "stored_space w =
     \<lparr>wsp_ID = wsp_ID w, wsp_Name = wsp_Name w, wsp_Slug = wsp_Slug w,
      wsp_MentionChipTemplate = storedChip w, wsp_MentionChipTemplateEdited = False,
      wsp_AccessSetupFinished = False, wsp_CreatedAt = wsp_CreatedAt w, wsp_UpdatedAt = wsp_UpdatedAt w,
      wsp_ArchivedAt = None\<rparr>"

definition spaceCreate :: "role_store \<Rightarrow> Workspace \<Rightarrow> role_store res" where
  "spaceCreate st w =
     (if wsp_ID w \<in> set (rs_workspaces st) \<or> slug_taken st (wsp_ID w) (wsp_Slug w)
      then Inl (wrapf (''insert workspace '' @ wsp_ID w) (sentinel_err ErrConflict))
      else Inr (st\<lparr>rs_spaces := rs_spaces st @ [stored_space w]\<rparr>))"

definition put_space :: "string \<Rightarrow> (Workspace \<Rightarrow> Workspace) \<Rightarrow> role_store \<Rightarrow> role_store" where
  "put_space i f st = st\<lparr>rs_spaces := map (\<lambda>row. if wsp_ID row = i then f row else row) (rs_spaces st)\<rparr>"

definition spaceUpdate :: "role_store \<Rightarrow> Workspace \<Rightarrow> role_outbox list \<Rightarrow> role_store res" where
  "spaceUpdate st w events =
     (if wsp_ID w \<notin> set (rs_workspaces st)
      then Inl (wrapf (''update workspace '' @ wsp_ID w) (sentinel_err ErrNotFound))
      else if slug_taken st (wsp_ID w) (wsp_Slug w)
      then Inl (wrapf (''update workspace '' @ wsp_ID w) (sentinel_err ErrConflict))
      else Inr (insert_events events (put_space (wsp_ID w)
             (\<lambda>row. row\<lparr>wsp_Name := wsp_Name w, wsp_Slug := wsp_Slug w, wsp_MentionChipTemplate := storedChip w,
                wsp_UpdatedAt := wsp_UpdatedAt w\<rparr>) st)))"

definition spaceGet :: "role_store \<Rightarrow> string \<Rightarrow> Workspace res" where
  "spaceGet st i =
     (case find (\<lambda>w. wsp_ID w = i) (rs_spaces st) of
        None \<Rightarrow> Inl (wrapf (''get workspace '' @ i) (sentinel_err ErrNotFound))
      | Some row \<Rightarrow> Inr (toWorkspace row))"

definition GetBySlug :: "role_store \<Rightarrow> string \<Rightarrow> Workspace res" where
  "GetBySlug st slug =
     (case find (\<lambda>w. wsp_Slug w = slug) (rs_spaces st) of
        None \<Rightarrow> Inl (wrapf (''get workspace by slug '' @ slug) (sentinel_err ErrNotFound))
      | Some row \<Rightarrow> Inr (toWorkspace row))"

definition spaceListForUser :: "role_store \<Rightarrow> string \<Rightarrow> Workspace list" where
  "spaceListForUser st userID =
     map toWorkspace (sort_key wsp_CreatedAt (sort_key wsp_ID
       (filter (\<lambda>w. (wsp_ID w, userID) \<in> set (db_members (rs_db st)) \<and> wsp_ArchivedAt w = None) (rs_spaces st))))"

text \<open>ORDER BY archived_at DESC, id.\<close>

definition spaceListArchived :: "role_store \<Rightarrow> Workspace list" where
  "spaceListArchived st =
     map toWorkspace (sort_key (\<lambda>w. - (case wsp_ArchivedAt w of None \<Rightarrow> 0 | Some at \<Rightarrow> at)) (sort_key wsp_ID
       (filter (\<lambda>w. wsp_ArchivedAt w \<noteq> None) (rs_spaces st))))"

text \<open>\<^verbatim>\<open>Restore\<close> where no time is given, \<^verbatim>\<open>Archive\<close> otherwise; both update a row in the other state only.\<close>

definition SetArchived :: "role_store \<Rightarrow> string \<Rightarrow> time option \<Rightarrow> time \<Rightarrow> role_outbox list \<Rightarrow> role_store res" where
  "SetArchived st i at now events =
     (if list_ex (\<lambda>w. wsp_ID w = i \<and> (wsp_ArchivedAt w = None) = (at \<noteq> None)) (rs_spaces st)
      then Inr (insert_events events (put_space i (\<lambda>row. row\<lparr>wsp_ArchivedAt := at, wsp_UpdatedAt := now\<rparr>) st))
      else Inl (wrapf (''set archived on workspace '' @ i) (sentinel_err ErrNotFound)))"

section \<open>The service\<close>

definition instanceChip :: "Tenancy_Service \<Rightarrow> string res" where
  "instanceChip s =
     (case tsv_instance s of
        None \<Rightarrow> Inr DefaultMentionChipTemplate
      | Some effective \<Rightarrow>
          map_errr (wrapf ''get the instance mention chip template'') (effective ChipTemplateKind []))"

fun withChips_loop :: "Tenancy_Service \<Rightarrow> string \<Rightarrow> Workspace list \<Rightarrow> Workspace list res" where
  "withChips_loop s inst [] = Inr []"
| "withChips_loop s inst (w # ws) =
     (if wsp_MentionChipTemplateEdited w
      then bindr (withChips_loop s inst ws) (\<lambda>rest. Inr (w # rest))
      else bindr (if inst = [] then instanceChip s else Inr inst) (\<lambda>inst.
           bindr (withChips_loop s inst ws) (\<lambda>rest. Inr (w\<lparr>wsp_MentionChipTemplate := inst\<rparr> # rest))))"

definition withChips :: "Tenancy_Service \<Rightarrow> Workspace list \<Rightarrow> Workspace list res" where
  "withChips s ws = withChips_loop s [] ws"

definition withChip :: "Tenancy_Service \<Rightarrow> Workspace \<Rightarrow> Workspace res" where
  "withChip s w = bindr (withChips s [w]) (\<lambda>ws. Inr (hd ws))"

definition GetWorkspace :: "Tenancy_Service \<Rightarrow> role_store \<Rightarrow> string \<Rightarrow> Workspace res" where
  "GetWorkspace s st i =
     (if TrimSpace i = [] then Inl (errorf ErrInvalid ''workspace id is required'')
      else bindr (map_errr (wrapf (''get workspace '' @ i)) (spaceGet st i)) (withChip s))"

text \<open>The candidate at a count; a suffix longer than a slug would be a panic of the slice and has none.\<close>

definition slug_candidate :: "string \<Rightarrow> nat \<Rightarrow> string option" where
  "slug_candidate base n =
     (if n \<le> 1 then Some base
      else let suffix = ''-'' @ go_d n
           in if length suffix > maxSlugLength then None
              else Some (TrimRight_dash (take (min (length base) (maxSlugLength - length suffix)) base) @ suffix))"

partial_function (option) freeSlug_loop :: "role_store \<Rightarrow> string \<Rightarrow> nat \<Rightarrow> string res option" where
  "freeSlug_loop st base n =
     Option.bind (slug_candidate base n) (\<lambda>candidate.
       if candidate \<in> set reservedSlugs then freeSlug_loop st base (n + 1)
       else (case GetBySlug st candidate of
               Inr _ \<Rightarrow> freeSlug_loop st base (n + 1)
             | Inl e \<Rightarrow> if errors_is e ErrNotFound then Some (Inr candidate)
                        else Some (Inl (wrapf (''check slug '' @ candidate) e))))"

definition freeSlug :: "role_store \<Rightarrow> string \<Rightarrow> string res option" where
  "freeSlug st base = freeSlug_loop st base 1"

definition new_space :: "string \<Rightarrow> string \<Rightarrow> string \<Rightarrow> time \<Rightarrow> Workspace" where
  "new_space newID name slug now =
     \<lparr>wsp_ID = newID, wsp_Name = name, wsp_Slug = slug, wsp_MentionChipTemplate = [],
      wsp_MentionChipTemplateEdited = False, wsp_AccessSetupFinished = False, wsp_CreatedAt = now,
      wsp_UpdatedAt = now, wsp_ArchivedAt = None\<rparr>"

text \<open>The person becomes Owner and member, then the channel and the defaults follow: each its own transaction, so a
  failure keeps what came before it.  The texts are those of its errors.\<close>

definition bind_owner ::
  "Tenancy_Service \<Rightarrow> string \<times> string \<times> string \<times> string \<Rightarrow> string \<Rightarrow> time \<Rightarrow> role_store \<Rightarrow> string \<Rightarrow> string \<Rightarrow>
   role_store \<times> unit res" where
  "bind_owner s texts newRoleID now st workspaceID userID =
     (case texts of (no_role, no_member, no_channel, no_defaults) \<Rightarrow>
      case CreateOwnerRole newRoleID now st workspaceID of
        Inl e \<Rightarrow> (st, Inl (wrapf no_role e))
      | Inr (st1, r) \<Rightarrow>
          (case memberAdd st1 \<lparr>mem_UserID = userID, mem_WorkspaceID = workspaceID, mem_RoleID = role_ID r,
                               mem_RoleIDs = [], mem_CreatedAt = now\<rparr> [] of
             Inl e \<Rightarrow> (st1, Inl (wrapf no_member e))
           | Inr st2 \<Rightarrow>
               (case tsv_CreateGeneralChannel s workspaceID userID of
                  Inl e \<Rightarrow> (st2, Inl (wrapf no_channel e))
                | Inr _ \<Rightarrow>
                    (case tsv_SeedWorkspaceDefaults s now workspaceID st2 of
                       (st3, Inl e) \<Rightarrow> (st3, Inl (wrapf no_defaults e))
                     | (st3, Inr _) \<Rightarrow> (st3, Inr ())))))"

definition create_texts :: "string \<Rightarrow> string \<times> string \<times> string \<times> string" where
  "create_texts i = (''create owner role for workspace '' @ i, ''add workspace creator as member'',
     ''create general channel for workspace '' @ i, ''seed defaults for workspace '' @ i)"

definition bind_texts :: "string \<Rightarrow> string \<times> string \<times> string \<times> string" where
  "bind_texts userID = (''create default workspace owner role'', ''bind '' @ userID @ '' as default workspace owner'',
     ''create general channel for default workspace'', ''seed defaults for default workspace'')"

definition CreateWorkspace ::
  "Tenancy_Service \<Rightarrow> ctx \<Rightarrow> string \<Rightarrow> string \<Rightarrow> time \<Rightarrow> role_store \<Rightarrow> string \<Rightarrow> string \<Rightarrow>
   (role_store \<times> Workspace res) option" where
  "CreateWorkspace s c newID newRoleID now st userID0 name0 =
     (let userID = TrimSpace userID0; name = TrimSpace name0
      in if userID = [] then Some (st, Inl (errorf ErrInvalid ''user id is required''))
         else if name = [] then Some (st, Inl (errorf ErrInvalid ''workspace name is required''))
         else case tsv_HoldsAnywhere s c userID WorkspacesCreate of
           Inl e \<Rightarrow> Some (st, Inl (wrapf (''check '' @ WorkspacesCreate) e))
         | Inr ok \<Rightarrow>
             if \<not> ok then Some (st, Inl (errorf ErrForbidden (WorkspacesCreate @ '' required'')))
             else Option.bind (freeSlug st (Slugify name)) (\<lambda>res.
               case res of
                 Inl e \<Rightarrow> Some (st, Inl e)
               | Inr slug \<Rightarrow>
                   (let w = new_space newID name slug now
                    in case spaceCreate st w of
                         Inl e \<Rightarrow> Some (st, Inl (wrapf ''create workspace'' e))
                       | Inr st1 \<Rightarrow>
                           (case bind_owner s (create_texts newID) newRoleID now st1 newID userID of
                              (st2, Inl e) \<Rightarrow> Some (st2, Inl e)
                            | (st2, Inr _) \<Rightarrow> Some (st2, withChip s w)))))"

definition BindDefaultWorkspaceOwner ::
  "Tenancy_Service \<Rightarrow> string \<Rightarrow> time \<Rightarrow> role_store \<Rightarrow> string \<Rightarrow> role_store \<times> unit res" where
  "BindDefaultWorkspaceOwner s newRoleID now st userID0 =
     (let userID = TrimSpace userID0
      in if userID = [] then (st, Inl (errorf ErrInvalid ''user id is required''))
         else case spaceGet st DefaultWorkspaceID of
           Inl e \<Rightarrow> (st, Inl (wrapf ''get default workspace'' e))
         | Inr _ \<Rightarrow>
             if okr (RoleIDFor st DefaultWorkspaceID userID) then (st, Inr ())
             else bind_owner s (bind_texts userID) newRoleID now st DefaultWorkspaceID userID)"

definition checkSlugFor :: "role_store \<Rightarrow> string \<Rightarrow> string \<Rightarrow> unit res" where
  "checkSlugFor st i slug =
     (if \<not> ValidSlug slug
      then Inl (errorf ErrInvalid (''slug '' @ slug @ '' must be lowercase letters and digits joined by single dashes, at most 48 characters, and not a reserved path such as settings''))
      else case GetBySlug st slug of
        Inl e \<Rightarrow> if errors_is e ErrNotFound then Inr () else Inl (wrapf (''check slug '' @ slug) e)
      | Inr other \<Rightarrow>
          if wsp_ID other \<noteq> i then Inl (errorf ErrConflict (''slug '' @ slug @ '' is taken by another workspace''))
          else Inr ())"

definition workspace_event :: "string \<Rightarrow> Workspace \<Rightarrow> string \<Rightarrow> WorkspaceEvent" where
  "workspace_event i w actorID =
     \<lparr>we_WorkspaceID = i, we_Name = wsp_Name w, we_Slug = wsp_Slug w, we_ActorID = actorID\<rparr>"

definition RenameWorkspace ::
  "Tenancy_Service \<Rightarrow> ctx \<Rightarrow> time \<Rightarrow> role_store \<Rightarrow> string \<Rightarrow> string \<Rightarrow> string option \<Rightarrow> string option \<Rightarrow>
   (role_store \<times> Workspace) res" where
  "RenameWorkspace s c now st userID0 i name slug =
     (let userID = TrimSpace userID0
      in if userID = [] then Inl (errorf ErrInvalid ''user id is required'')
         else if (case name of None \<Rightarrow> False | Some n \<Rightarrow> TrimSpace n = [])
         then Inl (errorf ErrInvalid ''workspace name is required'')
         else bindr (requireWorkspacePermission s c userID i WorkspacesWrite) (\<lambda>_.
              bindr (GetWorkspace s st i) (\<lambda>current.
              let updated = (case name of None \<Rightarrow> current | Some n \<Rightarrow> current\<lparr>wsp_Name := TrimSpace n\<rparr>)
              in bindr (case slug of
                          None \<Rightarrow> Inr updated
                        | Some sl \<Rightarrow> bindr (checkSlugFor st i sl) (\<lambda>_. Inr (updated\<lparr>wsp_Slug := sl\<rparr>))) (\<lambda>updated.
                 if wsp_Name updated = wsp_Name current \<and> wsp_Slug updated = wsp_Slug current then Inr (st, current)
                 else let updated = updated\<lparr>wsp_UpdatedAt := now\<rparr>
                      in bindr (map_errr (wrapf (''rename workspace '' @ i))
                                  (spaceUpdate st updated [TopicWorkspaceUpdated (workspace_event i updated userID)]))
                           (\<lambda>st'. Inr (st', updated))))))"

definition SetMentionChipTemplate ::
  "Tenancy_Service \<Rightarrow> ctx \<Rightarrow> time \<Rightarrow> role_store \<Rightarrow> string \<Rightarrow> string \<Rightarrow> string \<Rightarrow> role_store \<times> Workspace res" where
  "SetMentionChipTemplate s c now st actorID i0 template =
     (let i = TrimSpace i0
      in case bindr (requireWorkspacePermission s c actorID i WorkspacesWrite) (\<lambda>_.
              bindr (GetWorkspace s st i) (\<lambda>current.
              let updated = current\<lparr>wsp_MentionChipTemplate := template,
                    wsp_MentionChipTemplateEdited := TrimSpace template \<noteq> [], wsp_UpdatedAt := now\<rparr>
              in bindr (map_errr (wrapf (''set mention chip template for workspace '' @ i))
                          (spaceUpdate st updated [TopicWorkspaceUpdated (workspace_event i updated actorID)]))
                   (\<lambda>st'. Inr (st', updated)))) of
           Inl e \<Rightarrow> (st, Inl e)
         | Inr (st', updated) \<Rightarrow> (st', withChip s updated))"

definition MentionChipTemplate :: "Tenancy_Service \<Rightarrow> role_store \<Rightarrow> string \<Rightarrow> string \<Rightarrow> (string \<times> bool) res" where
  "MentionChipTemplate s st actorID i =
     bindr (map_errr (wrapf (''workspace '' @ i)) (RoleIDFor st i actorID)) (\<lambda>_.
     bindr (GetWorkspace s st i) (\<lambda>w. Inr (wsp_MentionChipTemplate w, wsp_MentionChipTemplateEdited w)))"

definition heldToViewedWorkspace :: "ctx \<Rightarrow> Workspace list \<Rightarrow> Workspace list" where
  "heldToViewedWorkspace c ws =
     (case viewedWorkspace c of None \<Rightarrow> ws | Some pinned \<Rightarrow> filter (\<lambda>w. wsp_ID w = pinned) ws)"

definition ListForUser :: "Tenancy_Service \<Rightarrow> ctx \<Rightarrow> role_store \<Rightarrow> string \<Rightarrow> Workspace list res" where
  "ListForUser s c st userID0 =
     (let userID = TrimSpace userID0
      in if userID = [] then Inl (errorf ErrInvalid ''user id is required'')
         else withChips s (heldToViewedWorkspace c (spaceListForUser st userID)))"

section \<open>Archiving\<close>

definition requireInstanceWrite :: "Tenancy_Service \<Rightarrow> ctx \<Rightarrow> string \<Rightarrow> unit res" where
  "requireInstanceWrite s c actorID =
     bindr (map_errr (wrapf (''check '' @ InstanceWrite)) (tsv_HoldsAnywhere s c actorID InstanceWrite)) (\<lambda>ok.
     if \<not> ok then Inl (errorf ErrForbidden (InstanceWrite @ '' required'')) else Inr ())"

definition set_archived ::
  "Tenancy_Service \<Rightarrow> time \<Rightarrow> role_store \<Rightarrow> string \<Rightarrow> string \<Rightarrow> bool \<Rightarrow> (role_store \<times> Workspace) res" where
  "set_archived s now st actorID i archive =
     bindr (GetWorkspace s st i) (\<lambda>current.
     if (wsp_ArchivedAt current \<noteq> None) = archive then Inr (st, current)
     else bindr (map_errr (wrapf (''list members of workspace '' @ i)) (memberList st i)) (\<lambda>members.
          let at = (if archive then Some now else None);
              payload = \<lparr>wae_WorkspaceID = i, wae_Name = wsp_Name current, wae_Slug = wsp_Slug current,
                         wae_ActorID = actorID, wae_UserIDs = map mem_UserID members\<rparr>;
              event = (if archive then TopicWorkspaceArchived payload else TopicWorkspaceRestored payload)
          in bindr (map_errr (wrapf (''set archived on workspace '' @ i)) (SetArchived st i at now [event]))
               (\<lambda>st'. Inr (st', current\<lparr>wsp_ArchivedAt := at, wsp_UpdatedAt := now\<rparr>))))"

definition ArchiveWorkspace ::
  "Tenancy_Service \<Rightarrow> ctx \<Rightarrow> time \<Rightarrow> role_store \<Rightarrow> string \<Rightarrow> string \<Rightarrow> (role_store \<times> Workspace) res" where
  "ArchiveWorkspace s c now st actorID i0 =
     (let i = TrimSpace i0
      in if i = DefaultWorkspaceID
         then Inl (errorf ErrInvalid ''the instance's own workspace can't be archived; its Owner is the instance Owner who restores the others'')
         else bindr (requireWorkspacePermission s c actorID i WorkspacesDelete) (\<lambda>_. set_archived s now st actorID i True))"

definition RestoreWorkspace ::
  "Tenancy_Service \<Rightarrow> ctx \<Rightarrow> time \<Rightarrow> role_store \<Rightarrow> string \<Rightarrow> string \<Rightarrow> (role_store \<times> Workspace) res" where
  "RestoreWorkspace s c now st actorID i =
     bindr (requireInstanceWrite s c actorID) (\<lambda>_. set_archived s now st actorID (TrimSpace i) False)"

definition ListArchived :: "Tenancy_Service \<Rightarrow> ctx \<Rightarrow> role_store \<Rightarrow> string \<Rightarrow> Workspace list res" where
  "ListArchived s c st actorID =
     bindr (requireInstanceWrite s c actorID) (\<lambda>_. withChips s (spaceListArchived st))"

text \<open>The defaults gate: the template roles of the roles service, then the plays and automations, which are other domains'.\<close>

definition SeedWorkspaceDefaults ::
  "Roles_Service \<Rightarrow> (nat \<Rightarrow> string) \<Rightarrow> (string \<Rightarrow> unit res) \<Rightarrow> (string \<Rightarrow> unit res) \<Rightarrow>
   time \<Rightarrow> string \<Rightarrow> role_store \<Rightarrow> role_store \<times> unit res" where
  "SeedWorkspaceDefaults rs newIDs plays automations now workspaceID st =
     (case SeedTemplateRoles rs newIDs now st workspaceID of
        (st', Inl e) \<Rightarrow> (st', Inl e)
      | (st', Inr _) \<Rightarrow> (st', bindr (plays workspaceID) (\<lambda>_. automations workspaceID)))"

end
