(* ===== verification/Tenancy_Spaces.thy ===== *)
theory Tenancy_Spaces
  imports Tenancy_Workspaces
begin

text \<open>
  The properties of workspaces: a free slug is always found, the invariant of the tables over every step of roles,
  members and workspaces (\<open>workspace_step\<close>), the Owner kept, what creating a workspace does, and that a restore
  undoes an archive.
\<close>

section \<open>A free slug\<close>

definition last_run :: "string \<Rightarrow> string" where
  "last_run s = rev (takeWhile (\<lambda>r. r \<noteq> CHR ''-'') (rev s))"

lemma go_d_chars: "r \<in> set (go_d n) \<Longrightarrow> slug_char r \<and> r \<noteq> CHR ''-''"
proof -
  assume "r \<in> set (go_d n)"
  then obtain k :: nat where k: "r = char_of k" "48 \<le> k" "k < 58" using go_d_digits by fastforce
  then have "slug_char r" by (simp add: slug_char_def Let_def)
  then show ?thesis by auto
qed

lemma last_run_suffix: "last_run (t @ ''-'' @ go_d n) = go_d n"
proof -
  have "takeWhile (\<lambda>r. r \<noteq> CHR ''-'') (rev (go_d n) @ CHR ''-'' # rev t) = rev (go_d n)"
    using go_d_chars by (subst takeWhile_append2) auto
  then show ?thesis by (simp add: last_run_def)
qed

lemma go_d_nonempty: "go_d n \<noteq> []"
  by (subst go_d.simps) simp

lemma go_d_length: "n < 10 ^ Suc k \<Longrightarrow> length (go_d n) \<le> Suc k"
proof (induction k arbitrary: n)
  case 0
  then show ?case by (subst go_d.simps) simp
next
  case (Suc k)
  then have "length (go_d (n div 10)) \<le> Suc k" by (intro Suc.IH) auto
  then show ?case by (subst go_d.simps) simp
qed

lemma slug_scan_digits: "slug_scan start (go_d n) = Some False"
proof -
  have "\<forall>r \<in> set s. slug_char r \<and> r \<noteq> CHR ''-'' \<Longrightarrow> slug_scan start s = Some (if s = [] then start else False)" for s start
    by (induction s arbitrary: start) auto
  then show ?thesis using go_d_chars go_d_nonempty by simp
qed

lemma TrimRight_dash_Cons: "r \<noteq> CHR ''-'' \<Longrightarrow> TrimRight_dash (r # s) \<noteq> []"
  by (auto simp: TrimRight_dash_def dropWhile_eq_Nil_conv)

lemma TrimRight_dash_length: "length (TrimRight_dash s) \<le> length s"
  by (metis TrimRight_dash_append le_add1 length_append)

lemma slug_candidate_ok:
  assumes "slugPattern base" "length base \<le> maxSlugLength" "n < 10 ^ 11"
  shows "\<exists>c. slug_candidate base n = Some c \<and> slugPattern c \<and> length c \<le> maxSlugLength \<and> (1 < n \<longrightarrow> last_run c = go_d n)"
proof (cases "n \<le> 1")
  case True
  then show ?thesis using assms by (simp add: slug_candidate_def)
next
  case False
  let ?suffix = "''-'' @ go_d n"
  define k where "k = min (length base) (48 - length ?suffix)"
  have len: "length ?suffix \<le> 12" using go_d_length [of n 10] assms(3) by simp
  obtain r s where base: "base = r # s" "r \<noteq> CHR ''-''"
    using assms(1) by (cases base) (auto simp: slugPattern_def split: if_splits)
  define t where "t = TrimRight_dash (take k base)"
  have k: "0 < k" using len base by (simp add: k_def)
  then have "t \<noteq> []" using base TrimRight_dash_Cons by (cases k) (auto simp: t_def)
  moreover have "slug_scan True (take k base) \<noteq> None"
    using assms(1) slug_scan_prefix [of True "take k base" "drop k base"] by (simp add: slugPattern_def)
  ultimately have "slugPattern t" using TrimRight_dash_pattern by (simp add: t_def)
  then have pat: "slugPattern (t @ ?suffix)" by (simp add: slugPattern_def slug_scan_append slug_scan_digits)
  have "length t \<le> k" using TrimRight_dash_length [of "take k base"] by (simp add: t_def k_def)
  then have "length (t @ ?suffix) \<le> 48" using len unfolding k_def by auto
  moreover have "slug_candidate base n = Some (t @ ?suffix)"
    using False len by (simp add: slug_candidate_def Let_def t_def k_def)
  ultimately show ?thesis using pat last_run_suffix by auto
qed

definition slug_free :: "role_store \<Rightarrow> string \<Rightarrow> bool" where
  "slug_free st slug \<longleftrightarrow> slug \<notin> set reservedSlugs \<and> slug \<notin> wsp_Slug ` set (rs_spaces st)"

lemma freeSlug_step:
  assumes "slug_candidate base n = Some c"
  shows "freeSlug_loop st base n = (if slug_free st c then Some (Inr c) else freeSlug_loop st base (n + 1))"
proof -
  have "GetBySlug st c = (case find (\<lambda>w. wsp_Slug w = c) (rs_spaces st) of
      None \<Rightarrow> Inl (wrapf (''get workspace by slug '' @ c) (sentinel_err ErrNotFound)) | Some row \<Rightarrow> Inr (toWorkspace row))"
    by (simp add: GetBySlug_def)
  moreover have "find (\<lambda>w. wsp_Slug w = c) (rs_spaces st) = None \<longleftrightarrow> c \<notin> wsp_Slug ` set (rs_spaces st)"
    by (auto simp: find_None_iff)
  ultimately show ?thesis
    by (subst freeSlug_loop.simps) (auto simp: assms slug_free_def split: option.splits)
qed

lemma freeSlug_reaches:
  assumes "\<And>m. n \<le> m \<Longrightarrow> m \<le> n + d \<Longrightarrow> slug_candidate base m = Some (cand m)"
    and "\<And>m. n \<le> m \<Longrightarrow> m < n + d \<Longrightarrow> \<not> slug_free st (cand m)" and "slug_free st (cand (n + d))"
  shows "freeSlug_loop st base n = Some (Inr (cand (n + d)))"
  using assms
proof (induction d arbitrary: n)
  case 0
  then show ?case using freeSlug_step [of base n "cand n" st] by simp
next
  case (Suc d)
  have "freeSlug_loop st base (n + 1) = Some (Inr (cand (n + 1 + d)))"
    by (rule Suc.IH) (use Suc.prems in auto)
  then show ?case using freeSlug_step [of base n "cand n" st] Suc.prems(1,2) [of n] by simp
qed

lemma some_slug_free:
  assumes "slugPattern base" "length base \<le> maxSlugLength" "length (rs_spaces st) < 10 ^ 10"
  shows "\<exists>n. 1 \<le> n \<and> n < 10 ^ 11 \<and> slug_free st (the (slug_candidate base n))"
proof (rule ccontr)
  assume none: "\<not> ?thesis"
  let ?N = "length (rs_spaces st) + length reservedSlugs + 1"
  let ?c = "\<lambda>n. the (slug_candidate base n)"
  have reserved: "length reservedSlugs = 16" by (simp add: reservedSlugs_def)
  have small: "n < 10 ^ 11" if "n \<in> {2..<2 + ?N}" for n using that assms(3) reserved by simp
  have "?c ` {2..<2 + ?N} \<subseteq> set (reservedSlugs @ map wsp_Slug (rs_spaces st))"
    using none small by (force simp: slug_free_def)
  then have "card (?c ` {2..<2 + ?N}) \<le> length (reservedSlugs @ map wsp_Slug (rs_spaces st))"
    by (meson card_length card_mono List.finite_set order_trans)
  moreover have "inj_on ?c {2..<2 + ?N}"
  proof (rule inj_onI)
    fix m n assume m: "m \<in> {2..<2 + ?N}" and n: "n \<in> {2..<2 + ?N}" and eq: "?c m = ?c n"
    have "last_run (?c i) = go_d i" if "i \<in> {2..<2 + ?N}" for i
      using slug_candidate_ok [OF assms(1,2) small [OF that]] that by auto
    then show "m = n" using m n eq go_d_inj by metis
  qed
  ultimately show False by (simp add: card_image)
qed

lemma free_slug:
  assumes "length (rs_spaces st) < 10 ^ 10"
  shows "\<exists>slug. freeSlug st (Slugify name) = Some (Inr slug) \<and> ValidSlug slug \<and> slug \<notin> wsp_Slug ` set (rs_spaces st)"
proof -
  let ?base = "Slugify name" and ?c = "\<lambda>n. the (slug_candidate (Slugify name) n)"
  let ?P = "\<lambda>n. 1 \<le> n \<and> n < 10 ^ 11 \<and> slug_free st (?c n)"
  have base: "slugPattern ?base" "length ?base \<le> 48" using Slugify_pattern by blast+
  have ex: "\<exists>n. ?P n" by (rule some_slug_free [OF base assms])
  define k where "k = (LEAST n. ?P n)"
  have k: "?P k" unfolding k_def by (rule LeastI_ex [OF ex])
  have cands: "slug_candidate ?base m = Some (?c m)" if "m \<le> k" for m
    using slug_candidate_ok [OF base, of m] that k by fastforce
  have "freeSlug st ?base = Some (Inr (?c (1 + (k - 1))))"
    unfolding freeSlug_def
  proof (rule freeSlug_reaches)
    show "\<not> slug_free st (?c m)" if "1 \<le> m" "m < 1 + (k - 1)" for m
    proof -
      have "m < k" "m < 10 ^ 11" using that k by linarith+
      then show ?thesis using not_less_Least [of m ?P] that(1) unfolding k_def by blast
    qed
  qed (use k cands in auto)
  moreover have "1 + (k - 1) = k" using k by simp
  moreover have "ValidSlug (?c k)"
    using slug_candidate_ok [OF base, of k] k by (auto simp: ValidSlug_def slug_free_def)
  ultimately show ?thesis using k by (auto simp: slug_free_def)
qed

text \<open>C26. A workspace always gets a slug: while the instance has fewer than ten billion workspaces, the search for a free slug
  returns, with a slug that is well formed, at most 48 characters, not reserved and no workspace's.\<close>

theorem freeSlug_free:
  assumes "length (rs_spaces st) < 10 ^ 10"
  shows "\<exists>slug. freeSlug st (Slugify name) = Some (Inr slug) \<and> ValidSlug slug \<and> slug \<notin> wsp_Slug ` set (rs_spaces st)"
  using assms by (rule free_slug)

theorem freeSlug_free_witness: "\<exists>slug. freeSlug example_team (Slugify ''Work'') = Some (Inr slug) \<and> slug \<noteq> ''work''"
proof -
  have "length (rs_spaces example_team) < 10 ^ 10" by (simp add: example_team_def example_tables_def)
  then obtain slug where "freeSlug example_team (Slugify ''Work'') = Some (Inr slug)"
    "slug \<notin> wsp_Slug ` set (rs_spaces example_team)" using freeSlug_free by blast
  then show ?thesis by (auto simp: example_team_def example_tables_def example_space_def)
qed

section \<open>Workspaces and the tables\<close>

text \<open>Ids and slugs are unique, but for the empty slug of a workspace from before slugs.\<close>

definition slug_clash :: "Workspace \<Rightarrow> Workspace \<Rightarrow> bool" where
  "slug_clash a b \<longleftrightarrow> wsp_Slug a \<noteq> [] \<and> wsp_Slug a = wsp_Slug b \<and> wsp_ID a \<noteq> wsp_ID b"

definition spaces_ok :: "role_store \<Rightarrow> bool" where
  "spaces_ok st \<longleftrightarrow> distinct (rs_workspaces st) \<and>
     list_all (\<lambda>a. list_all (\<lambda>b. \<not> slug_clash a b) (rs_spaces st)) (rs_spaces st)"

lemma spaces_okI:
  assumes "distinct (rs_workspaces st)"
    and "\<And>a b. a \<in> set (rs_spaces st) \<Longrightarrow> b \<in> set (rs_spaces st) \<Longrightarrow> \<not> slug_clash a b"
  shows "spaces_ok st"
  using assms by (simp add: spaces_ok_def list_all_iff)

lemma spaces_okD: "spaces_ok st \<Longrightarrow> distinct (rs_workspaces st)"
  "spaces_ok st \<Longrightarrow> a \<in> set (rs_spaces st) \<Longrightarrow> b \<in> set (rs_spaces st) \<Longrightarrow> \<not> slug_clash a b"
  by (simp_all add: spaces_ok_def list_all_iff)

text \<open>What a write on workspaces alone leaves as it is.\<close>

definition same_people :: "role_store \<Rightarrow> role_store \<Rightarrow> bool" where
  "same_people st st' \<longleftrightarrow> rs_roles st' = rs_roles st \<and> rs_db st' = rs_db st \<and> rs_joined st' = rs_joined st \<and>
     rs_invites st' = rs_invites st \<and> set (rs_workspaces st) \<subseteq> set (rs_workspaces st')"

lemma same_people_reads:
  assumes "same_people st st'"
  shows "held_set st' = held_set st" "member_set st' = member_set st" "roleGet st' = roleGet st"
    "memberGet st' w u = memberGet st w u \<or> live_member st' w u \<noteq> live_member st w u"
proof -
  have eq: "rs_roles st' = rs_roles st" "rs_db st' = rs_db st" "rs_joined st' = rs_joined st"
    using assms by (simp_all add: same_people_def)
  then show "held_set st' = held_set st" "member_set st' = member_set st" "roleGet st' = roleGet st"
    by (auto simp: held_set_def holdings_def member_set_def roleGet_def fun_eq_iff)
  have "in_given_order st' rows = in_given_order st rows" for rows
    unfolding in_given_order_def owner_role_def role_ids_def using eq(1) by simp
  then have "ListMemberRoleIDs st' w u = ListMemberRoleIDs st w u"
    unfolding ListMemberRoleIDs_def using eq(2) by simp
  then show "memberGet st' w u = memberGet st w u \<or> live_member st' w u \<noteq> live_member st w u"
    unfolding memberGet_def toMember_def using eq(3) by simp
qed

lemma same_people_refl: "same_people st st"
  by (simp add: same_people_def)

lemma same_people_ok:
  assumes "same_people st st'" "tenancy_ok st"
  shows "tenancy_ok st'"
proof -
  have eq: "rs_roles st' = rs_roles st" "rs_db st' = rs_db st" "rs_invites st' = rs_invites st"
    "set (rs_workspaces st) \<subseteq> set (rs_workspaces st')"
    using assms(1) by (simp_all add: same_people_def)
  have ids: "role_ids st' = role_ids st" "role_spaces st' = role_spaces st" "owner_workspaces st' = owner_workspaces st"
    "role_refs st' = role_refs st" "space_of st' = space_of st" "holdings st' = holdings st"
    using eq by (auto simp: role_ids_def role_spaces_def owner_workspaces_def role_refs_def space_of_def roleGet_def
        holdings_def fun_eq_iff)
  have "tables_ok st'" using assms(2) eq ids unfolding tenancy_ok_def tables_ok_def by auto
  moreover have "holdings_ok st'"
    using assms(2) eq ids unfolding tenancy_ok_def holdings_ok_def holding_ok_def by simp
  ultimately show ?thesis by (simp add: tenancy_ok_def)
qed

lemma insert_events_spaces [simp]:
  "rs_spaces (insert_events evs st) = rs_spaces st" "rs_workspaces (insert_events evs st) = rs_workspaces st"
  by (simp_all add: insert_events_def rs_workspaces_def)

lemma put_space_ids:
  "(\<And>row. wsp_ID (f row) = wsp_ID row) \<Longrightarrow> rs_workspaces (put_space i f st) = rs_workspaces st"
  by (simp add: put_space_def rs_workspaces_def comp_def)

lemma put_space_people: "(\<And>row. wsp_ID (f row) = wsp_ID row) \<Longrightarrow> same_people st (insert_events evs (put_space i f st))"
  using put_space_ids [of f i st] by (simp add: same_people_def insert_events_def put_space_def rs_workspaces_def comp_def)

lemma put_space_ok:
  assumes "spaces_ok st" "\<And>row. wsp_ID (f row) = wsp_ID row"
    and "(\<forall>row. wsp_Slug (f row) = wsp_Slug row) \<or> (\<forall>row. wsp_Slug (f row) = slug) \<and> \<not> slug_taken st i slug"
  shows "spaces_ok (put_space i f st)"
proof (rule spaces_okI)
  show "distinct (rs_workspaces (put_space i f st))"
    using spaces_okD(1) [OF assms(1)] put_space_ids [of f i st] assms(2) by simp
next
  fix a b
  assume "a \<in> set (rs_spaces (put_space i f st))" "b \<in> set (rs_spaces (put_space i f st))"
  then obtain a0 b0 where a0: "a0 \<in> set (rs_spaces st)" "a = (if wsp_ID a0 = i then f a0 else a0)"
    and b0: "b0 \<in> set (rs_spaces st)" "b = (if wsp_ID b0 = i then f b0 else b0)"
    by (auto simp: put_space_def)
  have old: "\<not> slug_clash a0 b0" by (rule spaces_okD(2) [OF assms(1) a0(1) b0(1)])
  have taken: "wsp_Slug w \<noteq> slug \<or> slug = [] \<or> wsp_ID w = i" if "\<not> slug_taken st i slug" "w \<in> set (rs_spaces st)" for w
    using that by (auto simp: slug_taken_def list_ex_iff)
  from assms(3) show "\<not> slug_clash a b"
  proof
    assume "\<forall>row. wsp_Slug (f row) = wsp_Slug row"
    then show ?thesis using old a0(2) b0(2) assms(2)
      by (cases "wsp_ID a0 = i"; cases "wsp_ID b0 = i") (auto simp: slug_clash_def)
  next
    assume "(\<forall>row. wsp_Slug (f row) = slug) \<and> \<not> slug_taken st i slug"
    then show ?thesis using old a0 b0 assms(2) taken [of a0] taken [of b0]
      by (cases "wsp_ID a0 = i"; cases "wsp_ID b0 = i") (auto simp: slug_clash_def)
  qed
qed

lemma spaces_ok_events [simp]: "spaces_ok (insert_events evs st) = spaces_ok st"
  by (simp add: spaces_ok_def)

lemma spaceCreate_D:
  assumes "spaceCreate st w = Inr st'"
  shows "same_people st st'" "wsp_ID w \<notin> set (rs_workspaces st)" "rs_workspaces st' = rs_workspaces st @ [wsp_ID w]"
    "spaces_ok st \<Longrightarrow> spaces_ok st'"
proof -
  let ?row = "stored_space w"
  have row: "wsp_ID ?row = wsp_ID w" "wsp_Slug ?row = wsp_Slug w" by (simp_all add: stored_space_def)
  have st': "st' = st\<lparr>rs_spaces := rs_spaces st @ [?row]\<rparr>"
    and new: "wsp_ID w \<notin> set (rs_workspaces st)" "\<not> slug_taken st (wsp_ID w) (wsp_Slug w)"
    using assms by (auto simp: spaceCreate_def split: if_splits)
  show "same_people st st'" "wsp_ID w \<notin> set (rs_workspaces st)" "rs_workspaces st' = rs_workspaces st @ [wsp_ID w]"
    using new row unfolding st' by (auto simp: same_people_def rs_workspaces_def)
  show "spaces_ok st'" if ok: "spaces_ok st"
  proof (rule spaces_okI)
    show "distinct (rs_workspaces st')"
      using spaces_okD(1) [OF ok] new(1) row(1) unfolding st' by (simp add: rs_workspaces_def)
  next
    fix a b
    assume "a \<in> set (rs_spaces st')" "b \<in> set (rs_spaces st')"
    then consider "a \<in> set (rs_spaces st)" "b \<in> set (rs_spaces st)" | "a = ?row" "b = ?row"
      | "a = ?row" "b \<in> set (rs_spaces st)" | "a \<in> set (rs_spaces st)" "b = ?row" unfolding st' by auto
    then show "\<not> slug_clash a b"
      using spaces_okD(2) [OF ok] new(2) row
      by cases (auto simp: slug_clash_def slug_taken_def list_ex_iff)
  qed
qed

lemma spaceUpdate_D:
  assumes "spaceUpdate st w evs = Inr st'"
  shows "same_people st st'" "spaces_ok st \<Longrightarrow> spaces_ok st'"
proof -
  let ?f = "\<lambda>row. row\<lparr>wsp_Name := wsp_Name w, wsp_Slug := wsp_Slug w, wsp_MentionChipTemplate := storedChip w,
                wsp_UpdatedAt := wsp_UpdatedAt w\<rparr>"
  have st': "st' = insert_events evs (put_space (wsp_ID w) ?f st)" and free: "\<not> slug_taken st (wsp_ID w) (wsp_Slug w)"
    using assms by (auto simp: spaceUpdate_def split: if_splits)
  show "same_people st st'" unfolding st' by (rule put_space_people) simp
  show "spaces_ok st'" if "spaces_ok st"
    unfolding st' spaces_ok_events by (rule put_space_ok [OF that, of _ "wsp_Slug w"]) (use free in auto)
qed

lemma SetArchived_D:
  assumes "SetArchived st i at now evs = Inr st'"
  shows "same_people st st'" "spaces_ok st \<Longrightarrow> spaces_ok st'"
    "rs_spaces st' = map (\<lambda>row. if wsp_ID row = i then row\<lparr>wsp_ArchivedAt := at, wsp_UpdatedAt := now\<rparr> else row) (rs_spaces st)"
proof -
  let ?f = "\<lambda>row. row\<lparr>wsp_ArchivedAt := at, wsp_UpdatedAt := now\<rparr>"
  have st': "st' = insert_events evs (put_space i ?f st)" using assms by (auto simp: SetArchived_def split: if_splits)
  show "same_people st st'" unfolding st' by (rule put_space_people) simp
  show "rs_spaces st' = map (\<lambda>row. if wsp_ID row = i then ?f row else row) (rs_spaces st)"
    unfolding st' by (simp add: put_space_def)
  show "spaces_ok st'" if "spaces_ok st"
    unfolding st' spaces_ok_events by (rule put_space_ok [OF that]) auto
qed

section \<open>Becoming Owner\<close>

text \<open>What binding an Owner may do: everything held, every member and every role read stays, and so do the workspaces.\<close>

definition grown :: "role_store \<Rightarrow> role_store \<Rightarrow> bool" where
  "grown st st' \<longleftrightarrow> held_set st \<subseteq> held_set st' \<and> member_set st \<subseteq> member_set st' \<and>
     rs_spaces st' = rs_spaces st \<and> (\<forall>i x. roleGet st i = Inr x \<longrightarrow> roleGet st' i = Inr x)"

lemma grown_refl: "grown st st"
  by (simp add: grown_def)

lemma grown_trans: "grown a b \<Longrightarrow> grown b d \<Longrightarrow> grown a d"
  unfolding grown_def by (metis subset_trans)

lemma grown_create:
  assumes "roleCreate st r = Inr st'"
  shows "grown st st'" "held_set st' = held_set st" "member_set st' = member_set st"
proof -
  show "held_set st' = held_set st" "member_set st' = member_set st"
    using holdings_create [OF assms] by (simp_all add: held_set_def member_set_def)
  moreover have "rs_spaces st' = rs_spaces st" using assms by (auto simp: roleCreate_def split: if_splits)
  ultimately show "grown st st'" using rr.create_keeps [OF assms] by (simp add: grown_def)
qed

lemma memberAdd_spaces:
  assumes "memberAdd st m evs = Inr st'"
  shows "rs_spaces st' = rs_spaces st"
proof -
  have "rs_spaces b = rs_spaces a" if "addMemberRoles w u at is a = Inr b" for w u at "is" a b
    using addMemberRoles_rows [OF that] by (simp add: with_rows_def)
  then show ?thesis
    using assms by (fastforce simp: memberAdd_def Let_def bindr_Inr_iff split: if_splits)
qed

lemma grown_add: "memberAdd st m evs = Inr st' \<Longrightarrow> grown st st'"
  using mr.add_law [of st m evs st'] same_roles_reads(4) [OF memberAdd_D(8) [of st m evs st']] memberAdd_spaces [of st m evs st']
  by (auto simp: grown_def)

text \<open>The seeding of the roles as wired; nothing that is held changes.\<close>

lemma seed_defaults:
  assumes "SeedWorkspaceDefaults rs newIDs plays automations now w st = (st', r)" "\<forall>n. id_ok (newIDs n)" "tenancy_ok st"
  shows "tenancy_ok st'" "grown st st'" "held_set st' = held_set st" "member_set st' = member_set st"
proof -
  obtain r1 where s: "SeedTemplateRoles rs newIDs now st w = (st', r1)"
    using assms(1) by (auto simp: SeedWorkspaceDefaults_def split: prod.splits sum.splits)
  then have step: "role_step rs st st'" by (rule role_step.seed [OF assms(2)])
  show "tenancy_ok st'"
    using role_step_tables [OF step] role_step_members [OF step] assms(3) by (simp add: tenancy_ok_def)
  let ?P = "\<lambda>st'. grown st st' \<and> held_set st' = held_set st \<and> member_set st' = member_set st"
  have "?P st'"
  proof (rule SeedTemplateRoles_inv [where P = ?P, OF _ assms(2) _ s])
    show "?P b" if "?P a" "roleCreate a x = Inr b" for a x b
      using grown_create [OF that(2)] grown_trans [of st a b] that(1) by simp
  qed (simp add: grown_refl)
  then show "grown st st'" "held_set st' = held_set st" "member_set st' = member_set st" by auto
qed

lemma CreateOwnerRole_row:
  assumes "CreateOwnerRole newID now st w = Inr (st', r)" "TrimSpace w = w"
  shows "\<exists>row. roleCreate st row = Inr st' \<and> role_ID row = newID \<and> role_ID r = newID \<and> role_WorkspaceID row = w \<and>
    role_IsOwnerRole row"
  using assms by (auto simp: CreateOwnerRole_def Let_def bindr_Inr_iff split: if_splits)

lemma bind_owner_ok:
  assumes "bind_owner s texts newRoleID now st w u = (st', r)" "tenancy_ok st" "id_ok newRoleID" "TrimSpace w = w"
    and "tsv_SeedWorkspaceDefaults s = SeedWorkspaceDefaults rs newIDs plays automations" "\<forall>n. id_ok (newIDs n)"
  shows "tenancy_ok st' \<and> grown st st' \<and>
    held_set st' \<subseteq> insert (w, u, newRoleID) (held_set st) \<and> member_set st' \<subseteq> insert (w, u) (member_set st) \<and>
    (r = Inr () \<longrightarrow> (w, u, newRoleID) \<in> held_set st' \<and> (w, u) \<in> member_set st' \<and>
      (\<exists>x. roleGet st' newRoleID = Inr x \<and> role_IsOwnerRole x \<and> role_WorkspaceID x = w))"
proof (cases "CreateOwnerRole newRoleID now st w")
  case (Inl e)
  then show ?thesis using assms(1,2) grown_refl by (auto simp: bind_owner_def split: prod.splits)
next
  case (Inr p)
  obtain st1 r1 where p: "p = (st1, r1)" by (cases p)
  note c = Inr [unfolded p]
  obtain row where row: "roleCreate st row = Inr st1" "role_ID row = newRoleID" "role_ID r1 = newRoleID"
    "role_WorkspaceID row = w" "role_IsOwnerRole row" using CreateOwnerRole_row [OF c assms(4)] by blast
  have step: "role_step rs st st1" by (rule role_step.owner [OF assms(3) c])
  have ok1: "tenancy_ok st1"
    using role_step_tables [OF step] role_step_members [OF step] assms(2) by (simp add: tenancy_ok_def)
  note g1 = grown_create [OF row(1)]
  have own: "roleGet st1 newRoleID = Inr (toRole row)" using roleGet_create [OF row(1)] row(2) by simp
  define m where "m = \<lparr>mem_UserID = u, mem_WorkspaceID = w, mem_RoleID = role_ID r1, mem_RoleIDs = [], mem_CreatedAt = now\<rparr>"
  have held: "Held m = [newRoleID]" using assms(3) by (simp add: m_def Held_def row(3) id_ok_def)
  show ?thesis
  proof (cases "memberAdd st1 m []")
    case (Inl e)
    then show ?thesis using assms(1) c ok1 g1 by (auto simp: bind_owner_def m_def split: prod.splits)
  next
    case (Inr st2)
    have sel: "mem_WorkspaceID m = w" "mem_UserID m = u" by (simp_all add: m_def)
    have law: "held_set st2 = insert (w, u, newRoleID) (held_set st)" "member_set st2 = insert (w, u) (member_set st)"
      using mr.add_law [OF Inr] g1(2,3) unfolding sel held by auto
    have ok2: "tenancy_ok st2"
    proof (rule tenancy_ok_frame [OF ok1 memberAdd_D(8) [OF Inr] frame_add [OF Inr]])
      show "space_of st1 i = Some w'" if "(w', u', i) \<in> held_set st2" "(w', u', i) \<notin> held_set st1" for w' u' i
        using that own row(4) unfolding law g1(2) by (auto simp: space_of_def toRole_def)
    qed (simp add: memberAdd_D(6) [OF Inr])
    have g2: "grown st st2" using g1(1) grown_add [OF Inr] by (rule grown_trans)
    have own2: "roleGet st2 newRoleID = Inr (toRole row)" using grown_add [OF Inr] own by (simp add: grown_def)
    show ?thesis
    proof (cases "tsv_CreateGeneralChannel s w u")
      case (Inl e)
      obtain e' where "bind_owner s texts newRoleID now st w u = (st2, Inl e')"
        using c \<open>memberAdd st1 m [] = Inr st2\<close> Inl by (cases texts) (simp add: bind_owner_def m_def)
      then have "st' = st2" "r = Inl e'" using assms(1) by simp_all
      then show ?thesis using ok2 g2 law by simp
    next
      case (Inr ok)
      obtain st3 r3 where d: "SeedWorkspaceDefaults rs newIDs plays automations now w st2 = (st3, r3)"
        by (cases "SeedWorkspaceDefaults rs newIDs plays automations now w st2")
      note sd = seed_defaults [OF d assms(6) ok2]
      have own3: "roleGet st3 newRoleID = Inr (toRole row)" using sd(2) own2 by (simp add: grown_def)
      have "fst (bind_owner s texts newRoleID now st w u) = st3"
        using c \<open>memberAdd st1 m [] = Inr st2\<close> Inr d by (cases texts; cases r3) (simp_all add: bind_owner_def m_def assms(5))
      then have "st' = st3" using assms(1) by simp
      then show ?thesis using sd grown_trans [OF g2 sd(2)] own3 law row(4,5) by (simp add: toRole_def)
    qed
  qed
qed

section \<open>Steps of workspaces\<close>

text \<open>The defaults gate as wired, with the ids of the roles it seeds.\<close>

definition wire_defaults ::
  "Tenancy_Service \<Rightarrow> Roles_Service \<Rightarrow> (nat \<Rightarrow> string) \<Rightarrow> (string \<Rightarrow> unit res) \<Rightarrow> (string \<Rightarrow> unit res) \<Rightarrow> Tenancy_Service" where
  "wire_defaults ts rs newIDs plays automations =
     ts\<lparr>tsv_SeedWorkspaceDefaults := SeedWorkspaceDefaults rs newIDs plays automations\<rparr>"

inductive workspace_step :: "Tenancy_Service \<Rightarrow> Roles_Service \<Rightarrow> role_store \<Rightarrow> role_store \<Rightarrow> bool" for ts rs where
  people: "tenancy_step ts rs st st' \<Longrightarrow> workspace_step ts rs st st'"
| create: "id_ok newID \<Longrightarrow> id_ok newRoleID \<Longrightarrow> \<forall>n. id_ok (newIDs n) \<Longrightarrow>
    CreateWorkspace (wire_defaults ts rs newIDs plays automations) c newID newRoleID now st u name = Some (st', r) \<Longrightarrow>
    workspace_step ts rs st st'"
| bind: "id_ok newRoleID \<Longrightarrow> \<forall>n. id_ok (newIDs n) \<Longrightarrow>
    BindDefaultWorkspaceOwner (wire_defaults ts rs newIDs plays automations) newRoleID now st u = (st', b) \<Longrightarrow>
    workspace_step ts rs st st'"
| rename: "RenameWorkspace ts c now st u i nm sl = Inr (st', w) \<Longrightarrow> workspace_step ts rs st st'"
| chip: "SetMentionChipTemplate ts c now st u i t = (st', r) \<Longrightarrow> workspace_step ts rs st st'"
| archive: "ArchiveWorkspace ts c now st u i = Inr (st', w) \<Longrightarrow> workspace_step ts rs st st'"
| restore: "RestoreWorkspace ts c now st u i = Inr (st', w) \<Longrightarrow> workspace_step ts rs st st'"

definition kept :: "role_store \<Rightarrow> role_store \<Rightarrow> bool" where
  "kept st st' \<longleftrightarrow> held_set st \<subseteq> held_set st' \<and> (\<forall>i x. roleGet st i = Inr x \<longrightarrow> roleGet st' i = Inr x)"

lemma kept_grown: "grown st st' \<Longrightarrow> kept st st'"
  by (simp add: kept_def grown_def)

lemma kept_same: "same_people st st' \<Longrightarrow> kept st st'"
  using same_people_reads [of st st'] by (simp add: kept_def)

lemma kept_trans: "kept a b \<Longrightarrow> kept b d \<Longrightarrow> kept a d"
  unfolding kept_def by blast

lemma wire_defaults_sel [simp]:
  "tsv_SeedWorkspaceDefaults (wire_defaults ts rs newIDs plays automations) = SeedWorkspaceDefaults rs newIDs plays automations"
  by (simp add: wire_defaults_def)

lemma toWorkspace_sel [simp]:
  "wsp_ID (toWorkspace w) = wsp_ID w" "wsp_Slug (toWorkspace w) = wsp_Slug w" "wsp_ArchivedAt (toWorkspace w) = wsp_ArchivedAt w"
  by (simp_all add: toWorkspace_def)

text \<open>What one call of each operation is, where it is not an error.\<close>

lemma CreateWorkspace_D:
  assumes "CreateWorkspace s c newID newRoleID now st u name = Some (st', r)"
  shows "(st' = st \<and> \<not> okr r) \<or> (\<exists>slug st1 b.
      tsv_HoldsAnywhere s c (TrimSpace u) WorkspacesCreate = Inr True \<and>
      freeSlug st (Slugify (TrimSpace name)) = Some (Inr slug) \<and>
      spaceCreate st (new_space newID (TrimSpace name) slug now) = Inr st1 \<and>
      bind_owner s (create_texts newID) newRoleID now st1 newID (TrimSpace u) = (st', b) \<and>
      (b = Inr () \<or> \<not> okr r))"
proof (cases "TrimSpace u = [] \<or> TrimSpace name = [] \<or> tsv_HoldsAnywhere s c (TrimSpace u) WorkspacesCreate \<noteq> Inr True")
  case True
  then show ?thesis using assms by (auto simp: CreateWorkspace_def Let_def split: sum.splits if_splits)
next
  case False
  then have f: "TrimSpace u \<noteq> []" "TrimSpace name \<noteq> []" "tsv_HoldsAnywhere s c (TrimSpace u) WorkspacesCreate = Inr True" by auto
  obtain res where res: "freeSlug st (Slugify (TrimSpace name)) = Some res"
    using assms f by (cases "freeSlug st (Slugify (TrimSpace name))") (simp_all add: CreateWorkspace_def)
  show ?thesis
  proof (cases res)
    case (Inl e)
    then show ?thesis using assms f res by (auto simp: CreateWorkspace_def)
  next
    case (Inr slug)
    show ?thesis
    proof (cases "spaceCreate st (new_space newID (TrimSpace name) slug now)")
      case (Inl e)
      then show ?thesis using assms f res \<open>res = Inr slug\<close> by (auto simp: CreateWorkspace_def)
    next
      case (Inr st1)
      obtain st2 b where b: "bind_owner s (create_texts newID) newRoleID now st1 newID (TrimSpace u) = (st2, b)"
        by (cases "bind_owner s (create_texts newID) newRoleID now st1 newID (TrimSpace u)")
      have "st' = st2 \<and> (b = Inr () \<or> \<not> okr r)"
        using assms f res \<open>res = Inr slug\<close> Inr b by (cases b) (auto simp: CreateWorkspace_def)
      then show ?thesis using f res \<open>res = Inr slug\<close> Inr b by auto
    qed
  qed
qed

lemma BindDefaultWorkspaceOwner_D:
  assumes "BindDefaultWorkspaceOwner s newRoleID now st u = (st', b)"
  shows "st' = st \<or> bind_owner s (bind_texts (TrimSpace u)) newRoleID now st DefaultWorkspaceID (TrimSpace u) = (st', b)"
  using assms by (auto simp: BindDefaultWorkspaceOwner_def Let_def split: if_splits sum.splits)

lemma RenameWorkspace_D:
  assumes "RenameWorkspace s c now st u i nm sl = Inr (st', w)"
  shows "st' = st \<or> (\<exists>x evs. spaceUpdate st x evs = Inr st')"
  using assms
  by (auto simp: RenameWorkspace_def Let_def bindr_Inr_iff map_errr_Inr_iff split: if_splits)

lemma SetMentionChipTemplate_D:
  assumes "SetMentionChipTemplate s c now st u i t = (st', r)"
  shows "st' = st \<or> (\<exists>x evs. spaceUpdate st x evs = Inr st')"
  using assms
  by (auto simp: SetMentionChipTemplate_def Let_def bindr_Inr_iff map_errr_Inr_iff split: if_splits sum.splits)

lemma set_archived_D:
  assumes "set_archived s now st actor i archive = Inr (st', w)"
  shows "st' = st \<or> (\<exists>evs. SetArchived st i (if archive then Some now else None) now evs = Inr st')"
  using assms by (auto simp: set_archived_def Let_def bindr_Inr_iff map_errr_Inr_iff split: if_splits)

text \<open>The tables are well formed.\<close>

definition workspaces_ok :: "role_store \<Rightarrow> bool" where
  "workspaces_ok st \<longleftrightarrow> tenancy_ok st \<and> spaces_ok st"

lemma workspaces_ok_same: "same_people st st' \<Longrightarrow> spaces_ok st' \<Longrightarrow> workspaces_ok st \<Longrightarrow> workspaces_ok st' \<and> kept st st'"
  by (simp add: workspaces_ok_def same_people_ok kept_same)

lemma workspaces_ok_update:
  "st' = st \<or> (\<exists>x evs. spaceUpdate st x evs = Inr st') \<Longrightarrow> workspaces_ok st \<Longrightarrow> workspaces_ok st' \<and> kept st st'"
  using spaceUpdate_D workspaces_ok_same by (metis kept_same same_people_refl workspaces_ok_def)

lemma workspaces_ok_archived:
  assumes "set_archived s now st actor i archive = Inr (st', w)" "workspaces_ok st"
  shows "workspaces_ok st' \<and> kept st st'"
  using set_archived_D [OF assms(1)] SetArchived_D workspaces_ok_same assms(2)
  by (metis kept_same same_people_refl workspaces_ok_def)

lemma workspaces_ok_bind:
  assumes "bind_owner s texts newRoleID now st w u = (st', r)" "workspaces_ok st" "id_ok newRoleID" "id_ok w"
    and "tsv_SeedWorkspaceDefaults s = SeedWorkspaceDefaults rs newIDs plays automations" "\<forall>n. id_ok (newIDs n)"
  shows "workspaces_ok st' \<and> kept st st'"
proof -
  have "TrimSpace w = w" using assms(4) by (simp add: id_ok_def)
  then have "tenancy_ok st' \<and> grown st st'" using bind_owner_ok [OF assms(1) _ assms(3) _ assms(5,6)] assms(2)
    by (simp add: workspaces_ok_def)
  then show ?thesis using assms(2) kept_grown
    by (auto simp: workspaces_ok_def spaces_ok_def rs_workspaces_def grown_def)
qed

lemma DefaultWorkspaceID_ok: "id_ok DefaultWorkspaceID"
  by code_simp

lemma tenancy_step_spaces:
  assumes "tenancy_step ts rs st st'" "tenancy_ok st"
  shows "rs_spaces st' = rs_spaces st"
  using assms
proof (induction rule: tenancy_step.induct)
  case (roles st st')
  then have "tables_ok st" by (simp add: tenancy_ok_def)
  show ?case
  proof (rule role_step_inv [where P = "\<lambda>b. rs_spaces b = rs_spaces st", OF roles(1) \<open>tables_ok st\<close>])
    show "rs_spaces b = rs_spaces st" if "rs_spaces a = rs_spaces st" "roleCreate a r = Inr b" for a r b
      using that by (auto simp: roleCreate_def split: if_splits)
    show "rs_spaces b = rs_spaces st" if "rs_spaces a = rs_spaces st" "roleUpdate a r evs = Inr b" for a r evs b
      using that by (auto simp: roleUpdate_def insert_events_def split: if_splits)
    show "rs_spaces b = rs_spaces st" if "rs_spaces a = rs_spaces st" "roleDelete a j evs = Inr b" for a j evs b
      using that by (auto simp: roleDelete_def insert_events_def split: if_splits)
  qed simp
next
  case (members c actor st st')
  then have "tables_ok st" by (simp add: tenancy_ok_def)
  then show ?case using member_write_change [OF members(1)] by (simp add: member_change_def same_roles_def)
next
  case (resolve now st login u st' r)
  then show ?case using ResolvePendingInvites_ok by (auto simp: same_roles_def)
qed

lemma workspace_step_ok:
  assumes "workspace_step ts rs st st'" "workspaces_ok st"
  shows "workspaces_ok st' \<and> (tenancy_step ts rs st st' \<or> kept st st')"
  using assms
proof (induction rule: workspace_step.induct)
  case (people st st')
  then show ?case using tenancy_step_ok tenancy_step_spaces
    by (simp add: workspaces_ok_def spaces_ok_def rs_workspaces_def)
next
  case (create newID newRoleID newIDs plays automations c now st u name st' r)
  let ?s = "wire_defaults ts rs newIDs plays automations"
  consider "st' = st" | slug st1 b where "spaceCreate st (new_space newID (TrimSpace name) slug now) = Inr st1"
    "bind_owner ?s (create_texts newID) newRoleID now st1 newID (TrimSpace u) = (st', b)"
    using CreateWorkspace_D [OF create(4)] by blast
  then show ?case
  proof cases
    case 1
    then show ?thesis using create(5) by (simp add: kept_def)
  next
    case (2 slug st1 b)
    note c = 2(1) and b = 2(2)
    have "workspaces_ok st1 \<and> kept st st1"
      using spaceCreate_D(1,4) [OF c] workspaces_ok_same create(5) by (simp add: workspaces_ok_def)
    then show ?thesis
      using workspaces_ok_bind [OF b _ create(2,1) wire_defaults_sel create(3)] kept_trans by blast
  qed
next
  case (bind newRoleID newIDs plays automations now st u st' b)
  from BindDefaultWorkspaceOwner_D [OF bind(3)] show ?case
  proof
    assume "st' = st"
    then show ?thesis using bind(4) by (simp add: kept_def)
  next
    assume b: "bind_owner (wire_defaults ts rs newIDs plays automations) (bind_texts (TrimSpace u)) newRoleID now st
      DefaultWorkspaceID (TrimSpace u) = (st', b)"
    show ?thesis
      using workspaces_ok_bind [OF b bind(4,1) DefaultWorkspaceID_ok wire_defaults_sel bind(2)] by blast
  qed
next
  case (rename c now st u i nm sl st' w)
  then show ?case using workspaces_ok_update [OF RenameWorkspace_D] by blast
next
  case (chip c now st u i t st' r)
  then show ?case using workspaces_ok_update [OF SetMentionChipTemplate_D] by blast
next
  case (archive c now st u i st' w)
  then show ?case
    using workspaces_ok_archived by (auto simp: ArchiveWorkspace_def Let_def bindr_Inr_iff split: if_splits)
next
  case (restore c now st u i st' w)
  then show ?case using workspaces_ok_archived by (auto simp: RestoreWorkspace_def bindr_Inr_iff)
qed

section \<open>Properties of workspaces\<close>

definition example_defaults :: Tenancy_Service where
  "example_defaults = wire_defaults example_tenancy example_roles_service (\<lambda>_. ''n'') (\<lambda>_. Inr ()) (\<lambda>_. Inr ())"

definition example_lab :: Workspace where
  "example_lab = new_space ''x'' ''Lab'' ''lab'' 7"

definition example_based :: role_store where
  "example_based = ok_value example_team (spaceCreate example_team example_lab)"

definition example_made :: role_store where
  "example_made = fst (bind_owner example_defaults (create_texts ''x'') ''y'' 7 example_based ''x'' ''u'')"

lemma example_basing: "spaceCreate example_team example_lab = Inr example_based"
  unfolding example_based_def by (rule is_ok_value) code_simp

lemma example_binding:
  "bind_owner example_defaults (create_texts ''x'') ''y'' 7 example_based ''x'' ''u'' = (example_made, Inr ())"
proof -
  have "snd (bind_owner example_defaults (create_texts ''x'') ''y'' 7 example_based ''x'' ''u'') = Inr ()" by code_simp
  then show ?thesis unfolding example_made_def by (metis prod.collapse)
qed

lemma example_slug: "freeSlug example_team (Slugify ''Lab'') = Some (Inr ''lab'')"
proof -
  let ?e = "wrapf ''get workspace by slug lab'' (sentinel_err ErrNotFound)"
  have "Slugify ''Lab'' = ''lab''" "slug_candidate ''lab'' 1 = Some ''lab''" "''lab'' \<notin> set reservedSlugs" by code_simp+
  moreover have "GetBySlug example_team ''lab'' = Inl ?e"
    by (simp add: GetBySlug_def example_team_def example_tables_def example_space_def)
  moreover have "errors_is ?e ErrNotFound" by simp
  ultimately show ?thesis unfolding freeSlug_def by (simp add: freeSlug_loop.simps)
qed

lemma example_making:
  "CreateWorkspace example_defaults background ''x'' ''y'' 7 example_team ''u'' ''Lab'' = Some (example_made, withChip example_defaults example_lab)"
proof -
  have "TrimSpace ''u'' = ''u''" "TrimSpace ''Lab'' = ''Lab''" "tsv_HoldsAnywhere example_defaults background ''u'' WorkspacesCreate = Inr True"
    by code_simp+
  then show ?thesis
    using example_basing example_binding example_slug by (simp add: CreateWorkspace_def example_lab_def)
qed

lemma example_lab_chip: "withChip example_defaults example_lab = Inr (example_lab\<lparr>wsp_MentionChipTemplate := DefaultMentionChipTemplate\<rparr>)"
  by (simp add: withChip_def withChips_def example_lab_def new_space_def instanceChip_def example_defaults_def wire_defaults_def
      example_tenancy_def)

lemma example_team_spaces: "workspaces_ok example_team"
proof -
  have "spaces_ok example_team" by code_simp
  then show ?thesis using example_team_ok by (simp add: workspaces_ok_def)
qed

lemma example_ids_ok: "id_ok ''n''" "id_ok ''x''" "id_ok ''y''"
  by code_simp+

lemma example_making_step: "workspace_step example_tenancy example_roles_service example_team example_made"
  by (rule workspace_step.create [OF _ _ _ example_making [unfolded example_defaults_def]]) (simp_all add: example_ids_ok)

text \<open>C8. Whatever sequence of role writes, member writes, resolved invites and workspace writes runs, the tables stay
  well formed: ids of roles and workspaces are unique, no two workspaces share a slug, a workspace has at most one Owner role,
  no membership or holding is there twice, every holding is a member's and of a role of that workspace, every invite
  gives a role of its workspace, and a login has one invite to a workspace.\<close>

theorem workspace_tables_invariant:
  assumes "(workspace_step ts rs)\<^sup>*\<^sup>* st st'" and "tenancy_ok st" and "spaces_ok st"
  shows "tenancy_ok st' \<and> spaces_ok st'"
proof -
  have "workspaces_ok st" using assms(2,3) by (simp add: workspaces_ok_def)
  with assms(1) have "workspaces_ok st'" by (induction rule: rtranclp_induct) (auto dest: workspace_step_ok)
  then show ?thesis by (simp add: workspaces_ok_def)
qed

theorem workspace_tables_invariant_witness: "spaces_ok example_made"
  using workspace_tables_invariant [OF r_into_rtranclp, OF example_making_step] example_team_spaces
  by (simp add: workspaces_ok_def)

text \<open>C6. Whoever is Owner stays Owner: no sequence of role, member and workspace writes and resolved invites takes the Owner role
  from a person who holds it or their membership from them.\<close>

theorem Owner_kept:
  assumes "(workspace_step ts rs)\<^sup>*\<^sup>* st st'" and "tenancy_ok st" and "spaces_ok st" and "(w, u, i) \<in> held_set st"
    and "roleGet st i = Inr r" and "role_IsOwnerRole r"
  shows "(w, u, i) \<in> held_set st' \<and> (w, u) \<in> member_set st' \<and> roleGet st' i = Inr r"
proof -
  have "workspaces_ok st' \<and> (w, u, i) \<in> held_set st' \<and> roleGet st' i = Inr r"
    using assms(1)
  proof (induction rule: rtranclp_induct)
    case base
    then show ?case using assms by (simp add: workspaces_ok_def)
  next
    case (step st1 st2)
    then have IH: "workspaces_ok st1" "tenancy_ok st1" "(w, u, i) \<in> held_set st1" "roleGet st1 i = Inr r"
      by (auto simp: workspaces_ok_def)
    have "workspaces_ok st2" "tenancy_step ts rs st1 st2 \<or> kept st1 st2"
      using workspace_step_ok [OF step(2) IH(1)] by auto
    then show ?case using Owner_step_kept [OF _ IH(2-4) assms(6)] IH(3,4) by (auto simp: kept_def)
  qed
  then show ?thesis using tenancy_ok_member by (auto simp: workspaces_ok_def)
qed

theorem Owner_kept_witness: "(''w'', ''u'', ''o'') \<in> held_set example_made"
proof -
  have "(''w'', ''u'', ''o'') \<in> held_set example_team" by code_simp
  moreover have "roleGet example_team ''o'' = Inr example_own" by code_simp
  ultimately show ?thesis
    using Owner_kept [OF r_into_rtranclp, OF example_making_step] example_team_spaces
    by (auto simp: example_own_def workspaces_ok_def)
qed

text \<open>C20. Creating a workspace makes its creator its Owner and nothing else: only someone who holds workspaces:create makes
  one, it gets an id and a valid slug no other workspace has, its creator is its only member and holds its new Owner
  role, and every other membership, holding, workspace and role stays as it was.\<close>

theorem CreateWorkspace_owner:
  assumes "CreateWorkspace (wire_defaults ts rs newIDs plays automations) c newID newRoleID now st u name = Some (st', Inr w)"
    and "tenancy_ok st" and "id_ok newID" and "id_ok newRoleID" and "\<forall>n. id_ok (newIDs n)"
    and "length (rs_spaces st) < 10 ^ 10"
  shows "tsv_HoldsAnywhere ts c (TrimSpace u) WorkspacesCreate = Inr True \<and> newID \<notin> set (rs_workspaces st) \<and>
    (\<exists>slug. ValidSlug slug \<and> slug \<notin> wsp_Slug ` set (rs_spaces st) \<and>
      rs_spaces st' = rs_spaces st @ [new_space newID (TrimSpace name) slug now]) \<and>
    member_set st' = insert (newID, TrimSpace u) (member_set st) \<and>
    held_set st' = insert (newID, TrimSpace u, newRoleID) (held_set st) \<and>
    (\<exists>x. roleGet st' newRoleID = Inr x \<and> role_IsOwnerRole x \<and> role_WorkspaceID x = newID) \<and>
    (\<forall>i x. roleGet st i = Inr x \<longrightarrow> roleGet st' i = Inr x)"
proof -
  let ?s = "wire_defaults ts rs newIDs plays automations"
  obtain slug st1 where h: "tsv_HoldsAnywhere ?s c (TrimSpace u) WorkspacesCreate = Inr True"
    and f: "freeSlug st (Slugify (TrimSpace name)) = Some (Inr slug)"
    and cr: "spaceCreate st (new_space newID (TrimSpace name) slug now) = Inr st1"
    and b: "bind_owner ?s (create_texts newID) newRoleID now st1 newID (TrimSpace u) = (st', Inr ())"
    using CreateWorkspace_D [OF assms(1)] by auto
  have id: "TrimSpace newID = newID" using assms(3) by (simp add: id_ok_def)
  have slug: "ValidSlug slug" "slug \<notin> wsp_Slug ` set (rs_spaces st)"
    using free_slug [OF assms(6), of "TrimSpace name"] f by auto
  note D = spaceCreate_D [OF cr]
  note same = same_people_reads [OF D(1)]
  note own = bind_owner_ok [OF b same_people_ok [OF D(1) assms(2)] assms(4) id wire_defaults_sel assms(5)]
  have space: "rs_spaces st1 = rs_spaces st @ [new_space newID (TrimSpace name) slug now]"
    using cr by (auto simp: spaceCreate_def stored_space_def storedChip_def new_space_def split: if_splits)
  have "rs_spaces st' = rs_spaces st1" "held_set st \<subseteq> held_set st'" "member_set st \<subseteq> member_set st'"
    "\<forall>i x. roleGet st i = Inr x \<longrightarrow> roleGet st' i = Inr x"
    using own same by (simp_all add: grown_def)
  then show ?thesis using own same D(2) h slug space by (auto simp: wire_defaults_def new_space_def)
qed

theorem CreateWorkspace_owner_witness:
  "(''x'', ''u'', ''y'') \<in> held_set example_made \<and> ''x'' \<notin> set (rs_workspaces example_team)"
proof -
  note made = example_making [unfolded example_lab_chip, unfolded example_defaults_def]
  have len: "length (rs_spaces example_team) < 10 ^ 10" by (simp add: example_team_def example_tables_def)
  have t: "TrimSpace ''u'' = ''u''" by code_simp
  show ?thesis
    using CreateWorkspace_owner [OF made example_team_ok example_ids_ok(2,3) _ len] example_ids_ok(1) t by auto
qed

section \<open>Archiving\<close>

lemma withChip_sel:
  assumes "withChip s w = Inr w'"
  shows "wsp_ID w' = wsp_ID w" "wsp_ArchivedAt w' = wsp_ArchivedAt w"
  using assms by (auto simp: withChip_def withChips_def bindr_Inr_iff split: if_splits)

lemma in_archived: "x \<in> set (rs_archived st) \<longleftrightarrow> (\<exists>row \<in> set (rs_spaces st). wsp_ID row = x \<and> wsp_ArchivedAt row \<noteq> None)"
  by (auto simp: rs_archived_def)

lemma findSomeD: "find p xs = Some x \<Longrightarrow> x \<in> set xs \<and> p x"
  by (auto simp: find_Some_iff)

lemma GetWorkspace_archived:
  assumes "GetWorkspace s st i = Inr cur" "spaces_ok st"
  shows "wsp_ArchivedAt cur \<noteq> None \<longleftrightarrow> i \<in> set (rs_archived st)"
proof -
  obtain w0 where w0: "spaceGet st i = Inr w0" "withChip s w0 = Inr cur"
    using assms(1) by (auto simp: GetWorkspace_def bindr_Inr_iff split: if_splits)
  then obtain row where "row \<in> set (rs_spaces st)" "wsp_ID row = i" "w0 = toWorkspace row"
    by (fastforce simp: spaceGet_def dest: findSomeD split: option.splits)
  then have row: "row \<in> set (rs_spaces st)" "wsp_ID row = i" "wsp_ArchivedAt cur = wsp_ArchivedAt row"
    using withChip_sel(2) [OF w0(2)] by simp_all
  have "a = row" if "a \<in> set (rs_spaces st)" "wsp_ID a = i" for a
    using spaces_okD(1) [OF assms(2)] that row(1,2) by (auto simp: rs_workspaces_def distinct_map dest: inj_onD)
  then show ?thesis unfolding in_archived using row by metis
qed

lemma SetArchived_archived:
  assumes "SetArchived st i at now evs = Inr st'"
  shows "set (rs_archived st') = (if at = None then set (rs_archived st) - {i} else insert i (set (rs_archived st)))"
    "set (rs_workspaces st') = set (rs_workspaces st)"
proof -
  have i: "\<exists>row \<in> set (rs_spaces st). wsp_ID row = i"
    using assms by (auto simp: SetArchived_def list_ex_iff split: if_splits)
  have "x \<in> set (rs_archived st') \<longleftrightarrow> (\<exists>row \<in> set (rs_spaces st). wsp_ID row = x \<and>
      (if x = i then at \<noteq> None else wsp_ArchivedAt row \<noteq> None))" for x
    unfolding in_archived SetArchived_D(3) [OF assms] set_map bex_simps by (rule bex_cong) auto
  then have "x \<in> set (rs_archived st') \<longleftrightarrow> (if x = i then at \<noteq> None else x \<in> set (rs_archived st))" for x
    using i unfolding in_archived by (cases "x = i") (metis, metis)
  then show "set (rs_archived st') = (if at = None then set (rs_archived st) - {i} else insert i (set (rs_archived st)))"
    by (cases at) (simp_all add: set_eq_iff)
  show "set (rs_workspaces st') = set (rs_workspaces st)"
    using SetArchived_D(3) [OF assms] by (auto simp: rs_workspaces_def image_iff)
qed

lemma ArchiveWorkspace_D:
  assumes "ArchiveWorkspace s c now st actor i = Inr (st', w)" "TrimSpace i \<notin> set (rs_archived st)" "spaces_ok st"
  shows "\<exists>evs. SetArchived st (TrimSpace i) (Some now) now evs = Inr st'"
proof -
  have a: "set_archived s now st actor (TrimSpace i) True = Inr (st', w)"
    using assms(1) by (auto simp: ArchiveWorkspace_def Let_def bindr_Inr_iff split: if_splits)
  then obtain cur where cur: "GetWorkspace s st (TrimSpace i) = Inr cur" by (auto simp: set_archived_def bindr_Inr_iff)
  then have "wsp_ArchivedAt cur = None" using GetWorkspace_archived [OF cur assms(3)] assms(2) by simp
  then show ?thesis using a cur by (auto simp: set_archived_def Let_def bindr_Inr_iff)
qed

lemma RestoreWorkspace_D:
  assumes "RestoreWorkspace s c now st actor i = Inr (st', w)" "TrimSpace i \<in> set (rs_archived st)" "spaces_ok st"
  shows "\<exists>evs. SetArchived st (TrimSpace i) None now evs = Inr st'"
proof -
  have a: "set_archived s now st actor (TrimSpace i) False = Inr (st', w)"
    using assms(1) by (auto simp: RestoreWorkspace_def bindr_Inr_iff)
  then obtain cur where cur: "GetWorkspace s st (TrimSpace i) = Inr cur" by (auto simp: set_archived_def bindr_Inr_iff)
  then have "wsp_ArchivedAt cur \<noteq> None" using GetWorkspace_archived [OF cur assms(3)] assms(2) by simp
  then show ?thesis using a cur by (auto simp: set_archived_def Let_def bindr_Inr_iff)
qed

lemma live_member_same: "same_people st st' \<Longrightarrow> set (rs_workspaces st') = set (rs_workspaces st) \<Longrightarrow>
    live_member st' w u \<longleftrightarrow> (w, u) \<in> set (db_members (rs_db st)) \<and> w \<in> set (rs_workspaces st) \<and> w \<notin> set (rs_archived st')"
  by (simp add: live_member_def same_people_def)

text \<open>C25. An archived workspace is nobody's until it is restored, and restoring it gives everyone back what they had: while it
  is archived no member of it is found and every other membership reads the same, and after the restore every
  membership reads as before.\<close>

theorem Archive_Restore:
  assumes "ArchiveWorkspace s c now st actor i = Inr (st1, w1)" and "TrimSpace i \<notin> set (rs_archived st)" and "spaces_ok st"
    and "RestoreWorkspace s' c' now' st1 actor' i = Inr (st2, w2)"
  shows "(\<forall>u. \<not> okr (memberGet st1 (TrimSpace i) u)) \<and>
    (\<forall>w u. w \<noteq> TrimSpace i \<longrightarrow> memberGet st1 w u = memberGet st w u) \<and>
    memberGet st2 = memberGet st"
proof -
  let ?i = "TrimSpace i"
  obtain evs where a: "SetArchived st ?i (Some now) now evs = Inr st1" using ArchiveWorkspace_D [OF assms(1-3)] by blast
  note A = SetArchived_D(1,2) [OF a] SetArchived_archived [OF a]
  have "spaces_ok st1" "?i \<in> set (rs_archived st1)" using A assms(3) by simp_all
  then obtain evs' where b: "SetArchived st1 ?i None now' evs' = Inr st2" using RestoreWorkspace_D [OF assms(4)] by blast
  note B = SetArchived_D(1) [OF b] SetArchived_archived [OF b]
  have AB: "same_people st st2" using A(1,4) B(1,3) by (simp add: same_people_def)
  have one: "live_member st1 w u \<longleftrightarrow> w \<noteq> ?i \<and> live_member st w u" for w u
    using live_member_same [OF A(1,4)] A(3) by (auto simp: live_member_def)
  have two: "live_member st2 w u \<longleftrightarrow> live_member st w u" for w u
    using live_member_same [OF AB] A(3,4) B(2,3) assms(2) by (auto simp: live_member_def)
  have "memberGet st1 w u = memberGet st w u" if "w \<noteq> ?i" for w u
    using same_people_reads(4) [OF A(1), of w u] one that by auto
  moreover have "memberGet st2 w u = memberGet st w u" for w u using same_people_reads(4) [OF AB, of w u] two by auto
  moreover have "\<not> okr (memberGet st1 ?i u)" for u using one by (simp add: memberGet_def)
  ultimately show ?thesis by (simp add: fun_eq_iff)
qed

definition example_gate :: Tenancy_Service where
  "example_gate = example_tenancy\<lparr>tsv_wsPerms := \<lparr>pg_WorkspacePermissions = (\<lambda>_ _ _. [WorkspacesDelete]),
     pg_GrantablePermissions = (\<lambda>_ _ _. [])\<rparr>\<rparr>"

definition example_archived :: "role_store \<times> Workspace" where
  "example_archived = ok_value (example_team, example_space) (ArchiveWorkspace example_gate background 8 example_team ''u'' ''w'')"

definition example_restored :: "role_store \<times> Workspace" where
  "example_restored = ok_value (example_team, example_space)
     (RestoreWorkspace example_gate background 9 (fst example_archived) ''u'' ''w'')"

theorem Archive_Restore_witness:
  "\<not> okr (memberGet (fst example_archived) ''w'' ''u'') \<and> memberGet (fst example_restored) ''w'' ''u'' = memberGet example_team ''w'' ''u''"
proof -
  have a: "ArchiveWorkspace example_gate background 8 example_team ''u'' ''w'' = Inr (fst example_archived, snd example_archived)"
    unfolding example_archived_def prod.collapse by (rule is_ok_value) code_simp
  have b: "RestoreWorkspace example_gate background 9 (fst example_archived) ''u'' ''w'' = Inr (fst example_restored, snd example_restored)"
    unfolding example_restored_def prod.collapse by (rule is_ok_value) code_simp
  have t: "TrimSpace ''w'' = ''w''" "''w'' \<notin> set (rs_archived example_team)" "spaces_ok example_team" by code_simp+
  show ?thesis using Archive_Restore [OF a _ t(3) b] t by auto
qed

end
