(* ===== verification/Invitations.thy ===== *)
theory Invitations
  imports Tenancy_Spaces Access_Grid
begin

text \<open>
  Invitations by link as the server stores them (\<^verbatim>\<open>internal/platform/storage/invitations_repo.go\<close>): a link gives roles in
  workspaces, the creator's authority over its package is checked when it is made, read, listed and redeemed, and a
  redemption makes an account with its identity, memberships and roles in one transaction.
\<close>

section \<open>Invitations and what they give\<close>

record ProjectAccess =
  pa_ProjectID :: string
  pa_ProjectName :: string
  pa_Allow :: pset

record InvitationGrant =
  ig_WorkspaceID :: string
  ig_WorkspaceName :: string
  ig_RoleID :: string
  ig_RoleName :: string
  ig_RoleIDs :: "string list"
  ig_Roles :: "TeamRole list"
  ig_Allow :: pset
  ig_Deny :: pset
  ig_EveryProject :: string
  ig_ProjectAccess :: "ProjectAccess list"

text \<open>A grant of an invitation sent by a client may be null.\<close>

record Invitation =
  ivn_ID :: string
  ivn_InvitedBy :: string
  ivn_CreatedAt :: time
  ivn_ExpiresAt :: time
  ivn_RedeemedAt :: "time option"
  ivn_RedeemedBy :: string
  ivn_Grants :: "InvitationGrant option list"

record InvitationIdentity =
  ii_ID :: string
  ii_Provider :: string
  ii_ProviderUserID :: string
  ii_Login :: string
  ii_Name :: string
  ii_AvatarURL :: string

record InvitationAdmission =
  iad_UserID :: string
  iad_Created :: bool

definition grantHeld :: "InvitationGrant \<Rightarrow> string list" where
  "grantHeld g = (if ig_RoleIDs g = [] \<and> ig_RoleID g \<noteq> [] then [ig_RoleID g] else ig_RoleIDs g)"

definition RefusePerPersonAccess :: "pset \<Rightarrow> pset \<Rightarrow> string \<Rightarrow> nat \<Rightarrow> unit res" where
  "RefusePerPersonAccess allow deny everyProject projectAccess =
     (if allow \<noteq> [] \<or> deny \<noteq> []
      then Inl (errorf ErrInvalid ''per-person allow and deny are gone; give the person a role that holds it, or set a rule on the project, doc or play'')
      else if everyProject \<noteq> [] \<or> projectAccess > 0
      then Inl (errorf ErrInvalid ''every_project and project_access are gone; list the person, or a role they hold, on each project they should be in'')
      else Inr ())"

record InvitationEvent =
  ie_InvitationID :: string
  ie_ActorID :: string
  ie_UserID :: string
  ie_WorkspaceID :: string
  ie_Reason :: string
  ie_RoleIDsAdded :: "string list"

definition invitation_event :: "string \<Rightarrow> InvitationEvent" where
  "invitation_event i = \<lparr>ie_InvitationID = i, ie_ActorID = [], ie_UserID = [], ie_WorkspaceID = [], ie_Reason = [], ie_RoleIDsAdded = []\<rparr>"

datatype invitation_outbox =
    TopicInvitationCreated InvitationEvent
  | TopicInvitationRevoked InvitationEvent
  | TopicInvitationRedeemed InvitationEvent
  | TopicInvitationDeleted InvitationEvent
  | TopicAccountAdmitted InvitationEvent
  | TopicInvitedMemberAdded InvitationEvent

section \<open>Tables\<close>

text \<open>The tables beside those of roles and members: links, what each gives, the sign-ins under way, and the accounts
  with their identities and the tickets that name them.  Times are seconds, as the columns hold them.\<close>

record invitation_row =
  ir_ID :: string
  ir_TokenHash :: string
  ir_InvitedBy :: string
  ir_CreatedAt :: time
  ir_ExpiresAt :: time
  ir_RedeemedAt :: "time option"
  ir_RedeemedBy :: "string option"

record handoff_row =
  ho_ID :: string
  ho_InvitationID :: string
  ho_OAuthStateHash :: "string option"
  ho_AcceptanceHash :: "string option"
  ho_Provider :: string
  ho_ProviderUserID :: "string option"
  ho_Login :: "string option"
  ho_Name :: "string option"
  ho_AvatarURL :: "string option"
  ho_ExistingUserID :: "string option"
  ho_AdmittedUserID :: "string option"
  ho_CompletedAt :: "time option"
  ho_CreatedAt :: time
  ho_ExpiresAt :: time

record user_row =
  us_ID :: string
  us_Login :: string
  us_Name :: string
  us_AvatarURL :: string
  us_CreatedAt :: time
  us_UpdatedAt :: time

record identity_row =
  ui_UserID :: string
  ui_Provider :: string
  ui_ProviderUserID :: string
  ui_Login :: string
  ui_Name :: string
  ui_Username :: string
  ui_AvatarURL :: string
  ui_CreatedAt :: time

record ticket_people =
  tp_ID :: string
  tp_Developer :: string
  tp_Tester :: string

record link_store =
  ls_st :: role_store
  ls_invitations :: "invitation_row list"
  ls_grants :: "(string \<times> string \<times> string) list"
  ls_handoffs :: "handoff_row list"
  ls_users :: "user_row list"
  ls_identities :: "identity_row list"
  ls_tickets :: "ticket_people list"
  ls_projects :: "project_row list"
  ls_outbox :: "invitation_outbox list"

definition invalidInvitation :: err where
  "invalidInvitation = errorf ErrNotFound ''invitation is invalid or expired''"

definition hex_digit :: "char \<Rightarrow> bool" where
  "hex_digit r \<longleftrightarrow> (let n = of_char r :: nat in
     (48 \<le> n \<and> n \<le> 57) \<or> (97 \<le> n \<and> n \<le> 102) \<or> (65 \<le> n \<and> n \<le> 70))"

definition validTokenHash :: "string \<Rightarrow> bool" where
  "validTokenHash h \<longleftrightarrow> length h = 64 \<and> list_all hex_digit h"

abbreviation (input) day :: time where "day \<equiv> 24 * 60 * 60"

definition validInvitationLifetime :: "time \<Rightarrow> time \<Rightarrow> bool" where
  "validInvitationLifetime createdAt expiresAt \<longleftrightarrow>
     (let duration = expiresAt - createdAt in duration = day \<or> duration = 7 * day)"

section \<open>Reading a link\<close>

definition GetInvitationByID :: "link_store \<Rightarrow> string \<Rightarrow> invitation_row option" where
  "GetInvitationByID ls i = find (\<lambda>r. ir_ID r = i) (ls_invitations ls)"

definition GetInvitationByTokenHash :: "link_store \<Rightarrow> string \<Rightarrow> invitation_row option" where
  "GetInvitationByTokenHash ls h = find (\<lambda>r. ir_TokenHash r = h) (ls_invitations ls)"

definition GetOAuthHandoffByAcceptanceHash :: "link_store \<Rightarrow> string \<Rightarrow> handoff_row option" where
  "GetOAuthHandoffByAcceptanceHash ls h = find (\<lambda>r. ho_AcceptanceHash r = Some h) (ls_handoffs ls)"

definition GetRoleForInvitationGrant :: "role_store \<Rightarrow> string \<Rightarrow> string \<Rightarrow> Role option" where
  "GetRoleForInvitationGrant st i workspaceID =
     find (\<lambda>r. role_ID r = i \<and> role_WorkspaceID r = workspaceID) (rs_roles st)"

definition GetWorkspaceForInvitationGrant :: "role_store \<Rightarrow> string \<Rightarrow> Workspace option" where
  "GetWorkspaceForInvitationGrant st i = find (\<lambda>w. wsp_ID w = i) (rs_spaces st)"

text \<open>ORDER BY workspace_id, role_id.\<close>

definition ListInvitationGrantsByInvitation :: "link_store \<Rightarrow> string \<Rightarrow> (string \<times> string) list" where
  "ListInvitationGrantsByInvitation ls i =
     sort_key fst (sort_key snd (map snd (filter (\<lambda>g. fst g = i) (ls_grants ls))))"

definition invitationHeader :: "invitation_row \<Rightarrow> Invitation" where
  "invitationHeader row =
     \<lparr>ivn_ID = ir_ID row, ivn_InvitedBy = ir_InvitedBy row, ivn_CreatedAt = ir_CreatedAt row,
      ivn_ExpiresAt = ir_ExpiresAt row, ivn_RedeemedAt = ir_RedeemedAt row,
      ivn_RedeemedBy = null_text (ir_RedeemedBy row), ivn_Grants = []\<rparr>"

text \<open>The loop over the rows of grants: a row of the workspace of the last grant adds its role there.\<close>

fun readGrants :: "role_store \<Rightarrow> InvitationGrant list \<Rightarrow> (string \<times> string) list \<Rightarrow> InvitationGrant list res" where
  "readGrants st grants [] = Inr grants"
| "readGrants st grants ((w, i) # rows) =
     (case GetRoleForInvitationGrant st i w of
        None \<Rightarrow> Inl (errorf ErrInvalid ''invitation role is unavailable'')
      | Some role \<Rightarrow>
          (let held = \<lparr>tr_ID = role_ID role, tr_Name = role_Name role, tr_Description = role_Description role,
                       tr_IsOwner = role_IsOwnerRole role\<rparr>
           in if grants \<noteq> [] \<and> ig_WorkspaceID (last grants) = w
              then readGrants st (butlast grants @
                     [(last grants)\<lparr>ig_RoleIDs := ig_RoleIDs (last grants) @ [i], ig_Roles := ig_Roles (last grants) @ [held]\<rparr>]) rows
              else case GetWorkspaceForInvitationGrant st w of
                     None \<Rightarrow> Inl (errorf ErrInvalid ''invitation workspace is unavailable'')
                   | Some space \<Rightarrow>
                       readGrants st (grants @
                         [\<lparr>ig_WorkspaceID = w, ig_WorkspaceName = wsp_Name space, ig_RoleID = i, ig_RoleName = role_Name role,
                           ig_RoleIDs = [i], ig_Roles = [held], ig_Allow = [], ig_Deny = [], ig_EveryProject = [],
                           ig_ProjectAccess = []\<rparr>]) rows))"

definition readInvitation :: "link_store \<Rightarrow> invitation_row \<Rightarrow> Invitation res" where
  "readInvitation ls row =
     bindr (readGrants (ls_st ls) [] (ListInvitationGrantsByInvitation ls (ir_ID row))) (\<lambda>grants.
     Inr ((invitationHeader row)\<lparr>ivn_Grants := map Some grants\<rparr>))"

section \<open>The creator's authority\<close>

record workspaceAccess =
  wa_member :: bool
  wa_owner :: bool
  wa_held :: pset

text \<open>A member's roles as a left join gives them: the flag and the permissions of each, one empty row with none.\<close>

definition ListInvitationCreatorWorkspaceAccess :: "role_store \<Rightarrow> string \<Rightarrow> string \<Rightarrow> (bool \<times> string list) list" where
  "ListInvitationCreatorWorkspaceAccess st workspaceID userID =
     (if (workspaceID, userID) \<notin> set (db_members (rs_db st)) then []
      else let given = filter (\<lambda>m. mr_workspace m = workspaceID \<and> mr_user m = userID) (db_member_roles (rs_db st))
           in if given = [] then [(False, [])]
              else map (\<lambda>m. case find (\<lambda>r. role_ID r = mr_role m) (rs_roles st) of
                             None \<Rightarrow> (False, [])
                           | Some r \<Rightarrow> (role_IsOwnerRole r, role_Permissions r)) given)"

fun creatorRoles :: "pset \<Rightarrow> (bool \<times> string list) list \<Rightarrow> workspaceAccess" where
  "creatorRoles held [] = \<lparr>wa_member = True, wa_owner = False, wa_held = held\<rparr>"
| "creatorRoles held ((owner, perms) # rows) =
     (if owner then \<lparr>wa_member = True, wa_owner = True, wa_held = []\<rparr>
      else creatorRoles (SetOf (held @ parseSet perms)) rows)"

definition creatorAccess :: "role_store \<Rightarrow> string \<Rightarrow> string \<Rightarrow> workspaceAccess" where
  "creatorAccess st actorID workspaceID =
     (let rows = ListInvitationCreatorWorkspaceAccess st workspaceID actorID
      in if rows = [] then \<lparr>wa_member = False, wa_owner = False, wa_held = []\<rparr> else creatorRoles [] rows)"

fun actorCanManage :: "role_store \<Rightarrow> string \<Rightarrow> InvitationGrant list \<Rightarrow> bool" where
  "actorCanManage st actorID [] = True"
| "actorCanManage st actorID (g # grants) =
     (let acc = creatorAccess st actorID (ig_WorkspaceID g)
      in if \<not> wa_member acc \<or> (\<not> wa_owner acc \<and> \<not> Has (wa_held acc) MembersWrite) then False
         else actorCanManage st actorID grants)"

fun grantActions_loop :: "role_store \<Rightarrow> string \<Rightarrow> pset \<Rightarrow> string list \<Rightarrow> pset res" where
  "grantActions_loop st workspaceID actions [] = Inr actions"
| "grantActions_loop st workspaceID actions (i # is) =
     (case GetRoleForInvitationGrant st i workspaceID of
        None \<Rightarrow> Inl (errorf ErrInvalid ''role is unavailable'')
      | Some role \<Rightarrow>
          if role_IsOwnerRole role then Inl (errorf ErrInvalid ''Owner cannot be perWorkspace by invitation'')
          else grantActions_loop st workspaceID (SetOf (actions @ parseSet (role_Permissions role))) is)"

definition invitationGrantActions :: "role_store \<Rightarrow> InvitationGrant \<Rightarrow> pset res" where
  "invitationGrantActions st g =
     (case GetWorkspaceForInvitationGrant st (ig_WorkspaceID g) of
        None \<Rightarrow> Inl (errorf ErrInvalid ''workspace is unavailable'')
      | Some _ \<Rightarrow> grantActions_loop st (ig_WorkspaceID g) [] (grantHeld g))"

text \<open>The first loop over a package: each grant is complete, of a workspace of its own, and of roles that exist; the
  actions of each workspace are collected, the newest first.\<close>

fun packageActions :: "role_store \<Rightarrow> (string \<times> pset) list \<Rightarrow> InvitationGrant option list \<Rightarrow> (string \<times> pset) list res" where
  "packageActions st perWorkspace [] = Inr perWorkspace"
| "packageActions st perWorkspace (None # grants) = Inl (errorf ErrInvalid ''invitation grant is incomplete'')"
| "packageActions st perWorkspace (Some g # grants) =
     (if ig_WorkspaceID g = [] \<or> grantHeld g = [] then Inl (errorf ErrInvalid ''invitation grant is incomplete'')
      else if ig_WorkspaceID g \<in> set (map fst perWorkspace) then Inl (errorf ErrInvalid ''invitation contains duplicate workspaces'')
      else bindr (invitationGrantActions st g) (\<lambda>actions.
           packageActions st ((ig_WorkspaceID g, actions) # perWorkspace) grants))"

fun packageHeld :: "role_store \<Rightarrow> string \<Rightarrow> (string \<times> pset) list \<Rightarrow> InvitationGrant list \<Rightarrow> unit res" where
  "packageHeld st actorID perWorkspace [] = Inr ()"
| "packageHeld st actorID perWorkspace (g # grants) =
     (let acc = creatorAccess st actorID (ig_WorkspaceID g)
      in if wa_owner acc then packageHeld st actorID perWorkspace grants
         else bindr (RequireHeld (case map_of perWorkspace (ig_WorkspaceID g) of None \<Rightarrow> [] | Some a \<Rightarrow> a) (wa_held acc))
                (\<lambda>_. packageHeld st actorID perWorkspace grants))"

text \<open>The grants of an invitation that are not null.\<close>

definition somes :: "'a option list \<Rightarrow> 'a list" where
  "somes xs = List.map_filter (\<lambda>x. x) xs"

definition validateInvitationPackage :: "role_store \<Rightarrow> Invitation \<Rightarrow> string \<Rightarrow> unit res" where
  "validateInvitationPackage st invitation actorID =
     (if ivn_Grants invitation = [] then Inl (errorf ErrInvalid ''invitation has no grants'')
      else bindr (packageActions st [] (ivn_Grants invitation)) (\<lambda>perWorkspace.
           if \<not> actorCanManage st actorID (somes (ivn_Grants invitation))
           then Inl (errorf ErrForbidden ''members:write required in every invited workspace'')
           else packageHeld st actorID perWorkspace (somes (ivn_Grants invitation))))"

section \<open>Writing links\<close>

text \<open>Each is a transaction: an error leaves the tables as they were.  A unique key or a reference that fails is a conflict.\<close>

definition enqueueInvitationEvents :: "invitation_outbox list \<Rightarrow> link_store \<Rightarrow> link_store" where
  "enqueueInvitationEvents events ls = ls\<lparr>ls_outbox := ls_outbox ls @ events\<rparr>"

definition insertInvitation :: "link_store \<Rightarrow> Invitation \<Rightarrow> string \<Rightarrow> link_store res" where
  "insertInvitation ls invitation tokenHash =
     (if ivn_ID invitation \<in> set (map ir_ID (ls_invitations ls)) \<or> tokenHash \<in> set (map ir_TokenHash (ls_invitations ls)) \<or>
         ivn_InvitedBy invitation \<notin> set (db_users (rs_db (ls_st ls)))
      then Inl (sentinel_err ErrConflict)
      else Inr (ls\<lparr>ls_invitations := ls_invitations ls @
             [\<lparr>ir_ID = ivn_ID invitation, ir_TokenHash = tokenHash, ir_InvitedBy = ivn_InvitedBy invitation,
               ir_CreatedAt = ivn_CreatedAt invitation, ir_ExpiresAt = ivn_ExpiresAt invitation, ir_RedeemedAt = None,
               ir_RedeemedBy = None\<rparr>]\<rparr>))"

fun insertGrants :: "string \<Rightarrow> (string \<times> string) list \<Rightarrow> link_store \<Rightarrow> link_store res" where
  "insertGrants i [] ls = Inr ls"
| "insertGrants i ((w, r) # rows) ls =
     (if (i, w, r) \<in> set (ls_grants ls) \<or> i \<notin> set (map ir_ID (ls_invitations ls))
      then Inl (wrapf (''create invitation grant '' @ i @ ''/'' @ w) (sentinel_err ErrConflict))
      else insertGrants i rows (ls\<lparr>ls_grants := ls_grants ls @ [(i, w, r)]\<rparr>))"

definition grant_rows :: "InvitationGrant list \<Rightarrow> (string \<times> string) list" where
  "grant_rows grants = concat (map (\<lambda>g. map (Pair (ig_WorkspaceID g)) (grantHeld g)) grants)"

definition invitationCreate :: "link_store \<Rightarrow> Invitation \<Rightarrow> string \<Rightarrow> invitation_outbox list \<Rightarrow> link_store res" where
  "invitationCreate ls invitation tokenHash events =
     (if ivn_ID invitation = [] \<or> ivn_InvitedBy invitation = [] \<or> \<not> validTokenHash tokenHash \<or>
         \<not> validInvitationLifetime (ivn_CreatedAt invitation) (ivn_ExpiresAt invitation)
      then Inl (errorf ErrInvalid ''invitation fields are required'')
      else bindr (validateInvitationPackage (ls_st ls) invitation (ivn_InvitedBy invitation)) (\<lambda>_.
           bindr (map_errr (wrapf (''create invitation '' @ ivn_ID invitation)) (insertInvitation ls invitation tokenHash)) (\<lambda>ls.
           bindr (insertGrants (ivn_ID invitation) (grant_rows (somes (ivn_Grants invitation))) ls) (\<lambda>ls.
           Inr (enqueueInvitationEvents events ls)))))"

definition put_invitation :: "string \<Rightarrow> (invitation_row \<Rightarrow> invitation_row) \<Rightarrow> link_store \<Rightarrow> link_store" where
  "put_invitation i f ls = ls\<lparr>ls_invitations := map (\<lambda>r. if ir_ID r = i then f r else r) (ls_invitations ls)\<rparr>"

text \<open>\<^verbatim>\<open>redeemed_at IS NULL AND expires_at > now\<close>.\<close>

definition link_open :: "time \<Rightarrow> invitation_row \<Rightarrow> bool" where
  "link_open now r \<longleftrightarrow> ir_RedeemedAt r = None \<and> ir_ExpiresAt r > now"

definition EndInvitation :: "time \<Rightarrow> string \<Rightarrow> link_store \<Rightarrow> link_store" where
  "EndInvitation now i ls = put_invitation i (\<lambda>r. if link_open now r then r\<lparr>ir_ExpiresAt := now\<rparr> else r) ls"

definition endInvitation :: "string \<Rightarrow> string \<Rightarrow> time \<Rightarrow> link_store \<Rightarrow> link_store" where
  "endInvitation i reason now ls =
     (if \<not> list_ex (\<lambda>r. ir_ID r = i \<and> link_open now r) (ls_invitations ls) then ls
      else enqueueInvitationEvents [TopicInvitationDeleted ((invitation_event i)\<lparr>ie_Reason := reason\<rparr>)] (EndInvitation now i ls))"

definition authority_gone :: string where
  "authority_gone = ''creator authority or grant invalid''"

definition GetByTokenHash :: "link_store \<Rightarrow> string \<Rightarrow> time \<Rightarrow> link_store \<times> Invitation res" where
  "GetByTokenHash ls h now =
     (if \<not> validTokenHash h then (ls, Inl invalidInvitation)
      else case GetInvitationByTokenHash ls h of
        None \<Rightarrow> (ls, Inl invalidInvitation)
      | Some row \<Rightarrow>
          if ir_RedeemedAt row \<noteq> None then (ls, Inl invalidInvitation)
          else case readInvitation ls row of
            Inl e \<Rightarrow>
              if errors_is e ErrInvalid then (endInvitation (ir_ID row) ''invalid grant'' now ls, Inl invalidInvitation)
              else (ls, Inl e)
          | Inr candidate \<Rightarrow>
              if \<not> now < ivn_ExpiresAt candidate then (ls, Inl invalidInvitation)
              else case validateInvitationPackage (ls_st ls) candidate (ivn_InvitedBy candidate) of
                Inl _ \<Rightarrow> (endInvitation (ivn_ID candidate) authority_gone now ls, Inl invalidInvitation)
              | Inr _ \<Rightarrow> (ls, Inr candidate))"

definition GetByAcceptanceHash :: "link_store \<Rightarrow> string \<Rightarrow> time \<Rightarrow> Invitation res" where
  "GetByAcceptanceHash ls h now =
     (if \<not> validTokenHash h then Inl invalidInvitation
      else case GetOAuthHandoffByAcceptanceHash ls h of
        None \<Rightarrow> Inl invalidInvitation
      | Some handoff \<Rightarrow>
          if ho_ExpiresAt handoff \<le> now \<or> ho_CompletedAt handoff \<noteq> None then Inl invalidInvitation
          else case GetInvitationByID ls (ho_InvitationID handoff) of
            None \<Rightarrow> Inl invalidInvitation
          | Some row \<Rightarrow>
              if ir_RedeemedAt row \<noteq> None \<or> ir_ExpiresAt row \<le> now then Inl invalidInvitation
              else case readInvitation ls row of
                Inl e \<Rightarrow> if errors_is e ErrInvalid then Inl invalidInvitation else Inl e
              | Inr invitation \<Rightarrow> Inr invitation)"

section \<open>Managing links\<close>

abbreviation (input) maxInvitationList :: nat where "maxInvitationList \<equiv> 100"

text \<open>No grant of the link is in a workspace where the person has neither an Owner role nor one with members:write.\<close>

definition manages_link :: "link_store \<Rightarrow> string \<Rightarrow> string \<Rightarrow> bool" where
  "manages_link ls userID i \<longleftrightarrow>
     \<not> list_ex (\<lambda>g. fst g = i \<and>
          \<not> list_ex (\<lambda>m. mr_workspace m = fst (snd g) \<and> mr_user m = userID \<and>
               list_ex (\<lambda>r. role_ID r = mr_role m \<and> (role_IsOwnerRole r \<or> MembersWrite \<in> set (role_Permissions r)))
                 (rs_roles (ls_st ls)))
             (db_member_roles (rs_db (ls_st ls))))
        (ls_grants ls)"

definition ListManageableInvitationHeaders :: "link_store \<Rightarrow> string \<Rightarrow> time \<Rightarrow> nat \<Rightarrow> invitation_row list" where
  "ListManageableInvitationHeaders ls userID now limit =
     take limit (sort_key ir_CreatedAt (sort_key ir_ID
       (filter (\<lambda>r. link_open now r \<and> manages_link ls userID (ir_ID r)) (ls_invitations ls))))"

fun listLinks :: "time \<Rightarrow> invitation_row list \<Rightarrow> link_store \<Rightarrow> link_store \<times> Invitation list res" where
  "listLinks now [] ls = (ls, Inr [])"
| "listLinks now (row # rows) ls =
     (if ir_RedeemedAt row \<noteq> None then listLinks now rows ls
      else case readInvitation ls row of
        Inl e \<Rightarrow>
          if errors_is e ErrInvalid then listLinks now rows (endInvitation (ir_ID row) ''invalid grant'' now ls)
          else (ls, Inl e)
      | Inr invitation \<Rightarrow>
          (case validateInvitationPackage (ls_st ls) invitation (ivn_InvitedBy invitation) of
             Inl _ \<Rightarrow> listLinks now rows (endInvitation (ivn_ID invitation) authority_gone now ls)
           | Inr _ \<Rightarrow>
               (case listLinks now rows ls of
                  (ls', Inl e) \<Rightarrow> (ls', Inl e)
                | (ls', Inr rest) \<Rightarrow> (ls', Inr (invitation # rest)))))"

text \<open>A failed transaction keeps nothing of its writes.\<close>

definition ListOpen :: "link_store \<Rightarrow> string \<Rightarrow> time \<Rightarrow> link_store \<times> Invitation list res" where
  "ListOpen ls actorID now =
     (if actorID = [] then (ls, Inl (errorf ErrInvalid ''actor is required''))
      else case listLinks now (ListManageableInvitationHeaders ls actorID now maxInvitationList) ls of
        (_, Inl e) \<Rightarrow> (ls, Inl e)
      | (ls', Inr invitations) \<Rightarrow> (ls', Inr invitations))"

text \<open>ORDER BY COALESCE(redeemed_at, expires_at) DESC, id.\<close>

definition ListManageableInvitationHistory :: "link_store \<Rightarrow> string \<Rightarrow> time \<Rightarrow> time \<Rightarrow> nat \<Rightarrow> invitation_row list" where
  "ListManageableInvitationHistory ls userID since now limit =
     take limit (sort_key (\<lambda>r. - (case ir_RedeemedAt r of None \<Rightarrow> ir_ExpiresAt r | Some at \<Rightarrow> at)) (sort_key ir_ID
       (filter (\<lambda>r. (case ir_RedeemedAt r of
                        None \<Rightarrow> ir_ExpiresAt r > since \<and> ir_ExpiresAt r \<le> now
                      | Some at \<Rightarrow> at > since) \<and>
                    list_ex (\<lambda>g. fst g = ir_ID r) (ls_grants ls) \<and> manages_link ls userID (ir_ID r))
         (ls_invitations ls))))"

fun historyLinks :: "link_store \<Rightarrow> invitation_row list \<Rightarrow> (Invitation list \<times> Invitation list) res" where
  "historyLinks ls [] = Inr ([], [])"
| "historyLinks ls (row # rows) =
     bindr (case readInvitation ls row of
              Inl e \<Rightarrow> if errors_is e ErrInvalid then Inr (invitationHeader row) else Inl e
            | Inr invitation \<Rightarrow> Inr invitation) (\<lambda>invitation.
     bindr (historyLinks ls rows) (\<lambda>(accepted, ended).
     if ivn_RedeemedAt invitation \<noteq> None then Inr (invitation # accepted, ended)
     else Inr (accepted, invitation # ended)))"

definition invitationHistory :: "link_store \<Rightarrow> string \<Rightarrow> time \<Rightarrow> time \<Rightarrow> (Invitation list \<times> Invitation list) res" where
  "invitationHistory ls actorID since now =
     historyLinks ls (ListManageableInvitationHistory ls actorID since now maxInvitationList)"

text \<open>GROUP BY redeemed_by with MIN(redeemed_at): the columns beside a minimum are those of its row.\<close>

definition redeemed_at :: "invitation_row \<Rightarrow> time" where
  "redeemed_at r = (case ir_RedeemedAt r of None \<Rightarrow> 0 | Some at \<Rightarrow> at)"

definition Joins :: "link_store \<Rightarrow> Joined gomap" where
  "Joins ls =
     (let rows = filter (\<lambda>r. ir_RedeemedBy r \<noteq> None \<and> ir_RedeemedAt r \<noteq> None) (ls_invitations ls)
      in map (\<lambda>u. (u, let r = hd (sort_key redeemed_at (filter (\<lambda>r. null_text (ir_RedeemedBy r) = u) rows))
                      in \<lparr>jo_InvitedBy = ir_InvitedBy r, jo_AcceptedAt = redeemed_at r\<rparr>))
           (remdups (map (\<lambda>r. null_text (ir_RedeemedBy r)) rows)))"

definition requireInvitationManager :: "link_store \<Rightarrow> string \<Rightarrow> string \<Rightarrow> unit res" where
  "requireInvitationManager ls actorID i =
     (let grants = map (\<lambda>(w, r). \<lparr>ig_WorkspaceID = w, ig_WorkspaceName = [], ig_RoleID = r, ig_RoleName = [], ig_RoleIDs = [],
                            ig_Roles = [], ig_Allow = [], ig_Deny = [], ig_EveryProject = [], ig_ProjectAccess = []\<rparr>)
                      (ListInvitationGrantsByInvitation ls i)
      in if grants = [] \<or> \<not> actorCanManage (ls_st ls) actorID grants
         then Inl (errorf ErrForbidden ''members:write required in every invited workspace'')
         else Inr ())"

definition revokeInvitationRow :: "link_store \<Rightarrow> invitation_row \<Rightarrow> time \<Rightarrow> invitation_outbox list \<Rightarrow> link_store res" where
  "revokeInvitationRow ls row now events =
     (if ir_RedeemedAt row \<noteq> None \<or> ir_ExpiresAt row \<le> now then Inl (sentinel_err ErrNotFound)
      else case readInvitation ls row of
        Inl e \<Rightarrow> if errors_is e ErrInvalid then Inr (endInvitation (ir_ID row) ''invalid grant'' now ls) else Inl e
      | Inr invitation \<Rightarrow>
          (case validateInvitationPackage (ls_st ls) invitation (ivn_InvitedBy invitation) of
             Inl _ \<Rightarrow> Inr (endInvitation (ir_ID row) authority_gone now ls)
           | Inr _ \<Rightarrow> Inr (enqueueInvitationEvents events (EndInvitation now (ir_ID row) ls))))"

definition invitationRevoke :: "link_store \<Rightarrow> string \<Rightarrow> string \<Rightarrow> time \<Rightarrow> invitation_outbox list \<Rightarrow> link_store res" where
  "invitationRevoke ls actorID i now events =
     (if actorID = [] \<or> i = [] then Inl (errorf ErrInvalid ''actor and invitation are required'')
      else case GetInvitationByID ls i of
        None \<Rightarrow> Inl (sentinel_err ErrNotFound)
      | Some row \<Rightarrow>
          bindr (requireInvitationManager ls actorID i) (\<lambda>_. revokeInvitationRow ls row now events))"

text \<open>The projects whose rules let one of the roles in: SELECT DISTINCT, ORDER BY workspace_id, position, id.\<close>

record InvitationProject =
  ip_WorkspaceID :: string
  ip_ID :: string
  ip_Name :: string

definition ProjectsListingRoles :: "link_store \<Rightarrow> string list \<Rightarrow> InvitationProject list" where
  "ProjectsListingRoles ls givenIDs =
     map (\<lambda>p. \<lparr>ip_WorkspaceID = pjr_workspace p, ip_ID = pjr_id p, ip_Name = pjr_name p\<rparr>)
       (sort_key pjr_workspace (sort_key pjr_position (sort_key pjr_id
         (filter (\<lambda>p. list_ex (\<lambda>row. po_ResourceID row = pjr_id p \<and> po_ResourceType row = resourceTypeProject \<and>
              po_Target row = TargetRole \<and> ProjectsOpen \<in> set (po_Allow row) \<and>
              list_ex (\<lambda>r. po_RoleID row = Some (role_ID r) \<and> role_ID r \<in> set givenIDs \<and>
                 role_WorkspaceID r = pjr_workspace p) (rs_roles (ls_st ls)))
            (db_overwrites (rs_db (ls_st ls)))) (ls_projects ls)))))"

section \<open>Redeeming\<close>

definition GetUserByIdentity :: "link_store \<Rightarrow> string \<Rightarrow> string \<Rightarrow> string option" where
  "GetUserByIdentity ls provider providerUserID =
     map_option ui_UserID (find (\<lambda>r. ui_Provider r = provider \<and> ui_ProviderUserID r = providerUserID) (ls_identities ls))"

definition identityHasAccount :: "link_store \<Rightarrow> InvitationIdentity \<Rightarrow> bool" where
  "identityHasAccount ls identity \<longleftrightarrow> GetUserByIdentity ls (ii_Provider identity) (ii_ProviderUserID identity) \<noteq> None"

definition InsertUser :: "link_store \<Rightarrow> InvitationIdentity \<Rightarrow> time \<Rightarrow> link_store res" where
  "InsertUser ls identity now =
     (let st = ls_st ls; db = rs_db st
      in if ii_ID identity \<in> set (db_users db) then Inl (wrapf ''insert user'' (sentinel_err ErrConflict))
         else Inr (ls\<lparr>ls_st := st\<lparr>rs_db := db\<lparr>db_users := db_users db @ [ii_ID identity], db_active := db_active db @ [ii_ID identity]\<rparr>\<rparr>,
                ls_users := ls_users ls @ [\<lparr>us_ID = ii_ID identity, us_Login = ii_Login identity, us_Name = ii_Name identity,
                  us_AvatarURL = ii_AvatarURL identity, us_CreatedAt = now, us_UpdatedAt = now\<rparr>]\<rparr>))"

text \<open>\<^verbatim>\<open>lower\<close> of SQLite is that of ASCII.\<close>

definition claim_login :: "string \<Rightarrow> string \<Rightarrow> string \<Rightarrow> string" where
  "claim_login userID login person = (if map ascii_lower person = map ascii_lower login then userID else person)"

definition claimTicketPeople :: "string \<Rightarrow> string \<Rightarrow> link_store \<Rightarrow> link_store" where
  "claimTicketPeople userID login ls =
     (if login = [] then ls
      else ls\<lparr>ls_tickets := map (\<lambda>t. t\<lparr>tp_Developer := claim_login userID login (tp_Developer t),
                                      tp_Tester := claim_login userID login (tp_Tester t)\<rparr>) (ls_tickets ls)\<rparr>)"

definition insertIdentity :: "link_store \<Rightarrow> InvitationIdentity \<Rightarrow> time \<Rightarrow> link_store res" where
  "insertIdentity ls identity now =
     (if list_ex (\<lambda>r. ui_Provider r = ii_Provider identity \<and>
           (ui_ProviderUserID r = ii_ProviderUserID identity \<or> ui_UserID r = ii_ID identity)) (ls_identities ls) \<or>
         ii_ID identity \<notin> set (db_users (rs_db (ls_st ls)))
      then Inl (wrapf ''insert identity'' (sentinel_err ErrConflict))
      else Inr (ls\<lparr>ls_identities := ls_identities ls @
             [\<lparr>ui_UserID = ii_ID identity, ui_Provider = ii_Provider identity, ui_ProviderUserID = ii_ProviderUserID identity,
               ui_Login = ii_Login identity, ui_Name = ii_Name identity, ui_Username = [], ui_AvatarURL = ii_AvatarURL identity,
               ui_CreatedAt = now\<rparr>]\<rparr>))"

definition insertUserWithIdentity :: "link_store \<Rightarrow> InvitationIdentity \<Rightarrow> time \<Rightarrow> link_store res" where
  "insertUserWithIdentity ls identity now =
     bindr (InsertUser ls identity now) (\<lambda>ls.
     insertIdentity (claimTicketPeople (ii_ID identity) (ii_Login identity) ls) identity now)"

definition insertInvitationUser :: "link_store \<Rightarrow> InvitationIdentity \<Rightarrow> time \<Rightarrow> link_store res" where
  "insertInvitationUser ls identity now = map_errr (wrapf ''admit invitation user'') (insertUserWithIdentity ls identity now)"

definition AddInvitationMember :: "string \<Rightarrow> string \<Rightarrow> time \<Rightarrow> role_store \<Rightarrow> role_store res" where
  "AddInvitationMember userID workspaceID now st =
     (let db = rs_db st
      in if userID \<notin> set (db_users db) \<or> workspaceID \<notin> set (rs_workspaces st) then Inl (sentinel_err ErrConflict)
         else if (workspaceID, userID) \<in> set (db_members db) then Inr st
         else Inr (st\<lparr>rs_db := db\<lparr>db_members := db_members db @ [(workspaceID, userID)]\<rparr>,
                      rs_joined := (rs_joined st)(workspaceID := (rs_joined st workspaceID)(userID := now))\<rparr>))"

fun admitGrants :: "string \<Rightarrow> string \<Rightarrow> time \<Rightarrow> InvitationGrant list \<Rightarrow> role_store \<Rightarrow> (role_store \<times> invitation_outbox list) res" where
  "admitGrants i userID now [] st = Inr (st, [])"
| "admitGrants i userID now (g # grants) st =
     bindr (map_errr (wrapf ''add invitation membership'') (AddInvitationMember userID (ig_WorkspaceID g) now st)) (\<lambda>st.
     bindr (addMemberRoles (ig_WorkspaceID g) userID now (grantHeld g) st) (\<lambda>st.
     bindr (admitGrants i userID now grants st) (\<lambda>(st, events).
     Inr (st, TopicInvitedMemberAdded ((invitation_event i)\<lparr>ie_UserID := userID, ie_WorkspaceID := ig_WorkspaceID g,
              ie_RoleIDsAdded := grantHeld g\<rparr>) # events))))"

definition MarkInvitationRedeemed :: "time \<Rightarrow> string \<Rightarrow> link_store \<Rightarrow> link_store res" where
  "MarkInvitationRedeemed now i ls =
     (if \<not> list_ex (\<lambda>r. ir_ID r = i \<and> link_open now r) (ls_invitations ls) then Inl invalidInvitation
      else Inr (put_invitation i (\<lambda>r. if link_open now r then r\<lparr>ir_RedeemedAt := Some now, ir_RedeemedBy := None\<rparr> else r) ls))"

definition SetInvitationRedeemedBy :: "string \<Rightarrow> string \<Rightarrow> link_store \<Rightarrow> link_store" where
  "SetInvitationRedeemedBy userID i ls =
     put_invitation i (\<lambda>r. if ir_RedeemedAt r \<noteq> None then r\<lparr>ir_RedeemedBy := Some userID\<rparr> else r) ls"

definition handoff_waits :: "string \<Rightarrow> time \<Rightarrow> handoff_row \<Rightarrow> bool" where
  "handoff_waits h now r \<longleftrightarrow> ho_AcceptanceHash r = Some h \<and> ho_CompletedAt r = None \<and> ho_ExpiresAt r > now"

definition CompleteOAuthHandoffRedemption :: "string \<Rightarrow> time \<Rightarrow> string \<Rightarrow> link_store \<Rightarrow> link_store res" where
  "CompleteOAuthHandoffRedemption userID now h ls =
     (if \<not> list_ex (handoff_waits h now) (ls_handoffs ls) then Inl invalidInvitation
      else Inr (ls\<lparr>ls_handoffs := map (\<lambda>r. if handoff_waits h now r
                                          then r\<lparr>ho_AdmittedUserID := Some userID, ho_CompletedAt := Some now\<rparr> else r)
                                 (ls_handoffs ls)\<rparr>))"

definition ErrExistingAccount :: err where
  "ErrExistingAccount = WithCode ''existing_account''
     (errorf ErrConflict ''you already have an account here; this invitation is for someone new'')"

text \<open>The writes of a redemption, once the link, its package and the identity have passed.\<close>

definition admit :: "link_store \<Rightarrow> string \<Rightarrow> InvitationIdentity \<Rightarrow> time \<Rightarrow> Invitation \<Rightarrow> (link_store \<times> InvitationAdmission) res" where
  "admit ls h identity now invitation =
     (let i = ivn_ID invitation; userID = ii_ID identity;
          event = (invitation_event i)\<lparr>ie_UserID := userID\<rparr>
      in bindr (MarkInvitationRedeemed now i ls) (\<lambda>ls.
         bindr (insertInvitationUser ls identity now) (\<lambda>ls.
         bindr (admitGrants i userID now (somes (ivn_Grants invitation)) (ls_st ls)) (\<lambda>(st, added).
         bindr (CompleteOAuthHandoffRedemption userID now h (SetInvitationRedeemedBy userID i (ls\<lparr>ls_st := st\<rparr>))) (\<lambda>ls.
         Inr (enqueueInvitationEvents ([TopicInvitationRedeemed event, TopicAccountAdmitted event] @ added) ls,
              \<lparr>iad_UserID = userID, iad_Created = True\<rparr>))))))"

definition replay :: "link_store \<Rightarrow> handoff_row \<Rightarrow> InvitationIdentity \<Rightarrow> InvitationAdmission res" where
  "replay ls handoff identity =
     (case GetUserByIdentity ls (ii_Provider identity) (ii_ProviderUserID identity) of
        None \<Rightarrow> Inl invalidInvitation
      | Some userID \<Rightarrow>
          if userID \<notin> set (db_active (rs_db (ls_st ls))) \<or> ho_AdmittedUserID handoff \<noteq> Some userID
          then Inl invalidInvitation
          else Inr \<lparr>iad_UserID = userID, iad_Created = False\<rparr>)"

definition invitationRedeem ::
  "link_store \<Rightarrow> string \<Rightarrow> InvitationIdentity \<Rightarrow> time \<Rightarrow> link_store \<times> InvitationAdmission res" where
  "invitationRedeem ls h identity now =
     (if \<not> validTokenHash h \<or> ii_Provider identity = [] \<or> ii_ProviderUserID identity = [] \<or> ii_ID identity = [] \<or>
         ii_Login identity = []
      then (ls, Inl invalidInvitation)
      else case GetOAuthHandoffByAcceptanceHash ls h of
        None \<Rightarrow> (ls, Inl invalidInvitation)
      | Some handoff \<Rightarrow>
          if ho_ExpiresAt handoff \<le> now \<or> ho_Provider handoff \<noteq> ii_Provider identity \<or>
             ho_ProviderUserID handoff \<noteq> Some (ii_ProviderUserID identity)
          then (ls, Inl invalidInvitation)
          else if ho_CompletedAt handoff \<noteq> None then (ls, replay ls handoff identity)
          else case GetInvitationByID ls (ho_InvitationID handoff) of
            None \<Rightarrow> (ls, Inl invalidInvitation)
          | Some row \<Rightarrow>
              if ir_RedeemedAt row \<noteq> None then (ls, Inl invalidInvitation)
              else if ir_ExpiresAt row \<le> now then (ls, Inl invalidInvitation)
              else case readInvitation ls row of
                Inl _ \<Rightarrow> (endInvitation (ho_InvitationID handoff) ''invalid grant'' now ls, Inl invalidInvitation)
              | Inr invitation \<Rightarrow>
                  (case validateInvitationPackage (ls_st ls) invitation (ivn_InvitedBy invitation) of
                     Inl _ \<Rightarrow> (endInvitation (ivn_ID invitation) authority_gone now ls, Inl invalidInvitation)
                   | Inr _ \<Rightarrow>
                       if identityHasAccount ls identity then (ls, Inl ErrExistingAccount)
                       else (case admit ls h identity now invitation of
                               Inl e \<Rightarrow> (ls, Inl e)
                             | Inr (ls', admission) \<Rightarrow> (ls', Inr admission))))"

end
