(* ===== verification/Invitations_Service.thy ===== *)
theory Invitations_Service
  imports Invitations
begin

text \<open>
  The service of invitations (\<^verbatim>\<open>internal/tenancy/invitations_service.go\<close>), the sign-ins under way
  (\<^verbatim>\<open>internal/platform/storage/oauth_handoffs_repo.go\<close>), sign-in with an invitation (\<^verbatim>\<open>internal/auth/invitations.go\<close>) and the
  gate between them (\<^verbatim>\<open>server/cmd/wire_invitations.go\<close>), with their calls as a step relation.
\<close>

section \<open>Sign-ins under way\<close>

text \<open>The repository of handoffs: one starts bound to the state of a sign-in, the provider's answer gives it an acceptance and
  the identity, and a redemption completes it.\<close>

text \<open>A sign-in under way as the service sees it: a column that is null reads as empty.\<close>

record OAuthHandoff =
  oh_ID :: string
  oh_InvitationID :: string
  oh_OAuthStateHash :: string
  oh_AcceptanceHash :: string
  oh_Provider :: string
  oh_ProviderUserID :: string
  oh_Login :: string
  oh_Name :: string
  oh_AvatarURL :: string
  oh_ExistingUserID :: string
  oh_AdmittedUserID :: string
  oh_CompletedAt :: "time option"
  oh_CreatedAt :: time
  oh_ExpiresAt :: time

definition toOAuthHandoff :: "handoff_row \<Rightarrow> OAuthHandoff" where
  "toOAuthHandoff row =
     \<lparr>oh_ID = ho_ID row, oh_InvitationID = ho_InvitationID row, oh_OAuthStateHash = null_text (ho_OAuthStateHash row),
      oh_AcceptanceHash = null_text (ho_AcceptanceHash row), oh_Provider = ho_Provider row,
      oh_ProviderUserID = null_text (ho_ProviderUserID row), oh_Login = null_text (ho_Login row),
      oh_Name = null_text (ho_Name row), oh_AvatarURL = null_text (ho_AvatarURL row),
      oh_ExistingUserID = null_text (ho_ExistingUserID row), oh_AdmittedUserID = null_text (ho_AdmittedUserID row),
      oh_CompletedAt = ho_CompletedAt row, oh_CreatedAt = ho_CreatedAt row, oh_ExpiresAt = ho_ExpiresAt row\<rparr>"

definition StartOAuthHandoff :: "link_store \<Rightarrow> OAuthHandoff \<Rightarrow> link_store res" where
  "StartOAuthHandoff ls handoff =
     (if oh_ID handoff = [] \<or> oh_InvitationID handoff = [] \<or> oh_Provider handoff = [] \<or>
         \<not> validTokenHash (oh_OAuthStateHash handoff)
      then Inl (errorf ErrInvalid ''OAuth handoff fields are required'')
      else if list_ex (\<lambda>r. ho_ID r = oh_ID handoff \<or> ho_OAuthStateHash r = Some (oh_OAuthStateHash handoff)) (ls_handoffs ls) \<or>
              oh_InvitationID handoff \<notin> set (map ir_ID (ls_invitations ls))
      then Inl (wrapf (''create OAuth handoff '' @ oh_ID handoff) (sentinel_err ErrConflict))
      else Inr (ls\<lparr>ls_handoffs := ls_handoffs ls @
             [\<lparr>ho_ID = oh_ID handoff, ho_InvitationID = oh_InvitationID handoff, ho_OAuthStateHash = Some (oh_OAuthStateHash handoff),
               ho_AcceptanceHash = None, ho_Provider = oh_Provider handoff, ho_ProviderUserID = None, ho_Login = None,
               ho_Name = None, ho_AvatarURL = None, ho_ExistingUserID = None, ho_AdmittedUserID = None, ho_CompletedAt = None,
               ho_CreatedAt = oh_CreatedAt handoff, ho_ExpiresAt = oh_ExpiresAt handoff\<rparr>]\<rparr>))"

definition null_string :: "string \<Rightarrow> string option" where
  "null_string t = (if t = [] then None else Some t)"

record OAuthHandoffIdentity =
  oi_Provider :: string
  oi_ProviderUserID :: string
  oi_Login :: string
  oi_Name :: string
  oi_AvatarURL :: string
  oi_ExistingUserID :: string

definition answered :: "string \<Rightarrow> OAuthHandoffIdentity \<Rightarrow> time \<Rightarrow> handoff_row \<Rightarrow> handoff_row" where
  "answered acceptanceHash identity expiresAt r =
     r\<lparr>ho_OAuthStateHash := None, ho_AcceptanceHash := Some acceptanceHash,
       ho_ProviderUserID := Some (oi_ProviderUserID identity), ho_Login := null_string (oi_Login identity),
       ho_Name := null_string (oi_Name identity), ho_AvatarURL := null_string (oi_AvatarURL identity),
       ho_ExistingUserID := null_string (oi_ExistingUserID identity), ho_ExpiresAt := expiresAt\<rparr>"

text \<open>The row the transition updates: of this state, not expired, with no acceptance yet.\<close>

definition state_waits :: "string \<Rightarrow> time \<Rightarrow> handoff_row \<Rightarrow> bool" where
  "state_waits h now r \<longleftrightarrow> ho_OAuthStateHash r = Some h \<and> ho_ExpiresAt r > now \<and> ho_AcceptanceHash r = None"

definition CompleteOAuthCallback ::
  "link_store \<Rightarrow> string \<Rightarrow> string \<Rightarrow> OAuthHandoffIdentity \<Rightarrow> time \<Rightarrow> time \<Rightarrow> (link_store \<times> OAuthHandoff) res" where
  "CompleteOAuthCallback ls stateHash acceptanceHash identity expiresAt now =
     (if \<not> validTokenHash stateHash \<or> \<not> validTokenHash acceptanceHash \<or> oi_Provider identity = [] \<or> oi_ProviderUserID identity = []
      then Inl (errorf ErrInvalid ''OAuth handoff completion is invalid'')
      else case find (\<lambda>r. ho_OAuthStateHash r = Some stateHash) (ls_handoffs ls) of
        None \<Rightarrow> Inl (sentinel_err ErrNotFound)
      | Some row \<Rightarrow>
          if ho_Provider row \<noteq> oi_Provider identity \<or> ho_ExpiresAt row \<le> now then Inl (sentinel_err ErrNotFound)
          else if \<not> list_ex (state_waits stateHash now) (ls_handoffs ls) then Inl (sentinel_err ErrNotFound)
          else if list_ex (\<lambda>r. ho_AcceptanceHash r = Some acceptanceHash) (ls_handoffs ls) \<or>
                  (oi_ExistingUserID identity \<noteq> [] \<and> oi_ExistingUserID identity \<notin> set (db_users (rs_db (ls_st ls))))
          then Inl (wrapf ''complete OAuth handoff'' (sentinel_err ErrConflict))
          else Inr (ls\<lparr>ls_handoffs := map (\<lambda>r. if state_waits stateHash now r then answered acceptanceHash identity expiresAt r else r)
                                       (ls_handoffs ls)\<rparr>,
                    toOAuthHandoff (answered acceptanceHash identity expiresAt row)))"

definition HandoffByAcceptance :: "link_store \<Rightarrow> string \<Rightarrow> time \<Rightarrow> OAuthHandoff res" where
  "HandoffByAcceptance ls h now =
     (if \<not> validTokenHash h then Inl (sentinel_err ErrNotFound)
      else case GetOAuthHandoffByAcceptanceHash ls h of
        None \<Rightarrow> Inl (sentinel_err ErrNotFound)
      | Some row \<Rightarrow> if ho_ExpiresAt row \<le> now then Inl (sentinel_err ErrNotFound) else Inr (toOAuthHandoff row))"

definition CompleteOAuthRedemption :: "link_store \<Rightarrow> string \<Rightarrow> string \<Rightarrow> time \<Rightarrow> link_store res" where
  "CompleteOAuthRedemption ls h admittedUserID now =
     (if \<not> validTokenHash h \<or> admittedUserID = [] then Inl (sentinel_err ErrNotFound)
      else case GetOAuthHandoffByAcceptanceHash ls h of
        None \<Rightarrow> Inl (sentinel_err ErrNotFound)
      | Some row \<Rightarrow>
          if ho_ExpiresAt row \<le> now then Inl (sentinel_err ErrNotFound)
          else if ho_CompletedAt row \<noteq> None
          then (if ho_AdmittedUserID row = Some admittedUserID then Inr ls else Inl (sentinel_err ErrNotFound))
          else if admittedUserID \<notin> set (db_users (rs_db (ls_st ls)))
          then Inl (wrapf ''complete OAuth handoff redemption'' (sentinel_err ErrConflict))
          else map_errr (\<lambda>_. sentinel_err ErrNotFound) (CompleteOAuthHandoffRedemption admittedUserID now h ls))"

section \<open>The service of invitations\<close>

text \<open>The gates: the instance URL with what \<^verbatim>\<open>url.Parse\<close> reads as its host, the parser of UUIDs (a token's canonical text and
  version) and the hexadecimal SHA-256 of a text, and what the creator may grant.\<close>

record InvitationService =
  isv_InstanceURL :: "ctx \<Rightarrow> string"
  isv_url_host :: "string \<Rightarrow> string option"
  isv_uuid :: "string \<Rightarrow> (string \<times> nat) option"
  isv_sha256 :: "string \<Rightarrow> string"
  isv_perms :: "PermissionGate option"

record CreateInvitationInput =
  ci_Grants :: "InvitationGrant option list"
  ci_ExpiresInDays :: int

record CreatedInvitation =
  cri_Invitation :: Invitation
  cri_URL :: string

definition HashInvitationToken :: "InvitationService \<Rightarrow> string \<Rightarrow> string res" where
  "HashInvitationToken s raw =
     (case isv_uuid s raw of
        None \<Rightarrow> Inl (errorf ErrInvalid ''invalid invitation token'')
      | Some (token, version) \<Rightarrow>
          if version \<noteq> 4 then Inl (errorf ErrInvalid ''invalid invitation token'') else Inr (isv_sha256 s token))"

definition instanceAreaActions :: "pset \<Rightarrow> pset" where
  "instanceAreaActions acts = filter (\<lambda>a. AreaOf a = AreaInstance) acts"

fun rolesHeldAtInstance :: "role_store \<Rightarrow> string \<Rightarrow> pset \<Rightarrow> string list \<Rightarrow> unit res" where
  "rolesHeldAtInstance st workspaceID held [] = Inr ()"
| "rolesHeldAtInstance st workspaceID held (i # is) =
     (case RolePermissions st workspaceID i of
        Inl e \<Rightarrow> if errors_is e ErrNotFound then rolesHeldAtInstance st workspaceID held is
                 else Inl (wrapf (''read role '' @ i) e)
      | Inr given \<Rightarrow>
          bindr (RequireHeld (instanceAreaActions given) held) (\<lambda>_. rolesHeldAtInstance st workspaceID held is))"

fun requireHeldInstanceAreas ::
  "InvitationService \<Rightarrow> ctx \<Rightarrow> role_store \<Rightarrow> string \<Rightarrow> InvitationGrant option list \<Rightarrow> unit res" where
  "requireHeldInstanceAreas s c st actorID [] = Inr ()"
| "requireHeldInstanceAreas s c st actorID (g # grants) =
     (case (isv_perms s, g) of
        (None, _) \<Rightarrow> Inr ()
      | (Some _, None) \<Rightarrow> requireHeldInstanceAreas s c st actorID grants
      | (Some gate, Some g) \<Rightarrow>
          bindr (rolesHeldAtInstance st (ig_WorkspaceID g)
                   (SetOfStrings (pg_GrantablePermissions gate c actorID (ig_WorkspaceID g))) (grantHeld g))
            (\<lambda>_. requireHeldInstanceAreas s c st actorID grants))"

definition TrimRight_slash :: "string \<Rightarrow> string" where
  "TrimRight_slash t = rev (dropWhile (\<lambda>r. r = CHR ''/'') (rev t))"

definition svc_InstanceURL :: "InvitationService \<Rightarrow> ctx \<Rightarrow> string" where
  "svc_InstanceURL s c = TrimRight_slash (TrimSpace (isv_InstanceURL s c))"

definition svc_InstanceName :: "InvitationService \<Rightarrow> ctx \<Rightarrow> string" where
  "svc_InstanceName s c =
     (let url = svc_InstanceURL s c
      in case isv_url_host s url of None \<Rightarrow> url | Some host \<Rightarrow> if host = [] then url else host)"

definition GrantProjects :: "link_store \<Rightarrow> Invitation \<Rightarrow> InvitationProject list gomap" where
  "GrantProjects ls invitation =
     (let ids = concat (map grantHeld (somes (ivn_Grants invitation)))
      in if ids = [] then []
         else let projects = ProjectsListingRoles ls ids
              in map (\<lambda>w. (w, filter (\<lambda>p. ip_WorkspaceID p = w) projects)) (remdups (map ip_WorkspaceID projects)))"

definition invitationDuration :: "int \<Rightarrow> time res" where
  "invitationDuration days0 =
     (let days = (if days0 = 0 then 7 else days0)
      in if days = 1 then Inr day
         else if days = 7 then Inr (7 * day)
         else Inl (errorf ErrInvalid ''invitation expiry must be one or seven days''))"

definition cloneInvitationGrants :: "InvitationGrant option list \<Rightarrow> InvitationGrant option list" where
  "cloneInvitationGrants grants =
     map (map_option (\<lambda>g. \<lparr>ig_WorkspaceID = ig_WorkspaceID g, ig_WorkspaceName = [], ig_RoleID = ig_RoleID g, ig_RoleName = [],
            ig_RoleIDs = ig_RoleIDs g, ig_Roles = [], ig_Allow = [], ig_Deny = [], ig_EveryProject = [],
            ig_ProjectAccess = []\<rparr>)) grants"

fun refuseEach :: "InvitationGrant option list \<Rightarrow> unit res" where
  "refuseEach [] = Inr ()"
| "refuseEach (None # grants) = refuseEach grants"
| "refuseEach (Some g # grants) =
     bindr (RefusePerPersonAccess (ig_Allow g) (ig_Deny g) (ig_EveryProject g) (length (ig_ProjectAccess g)))
       (\<lambda>_. refuseEach grants)"

text \<open>The token is the text \<^verbatim>\<open>uuid.NewRandom\<close> makes.\<close>

definition CreateInvitation ::
  "InvitationService \<Rightarrow> ctx \<Rightarrow> string \<Rightarrow> string \<Rightarrow> time \<Rightarrow> link_store \<Rightarrow> string \<Rightarrow> CreateInvitationInput \<Rightarrow>
   (link_store \<times> CreatedInvitation) res" where
  "CreateInvitation s c token newID now ls actorID0 input =
     (let actorID = TrimSpace actorID0
      in if actorID = [] then Inl (errorf ErrInvalid ''actor is required'')
         else if ci_Grants input = [] then Inl (errorf ErrInvalid ''at least one workspace grant is required'')
         else bindr (refuseEach (ci_Grants input)) (\<lambda>_.
              bindr (requireHeldInstanceAreas s c (ls_st ls) actorID (ci_Grants input)) (\<lambda>_.
              bindr (invitationDuration (ci_ExpiresInDays input)) (\<lambda>duration.
              let baseURL = svc_InstanceURL s c
              in if baseURL = [] then Inl (errorf ErrInvalid ''instance URL is not configured'')
                 else bindr (HashInvitationToken s token) (\<lambda>tokenHash.
                      let invitation = \<lparr>ivn_ID = newID, ivn_InvitedBy = actorID, ivn_CreatedAt = now, ivn_ExpiresAt = now + duration,
                            ivn_RedeemedAt = None, ivn_RedeemedBy = [], ivn_Grants = cloneInvitationGrants (ci_Grants input)\<rparr>
                      in bindr (invitationCreate ls invitation tokenHash
                                  [TopicInvitationCreated ((invitation_event newID)\<lparr>ie_ActorID := actorID\<rparr>)]) (\<lambda>ls'.
                         Inr (ls', \<lparr>cri_Invitation = invitation, cri_URL = baseURL @ ''/invite#'' @ token\<rparr>)))))))"

record InvitationList =
  il_Invitations :: "Invitation list"
  il_Accepted :: "Invitation list"
  il_Ended :: "Invitation list"

abbreviation (input) InvitationHistory :: time where "InvitationHistory \<equiv> 30 * day"

definition ListInvitations :: "link_store \<Rightarrow> string \<Rightarrow> time \<Rightarrow> link_store \<times> InvitationList res" where
  "ListInvitations ls actorID0 now =
     (let actorID = TrimSpace actorID0
      in case ListOpen ls actorID now of
           (ls', Inl e) \<Rightarrow> (ls', Inl e)
         | (ls', Inr opened) \<Rightarrow>
             (ls', bindr (invitationHistory ls' actorID (now - InvitationHistory) now) (\<lambda>(accepted, ended).
                Inr \<lparr>il_Invitations = opened, il_Accepted = accepted, il_Ended = ended\<rparr>)))"

definition RevokeInvitation :: "link_store \<Rightarrow> string \<Rightarrow> string \<Rightarrow> time \<Rightarrow> link_store res" where
  "RevokeInvitation ls actorID invitationID now =
     invitationRevoke ls (TrimSpace actorID) (TrimSpace invitationID) now
       [TopicInvitationRevoked ((invitation_event invitationID)\<lparr>ie_ActorID := actorID\<rparr>)]"

definition AcceptanceFromToken :: "InvitationService \<Rightarrow> link_store \<Rightarrow> string \<Rightarrow> time \<Rightarrow> link_store \<times> Invitation res" where
  "AcceptanceFromToken s ls rawToken now =
     (case HashInvitationToken s rawToken of
        Inl _ \<Rightarrow> (ls, Inl invalidInvitation)
      | Inr tokenHash \<Rightarrow> GetByTokenHash ls tokenHash now)"

definition invalidInvitationIfNeeded :: "err \<Rightarrow> err" where
  "invalidInvitationIfNeeded e = (if errors_is e ErrNotFound then invalidInvitation else e)"

record InvitationProjectPreview =
  ipp_ProjectID :: string
  ipp_ProjectName :: string

record InvitationGrantPreview =
  igp_WorkspaceID :: string
  igp_WorkspaceName :: string
  igp_RoleID :: string
  igp_RoleName :: string
  igp_Roles :: "TeamRole list"
  igp_EveryProject :: string
  igp_Projects :: "InvitationProjectPreview list"

record InvitationPreview =
  ipv_InstanceName :: string
  ipv_InstanceURL :: string
  ipv_ExpiresAt :: time
  ipv_Grants :: "InvitationGrantPreview list"

definition preview :: "InvitationService \<Rightarrow> ctx \<Rightarrow> Invitation \<Rightarrow> InvitationPreview" where
  "preview s c invitation =
     \<lparr>ipv_InstanceName = svc_InstanceName s c, ipv_InstanceURL = svc_InstanceURL s c, ipv_ExpiresAt = ivn_ExpiresAt invitation,
      ipv_Grants = map (\<lambda>g. \<lparr>igp_WorkspaceID = ig_WorkspaceID g, igp_WorkspaceName = ig_WorkspaceName g,
         igp_RoleID = ig_RoleID g, igp_RoleName = ig_RoleName g, igp_Roles = ig_Roles g, igp_EveryProject = [], igp_Projects = []\<rparr>) (somes (ivn_Grants invitation))\<rparr>"

definition Preview :: "InvitationService \<Rightarrow> ctx \<Rightarrow> link_store \<Rightarrow> string \<Rightarrow> time \<Rightarrow> link_store \<times> InvitationPreview res" where
  "Preview s c ls rawToken now =
     (case HashInvitationToken s rawToken of
        Inl _ \<Rightarrow> (ls, Inl invalidInvitation)
      | Inr tokenHash \<Rightarrow>
          (case GetByTokenHash ls tokenHash now of
             (ls', Inl e) \<Rightarrow> (ls', Inl (invalidInvitationIfNeeded e))
           | (ls', Inr invitation) \<Rightarrow> (ls', Inr (preview s c invitation))))"

definition AcceptanceFromHash :: "link_store \<Rightarrow> string \<Rightarrow> time \<Rightarrow> Invitation res" where
  "AcceptanceFromHash ls h now =
     (if \<not> validTokenHash h then Inl invalidInvitation else GetByAcceptanceHash ls h now)"

definition RedeemHash :: "link_store \<Rightarrow> string \<Rightarrow> InvitationIdentity \<Rightarrow> time \<Rightarrow> link_store \<times> InvitationAdmission res" where
  "RedeemHash ls h identity now =
     (if \<not> validTokenHash h then (ls, Inl invalidInvitation)
      else case invitationRedeem ls h identity now of
        (ls', Inl e) \<Rightarrow> (ls', Inl (invalidInvitationIfNeeded e))
      | (ls', Inr admission) \<Rightarrow> (ls', Inr admission))"

text \<open>The gate the server wires between sign-in and invitations: it reads the link before it redeems.\<close>

definition GateRedeem ::
  "link_store \<Rightarrow> string \<Rightarrow> InvitationIdentity \<Rightarrow> time \<Rightarrow> link_store \<times> (InvitationAdmission \<times> string list) res" where
  "GateRedeem ls h identity now =
     (case AcceptanceFromHash ls h now of
        Inl e \<Rightarrow> (ls, Inl e)
      | Inr invitation \<Rightarrow>
          (case RedeemHash ls h identity now of
             (ls', Inl e) \<Rightarrow> (ls', Inl e)
           | (ls', Inr admission) \<Rightarrow>
               (ls', Inr (admission, map ig_WorkspaceID (somes (ivn_Grants invitation))))))"

section \<open>Sign-in with an invitation\<close>

text \<open>What sign-in uses: the providers with their authorize address and what each answers to a code, the hash of a
  credential, and the session it makes.  The random state, acceptance and ids are arguments.\<close>

record ProviderUser =
  pu_ID :: string
  pu_Login :: string
  pu_Name :: string
  pu_Username :: string
  pu_AvatarURL :: string

record SignIn =
  sg_providers :: "string list"
  sg_AuthorizeURLFor :: "string \<Rightarrow> string \<Rightarrow> string res"
  sg_FetchUser :: "string \<Rightarrow> string \<Rightarrow> ProviderUser res"
  sg_hashCredential :: "string \<Rightarrow> string"
  sg_CreateSession :: "string \<Rightarrow> string res"
  sg_unicode :: "string \<Rightarrow> string"

record InvitationOAuthStart =
  ios_URL :: string
  ios_State :: string
  ios_CookieName :: string

abbreviation (input) stateMaxAge :: time where "stateMaxAge \<equiv> 10 * 60"

definition errExistingAccount :: err where
  "errExistingAccount = WithCode ''existing_account''
     (errorf ErrConflict ''you already have an account here; this invitation is for someone new'')"

definition classifyInvitationError :: "SignIn \<Rightarrow> err \<Rightarrow> err" where
  "classifyInvitationError sg e =
     (if errors_is e ErrNotFound then invalidInvitation
      else if errors_is e ErrInvalid \<and>
              (let message = ToLower (sg_unicode sg) (err_msg e)
               in sublist ''invitation'' message \<or> sublist ''credential'' message \<or> sublist ''acceptance'' message)
      then invalidInvitation else e)"

definition startInvitationHandoff ::
  "SignIn \<Rightarrow> string \<Rightarrow> string \<Rightarrow> time \<Rightarrow> link_store \<Rightarrow> string \<Rightarrow> string \<Rightarrow> (link_store \<times> InvitationOAuthStart) res" where
  "startInvitationHandoff sg newState newID now ls provider invitationID =
     (let stateHash = sg_hashCredential sg newState
      in bindr (sg_AuthorizeURLFor sg provider newState) (\<lambda>url.
         bindr (map_errr (wrapf ''start invitation OAuth'')
                  (StartOAuthHandoff ls \<lparr>oh_ID = newID, oh_InvitationID = invitationID, oh_OAuthStateHash = stateHash,
                     oh_AcceptanceHash = [], oh_Provider = provider, oh_ProviderUserID = [], oh_Login = [], oh_Name = [],
                     oh_AvatarURL = [], oh_ExistingUserID = [], oh_AdmittedUserID = [], oh_CompletedAt = None,
                     oh_CreatedAt = now, oh_ExpiresAt = now + stateMaxAge\<rparr>)) (\<lambda>ls'.
         Inr (ls', \<lparr>ios_URL = url, ios_State = newState, ios_CookieName = ''nexul_invite_oauth_'' @ take 16 stateHash\<rparr>))))"

definition StartInvitationOAuth ::
  "InvitationService \<Rightarrow> SignIn \<Rightarrow> string \<Rightarrow> string \<Rightarrow> time \<Rightarrow> link_store \<Rightarrow> string \<Rightarrow> string \<Rightarrow>
   link_store \<times> InvitationOAuthStart res" where
  "StartInvitationOAuth s sg newState newID now ls provider rawToken =
     (if TrimSpace rawToken = [] \<or> provider \<notin> set (sg_providers sg) then (ls, Inl invalidInvitation)
      else case AcceptanceFromToken s ls rawToken now of
        (ls', Inl e) \<Rightarrow> (ls', Inl (classifyInvitationError sg e))
      | (ls', Inr invitation) \<Rightarrow>
          (case startInvitationHandoff sg newState newID now ls' provider (ivn_ID invitation) of
             Inl e \<Rightarrow> (ls', Inl e)
           | Inr (ls'', started) \<Rightarrow> (ls'', Inr started)))"

definition RestartInvitationOAuth ::
  "SignIn \<Rightarrow> string \<Rightarrow> string \<Rightarrow> time \<Rightarrow> link_store \<Rightarrow> string \<Rightarrow> string \<Rightarrow> (link_store \<times> InvitationOAuthStart) res" where
  "RestartInvitationOAuth sg newState newID now ls provider acceptance =
     (if TrimSpace acceptance = [] \<or> provider \<notin> set (sg_providers sg) then Inl invalidInvitation
      else bindr (map_errr (classifyInvitationError sg) (AcceptanceFromHash ls (sg_hashCredential sg acceptance) now)) (\<lambda>invitation.
           startInvitationHandoff sg newState newID now ls provider (ivn_ID invitation)))"

definition CompleteInvitationOAuth ::
  "SignIn \<Rightarrow> string \<Rightarrow> time \<Rightarrow> link_store \<Rightarrow> string \<Rightarrow> string \<Rightarrow> string \<Rightarrow> (link_store \<times> string) res" where
  "CompleteInvitationOAuth sg acceptance now ls provider oauthState code =
     (if TrimSpace oauthState = [] \<or> TrimSpace code = [] then Inl invalidInvitation
      else bindr (sg_FetchUser sg provider code) (\<lambda>u.
           if GetUserByIdentity ls provider (pu_ID u) \<noteq> None then Inl errExistingAccount
           else let identity = \<lparr>oi_Provider = provider, oi_ProviderUserID = pu_ID u, oi_Login = pu_Login u, oi_Name = pu_Name u,
                      oi_AvatarURL = pu_AvatarURL u, oi_ExistingUserID = []\<rparr>
                in bindr (map_errr (classifyInvitationError sg)
                            (CompleteOAuthCallback ls (sg_hashCredential sg oauthState) (sg_hashCredential sg acceptance) identity
                               (now + stateMaxAge) now)) (\<lambda>(ls', _).
                   Inr (ls', acceptance))))"

record InvitationRedeemResult =
  irr_Token :: string
  irr_WorkspaceIDs :: "string list"

definition RedeemInvitation ::
  "SignIn \<Rightarrow> string \<Rightarrow> time \<Rightarrow> link_store \<Rightarrow> string \<Rightarrow> link_store \<times> InvitationRedeemResult res" where
  "RedeemInvitation sg newID now ls acceptance =
     (let h = sg_hashCredential sg acceptance
      in case HandoffByAcceptance ls h now of
           Inl e \<Rightarrow> (ls, Inl (classifyInvitationError sg e))
         | Inr handoff \<Rightarrow>
             if oh_ProviderUserID handoff = [] then (ls, Inl invalidInvitation)
             else let identity = \<lparr>ii_ID = newID, ii_Provider = oh_Provider handoff,
                        ii_ProviderUserID = oh_ProviderUserID handoff, ii_Login = oh_Login handoff, ii_Name = oh_Name handoff,
                        ii_AvatarURL = oh_AvatarURL handoff\<rparr>
                  in case GateRedeem ls h identity now of
                       (ls', Inl e) \<Rightarrow> (ls', Inl (classifyInvitationError sg e))
                     | (ls', Inr (admission, workspaceIDs)) \<Rightarrow>
                         (ls', bindr (sg_CreateSession sg (iad_UserID admission)) (\<lambda>token.
                            Inr \<lparr>irr_Token = token, irr_WorkspaceIDs = workspaceIDs\<rparr>)))"

section \<open>What sign-in shows of a link\<close>

text \<open>The link as the page of an acceptance shows it; projects are named only after sign-in.\<close>

record AcceptanceRole =
  acr_ID :: string
  acr_Name :: string
  acr_Description :: string

record AcceptanceProject =
  acp_ID :: string
  acp_Name :: string

record AcceptanceGrant =
  acg_WorkspaceID :: string
  acg_WorkspaceName :: string
  acg_RoleID :: string
  acg_RoleName :: string
  acg_Roles :: "AcceptanceRole list"
  acg_Projects :: "AcceptanceProject list"
  acg_Allow :: "string list"
  acg_Deny :: "string list"

record InvitationAuthenticatedUser =
  iau_ID :: string
  iau_Provider :: string
  iau_Login :: string
  iau_Name :: string
  iau_AvatarURL :: string

record InvitationAcceptance =
  iac_InvitationID :: string
  iac_InstanceName :: string
  iac_InstanceURL :: string
  iac_ExpiresAt :: time
  iac_Grants :: "AcceptanceGrant list"
  iac_AuthenticatedUser :: "InvitationAuthenticatedUser option"
  iac_AcceptanceToken :: string

definition mapInvitationAcceptance ::
  "InvitationService \<Rightarrow> ctx \<Rightarrow> Invitation \<Rightarrow> InvitationProject list gomap \<Rightarrow> InvitationAcceptance" where
  "mapInvitationAcceptance s c invitation projects =
     \<lparr>iac_InvitationID = ivn_ID invitation, iac_InstanceName = svc_InstanceName s c, iac_InstanceURL = svc_InstanceURL s c,
      iac_ExpiresAt = ivn_ExpiresAt invitation,
      iac_Grants = map (\<lambda>g.
        \<lparr>acg_WorkspaceID = ig_WorkspaceID g, acg_WorkspaceName = ig_WorkspaceName g, acg_RoleID = ig_RoleID g,
         acg_RoleName = ig_RoleName g,
         acg_Roles = map (\<lambda>r. \<lparr>acr_ID = tr_ID r, acr_Name = tr_Name r, acr_Description = tr_Description r\<rparr>) (ig_Roles g),
         acg_Projects = map (\<lambda>p. \<lparr>acp_ID = ip_ID p, acp_Name = ip_Name p\<rparr>)
           (case map_of projects (ig_WorkspaceID g) of None \<Rightarrow> [] | Some ps \<Rightarrow> ps),
         acg_Allow = ig_Allow g, acg_Deny = ig_Deny g\<rparr>) (somes (ivn_Grants invitation)),
      iac_AuthenticatedUser = None, iac_AcceptanceToken = []\<rparr>"

definition GetInvitationByToken ::
  "InvitationService \<Rightarrow> ctx \<Rightarrow> link_store \<Rightarrow> string \<Rightarrow> time \<Rightarrow> link_store \<times> InvitationAcceptance res" where
  "GetInvitationByToken s c ls rawToken now =
     (case AcceptanceFromToken s ls rawToken now of
        (ls', Inl e) \<Rightarrow> (ls', Inl e)
      | (ls', Inr invitation) \<Rightarrow> (ls', Inr (mapInvitationAcceptance s c invitation [])))"

definition GetInvitationByAcceptance ::
  "InvitationService \<Rightarrow> ctx \<Rightarrow> link_store \<Rightarrow> string \<Rightarrow> time \<Rightarrow> InvitationAcceptance res" where
  "GetInvitationByAcceptance s c ls h now =
     bindr (AcceptanceFromHash ls h now) (\<lambda>invitation.
     Inr (mapInvitationAcceptance s c invitation (GrantProjects ls invitation)))"

definition detailsWithHandoff :: "InvitationAcceptance \<Rightarrow> OAuthHandoff \<Rightarrow> InvitationAcceptance" where
  "detailsWithHandoff details handoff =
     details\<lparr>iac_AuthenticatedUser := Some
       \<lparr>iau_ID = (if oh_AdmittedUserID handoff \<noteq> [] then oh_AdmittedUserID handoff else oh_ExistingUserID handoff),
        iau_Provider = oh_Provider handoff, iau_Login = oh_Login handoff, iau_Name = oh_Name handoff,
        iau_AvatarURL = oh_AvatarURL handoff\<rparr>\<rparr>"

definition acceptanceDetails :: "string \<Rightarrow> InvitationAcceptance \<Rightarrow> InvitationAcceptance" where
  "acceptanceDetails acceptance details = details\<lparr>iac_AcceptanceToken := acceptance\<rparr>"

definition GetInvitationAcceptance ::
  "InvitationService \<Rightarrow> SignIn \<Rightarrow> ctx \<Rightarrow> time \<Rightarrow> link_store \<Rightarrow> string \<Rightarrow> InvitationAcceptance res" where
  "GetInvitationAcceptance s sg c now ls acceptance =
     bindr (map_errr (classifyInvitationError sg) (HandoffByAcceptance ls (sg_hashCredential sg acceptance) now)) (\<lambda>handoff.
     bindr (map_errr (classifyInvitationError sg) (GetInvitationByAcceptance s c ls (sg_hashCredential sg acceptance) now)) (\<lambda>details.
     Inr (acceptanceDetails acceptance (detailsWithHandoff details handoff))))"

section \<open>Steps\<close>

text \<open>A step of the links: a call of the service or of sign-in, or a step of roles, members and workspaces.\<close>

inductive link_step :: "InvitationService \<Rightarrow> SignIn \<Rightarrow> Tenancy_Service \<Rightarrow> Roles_Service \<Rightarrow> link_store \<Rightarrow> link_store \<Rightarrow> bool"
  for s sg ts rs where
  tenancy: "workspace_step ts rs (ls_st ls) st \<Longrightarrow> link_step s sg ts rs ls (ls\<lparr>ls_st := st\<rparr>)"
| create: "CreateInvitation s c token newID now ls actor input = Inr (ls', r) \<Longrightarrow> link_step s sg ts rs ls ls'"
| listing: "ListInvitations ls actor now = (ls', rl) \<Longrightarrow> link_step s sg ts rs ls ls'"
| revoke: "RevokeInvitation ls actor i now = Inr ls' \<Longrightarrow> link_step s sg ts rs ls ls'"
| previewed: "Preview s c ls raw now = (ls', rp) \<Longrightarrow> link_step s sg ts rs ls ls'"
| start: "StartInvitationOAuth s sg newState newID now ls provider raw = (ls', rstart) \<Longrightarrow> link_step s sg ts rs ls ls'"
| restart: "RestartInvitationOAuth sg newState newID now ls provider acceptance = Inr (ls', o') \<Longrightarrow> link_step s sg ts rs ls ls'"
| callback: "CompleteInvitationOAuth sg acceptance now ls provider oauthState code = Inr (ls', a) \<Longrightarrow> link_step s sg ts rs ls ls'"
| completed: "CompleteOAuthRedemption ls h u now = Inr ls' \<Longrightarrow> link_step s sg ts rs ls ls'"
| redeem: "RedeemInvitation sg newID now ls acceptance = (ls', rr) \<Longrightarrow> link_step s sg ts rs ls ls'"
| redeemed: "invitationRedeem ls h identity now = (ls', ra) \<Longrightarrow> link_step s sg ts rs ls ls'"

end
