(* ===== verification/Invitations_Tables.thy ===== *)
theory Invitations_Tables
  imports Invitations_Service
begin

text \<open>
  What the operations on links do to the tables: the creator's authority as a predicate (\<open>may_admit\<close>), rows of links that only
  move towards closed (locale \<open>one_way\<close>, interpreted on the table of links), the exact effect of an admission, and the
  invariant \<open>links_ok\<close> over every step.
\<close>

section \<open>Who may give what\<close>

definition held_roles :: "role_store \<Rightarrow> string \<Rightarrow> string \<Rightarrow> Role set" where
  "held_roles st u w = {r. \<exists>i. (w, u, i) \<in> held_set st \<and> roleGet st i = Inr r}"

text \<open>A person may admit someone to a role: it is a role of the workspace, not Owner, the person is a member there, and
  either holds the Owner role or holds members:write and every action of the role.\<close>

definition may_admit :: "role_store \<Rightarrow> string \<Rightarrow> string \<Rightarrow> string \<Rightarrow> bool" where
  "may_admit st u w i \<longleftrightarrow>
     (\<exists>r. roleGet st i = Inr r \<and> role_WorkspaceID r = w \<and> \<not> role_IsOwnerRole r \<and> (w, u) \<in> member_set st \<and>
       ((\<exists>x \<in> held_roles st u w. role_IsOwnerRole x) \<or>
        (\<exists>x \<in> held_roles st u w. MembersWrite \<in> set (role_Permissions x)) \<and>
        set (role_Permissions r) \<subseteq> (\<Union>x \<in> held_roles st u w. set (role_Permissions x))))"

lemma creatorRoles_spec:
  assumes "set_ok held"
  shows "wa_member (creatorRoles held rows)" "wa_owner (creatorRoles held rows) \<longleftrightarrow> (\<exists>x \<in> set rows. fst x)"
    "set_ok (wa_held (creatorRoles held rows))"
    "\<not> wa_owner (creatorRoles held rows) \<Longrightarrow> set (wa_held (creatorRoles held rows)) = set held \<union> (\<Union>x \<in> set rows. set (snd x))"
  using assms
proof (induction held rows rule: creatorRoles.induct)
  case (2 held owner perms rows)
  {
    case 1
    show ?case using "2.IH"(1) by (cases owner) simp_all
  next
    case 2
    show ?case using "2.IH"(2) by (cases owner) simp_all
  next
    case 3
    show ?case using "2.IH"(3) by (cases owner) simp_all
  next
    case 4
    show ?case using "2.IH"(4) 4 by (cases owner) (simp_all add: parseSet_def SetOfStrings_def Un_assoc)
  }
qed simp_all

lemma creator_rows:
  assumes "(w, u) \<in> member_set st"
  shows "ListInvitationCreatorWorkspaceAccess st w u \<noteq> []"
    "(\<exists>x \<in> set (ListInvitationCreatorWorkspaceAccess st w u). fst x) \<longleftrightarrow> (\<exists>x \<in> held_roles st u w. role_IsOwnerRole x)"
    "(\<Union>x \<in> set (ListInvitationCreatorWorkspaceAccess st w u). set (snd x)) = (\<Union>x \<in> held_roles st u w. set (role_Permissions x))"
proof -
  let ?given = "filter (\<lambda>m. mr_workspace m = w \<and> mr_user m = u) (db_member_roles (rs_db st))"
  let ?row = "\<lambda>m. case find (\<lambda>r. role_ID r = mr_role m) (rs_roles st) of
      None \<Rightarrow> (False, []) | Some r \<Rightarrow> (role_IsOwnerRole r, role_Permissions r)"
  have rows: "ListInvitationCreatorWorkspaceAccess st w u = (if ?given = [] then [(False, [])] else map ?row ?given)"
    using assms by (simp add: ListInvitationCreatorWorkspaceAccess_def member_set_def Let_def)
  have held: "held_roles st u w = {r. \<exists>m \<in> set ?given. roleGet st (mr_role m) = Inr r}"
    by (force simp: held_roles_def held_set_def holdings_def mr_key_def)
  have own: "fst (?row m) \<longleftrightarrow> (\<exists>r. roleGet st (mr_role m) = Inr r \<and> role_IsOwnerRole r)" for m
    by (auto simp: roleGet_def toRole_def split: option.splits)
  have perms: "set (snd (?row m)) = \<Union> {set (role_Permissions r) |r. roleGet st (mr_role m) = Inr r}" for m
    by (auto simp: roleGet_def toRole_def parseSet_def SetOfStrings_def split: option.splits)
  show "ListInvitationCreatorWorkspaceAccess st w u \<noteq> []" unfolding rows by simp
  show "(\<exists>x \<in> set (ListInvitationCreatorWorkspaceAccess st w u). fst x) \<longleftrightarrow> (\<exists>x \<in> held_roles st u w. role_IsOwnerRole x)"
  proof (cases "?given = []")
    case True
    then show ?thesis unfolding rows held by simp
  next
    case False
    then have "(\<exists>x \<in> set (ListInvitationCreatorWorkspaceAccess st w u). fst x) \<longleftrightarrow> (\<exists>m \<in> set ?given. fst (?row m))"
      unfolding rows by (simp only: if_False set_map bex_simps)
    then show ?thesis unfolding held using own by blast
  qed
  show "(\<Union>x \<in> set (ListInvitationCreatorWorkspaceAccess st w u). set (snd x)) = (\<Union>x \<in> held_roles st u w. set (role_Permissions x))"
  proof (cases "?given = []")
    case True
    then show ?thesis unfolding rows held by simp
  next
    case False
    have "(\<Union>x \<in> set (map ?row ?given). set (snd x)) = (\<Union>m \<in> set ?given. set (snd (?row m)))" by simp
    also have "\<dots> = (\<Union>m \<in> set ?given. \<Union> {set (role_Permissions r) |r. roleGet st (mr_role m) = Inr r})" unfolding perms ..
    also have "\<dots> = (\<Union>x \<in> {r. \<exists>m \<in> set ?given. roleGet st (mr_role m) = Inr r}. set (role_Permissions x))" by blast
    finally show ?thesis unfolding rows held using False by (simp only: if_False)
  qed
qed

lemma creatorAccess_spec:
  "wa_member (creatorAccess st u w) \<longleftrightarrow> (w, u) \<in> member_set st"
  "wa_owner (creatorAccess st u w) \<longleftrightarrow> (w, u) \<in> member_set st \<and> (\<exists>x \<in> held_roles st u w. role_IsOwnerRole x)"
  "set_ok (wa_held (creatorAccess st u w))"
  "wa_member (creatorAccess st u w) \<Longrightarrow> \<not> wa_owner (creatorAccess st u w) \<Longrightarrow>
    set (wa_held (creatorAccess st u w)) = (\<Union>x \<in> held_roles st u w. set (role_Permissions x))"
proof -
  let ?rows = "ListInvitationCreatorWorkspaceAccess st w u"
  have none: "(w, u) \<notin> member_set st \<Longrightarrow> ?rows = []"
    by (simp add: ListInvitationCreatorWorkspaceAccess_def member_set_def)
  have Nil: "set_ok []" by simp
  note spec = creatorRoles_spec [OF Nil, of ?rows]
  show "wa_member (creatorAccess st u w) \<longleftrightarrow> (w, u) \<in> member_set st"
    using none creator_rows(1) [of w u st] spec(1) by (auto simp: creatorAccess_def Let_def)
  show "wa_owner (creatorAccess st u w) \<longleftrightarrow> (w, u) \<in> member_set st \<and> (\<exists>x \<in> held_roles st u w. role_IsOwnerRole x)"
    using none creator_rows(1,2) [of w u st] spec(2) by (auto simp: creatorAccess_def Let_def)
  show "set_ok (wa_held (creatorAccess st u w))" using spec(3) by (simp add: creatorAccess_def Let_def)
  show "set (wa_held (creatorAccess st u w)) = (\<Union>x \<in> held_roles st u w. set (role_Permissions x))"
    if "wa_member (creatorAccess st u w)" "\<not> wa_owner (creatorAccess st u w)"
    using that none creator_rows(1,3) [of w u st] spec(4) by (cases "?rows = []") (auto simp: creatorAccess_def Let_def)
qed

section \<open>A package that passes\<close>

lemma somes_set [simp]: "g \<in> set (somes gs) \<longleftrightarrow> Some g \<in> set gs"
  by (force simp: somes_def List.map_filter_def)

lemma somes_simps [simp]: "somes [] = []" "somes (None # gs) = somes gs" "somes (Some g # gs) = g # somes gs"
  "somes (map Some xs) = xs"
  by (simp_all add: somes_def List.map_filter_def comp_def)

lemma actorCanManage_spec: "actorCanManage st u gs \<longleftrightarrow> (\<forall>g \<in> set gs.
    let acc = creatorAccess st u (ig_WorkspaceID g) in wa_member acc \<and> (wa_owner acc \<or> Has (wa_held acc) MembersWrite))"
  by (induction gs) (auto simp: Let_def)

lemma packageHeld_spec: "packageHeld st u acts gs = Inr () \<longleftrightarrow> (\<forall>g \<in> set gs.
    wa_owner (creatorAccess st u (ig_WorkspaceID g)) \<or>
    RequireHeld (case map_of acts (ig_WorkspaceID g) of None \<Rightarrow> [] | Some a \<Rightarrow> a)
      (wa_held (creatorAccess st u (ig_WorkspaceID g))) = Inr ())"
  by (induction gs) (auto simp: Let_def bindr_Inr_iff)

lemma grantActions_loop_D:
  assumes "grantActions_loop st w acts is = Inr out"
  shows "set acts \<subseteq> set out \<and> (\<forall>i \<in> set is. \<exists>r. GetRoleForInvitationGrant st i w = Some r \<and> \<not> role_IsOwnerRole r \<and>
    set (role_Permissions r) \<subseteq> set out)"
  using assms
proof (induction "is" arbitrary: acts)
  case (Cons i "is")
  then obtain r where r: "GetRoleForInvitationGrant st i w = Some r" "\<not> role_IsOwnerRole r"
    "grantActions_loop st w (SetOf (acts @ parseSet (role_Permissions r))) is = Inr out"
    by (auto split: option.splits if_splits)
  then show ?case using Cons.IH [OF r(3)] by (auto simp: parseSet_def SetOfStrings_def)
qed simp

lemma packageActions_D:
  assumes "packageActions st acts gs = Inr out" "distinct (map fst acts)"
  shows "(\<forall>g \<in> set gs. g \<noteq> None) \<and> distinct (map fst acts @ map ig_WorkspaceID (somes gs)) \<and>
    (\<forall>w a. map_of acts w = Some a \<longrightarrow> map_of out w = Some a) \<and>
    (\<forall>g \<in> set (somes gs). ig_WorkspaceID g \<noteq> [] \<and> grantHeld g \<noteq> [] \<and>
      (\<exists>a. map_of out (ig_WorkspaceID g) = Some a \<and> invitationGrantActions st g = Inr a))"
  using assms
proof (induction gs arbitrary: acts)
  case (Cons x gs)
  then obtain g where x: "x = Some g" by (cases x) simp_all
  obtain a where a: "ig_WorkspaceID g \<noteq> []" "grantHeld g \<noteq> []" "ig_WorkspaceID g \<notin> set (map fst acts)"
    "invitationGrantActions st g = Inr a" "packageActions st ((ig_WorkspaceID g, a) # acts) gs = Inr out"
    using Cons.prems(1) x by (auto simp: bindr_Inr_iff split: if_splits)
  have d: "distinct (map fst ((ig_WorkspaceID g, a) # acts))" using a(3) Cons.prems(2) by simp
  note IH = Cons.IH [OF a(5) d]
  note IH1 = IH [THEN conjunct1] and IH2 = IH [THEN conjunct2, THEN conjunct1]
    and IH3 = IH [THEN conjunct2, THEN conjunct2, THEN conjunct1, rule_format]
    and IH4 = IH [THEN conjunct2, THEN conjunct2, THEN conjunct2]
  have new: "map_of out (ig_WorkspaceID g) = Some a" by (rule IH3) simp
  have old: "map_of out w = Some b" if "map_of acts w = Some b" for w b
  proof (rule IH3)
    have "w \<in> set (map fst acts)" using map_of_SomeD [OF that] by force
    then have "w \<noteq> ig_WorkspaceID g" using a(3) by metis
    then show "map_of ((ig_WorkspaceID g, a) # acts) w = Some b" using that by simp
  qed
  show ?case unfolding x somes_simps
  proof (intro conjI ballI allI impI)
    show "map_of out w = Some b" if "map_of acts w = Some b" for w b using old [OF that] .
    show "distinct (map fst acts @ map ig_WorkspaceID (g # somes gs))" using IH2 by auto
  next
    fix x assume "x \<in> set (Some g # gs)"
    then show "x \<noteq> None" using IH1 by auto
  next
    fix x assume "x \<in> set (g # somes gs)"
    then consider "x = g" | "x \<in> set (somes gs)" by auto
    then have "ig_WorkspaceID x \<noteq> [] \<and> grantHeld x \<noteq> [] \<and>
      (\<exists>b. map_of out (ig_WorkspaceID x) = Some b \<and> invitationGrantActions st x = Inr b)"
    proof cases
      case 1
      then show ?thesis using a(1,2,4) new by simp
    next
      case 2
      then show ?thesis using IH4 by (rule bspec [rotated])
    qed
    then show "ig_WorkspaceID x \<noteq> []" "grantHeld x \<noteq> []"
      "\<exists>b. map_of out (ig_WorkspaceID x) = Some b \<and> invitationGrantActions st x = Inr b" by blast+
  qed
qed simp

lemma GetRole_roleGet:
  assumes "GetRoleForInvitationGrant st i w = Some r" "tables_ok st"
  shows "roleGet st i = Inr (toRole r)" "role_WorkspaceID r = w" "role_ID r = i" "r \<in> set (rs_roles st)"
proof -
  show r: "role_WorkspaceID r = w" "role_ID r = i" "r \<in> set (rs_roles st)"
    using findSomeD [OF assms(1) [unfolded GetRoleForInvitationGrant_def]] by auto
  have "inj_on role_ID (set (rs_roles st))" using assms(2) by (simp add: tables_ok_def role_ids_def distinct_map)
  moreover obtain x where x: "find (\<lambda>r. role_ID r = i) (rs_roles st) = Some x"
    using r by (cases "find (\<lambda>r. role_ID r = i) (rs_roles st)") (auto simp: find_None_iff)
  ultimately have "x = r" using findSomeD [OF x] r by (auto dest: inj_onD)
  then show "roleGet st i = Inr (toRole r)" using x by (simp add: roleGet_def)
qed

lemma toRole_fields [simp]: "role_WorkspaceID (toRole r) = role_WorkspaceID r" "role_IsOwnerRole (toRole r) = role_IsOwnerRole r"
  "set (role_Permissions (toRole r)) = set (role_Permissions r)"
  by (simp_all add: toRole_def parseSet_def SetOfStrings_def)

lemma package_may_admit:
  assumes "validateInvitationPackage st x0 u = Inr ()" "tables_ok st"
  shows "(\<forall>g \<in> set (ivn_Grants x0). g \<noteq> None)" "distinct (map ig_WorkspaceID (somes (ivn_Grants x0)))" "ivn_Grants x0 \<noteq> []"
    "\<And>g. g \<in> set (somes (ivn_Grants x0)) \<Longrightarrow> grantHeld g \<noteq> [] \<and> (\<forall>i \<in> set (grantHeld g). may_admit st u (ig_WorkspaceID g) i)"
proof -
  obtain out where out: "ivn_Grants x0 \<noteq> []" "packageActions st [] (ivn_Grants x0) = Inr out"
    "actorCanManage st u (somes (ivn_Grants x0))" "packageHeld st u out (somes (ivn_Grants x0)) = Inr ()"
    using assms(1) by (auto simp: validateInvitationPackage_def bindr_Inr_iff split: if_splits)
  note D = packageActions_D [OF out(2), simplified]
  show "(\<forall>g \<in> set (ivn_Grants x0). g \<noteq> None)" "distinct (map ig_WorkspaceID (somes (ivn_Grants x0)))" "ivn_Grants x0 \<noteq> []"
    using D out(1) by auto
  fix g assume g: "g \<in> set (somes (ivn_Grants x0))"
  let ?w = "ig_WorkspaceID g"
  let ?acc = "creatorAccess st u ?w"
  obtain a where a: "grantHeld g \<noteq> []" "map_of out ?w = Some a" "invitationGrantActions st g = Inr a"
    using D g by (metis)
  have mem: "wa_member ?acc" "wa_owner ?acc \<or> Has (wa_held ?acc) MembersWrite"
    using out(3) g unfolding actorCanManage_spec Let_def by blast+
  have held: "wa_owner ?acc \<or> set a \<subseteq> set (wa_held ?acc)"
    using out(4) g a(2) creatorAccess_spec(3) [of st u ?w] unfolding packageHeld_spec
    by (fastforce simp: RequireHeld_def Let_def filter_empty_conv Has_iff split: if_splits)
  have "may_admit st u ?w i" if i: "i \<in> set (grantHeld g)" for i
  proof -
    obtain r where r: "GetRoleForInvitationGrant st i ?w = Some r" "\<not> role_IsOwnerRole r" "set (role_Permissions r) \<subseteq> set a"
      using grantActions_loop_D a(3) i by (fastforce simp: invitationGrantActions_def split: option.splits)
    note get = GetRole_roleGet [OF r(1) assms(2)]
    have "wa_owner ?acc \<or> (MembersWrite \<in> set (wa_held ?acc) \<and> set (role_Permissions r) \<subseteq> set (wa_held ?acc))"
      using mem(2) held r(3) creatorAccess_spec(3) [of st u ?w] by (auto simp: Has_iff)
    then show ?thesis
      using get r(2) mem(1) creatorAccess_spec [of st u ?w] unfolding may_admit_def by fastforce
  qed
  then show "grantHeld g \<noteq> [] \<and> (\<forall>i \<in> set (grantHeld g). may_admit st u ?w i)" using a(1) by blast
qed

section \<open>Reading what a link gives\<close>

definition grant_pairs :: "InvitationGrant list \<Rightarrow> (string \<times> string) set" where
  "grant_pairs gs = {(ig_WorkspaceID g, i) |g i. g \<in> set gs \<and> i \<in> set (grantHeld g)}"

lemma grant_pairs_simps [simp]: "grant_pairs [] = {}"
  "grant_pairs (g # gs) = Pair (ig_WorkspaceID g) ` set (grantHeld g) \<union> grant_pairs gs"
  "grant_pairs (gs @ hs) = grant_pairs gs \<union> grant_pairs hs"
  by (auto simp: grant_pairs_def)

lemma readGrants_D:
  assumes "readGrants st gs rows = Inr out" "\<forall>g \<in> set gs. ig_RoleIDs g \<noteq> []"
  shows "grant_pairs out = grant_pairs gs \<union> set rows \<and> (\<forall>g \<in> set out. ig_RoleIDs g \<noteq> [])"
  using assms
proof (induction rows arbitrary: gs)
  case (Cons row rows)
  obtain w i where row: "row = (w, i)" by (cases row)
  obtain r where r: "GetRoleForInvitationGrant st i w = Some r" using Cons.prems(1) row by (auto split: option.splits)
  show ?case
  proof (cases "gs \<noteq> [] \<and> ig_WorkspaceID (last gs) = w")
    case True
    let ?held = "\<lparr>tr_ID = role_ID r, tr_Name = role_Name r, tr_Description = role_Description r, tr_IsOwner = role_IsOwnerRole r\<rparr>"
    let ?g = "(last gs)\<lparr>ig_RoleIDs := ig_RoleIDs (last gs) @ [i], ig_Roles := ig_Roles (last gs) @ [?held]\<rparr>"
    have run: "readGrants st (butlast gs @ [?g]) rows = Inr out" using Cons.prems(1) row r True by (simp add: Let_def)
    have gs: "gs = butlast gs @ [last gs]" using True by simp
    have ne: "\<forall>g \<in> set (butlast gs @ [?g]). ig_RoleIDs g \<noteq> []" using Cons.prems(2) by (auto dest: in_set_butlastD)
    have "last gs \<in> set gs" using True by simp
    then have "ig_RoleIDs (last gs) \<noteq> []" using Cons.prems(2) by blast
    then have "grant_pairs [?g] = grant_pairs [last gs] \<union> {(w, i)}" using True by (auto simp: grantHeld_def)
    then have "grant_pairs (butlast gs @ [?g]) = grant_pairs (butlast gs @ [last gs]) \<union> {(w, i)}"
      unfolding grant_pairs_simps(3) by blast
    then show ?thesis using Cons.IH [OF run ne] gs row by simp
  next
    case False
    obtain space where space: "GetWorkspaceForInvitationGrant st w = Some space"
      using Cons.prems(1) row r False by (auto simp: Let_def split: option.splits if_splits)
    let ?g = "\<lparr>ig_WorkspaceID = w, ig_WorkspaceName = wsp_Name space, ig_RoleID = i, ig_RoleName = role_Name r,
      ig_RoleIDs = [i], ig_Roles = [\<lparr>tr_ID = role_ID r, tr_Name = role_Name r, tr_Description = role_Description r, tr_IsOwner = role_IsOwnerRole r\<rparr>],
      ig_Allow = [], ig_Deny = [], ig_EveryProject = [], ig_ProjectAccess = []\<rparr>"
    have run: "readGrants st (gs @ [?g]) rows = Inr out" using Cons.prems(1) row r False space by (auto simp: Let_def)
    have ne: "\<forall>g \<in> set (gs @ [?g]). ig_RoleIDs g \<noteq> []" using Cons.prems(2) by simp
    show ?thesis using Cons.IH [OF run ne] row by (simp add: grantHeld_def)
  qed
qed simp

lemma readInvitation_D:
  assumes "readInvitation ls row = Inr iv"
  shows "ivn_ID iv = ir_ID row" "ivn_InvitedBy iv = ir_InvitedBy row" "ivn_ExpiresAt iv = ir_ExpiresAt row"
    "ivn_RedeemedAt iv = ir_RedeemedAt row"
    "grant_pairs (somes (ivn_Grants iv)) = {(w, i). (ir_ID row, w, i) \<in> set (ls_grants ls)}"
proof -
  obtain gs where gs: "readGrants (ls_st ls) [] (ListInvitationGrantsByInvitation ls (ir_ID row)) = Inr gs"
    "iv = (invitationHeader row)\<lparr>ivn_Grants := map Some gs\<rparr>"
    using assms by (auto simp: readInvitation_def bindr_Inr_iff)
  then show "ivn_ID iv = ir_ID row" "ivn_InvitedBy iv = ir_InvitedBy row" "ivn_ExpiresAt iv = ir_ExpiresAt row"
    "ivn_RedeemedAt iv = ir_RedeemedAt row"
    by (simp_all add: invitationHeader_def)
  have "grant_pairs gs = set (ListInvitationGrantsByInvitation ls (ir_ID row))" using readGrants_D [OF gs(1)] by simp
  also have "\<dots> = {(w, i). (ir_ID row, w, i) \<in> set (ls_grants ls)}"
    by (force simp: ListInvitationGrantsByInvitation_def)
  finally show "grant_pairs (somes (ivn_Grants iv)) = {(w, i). (ir_ID row, w, i) \<in> set (ls_grants ls)}"
    using gs(2) by simp
qed

section \<open>Rows of links\<close>

text \<open>How a row may change: a redeemed row not at all, an open one only to an earlier end or to redeemed.\<close>

definition row_le :: "invitation_row \<Rightarrow> invitation_row \<Rightarrow> bool" where
  "row_le r r' \<longleftrightarrow> ir_ID r' = ir_ID r \<and> ir_TokenHash r' = ir_TokenHash r \<and> ir_InvitedBy r' = ir_InvitedBy r \<and>
     ir_CreatedAt r' = ir_CreatedAt r \<and> ir_ExpiresAt r' \<le> ir_ExpiresAt r \<and> (ir_RedeemedAt r \<noteq> None \<longrightarrow> r' = r)"

definition rows_le :: "link_store \<Rightarrow> link_store \<Rightarrow> bool" where
  "rows_le ls ls' \<longleftrightarrow> (\<forall>i r. GetInvitationByID ls i = Some r \<longrightarrow> (\<exists>r'. GetInvitationByID ls' i = Some r' \<and> row_le r r'))"

text \<open>A store of rows that only move one way, and can only become unusable: the contract of the table of links.\<close>

locale one_way =
  fixes row :: "'s \<Rightarrow> 'i \<Rightarrow> 'r option" and moves :: "'r \<Rightarrow> 'r \<Rightarrow> bool" and usable :: "time \<Rightarrow> 'r \<Rightarrow> bool"
  assumes moves_refl: "moves r r"
    and moves_trans: "moves r r' \<Longrightarrow> moves r' r'' \<Longrightarrow> moves r r''"
    and usable_back: "moves r r' \<Longrightarrow> usable now' r' \<Longrightarrow> now \<le> now' \<Longrightarrow> usable now r"
begin

lemma rows_kept_refl: "row a i = Some r \<Longrightarrow> \<exists>r'. row a i = Some r' \<and> moves r r'"
  using moves_refl by simp

lemma rows_kept_trans:
  assumes "\<forall>i r. row a i = Some r \<longrightarrow> (\<exists>r'. row b i = Some r' \<and> moves r r')"
    and "\<forall>i r. row b i = Some r \<longrightarrow> (\<exists>r'. row d i = Some r' \<and> moves r r')"
  shows "\<forall>i r. row a i = Some r \<longrightarrow> (\<exists>r'. row d i = Some r' \<and> moves r r')"
  using assms moves_trans by meson

lemma unusable_stays:
  assumes "\<forall>i r. row a i = Some r \<longrightarrow> (\<exists>r'. row b i = Some r' \<and> moves r r')"
    and "row a i = Some r" "\<not> usable now r" "now \<le> now'"
  shows "\<exists>r'. row b i = Some r' \<and> \<not> usable now' r'"
  using assms usable_back by meson

end

interpretation link_rows: one_way GetInvitationByID row_le link_open
proof
  show "row_le r r" for r by (simp add: row_le_def)
  show "row_le r r' \<Longrightarrow> row_le r' r'' \<Longrightarrow> row_le r r''" for r r' r'' unfolding row_le_def by fastforce
  show "row_le r r' \<Longrightarrow> link_open now' r' \<Longrightarrow> now \<le> now' \<Longrightarrow> link_open now r" for r r' now now'
    by (auto simp: row_le_def link_open_def)
qed

lemmas row_le_refl = link_rows.moves_refl
lemmas closed_stays = link_rows.unusable_stays [folded rows_le_def]

lemma rows_le_refl: "rows_le ls ls"
  unfolding rows_le_def using link_rows.rows_kept_refl by blast

lemma rows_le_trans: "rows_le a b \<Longrightarrow> rows_le b d \<Longrightarrow> rows_le a d"
  unfolding rows_le_def by (rule link_rows.rows_kept_trans)

lemma rows_le_same: "ls_invitations ls' = ls_invitations ls \<Longrightarrow> rows_le ls ls'"
  using row_le_refl by (simp add: rows_le_def GetInvitationByID_def)

lemma find_map_keep: "(\<And>r. P (f r) = P r) \<Longrightarrow> find P (map f xs) = map_option f (find P xs)"
  by (induction xs) auto

lemma GetInvitationByID_put:
  assumes "\<And>r. ir_ID (f r) = ir_ID r"
  shows "GetInvitationByID (put_invitation i f ls) j = (if j = i then map_option f (GetInvitationByID ls j) else GetInvitationByID ls j)"
proof -
  have "GetInvitationByID (put_invitation i f ls) j = map_option (\<lambda>r. if ir_ID r = i then f r else r) (GetInvitationByID ls j)"
    unfolding GetInvitationByID_def put_invitation_def using assms by (subst find_map_keep [symmetric]) auto
  moreover have "ir_ID r = j" if "GetInvitationByID ls j = Some r" for r
    using findSomeD [OF that [unfolded GetInvitationByID_def]] by simp
  ultimately show ?thesis by (cases "GetInvitationByID ls j") auto
qed

lemma GetInvitationByID_D: "GetInvitationByID ls i = Some r \<Longrightarrow> r \<in> set (ls_invitations ls) \<and> ir_ID r = i"
  unfolding GetInvitationByID_def by (rule findSomeD)

lemma put_invitation_sel [simp]:
  "ls_st (put_invitation i f ls) = ls_st ls" "ls_grants (put_invitation i f ls) = ls_grants ls"
  "ls_handoffs (put_invitation i f ls) = ls_handoffs ls" "ls_identities (put_invitation i f ls) = ls_identities ls"
  "ls_outbox (put_invitation i f ls) = ls_outbox ls"
  by (simp_all add: put_invitation_def)

lemma enqueue_sel [simp]:
  "ls_st (enqueueInvitationEvents evs ls) = ls_st ls" "ls_grants (enqueueInvitationEvents evs ls) = ls_grants ls"
  "ls_handoffs (enqueueInvitationEvents evs ls) = ls_handoffs ls" "ls_identities (enqueueInvitationEvents evs ls) = ls_identities ls"
  "ls_invitations (enqueueInvitationEvents evs ls) = ls_invitations ls"
  "ls_outbox (enqueueInvitationEvents evs ls) = ls_outbox ls @ evs"
  "GetInvitationByID (enqueueInvitationEvents evs ls) = GetInvitationByID ls"
  by (simp_all add: enqueueInvitationEvents_def GetInvitationByID_def fun_eq_iff)

definition end_row :: "time \<Rightarrow> invitation_row \<Rightarrow> invitation_row" where
  "end_row now r = (if link_open now r then r\<lparr>ir_ExpiresAt := now\<rparr> else r)"

lemma end_row_le: "row_le r (end_row now r)" "\<not> link_open now (end_row now r)" "ir_ID (end_row now r) = ir_ID r"
  "ir_TokenHash (end_row now r) = ir_TokenHash r"
  by (auto simp: end_row_def row_le_def link_open_def)

lemma EndInvitation_row: "EndInvitation now i = put_invitation i (end_row now)"
proof -
  have "(\<lambda>r. if link_open now r then r\<lparr>ir_ExpiresAt := now\<rparr> else r) = end_row now" by (simp add: end_row_def fun_eq_iff)
  then show ?thesis by (simp add: EndInvitation_def fun_eq_iff)
qed

section \<open>What ending links leaves\<close>

text \<open>Links ended: rows only move towards closed, nothing else changes but events of deletion or revocation.\<close>

fun redeems :: "invitation_outbox \<Rightarrow> string option" where
  "redeems (TopicInvitationRedeemed e) = Some (ie_InvitationID e)"
| "redeems _ = None"

definition redemptions :: "link_store \<Rightarrow> string \<Rightarrow> nat" where
  "redemptions ls i = length (filter (\<lambda>e. redeems e = Some i) (ls_outbox ls))"

definition ended_links :: "link_store \<Rightarrow> link_store \<Rightarrow> bool" where
  "ended_links ls ls' \<longleftrightarrow> rows_le ls ls' \<and> ls_st ls' = ls_st ls \<and> ls_grants ls' = ls_grants ls \<and>
     ls_handoffs ls' = ls_handoffs ls \<and> ls_identities ls' = ls_identities ls \<and> redemptions ls' = redemptions ls \<and>
     map ir_ID (ls_invitations ls') = map ir_ID (ls_invitations ls) \<and>
     map ir_TokenHash (ls_invitations ls') = map ir_TokenHash (ls_invitations ls)"

lemma ended_links_refl [simp]: "ended_links ls ls"
  by (simp add: ended_links_def rows_le_refl)

lemma ended_links_trans: "ended_links a b \<Longrightarrow> ended_links b d \<Longrightarrow> ended_links a d"
  using rows_le_trans by (fastforce simp: ended_links_def)

lemma put_end_links:
  "\<forall>e \<in> set evs. redeems e = None \<Longrightarrow> ended_links ls (enqueueInvitationEvents evs (put_invitation i (end_row now) ls))"
proof -
  assume evs: "\<forall>e \<in> set evs. redeems e = None"
  let ?ls = "put_invitation i (end_row now) ls"
  have "rows_le ls ?ls"
    unfolding rows_le_def
  proof (intro allI impI)
    fix j r assume "GetInvitationByID ls j = Some r"
    then show "\<exists>r'. GetInvitationByID ?ls j = Some r' \<and> row_le r r'"
      using end_row_le(1,3) by (auto simp: GetInvitationByID_put row_le_refl)
  qed
  moreover have "map ir_ID (ls_invitations ?ls) = map ir_ID (ls_invitations ls)"
    "map ir_TokenHash (ls_invitations ?ls) = map ir_TokenHash (ls_invitations ls)"
    using end_row_le(3,4) by (auto simp: put_invitation_def)
  ultimately show ?thesis using evs by (simp add: ended_links_def rows_le_def redemptions_def fun_eq_iff filter_empty_conv)
qed

lemma endInvitation_links: "ended_links ls (endInvitation i reason now ls)"
  using put_end_links [of "[TopicInvitationDeleted ((invitation_event i)\<lparr>ie_Reason := reason\<rparr>)]" ls i now]
  by (auto simp: endInvitation_def EndInvitation_row)

lemma endInvitation_closed: "GetInvitationByID (endInvitation i reason now ls) i = Some r \<Longrightarrow> \<not> link_open now r"
  using end_row_le(2) GetInvitationByID_D [of ls i r]
  by (auto simp: endInvitation_def EndInvitation_row GetInvitationByID_put end_row_le(3) list_ex_iff split: if_splits)

lemma GetByTokenHash_links:
  assumes "GetByTokenHash ls h now = (ls', r)"
  shows "ended_links ls ls'" "r = Inr iv \<Longrightarrow> ls' = ls"
  using assms endInvitation_links by (auto simp: GetByTokenHash_def split: if_splits option.splits sum.splits)

lemma AcceptanceFromToken_links: "AcceptanceFromToken s ls raw now = (ls', r) \<Longrightarrow> ended_links ls ls'"
  using GetByTokenHash_links(1) by (fastforce simp: AcceptanceFromToken_def split: sum.splits)

lemma Preview_links: "Preview s c ls raw now = (ls', r) \<Longrightarrow> ended_links ls ls'"
  using GetByTokenHash_links(1) by (fastforce simp: Preview_def split: sum.splits prod.splits)

lemma listLinks_links: "listLinks now rows ls = (ls', r) \<Longrightarrow> ended_links ls ls'"
proof (induction rows arbitrary: ls ls' r)
  case (Cons row rows)
  have step: "ended_links ls ls'" if "listLinks now rows (endInvitation i reason now ls) = (ls', r)" for i reason
    using Cons.IH [OF that] endInvitation_links ended_links_trans by blast
  show ?case
  proof (cases "readInvitation ls row")
    case (Inl e)
    then show ?thesis using Cons.prems step Cons.IH by (auto split: if_splits)
  next
    case (Inr iv)
    then show ?thesis using Cons.prems step Cons.IH by (auto split: if_splits sum.splits prod.splits)
  qed
qed simp

lemma ListInvitations_links: "ListInvitations ls actor now = (ls', r) \<Longrightarrow> ended_links ls ls'"
  using listLinks_links by (auto simp: ListInvitations_def ListOpen_def Let_def split: if_splits sum.splits prod.splits)

lemma RevokeInvitation_links: "RevokeInvitation ls actor i now = Inr ls' \<Longrightarrow> ended_links ls ls'"
  using endInvitation_links put_end_links
  by (auto simp: RevokeInvitation_def invitationRevoke_def revokeInvitationRow_def EndInvitation_row bindr_Inr_iff
      split: if_splits option.splits sum.splits)

section \<open>Admitting\<close>

lemma invitationRedeem_D:
  assumes "invitationRedeem ls h identity now = (ls', r)"
  shows "(ended_links ls ls' \<and> (\<forall>a. r = Inr a \<longrightarrow> \<not> iad_Created a \<and> ls' = ls)) \<or>
    (\<exists>handoff row iv a. GetOAuthHandoffByAcceptanceHash ls h = Some handoff \<and> ho_ExpiresAt handoff > now \<and>
      ho_Provider handoff = ii_Provider identity \<and> ho_ProviderUserID handoff = Some (ii_ProviderUserID identity) \<and>
      ho_CompletedAt handoff = None \<and> GetInvitationByID ls (ho_InvitationID handoff) = Some row \<and> link_open now row \<and>
      readInvitation ls row = Inr iv \<and> validateInvitationPackage (ls_st ls) iv (ir_InvitedBy row) = Inr () \<and>
      \<not> identityHasAccount ls identity \<and> admit ls h identity now iv = Inr (ls', a) \<and> r = Inr a \<and> iad_Created a)"
    (is "?ended \<or> ?made")
proof -
  let ?bad = "\<not> validTokenHash h \<or> ii_Provider identity = [] \<or> ii_ProviderUserID identity = [] \<or> ii_ID identity = [] \<or>
         ii_Login identity = []"
  note run = assms [unfolded invitationRedeem_def]
  show ?thesis
  proof (cases "?bad \<or> GetOAuthHandoffByAcceptanceHash ls h = None")
    case True
    then have ?ended using run by (auto split: if_splits option.splits)
    then show ?thesis ..
  next
    case False
    then obtain handoff where ho: "GetOAuthHandoffByAcceptanceHash ls h = Some handoff" and good: "\<not> ?bad" by auto
    let ?other = "ho_ExpiresAt handoff \<le> now \<or> ho_Provider handoff \<noteq> ii_Provider identity \<or>
             ho_ProviderUserID handoff \<noteq> Some (ii_ProviderUserID identity)"
    note run1 = run [unfolded if_not_P [OF good] ho option.case]
    show ?thesis
    proof (cases "?other \<or> ho_CompletedAt handoff \<noteq> None \<or> GetInvitationByID ls (ho_InvitationID handoff) = None")
      case True
      then have ?ended using run1 by (auto simp: replay_def split: if_splits option.splits)
      then show ?thesis ..
    next
      case False
      then obtain row where row: "GetInvitationByID ls (ho_InvitationID handoff) = Some row" and ok: "\<not> ?other" "ho_CompletedAt handoff = None"
        by auto
      have id: "ir_ID row = ho_InvitationID handoff" using GetInvitationByID_D [OF row] by simp
      note run2 = run1 [unfolded if_not_P [OF ok(1)] ok(2) row option.case, simplified]
      show ?thesis
      proof (cases "link_open now row")
        case False
        then have ?ended using run2 by (auto simp: link_open_def split: if_splits)
        then show ?thesis ..
      next
        case True
        then have live: "ir_RedeemedAt row = None" "(ir_ExpiresAt row \<le> now) = False" by (auto simp: link_open_def)
        note run3 = run2 [unfolded live, simplified]
        show ?thesis
        proof (cases "readInvitation ls row")
          case (Inl e)
          then have ?ended using run3 endInvitation_links by auto
          then show ?thesis ..
        next
          case (Inr iv)
          note iv = readInvitation_D(1,2) [OF Inr]
          note run4 = run3 [unfolded Inr sum.case iv]
          show ?thesis
          proof (cases "validateInvitationPackage (ls_st ls) iv (ir_InvitedBy row) = Inr () \<and> \<not> identityHasAccount ls identity \<and>
              okr (admit ls h identity now iv)")
            case False
            then have ?ended using run4 endInvitation_links by (auto split: sum.splits if_splits)
            then show ?thesis ..
          next
            case True
            then obtain l a where a: "admit ls h identity now iv = Inr (l, a)" by (auto simp: okr_def)
            then have "iad_Created a" by (auto simp: admit_def Let_def bindr_Inr_iff)
            moreover have "l = ls'" "r = Inr a" using run4 True a by (auto split: if_splits)
            ultimately show ?thesis using ho ok row \<open>link_open now row\<close> Inr True a by auto
          qed
        qed
      qed
    qed
  qed
qed

text \<open>The members and roles an admission adds.\<close>

lemma AddInvitationMember_D:
  assumes "AddInvitationMember u w now st = Inr st'"
  shows "same_roles st st'" "holdings st' = holdings st" "member_set st' = insert (w, u) (member_set st)"
    "distinct (db_members (rs_db st)) \<Longrightarrow> distinct (db_members (rs_db st'))" "rs_invites st' = rs_invites st"
    "db_overwrites (rs_db st') = db_overwrites (rs_db st)" "db_users (rs_db st') = db_users (rs_db st)"
  using assms
  by (auto simp: AddInvitationMember_def Let_def same_roles_def holdings_def member_set_def split: if_splits)

lemma admit_one:
  assumes "AddInvitationMember u w now st = Inr st1" "addMemberRoles w u now is st1 = Inr st2"
  shows "same_roles st st2" "held_set st2 = held_set st \<union> (\<lambda>i. (w, u, i)) ` set is" "member_set st2 = insert (w, u) (member_set st)"
    "(\<forall>i \<in> set is. space_of st i = Some w) \<Longrightarrow> tenancy_ok st \<Longrightarrow> tenancy_ok st2"
proof -
  note A = AddInvitationMember_D [OF assms(1)] and rows = addMemberRoles_rows [OF assms(2)]
  show same: "same_roles st st2"
    unfolding rows by (rule same_roles_trans [OF A(1)]) simp
  have h: "holdings st2 = holdings st @ map (\<lambda>i. (w, u, i)) is"
    unfolding rows with_rows_holdings using A(2) by (simp add: holdings_def)
  then show held: "held_set st2 = held_set st \<union> (\<lambda>i. (w, u, i)) ` set is" by (simp add: held_set_def)
  show mem: "member_set st2 = insert (w, u) (member_set st)" unfolding rows using A(3) by (simp add: member_set_def)
  assume space: "\<forall>i \<in> set is. space_of st i = Some w" and ok: "tenancy_ok st"
  have "distinct (holdings st) \<Longrightarrow> distinct (holdings st2)" using addMemberRoles_distinct [OF assms(2)] A(2) by simp
  moreover have "mr.named st \<Longrightarrow> mr.named st2" unfolding mr.named_def held mem by auto
  ultimately have "member_frame st st2"
    using A(4-6) unfolding member_frame_def rows by simp
  then show "tenancy_ok st2"
  proof (rule tenancy_ok_frame [OF ok same])
    show "space_of st i = Some w'" if "(w', u', i) \<in> held_set st2" "(w', u', i) \<notin> held_set st" for w' u' i
      using that space unfolding held by auto
    show "space_of st (inv_RoleID x) = Some (inv_WorkspaceID x)" if "x \<in> set (rs_invites st2)" "x \<notin> set (rs_invites st)" for x
      using that A(5) unfolding rows by simp
  qed
qed

lemma admitGrants_D:
  assumes "admitGrants i u now gs st = Inr (st', evs)"
  shows "same_roles st st' \<and> held_set st' = held_set st \<union> {(w, u, r) |w r. (w, r) \<in> grant_pairs gs} \<and>
    member_set st' = member_set st \<union> (\<lambda>g. (ig_WorkspaceID g, u)) ` set gs \<and>
    ((\<forall>(w, r) \<in> grant_pairs gs. space_of st r = Some w) \<longrightarrow> tenancy_ok st \<longrightarrow> tenancy_ok st') \<and>
    (\<forall>e \<in> set evs. redeems e = None)"
  using assms
proof (induction gs arbitrary: st evs)
  case Nil
  then show ?case by simp
next
  case (Cons g gs)
  obtain st1 st2 evs2 where run: "AddInvitationMember u (ig_WorkspaceID g) now st = Inr st1"
    "addMemberRoles (ig_WorkspaceID g) u now (grantHeld g) st1 = Inr st2" "admitGrants i u now gs st2 = Inr (st', evs2)"
    "evs = TopicInvitedMemberAdded ((invitation_event i)\<lparr>ie_UserID := u, ie_WorkspaceID := ig_WorkspaceID g,
              ie_RoleIDsAdded := grantHeld g\<rparr>) # evs2"
    using Cons.prems by (auto simp: bindr_Inr_iff)
  note one = admit_one [OF run(1,2)] and IH = Cons.IH [OF run(3)]
  note IH1 = IH [THEN conjunct1] and IH2 = IH [THEN conjunct2, THEN conjunct1]
    and IH3 = IH [THEN conjunct2, THEN conjunct2, THEN conjunct1]
    and IH4 = IH [THEN conjunct2, THEN conjunct2, THEN conjunct2, THEN conjunct1]
    and IH5 = IH [THEN conjunct2, THEN conjunct2, THEN conjunct2, THEN conjunct2]
  have "same_roles st st'" using one(1) IH1 by (rule same_roles_trans)
  moreover have "held_set st' = held_set st \<union> {(w, u, r) |w r. (w, r) \<in> grant_pairs (g # gs)}"
    unfolding IH2 one(2) grant_pairs_simps by blast
  moreover have "member_set st' = member_set st \<union> (\<lambda>g. (ig_WorkspaceID g, u)) ` set (g # gs)"
    unfolding IH3 one(3) by simp
  moreover have "tenancy_ok st'" if a: "\<forall>(w, r) \<in> grant_pairs (g # gs). space_of st r = Some w" and "tenancy_ok st"
  proof -
    have "\<forall>i \<in> set (grantHeld g). space_of st i = Some (ig_WorkspaceID g)" using a by (auto simp: grant_pairs_simps)
    then have "tenancy_ok st2" using one(4) \<open>tenancy_ok st\<close> by blast
    moreover have "\<forall>(w, r) \<in> grant_pairs gs. space_of st2 r = Some w"
      using a unfolding same_roles_reads(5) [OF one(1)] grant_pairs_simps by blast
    ultimately show ?thesis using IH4 by blast
  qed
  moreover have "\<forall>e \<in> set evs. redeems e = None" using IH5 unfolding run(4) by simp
  ultimately show ?case by blast
qed

lemma insertInvitationUser_D:
  assumes "insertInvitationUser ls identity now = Inr ls'"
  shows "ls_st ls' = (ls_st ls)\<lparr>rs_db := (rs_db (ls_st ls))\<lparr>db_users := db_users (rs_db (ls_st ls)) @ [ii_ID identity],
      db_active := db_active (rs_db (ls_st ls)) @ [ii_ID identity]\<rparr>\<rparr>"
    "ii_ID identity \<notin> set (db_users (rs_db (ls_st ls)))"
    "ls_invitations ls' = ls_invitations ls" "ls_grants ls' = ls_grants ls" "ls_handoffs ls' = ls_handoffs ls"
    "ls_outbox ls' = ls_outbox ls"
    "\<exists>r. ls_identities ls' = ls_identities ls @ [r] \<and> ui_UserID r = ii_ID identity \<and> ui_Provider r = ii_Provider identity \<and>
      ui_ProviderUserID r = ii_ProviderUserID identity"
    "\<forall>r \<in> set (ls_identities ls). (ui_Provider r, ui_ProviderUserID r) \<noteq> (ii_Provider identity, ii_ProviderUserID identity)"
  using assms
  by (auto simp: insertInvitationUser_def insertUserWithIdentity_def InsertUser_def insertIdentity_def claimTicketPeople_def
      Let_def bindr_Inr_iff list_ex_iff split: if_splits)

lemma redemptions_snoc: "ls_outbox ls' = ls_outbox ls @ evs \<Longrightarrow>
    redemptions ls' i = redemptions ls i + length (filter (\<lambda>e. redeems e = Some i) evs)"
  by (simp add: redemptions_def)

definition spent :: "time \<Rightarrow> string \<Rightarrow> invitation_row \<Rightarrow> invitation_row" where
  "spent now u r = r\<lparr>ir_RedeemedAt := Some now, ir_RedeemedBy := Some u\<rparr>"

lemma spent_row: "link_open now r \<Longrightarrow> row_le r (spent now u r)" "\<not> link_open at (spent now u r)"
  by (simp_all add: spent_def row_le_def link_open_def)

text \<open>What an admission does: the link is spent, one account with the identity is made, and it gets what the link gives.\<close>

lemma admit_D:
  assumes "admit ls h identity now iv = Inr (ls', a)" "GetInvitationByID ls (ivn_ID iv) = Some row" "link_open now row"
  defines "u \<equiv> ii_ID identity" and "i \<equiv> ivn_ID iv" and "gs \<equiv> somes (ivn_Grants iv)"
  shows "GetInvitationByID ls' = (GetInvitationByID ls)(i \<mapsto> spent now u row)" "ls_grants ls' = ls_grants ls"
    "map ir_ID (ls_invitations ls') = map ir_ID (ls_invitations ls)"
    "map ir_TokenHash (ls_invitations ls') = map ir_TokenHash (ls_invitations ls)"
    "redemptions ls' = (redemptions ls)(i := redemptions ls i + 1)"
    "same_roles (ls_st ls) (ls_st ls')"
    "held_set (ls_st ls') = held_set (ls_st ls) \<union> {(w, u, r) |w r. (w, r) \<in> grant_pairs gs}"
    "member_set (ls_st ls') = member_set (ls_st ls) \<union> (\<lambda>g. (ig_WorkspaceID g, u)) ` set gs"
    "\<forall>(w, r) \<in> grant_pairs gs. space_of (ls_st ls) r = Some w \<Longrightarrow> tenancy_ok (ls_st ls) \<Longrightarrow> tenancy_ok (ls_st ls')"
    "u \<notin> set (db_users (rs_db (ls_st ls)))"
    "\<exists>r. ls_identities ls' = ls_identities ls @ [r] \<and> ui_UserID r = u \<and> ui_Provider r = ii_Provider identity \<and>
      ui_ProviderUserID r = ii_ProviderUserID identity"
    "\<forall>r \<in> set (ls_identities ls). (ui_Provider r, ui_ProviderUserID r) \<noteq> (ii_Provider identity, ii_ProviderUserID identity)"
    "ls_handoffs ls' = map (\<lambda>r. if handoff_waits h now r then r\<lparr>ho_AdmittedUserID := Some u, ho_CompletedAt := Some now\<rparr> else r)
      (ls_handoffs ls)"
    "a = \<lparr>iad_UserID = u, iad_Created = True\<rparr>"
proof -
  obtain l1 l2 st evs l3 where run: "MarkInvitationRedeemed now i ls = Inr l1" "insertInvitationUser l1 identity now = Inr l2"
    "admitGrants i u now gs (ls_st l2) = Inr (st, evs)"
    "CompleteOAuthHandoffRedemption u now h (SetInvitationRedeemedBy u i (l2\<lparr>ls_st := st\<rparr>)) = Inr l3"
    "ls' = enqueueInvitationEvents ([TopicInvitationRedeemed ((invitation_event i)\<lparr>ie_UserID := u\<rparr>),
       TopicAccountAdmitted ((invitation_event i)\<lparr>ie_UserID := u\<rparr>)] @ evs) l3"
    "a = \<lparr>iad_UserID = u, iad_Created = True\<rparr>"
    using assms(1) by (auto simp: admit_def Let_def bindr_Inr_iff u_def i_def gs_def)
  let ?f = "\<lambda>r. if link_open now r then r\<lparr>ir_RedeemedAt := Some now, ir_RedeemedBy := None\<rparr> else r"
  let ?g = "\<lambda>r. if ir_RedeemedAt r \<noteq> None then r\<lparr>ir_RedeemedBy := Some u\<rparr> else r"
  have l1: "l1 = put_invitation i ?f ls" and ex: "list_ex (\<lambda>r. ir_ID r = i \<and> link_open now r) (ls_invitations ls)"
    using run(1) by (auto simp: MarkInvitationRedeemed_def split: if_splits)
  note I = insertInvitationUser_D [OF run(2), folded u_def]
  note A = admitGrants_D [OF run(3)]
  note A1 = A [THEN conjunct1] and A2 = A [THEN conjunct2, THEN conjunct1] and A3 = A [THEN conjunct2, THEN conjunct2, THEN conjunct1]
    and A4 = A [THEN conjunct2, THEN conjunct2, THEN conjunct2, THEN conjunct1]
    and A5 = A [THEN conjunct2, THEN conjunct2, THEN conjunct2, THEN conjunct2]
  have l3: "ls_st l3 = st" "ls_grants l3 = ls_grants l2" "ls_identities l3 = ls_identities l2" "ls_outbox l3 = ls_outbox l2"
    "ls_invitations l3 = ls_invitations (put_invitation i ?g l2)" "GetInvitationByID l3 = GetInvitationByID (put_invitation i ?g l2)"
    "ls_handoffs l3 = map (\<lambda>r. if handoff_waits h now r then r\<lparr>ho_AdmittedUserID := Some u, ho_CompletedAt := Some now\<rparr> else r) (ls_handoffs l2)"
    using run(4) by (auto simp: CompleteOAuthHandoffRedemption_def SetInvitationRedeemedBy_def GetInvitationByID_def put_invitation_def
        fun_eq_iff split: if_splits)
  have keep: "ir_ID (?f r) = ir_ID r" "ir_ID (?g r) = ir_ID r" "ir_TokenHash (?f r) = ir_TokenHash r" "ir_TokenHash (?g r) = ir_TokenHash r" for r
    by simp_all
  show "map ir_ID (ls_invitations ls') = map ir_ID (ls_invitations ls)"
    "map ir_TokenHash (ls_invitations ls') = map ir_TokenHash (ls_invitations ls)"
    unfolding run(5) enqueue_sel l3(5) put_invitation_def l1 I(3) by (auto simp: I(3) l1 put_invitation_def)
  have get: "GetInvitationByID ls' j = (if j = i then map_option (?g \<circ> ?f) (GetInvitationByID ls j) else GetInvitationByID ls j)" for j
  proof -
    have "GetInvitationByID l2 = GetInvitationByID l1" using I(3) by (simp add: GetInvitationByID_def fun_eq_iff)
    then show ?thesis unfolding run(5) enqueue_sel l3(6)
      by (simp only: GetInvitationByID_put [OF keep(2)] GetInvitationByID_put [OF keep(1)] l1 option.map_comp split: if_split) simp
  qed
  show "GetInvitationByID ls' = (GetInvitationByID ls)(i \<mapsto> spent now u row)"
    using get assms(2,3) by (auto simp: fun_eq_iff i_def spent_def)
  show "ls_grants ls' = ls_grants ls" unfolding run(5) enqueue_sel l3(2) I(4) l1 by simp
  have out: "ls_outbox ls' = ls_outbox ls @ [TopicInvitationRedeemed ((invitation_event i)\<lparr>ie_UserID := u\<rparr>),
       TopicAccountAdmitted ((invitation_event i)\<lparr>ie_UserID := u\<rparr>)] @ evs"
    unfolding run(5) enqueue_sel l3(4) I(6) l1 by simp
  have none: "filter (\<lambda>e. redeems e = Some j) evs = []" for j using A5 by (auto simp: filter_empty_conv)
  show "redemptions ls' = (redemptions ls)(i := redemptions ls i + 1)"
  proof
    fix j
    show "redemptions ls' j = ((redemptions ls)(i := redemptions ls i + 1)) j"
      unfolding redemptions_snoc [OF out] filter_append none by (simp add: invitation_event_def)
  qed
  have st: "ls_st ls' = st" unfolding run(5) enqueue_sel l3(1) ..
  have st1: "ls_st l1 = ls_st ls" unfolding l1 by simp
  have same: "same_roles (ls_st ls) (ls_st l2)" unfolding I(1) st1 by (simp add: same_roles_def)
  have reads: "held_set (ls_st l2) = held_set (ls_st ls)" "member_set (ls_st l2) = member_set (ls_st ls)"
    unfolding I(1) st1 by (simp_all add: held_set_def holdings_def member_set_def)
  show "same_roles (ls_st ls) (ls_st ls')" unfolding st by (rule same_roles_trans [OF same A1])
  show "held_set (ls_st ls') = held_set (ls_st ls) \<union> {(w, u, r) |w r. (w, r) \<in> grant_pairs gs}"
    "member_set (ls_st ls') = member_set (ls_st ls) \<union> (\<lambda>g. (ig_WorkspaceID g, u)) ` set gs"
    unfolding st A2 A3 reads by (rule refl)+
  show "tenancy_ok (ls_st ls')" if "\<forall>(w, r) \<in> grant_pairs gs. space_of (ls_st ls) r = Some w" "tenancy_ok (ls_st ls)"
  proof -
    have "tenancy_ok (ls_st l2)"
    proof (rule tenancy_ok_frame [OF that(2) same])
      show "member_frame (ls_st ls) (ls_st l2)"
        unfolding member_frame_def mr.named_def reads by (simp add: I(1) st1 holdings_def)
      show "space_of (ls_st ls) j = Some w" if "(w, v, j) \<in> held_set (ls_st l2)" "(w, v, j) \<notin> held_set (ls_st ls)" for w v j
        using that unfolding reads by simp
      show "space_of (ls_st ls) (inv_RoleID x) = Some (inv_WorkspaceID x)"
        if "x \<in> set (rs_invites (ls_st l2))" "x \<notin> set (rs_invites (ls_st ls))" for x
        using that unfolding I(1) st1 by simp
    qed
    then show ?thesis unfolding st by (rule A4 [unfolded same_roles_reads(5) [OF same], THEN mp, OF that(1), THEN mp])
  qed
  show "u \<notin> set (db_users (rs_db (ls_st ls)))" using I(2) unfolding st1 .
  have ids: "ls_identities l1 = ls_identities ls" "ls_handoffs l1 = ls_handoffs ls" unfolding l1 by simp_all
  show "\<exists>r. ls_identities ls' = ls_identities ls @ [r] \<and> ui_UserID r = u \<and> ui_Provider r = ii_Provider identity \<and>
      ui_ProviderUserID r = ii_ProviderUserID identity"
    unfolding run(5) enqueue_sel l3(3) using I(7) unfolding ids .
  show "\<forall>r \<in> set (ls_identities ls). (ui_Provider r, ui_ProviderUserID r) \<noteq> (ii_Provider identity, ii_ProviderUserID identity)"
    using I(8) unfolding ids .
  show "ls_handoffs ls' = map (\<lambda>r. if handoff_waits h now r then r\<lparr>ho_AdmittedUserID := Some u, ho_CompletedAt := Some now\<rparr> else r)
      (ls_handoffs ls)" unfolding run(5) enqueue_sel l3(7) I(5) ids ..
  show "a = \<lparr>iad_UserID = u, iad_Created = True\<rparr>" by (fact run(6))
qed

section \<open>The invariant of the links\<close>

text \<open>Ids and token hashes are unique, an identity is one account's, the tables of roles and members are well formed, and a
  link has as many redemptions recorded as it was spent: one or none.\<close>

definition times_spent :: "link_store \<Rightarrow> string \<Rightarrow> nat" where
  "times_spent ls i =
     (case GetInvitationByID ls i of None \<Rightarrow> 0 | Some r \<Rightarrow> if ir_RedeemedAt r = None then 0 else 1)"

definition links_ok :: "link_store \<Rightarrow> bool" where
  "links_ok ls \<longleftrightarrow> workspaces_ok (ls_st ls) \<and> distinct (map ir_ID (ls_invitations ls)) \<and>
     distinct (map ir_TokenHash (ls_invitations ls)) \<and>
     distinct (map (\<lambda>r. (ui_Provider r, ui_ProviderUserID r)) (ls_identities ls)) \<and>
     list_all (\<lambda>i. redemptions ls i \<le> times_spent ls i) (List.map_filter redeems (ls_outbox ls))"

lemma redemptions_bound:
  "list_all (\<lambda>i. redemptions ls i \<le> times_spent ls i) (List.map_filter redeems (ls_outbox ls)) \<longleftrightarrow>
     (\<forall>i. redemptions ls i \<le> times_spent ls i)"
proof
  assume a: "list_all (\<lambda>i. redemptions ls i \<le> times_spent ls i) (List.map_filter redeems (ls_outbox ls))"
  show "\<forall>i. redemptions ls i \<le> times_spent ls i"
  proof
    fix i
    show "redemptions ls i \<le> times_spent ls i"
    proof (cases "\<exists>e \<in> set (ls_outbox ls). redeems e = Some i")
      case True
      then have "i \<in> set (List.map_filter redeems (ls_outbox ls))" by (force simp: List.map_filter_def)
      then show ?thesis using a by (simp add: list_all_iff)
    next
      case False
      then have "filter (\<lambda>e. redeems e = Some i) (ls_outbox ls) = []" by (auto simp: filter_empty_conv)
      then show ?thesis by (simp add: redemptions_def)
    qed
  qed
qed (simp add: list_all_iff)

lemma times_spent_le: "times_spent ls i \<le> 1"
  by (simp add: times_spent_def split: option.splits)

definition calm :: "link_store \<Rightarrow> link_store \<Rightarrow> bool" where
  "calm ls ls' \<longleftrightarrow> rows_le ls ls' \<and> ls_st ls' = ls_st ls \<and> ls_identities ls' = ls_identities ls \<and>
     redemptions ls' = redemptions ls \<and> map ir_ID (ls_invitations ls') = map ir_ID (ls_invitations ls) \<and>
     map ir_TokenHash (ls_invitations ls') = map ir_TokenHash (ls_invitations ls)"

lemma calm_ended: "ended_links ls ls' \<Longrightarrow> calm ls ls'"
  by (simp add: calm_def ended_links_def)

lemma calm_trans: "calm a b \<Longrightarrow> calm b d \<Longrightarrow> calm a d"
  using rows_le_trans by (fastforce simp: calm_def)

lemma calm_handoffs: "calm ls (ls\<lparr>ls_handoffs := hs\<rparr>)"
  by (simp add: calm_def rows_le_same redemptions_def fun_eq_iff)

lemma GetInvitationByID_None: "GetInvitationByID ls i = None \<longleftrightarrow> i \<notin> set (map ir_ID (ls_invitations ls))"
  by (auto simp: GetInvitationByID_def find_None_iff)

lemma calm_ok:
  assumes "calm ls ls'" "links_ok ls"
  shows "links_ok ls'"
proof -
  have "times_spent ls i \<le> times_spent ls' i" for i
  proof (cases "GetInvitationByID ls i")
    case (Some r)
    then obtain r' where "GetInvitationByID ls' i = Some r'" "row_le r r'" using assms(1) by (auto simp: calm_def rows_le_def)
    then show ?thesis using Some by (auto simp: row_le_def times_spent_def)
  qed (simp add: times_spent_def)
  then have "\<forall>i. redemptions ls' i \<le> times_spent ls' i"
    using assms le_trans unfolding links_ok_def calm_def redemptions_bound by metis
  then show ?thesis using assms unfolding links_ok_def calm_def redemptions_bound by metis
qed

section \<open>Every step keeps the invariant\<close>

lemma insertGrants_D:
  assumes "insertGrants i rows ls = Inr ls'"
  shows "ls_grants ls' = ls_grants ls @ map (Pair i) rows \<and> ls_st ls' = ls_st ls \<and> ls_invitations ls' = ls_invitations ls \<and>
    ls_identities ls' = ls_identities ls \<and> ls_outbox ls' = ls_outbox ls \<and> ls_handoffs ls' = ls_handoffs ls"
  using assms by (induction i rows ls rule: insertGrants.induct) (auto split: if_splits)

definition invitation_row_of :: "Invitation \<Rightarrow> string \<Rightarrow> invitation_row" where
  "invitation_row_of iv h = \<lparr>ir_ID = ivn_ID iv, ir_TokenHash = h, ir_InvitedBy = ivn_InvitedBy iv,
     ir_CreatedAt = ivn_CreatedAt iv, ir_ExpiresAt = ivn_ExpiresAt iv, ir_RedeemedAt = None, ir_RedeemedBy = None\<rparr>"

lemma invitationCreate_D:
  assumes "invitationCreate ls iv h evs = Inr ls'"
  shows "validTokenHash h" "validInvitationLifetime (ivn_CreatedAt iv) (ivn_ExpiresAt iv)"
    "validateInvitationPackage (ls_st ls) iv (ivn_InvitedBy iv) = Inr ()"
    "ivn_ID iv \<notin> set (map ir_ID (ls_invitations ls))" "h \<notin> set (map ir_TokenHash (ls_invitations ls))"
    "ls_invitations ls' = ls_invitations ls @ [invitation_row_of iv h]" "ls_st ls' = ls_st ls" "ls_identities ls' = ls_identities ls"
    "ls_grants ls' = ls_grants ls @ map (Pair (ivn_ID iv)) (grant_rows (somes (ivn_Grants iv)))"
    "ls_outbox ls' = ls_outbox ls @ evs" "ls_handoffs ls' = ls_handoffs ls"
proof -
  let ?l1 = "ls\<lparr>ls_invitations := ls_invitations ls @ [invitation_row_of iv h]\<rparr>"
  have a: "validTokenHash h" "validInvitationLifetime (ivn_CreatedAt iv) (ivn_ExpiresAt iv)"
    "validateInvitationPackage (ls_st ls) iv (ivn_InvitedBy iv) = Inr ()"
    "ivn_ID iv \<notin> set (map ir_ID (ls_invitations ls))" "h \<notin> set (map ir_TokenHash (ls_invitations ls))"
    using assms by (auto simp: invitationCreate_def insertInvitation_def bindr_Inr_iff split: if_splits)
  then show "validTokenHash h" "validInvitationLifetime (ivn_CreatedAt iv) (ivn_ExpiresAt iv)"
    "validateInvitationPackage (ls_st ls) iv (ivn_InvitedBy iv) = Inr ()"
    "ivn_ID iv \<notin> set (map ir_ID (ls_invitations ls))" "h \<notin> set (map ir_TokenHash (ls_invitations ls))" .
  obtain l2 where l2: "insertGrants (ivn_ID iv) (grant_rows (somes (ivn_Grants iv))) ?l1 = Inr l2"
    "ls' = enqueueInvitationEvents evs l2"
    using assms by (auto simp: invitationCreate_def insertInvitation_def invitation_row_of_def bindr_Inr_iff split: if_splits)
  note D = insertGrants_D [OF l2(1)]
  show "ls_invitations ls' = ls_invitations ls @ [invitation_row_of iv h]" "ls_st ls' = ls_st ls" "ls_identities ls' = ls_identities ls"
    "ls_grants ls' = ls_grants ls @ map (Pair (ivn_ID iv)) (grant_rows (somes (ivn_Grants iv)))"
    "ls_outbox ls' = ls_outbox ls @ evs" "ls_handoffs ls' = ls_handoffs ls"
    unfolding l2(2) using D by simp_all
qed

lemma find_snoc: "find P (xs @ [x]) = (case find P xs of None \<Rightarrow> if P x then Some x else None | Some y \<Rightarrow> Some y)"
  by (induction xs) auto

lemma GetInvitationByID_snoc:
  assumes "ls_invitations ls' = ls_invitations ls @ [r]" "ir_ID r \<notin> set (map ir_ID (ls_invitations ls))"
  shows "GetInvitationByID ls' = (GetInvitationByID ls)(ir_ID r \<mapsto> r)"
proof
  fix i
  have new: "GetInvitationByID ls (ir_ID r) = None" using assms(2) unfolding GetInvitationByID_None .
  have "GetInvitationByID ls' i = (case GetInvitationByID ls i of None \<Rightarrow> if ir_ID r = i then Some r else None | Some y \<Rightarrow> Some y)"
    unfolding GetInvitationByID_def assms(1) by (rule find_snoc)
  then show "GetInvitationByID ls' i = ((GetInvitationByID ls)(ir_ID r \<mapsto> r)) i"
    using new by (auto split: option.splits)
qed

lemma created_ok:
  assumes "invitationCreate ls iv h evs = Inr ls'" "\<forall>e \<in> set evs. redeems e = None"
  shows "rows_le ls ls'" "links_ok ls \<Longrightarrow> links_ok ls'"
proof -
  note D = invitationCreate_D [OF assms(1)]
  have id: "ir_ID (invitation_row_of iv h) = ivn_ID iv" "ir_TokenHash (invitation_row_of iv h) = h"
    "ir_RedeemedAt (invitation_row_of iv h) = None" by (simp_all add: invitation_row_of_def)
  have get: "GetInvitationByID ls' = (GetInvitationByID ls)(ivn_ID iv \<mapsto> invitation_row_of iv h)"
    using GetInvitationByID_snoc [OF D(6)] D(4) unfolding id by blast
  have new: "GetInvitationByID ls (ivn_ID iv) = None" using D(4) unfolding GetInvitationByID_None .
  show rows: "rows_le ls ls'" unfolding rows_le_def get using new row_le_refl by auto
  show "links_ok ls'" if "links_ok ls"
  proof -
    have "redemptions ls' i = redemptions ls i" for i
    proof -
      have "filter (\<lambda>e. redeems e = Some i) evs = []" using assms(2) by (auto simp: filter_empty_conv)
      then show ?thesis using redemptions_snoc [OF D(10)] by simp
    qed
    moreover have "times_spent ls i \<le> times_spent ls' i" for i
      using new by (auto simp: times_spent_def get id split: option.splits)
    moreover have "\<forall>i. redemptions ls i \<le> times_spent ls i" using that unfolding links_ok_def redemptions_bound by blast
    ultimately have "\<forall>i. redemptions ls' i \<le> times_spent ls' i" by (metis le_trans)
    then show ?thesis using that D(4,5) unfolding links_ok_def redemptions_bound D(6,7,8) by (simp add: id)
  qed
qed

lemma admitted_ok:
  assumes "admit ls h identity now iv = Inr (ls', a)" "readInvitation ls row = Inr iv" "link_open now row"
    and "GetInvitationByID ls i = Some row" "validateInvitationPackage (ls_st ls) iv (ir_InvitedBy row) = Inr ()" "links_ok ls"
  shows "rows_le ls ls'" "links_ok ls'"
proof -
  note R = readInvitation_D [OF assms(2)]
  have i: "ir_ID row = i" using GetInvitationByID_D [OF assms(4)] by simp
  have get: "GetInvitationByID ls (ivn_ID iv) = Some row" using assms(4) R(1) i by simp
  note D = admit_D [OF assms(1) get assms(3)]
  have ok: "tenancy_ok (ls_st ls)" "spaces_ok (ls_st ls)" using assms(6) by (auto simp: links_ok_def workspaces_ok_def)
  then have tables: "tables_ok (ls_st ls)" by (simp add: tenancy_ok_def)
  show "rows_le ls ls'"
    unfolding rows_le_def D(1)
  proof (intro allI impI)
    fix j r assume "GetInvitationByID ls j = Some r"
    then show "\<exists>r'. ((GetInvitationByID ls)(ivn_ID iv \<mapsto> spent now (ii_ID identity) row)) j = Some r' \<and> row_le r r'"
      using get spent_row(1) [OF assms(3)] row_le_refl by (cases "j = ivn_ID iv") auto
  qed
  have "space_of (ls_st ls) r = Some w" if "(w, r) \<in> grant_pairs (somes (ivn_Grants iv))" for w r
    using that package_may_admit(4) [OF assms(5) tables] by (fastforce simp: grant_pairs_def may_admit_def space_of_def)
  then have ten: "tenancy_ok (ls_st ls')" using D(9) ok(1) by blast
  have "workspaces_ok (ls_st ls')"
    using ten ok(2) D(6) by (simp add: workspaces_ok_def spaces_ok_def same_roles_def rs_workspaces_def)
  moreover have "redemptions ls' j \<le> times_spent ls' j" for j
  proof -
    have "redemptions ls j \<le> times_spent ls j" using assms(6) unfolding links_ok_def redemptions_bound by blast
    then show ?thesis using assms(3) get
      by (auto simp: D(5) D(1) times_spent_def spent_def link_open_def split: option.splits if_splits)
  qed
  moreover have "distinct (map (\<lambda>r. (ui_Provider r, ui_ProviderUserID r)) (ls_identities ls'))"
  proof -
    obtain r where r: "ls_identities ls' = ls_identities ls @ [r]" "ui_Provider r = ii_Provider identity"
      "ui_ProviderUserID r = ii_ProviderUserID identity" using D(11) by blast
    have "(ui_Provider r, ui_ProviderUserID r) \<notin> (\<lambda>r. (ui_Provider r, ui_ProviderUserID r)) ` set (ls_identities ls)"
      unfolding r(2,3) image_iff using D(12) by fastforce
    then show ?thesis unfolding r(1) using assms(6) by (simp add: links_ok_def)
  qed
  ultimately show "links_ok ls'" using assms(6) unfolding links_ok_def redemptions_bound D(3,4) by blast
qed

lemma invitationRedeem_ok:
  assumes "invitationRedeem ls h identity now = (ls', r)" "links_ok ls"
  shows "links_ok ls' \<and> rows_le ls ls'"
  using invitationRedeem_D [OF assms(1)]
proof
  assume "ended_links ls ls' \<and> (\<forall>a. r = Inr a \<longrightarrow> \<not> iad_Created a \<and> ls' = ls)"
  then have "calm ls ls'" using calm_ended by blast
  then show ?thesis using calm_ok assms(2) by (simp add: calm_def)
next
  assume "\<exists>handoff row iv a. GetOAuthHandoffByAcceptanceHash ls h = Some handoff \<and> ho_ExpiresAt handoff > now \<and>
      ho_Provider handoff = ii_Provider identity \<and> ho_ProviderUserID handoff = Some (ii_ProviderUserID identity) \<and>
      ho_CompletedAt handoff = None \<and> GetInvitationByID ls (ho_InvitationID handoff) = Some row \<and> link_open now row \<and>
      readInvitation ls row = Inr iv \<and> validateInvitationPackage (ls_st ls) iv (ir_InvitedBy row) = Inr () \<and>
      \<not> identityHasAccount ls identity \<and> admit ls h identity now iv = Inr (ls', a) \<and> r = Inr a \<and> iad_Created a"
  then show ?thesis using admitted_ok assms(2) by blast
qed

lemma RedeemInvitation_redeems:
  assumes "RedeemInvitation sg newID now ls acceptance = (ls', r)"
  shows "ls' = ls \<or> (\<exists>identity a. invitationRedeem ls (sg_hashCredential sg acceptance) identity now = (ls', a))"
  using assms
  by (auto simp: RedeemInvitation_def GateRedeem_def RedeemHash_def Let_def split: sum.splits prod.splits if_splits)

lemma StartOAuthHandoff_calm: "StartOAuthHandoff ls ho = Inr ls' \<Longrightarrow> calm ls ls'"
  using calm_handoffs by (auto simp: StartOAuthHandoff_def split: if_splits)

lemma CompleteOAuthCallback_calm: "CompleteOAuthCallback ls h1 h2 i e now = Inr (ls', ho) \<Longrightarrow> calm ls ls'"
  using calm_handoffs by (auto simp: CompleteOAuthCallback_def split: if_splits option.splits)

lemma calm_refl: "calm ls ls"
  by (simp add: calm_def rows_le_refl)

lemma CompleteOAuthRedemption_calm: "CompleteOAuthRedemption ls h u now = Inr ls' \<Longrightarrow> calm ls ls'"
  using calm_handoffs calm_refl
  by (auto simp: CompleteOAuthRedemption_def CompleteOAuthHandoffRedemption_def split: if_splits option.splits)

lemma startInvitationHandoff_calm: "startInvitationHandoff sg ns ni now ls p i = Inr (ls', o') \<Longrightarrow> calm ls ls'"
  using StartOAuthHandoff_calm by (auto simp: startInvitationHandoff_def Let_def bindr_Inr_iff)

lemma StartInvitationOAuth_calm:
  assumes "StartInvitationOAuth s sg ns ni now ls p raw = (ls', r)"
  shows "calm ls ls'"
proof (cases "TrimSpace raw = [] \<or> p \<notin> set (sg_providers sg)")
  case True
  then show ?thesis using assms calm_refl by (auto simp: StartInvitationOAuth_def)
next
  case False
  obtain l a where a: "AcceptanceFromToken s ls raw now = (l, a)" by (cases "AcceptanceFromToken s ls raw now")
  then have "calm ls l" using AcceptanceFromToken_links calm_ended by blast
  then show ?thesis
    using assms False a startInvitationHandoff_calm calm_trans
    by (auto simp: StartInvitationOAuth_def split: sum.splits prod.splits)
qed

lemma link_step_ok: "link_step s sg ts rs ls ls' \<Longrightarrow> links_ok ls \<Longrightarrow> links_ok ls' \<and> rows_le ls ls'"
proof (induction rule: link_step.induct)
  case (tenancy ls st)
  then have "workspaces_ok st" using workspace_step_ok [OF tenancy(1)] by (simp add: links_ok_def)
  moreover have "redemptions (ls\<lparr>ls_st := st\<rparr>) = redemptions ls" "times_spent (ls\<lparr>ls_st := st\<rparr>) = times_spent ls"
    by (simp_all add: fun_eq_iff redemptions_def times_spent_def GetInvitationByID_def)
  ultimately show ?case using tenancy(2) by (simp add: links_ok_def rows_le_same)
next
  case (create c token newID now ls actor input ls' r)
  then obtain iv h evs where "invitationCreate ls iv h evs = Inr ls'" "\<forall>e \<in> set evs. redeems e = None"
    by (fastforce simp: CreateInvitation_def Let_def bindr_Inr_iff split: if_splits)
  then show ?case using created_ok create(2) by blast
next
  case (listing ls actor now ls' rl)
  then show ?case using ListInvitations_links calm_ended calm_ok by (metis calm_def)
next
  case (revoke ls actor i now ls')
  then show ?case using RevokeInvitation_links calm_ended calm_ok by (metis calm_def)
next
  case (previewed c ls raw now ls' rp)
  then show ?case using Preview_links calm_ended calm_ok by (metis calm_def)
next
  case (start newState newID now ls provider raw ls' rstart)
  then show ?case using StartInvitationOAuth_calm calm_ok by (metis calm_def)
next
  case (restart newState newID now ls provider acceptance ls' o')
  then have "calm ls ls'" using startInvitationHandoff_calm
    by (auto simp: RestartInvitationOAuth_def bindr_Inr_iff split: if_splits)
  then show ?case using calm_ok restart(2) by (metis calm_def)
next
  case (callback acceptance now ls provider oauthState code ls' a)
  then have "calm ls ls'" using CompleteOAuthCallback_calm
    by (fastforce simp: CompleteInvitationOAuth_def bindr_Inr_iff Let_def split: if_splits)
  then show ?case using calm_ok callback(2) by (metis calm_def)
next
  case (completed ls h u now ls')
  then show ?case using CompleteOAuthRedemption_calm calm_ok by (metis calm_def)
next
  case (redeem newID now ls acceptance ls' rr)
  then show ?case using RedeemInvitation_redeems invitationRedeem_ok rows_le_refl by metis
next
  case (redeemed ls h identity now ls' ra)
  then show ?case using invitationRedeem_ok by blast
qed

lemma link_steps_ok:
  assumes "(link_step s sg ts rs)\<^sup>*\<^sup>* ls ls'" "links_ok ls"
  shows "links_ok ls' \<and> rows_le ls ls'"
  using assms(1)
proof (induction rule: rtranclp_induct)
  case base
  then show ?case using assms(2) rows_le_refl by simp
next
  case (step l1 l2)
  then show ?case using link_step_ok rows_le_trans by blast
qed

end
