(* ===== verification/Invitations_Links.thy ===== *)
theory Invitations_Links
  imports Invitations_Tables
begin

text \<open>
  The properties of invitations by link: a link admits once, no one gets or gives more than its creator could, a closed link
  stays closed, and what reading, listing and revoking do; with one link followed from its creation to its redemption.
\<close>

section \<open>An example\<close>

definition example_links :: link_store where
  "example_links = \<lparr>ls_st = example_team, ls_invitations = [], ls_grants = [], ls_handoffs = [], ls_users = [],
     ls_identities = [], ls_tickets = [], ls_projects = [], ls_outbox = []\<rparr>"

definition example_inviting :: InvitationService where
  "example_inviting = \<lparr>isv_InstanceURL = (\<lambda>_. ''https://nexul/''), isv_url_host = (\<lambda>_. Some ''nexul''),
     isv_uuid = (\<lambda>t. Some (t, 4)), isv_sha256 = (\<lambda>_. replicate 64 (CHR ''a'')),
     isv_perms = Some \<lparr>pg_WorkspacePermissions = (\<lambda>_ _ _. [MembersWrite]), pg_GrantablePermissions = (\<lambda>_ _ _. [DocsRead])\<rparr>\<rparr>"

definition example_sign_in :: SignIn where
  "example_sign_in = \<lparr>sg_providers = [''github''], sg_AuthorizeURLFor = (\<lambda>_ t. Inr t),
     sg_FetchUser = (\<lambda>_ _. Inr \<lparr>pu_ID = ''77'', pu_Login = ''bo'', pu_Name = ''Bo'', pu_Username = [], pu_AvatarURL = []\<rparr>),
     sg_hashCredential = (\<lambda>t. replicate 63 (CHR ''b'') @ [if t = ''acc'' then CHR ''1'' else CHR ''2'']),
     sg_CreateSession = (\<lambda>u. Inr u), sg_unicode = map ascii_lower\<rparr>"

definition example_input :: CreateInvitationInput where
  "example_input = \<lparr>ci_Grants = [Some \<lparr>ig_WorkspaceID = ''w'', ig_WorkspaceName = [], ig_RoleID = [], ig_RoleName = [],
     ig_RoleIDs = [''d''], ig_Roles = [], ig_Allow = [], ig_Deny = [], ig_EveryProject = [], ig_ProjectAccess = []\<rparr>],
     ci_ExpiresInDays = 0\<rparr>"

definition store_of :: "link_store \<Rightarrow> (link_store \<times> 'a) res \<Rightarrow> link_store" where
  "store_of ls m = (case m of Inl _ \<Rightarrow> ls | Inr (ls', _) \<Rightarrow> ls')"

lemma is_ok_store: "is_ok m \<Longrightarrow> \<exists>r. m = Inr (store_of ls m, r)"
  by (auto simp: is_ok_def store_of_def split: sum.splits)

text \<open>The Owner creates a link to a role, someone opens it, signs in and accepts.\<close>

definition example_open :: link_store where
  "example_open = store_of example_links
     (CreateInvitation example_inviting background ''tok'' ''i'' 10 example_links ''u'' example_input)"

definition example_started :: link_store where
  "example_started = fst (StartInvitationOAuth example_inviting example_sign_in ''st'' ''h'' 20 example_open ''github'' ''tok'')"

definition example_accepting :: link_store where
  "example_accepting = store_of example_started
     (CompleteInvitationOAuth example_sign_in ''acc'' 30 example_started ''github'' ''st'' ''code'')"

definition example_identity :: InvitationIdentity where
  "example_identity = \<lparr>ii_ID = ''b'', ii_Provider = ''github'', ii_ProviderUserID = ''77'', ii_Login = ''bo'', ii_Name = ''Bo'', ii_AvatarURL = []\<rparr>"

definition example_hash :: string where
  "example_hash = sg_hashCredential example_sign_in ''acc''"

definition example_admitted :: link_store where
  "example_admitted = fst (RedeemInvitation example_sign_in ''b'' 40 example_accepting ''acc'')"

lemma example_links_ok: "links_ok example_links"
proof -
  have "spaces_ok example_team" by code_simp
  then show ?thesis using example_team_ok
    by (simp add: links_ok_def workspaces_ok_def example_links_def List.map_filter_def)
qed

lemma example_create_link: "\<exists>r. CreateInvitation example_inviting background ''tok'' ''i'' 10 example_links ''u'' example_input = Inr (example_open, r)"
  unfolding example_open_def by (rule is_ok_store) code_simp

lemma example_start: "StartInvitationOAuth example_inviting example_sign_in ''st'' ''h'' 20 example_open ''github'' ''tok'' =
    (example_started, snd (StartInvitationOAuth example_inviting example_sign_in ''st'' ''h'' 20 example_open ''github'' ''tok''))"
  by (simp add: example_started_def)

lemma example_callback: "\<exists>a. CompleteInvitationOAuth example_sign_in ''acc'' 30 example_started ''github'' ''st'' ''code'' = Inr (example_accepting, a)"
  unfolding example_accepting_def by (rule is_ok_store) code_simp

lemma example_redeem: "RedeemInvitation example_sign_in ''b'' 40 example_accepting ''acc'' =
    (example_admitted, snd (RedeemInvitation example_sign_in ''b'' 40 example_accepting ''acc''))"
  by (simp add: example_admitted_def)

lemma example_accepting_steps:
  "(link_step example_inviting example_sign_in example_tenancy example_roles_service)\<^sup>*\<^sup>* example_links example_accepting"
proof -
  let ?step = "link_step example_inviting example_sign_in example_tenancy example_roles_service"
  have "?step example_links example_open" using example_create_link link_step.create by blast
  moreover have "?step example_open example_started" by (rule link_step.start [OF example_start])
  moreover have "?step example_started example_accepting" using example_callback link_step.callback by blast
  ultimately show ?thesis by (meson converse_rtranclp_into_rtranclp r_into_rtranclp)
qed

lemma example_admitted_steps:
  "(link_step example_inviting example_sign_in example_tenancy example_roles_service)\<^sup>*\<^sup>* example_links example_admitted"
  by (rule rtranclp.rtrancl_into_rtrancl [OF example_accepting_steps link_step.redeem [OF example_redeem]])

lemma example_open_ok: "links_ok example_open"
  using example_create_link link_step.create link_step_ok example_links_ok by blast

lemma example_accepting_ok: "links_ok example_accepting"
  using link_steps_ok [OF example_accepting_steps example_links_ok] by blast

lemma admit_identity:
  assumes "admit ls h identity now iv = Inr (ls', a)" "GetInvitationByID ls (ivn_ID iv) = Some row" "link_open now row"
  shows "GetUserByIdentity ls' (ii_Provider identity) (ii_ProviderUserID identity) = Some (ii_ID identity)"
proof -
  note A = admit_D [OF assms]
  obtain r where r: "ls_identities ls' = ls_identities ls @ [r]" "ui_UserID r = ii_ID identity" "ui_Provider r = ii_Provider identity"
    "ui_ProviderUserID r = ii_ProviderUserID identity" using A(11) by blast
  have "find (\<lambda>r. ui_Provider r = ii_Provider identity \<and> ui_ProviderUserID r = ii_ProviderUserID identity) (ls_identities ls) = None"
    using A(12) by (auto simp: find_None_iff)
  moreover have "find P (xs @ [x]) = Some x" if "find P xs = None" "P x" for P and xs :: "identity_row list" and x
    using that by (induction xs) (auto split: if_splits)
  ultimately show ?thesis using r by (simp add: GetUserByIdentity_def)
qed

section \<open>Properties\<close>

text \<open>C9. However calls of invitations, sign-in, roles, members and workspaces follow each other from well-formed tables,
  the tables stay well formed and a link is redeemed at most once: its redemption is recorded once, and only with the row
  marked.\<close>

theorem link_admits_once:
  assumes "(link_step s sg ts rs)\<^sup>*\<^sup>* ls ls'" "links_ok ls"
  shows "links_ok ls' \<and> redemptions ls' i \<le> 1 \<and> (redemptions ls' i = 1 \<longrightarrow>
    (\<exists>r. GetInvitationByID ls' i = Some r \<and> ir_RedeemedAt r \<noteq> None))"
proof -
  have ok: "links_ok ls'" using link_steps_ok [OF assms] ..
  then have "redemptions ls' i \<le> times_spent ls' i" unfolding links_ok_def redemptions_bound by blast
  then show ?thesis using ok times_spent_le [of ls' i] by (auto simp: times_spent_def split: option.splits if_splits)
qed

theorem link_admits_once_witness: "redemptions example_admitted ''i'' \<le> 1"
  using link_admits_once [OF example_admitted_steps example_links_ok, of "''i''"] by blast


definition example_admission :: "link_store \<times> InvitationAdmission res" where
  "example_admission = invitationRedeem example_accepting example_hash example_identity 40"

lemma example_admission_made: "invitationRedeem example_accepting example_hash example_identity 40 =
    (fst example_admission, Inr \<lparr>iad_UserID = ''b'', iad_Created = True\<rparr>)"
proof -
  have "snd example_admission = Inr \<lparr>iad_UserID = ''b'', iad_Created = True\<rparr>" by code_simp
  then show ?thesis unfolding example_admission_def by (metis prod.collapse)
qed


lemma by_token:
  assumes "links_ok ls" "GetInvitationByID ls i = Some r"
  shows "GetInvitationByTokenHash ls (ir_TokenHash r) = Some r"
proof -
  have d: "distinct (map ir_TokenHash (ls_invitations ls))" using assms(1) by (simp add: links_ok_def)
  have r: "r \<in> set (ls_invitations ls)" using GetInvitationByID_D [OF assms(2)] ..
  have "find (\<lambda>x. ir_TokenHash x = ir_TokenHash r) xs = Some r" if "distinct (map ir_TokenHash xs)" "r \<in> set xs" for xs
    using that by (induction xs) force+
  then show ?thesis using d r by (simp add: GetInvitationByTokenHash_def)
qed

lemma readGrants_error: "readGrants st gs rows = Inl e \<Longrightarrow> errors_is e ErrInvalid"
  by (induction st gs rows rule: readGrants.induct) (auto simp: Let_def split: option.splits if_splits)

lemma readInvitation_error: "readInvitation ls r = Inl e \<Longrightarrow> errors_is e ErrInvalid"
  using readGrants_error by (auto simp: readInvitation_def bindr_def split: sum.splits)

lemma by_id:
  assumes "links_ok ls" "r \<in> set (ls_invitations ls)"
  shows "GetInvitationByID ls (ir_ID r) = Some r"
proof -
  have d: "distinct (map ir_ID (ls_invitations ls))" using assms(1) by (simp add: links_ok_def)
  have "find (\<lambda>x. ir_ID x = ir_ID r) xs = Some r" if "distinct (map ir_ID xs)" "r \<in> set xs" for xs
    using that by (induction xs) force+
  then show ?thesis using d assms(2) by (simp add: GetInvitationByID_def)
qed

lemma endInvitation_none:
  assumes "links_ok ls" "GetInvitationByID ls i = Some r" "\<not> link_open now r"
  shows "endInvitation i reason now ls = ls"
  using by_id [OF assms(1)] assms(2,3) by (fastforce simp: endInvitation_def list_ex_iff)

text \<open>C12. A link that is redeemed, revoked, ended or expired stays so, whatever calls follow: no sign-in made through it
  admits anyone afterwards, and no one reads it.\<close>

theorem closed_stays_closed:
  assumes "(link_step s sg ts rs)\<^sup>*\<^sup>* ls ls'" "links_ok ls" "GetInvitationByID ls i = Some r" "\<not> link_open now r" "now \<le> now'"
  shows "(\<forall>h ho identity ls'' a. GetOAuthHandoffByAcceptanceHash ls' h = Some ho \<longrightarrow> ho_InvitationID ho = i \<longrightarrow>
      invitationRedeem ls' h identity now' = (ls'', Inr a) \<longrightarrow> \<not> iad_Created a \<and> ls'' = ls') \<and>
    GetByTokenHash ls' (ir_TokenHash r) now' = (ls', Inl invalidInvitation)"
proof (intro conjI allI impI)
  have ok: "links_ok ls'" "rows_le ls ls'" using link_steps_ok [OF assms(1,2)] by blast+
  obtain r' where r': "GetInvitationByID ls' i = Some r'" "\<not> link_open now' r'" using closed_stays [OF ok(2) assms(3-5)] by blast
  fix h ho identity ls'' a
  assume ho: "GetOAuthHandoffByAcceptanceHash ls' h = Some ho" "ho_InvitationID ho = i"
    "invitationRedeem ls' h identity now' = (ls'', Inr a)"
  then show "\<not> iad_Created a" "ls'' = ls'" using invitationRedeem_D [OF ho(3)] r' by auto
next
  have ok: "links_ok ls'" "rows_le ls ls'" using link_steps_ok [OF assms(1,2)] by blast+
  obtain r' where r': "GetInvitationByID ls' i = Some r'" "row_le r r'" using ok(2) assms(3) by (auto simp: rows_le_def)
  have closed: "\<not> link_open now' r'" using r'(2) assms(4,5) by (auto simp: row_le_def link_open_def)
  have "GetInvitationByTokenHash ls' (ir_TokenHash r) = Some r'"
    using by_token [OF ok(1) r'(1)] r'(2) by (simp add: row_le_def)
  moreover have "ivn_ExpiresAt iv = ir_ExpiresAt r'" if "readInvitation ls' r' = Inr iv" for iv using readInvitation_D(3) [OF that] .
  ultimately show "GetByTokenHash ls' (ir_TokenHash r) now' = (ls', Inl invalidInvitation)"
    using closed endInvitation_none [OF ok(1) _ closed] r'(1) GetInvitationByID_D [OF r'(1)] readInvitation_error
    by (auto simp: GetByTokenHash_def link_open_def split: sum.splits)
qed

theorem closed_stays_closed_witness:
  "GetByTokenHash example_admitted (replicate 64 (CHR ''a'')) 50 = (example_admitted, Inl invalidInvitation)"
proof -
  obtain r where r: "GetInvitationByID example_admitted ''i'' = Some r"
    "(ir_TokenHash r, link_open 50 r) = (replicate 64 (CHR ''a''), False)"
  proof -
    have "map_option (\<lambda>r. (ir_TokenHash r, link_open 50 r)) (GetInvitationByID example_admitted ''i'') = Some (replicate 64 (CHR ''a''), False)"
      by code_simp
    then show ?thesis using that by auto
  qed
  then show ?thesis
    using closed_stays_closed [OF rtranclp.rtrancl_refl link_steps_ok [OF example_admitted_steps example_links_ok, THEN conjunct1] r(1), of 50 50] by simp
qed

lemma admitGrants_active: "admitGrants i u now gs st = Inr (st', evs) \<Longrightarrow> db_active (rs_db st') = db_active (rs_db st)"
proof (induction gs arbitrary: st evs)
  case (Cons g gs)
  then obtain st1 st2 evs' where s: "AddInvitationMember u (ig_WorkspaceID g) now st = Inr st1"
    "addMemberRoles (ig_WorkspaceID g) u now (grantHeld g) st1 = Inr st2" "admitGrants i u now gs st2 = Inr (st', evs')"
    by (auto simp: bindr_Inr_iff)
  have "db_active (rs_db st1) = db_active (rs_db st)" using s(1) by (auto simp: AddInvitationMember_def Let_def split: if_splits)
  then show ?case using Cons.IH [OF s(3)] addMemberRoles_rows [OF s(2)] by (simp add: with_rows_def)
qed simp

lemma admit_active:
  assumes "admit ls h identity now iv = Inr (ls', a)"
  shows "ii_ID identity \<in> set (db_active (rs_db (ls_st ls')))"
proof -
  obtain l1 l2 st evs l3 where run: "MarkInvitationRedeemed now (ivn_ID iv) ls = Inr l1" "insertInvitationUser l1 identity now = Inr l2"
    "admitGrants (ivn_ID iv) (ii_ID identity) now (somes (ivn_Grants iv)) (ls_st l2) = Inr (st, evs)" "ls_st ls' = st"
    using assms by (auto simp: admit_def Let_def bindr_Inr_iff CompleteOAuthHandoffRedemption_def SetInvitationRedeemedBy_def split: if_splits)
  have "ii_ID identity \<in> set (db_active (rs_db (ls_st l2)))"
    using run(2) by (auto simp: insertInvitationUser_def insertUserWithIdentity_def InsertUser_def insertIdentity_def
        claimTicketPeople_def bindr_Inr_iff Let_def split: if_splits)
  then show ?thesis using admitGrants_active [OF run(3)] run(4) by simp
qed

text \<open>The handoff of an acceptance after its redemption.\<close>

lemma handoff_after:
  assumes "GetOAuthHandoffByAcceptanceHash ls h = Some ho" "ho_CompletedAt ho = None" "now < ho_ExpiresAt ho"
    and "ls_handoffs ls' = map (\<lambda>r. if handoff_waits h now r then r\<lparr>ho_AdmittedUserID := Some u, ho_CompletedAt := Some now\<rparr> else r)
      (ls_handoffs ls)"
  shows "GetOAuthHandoffByAcceptanceHash ls' h = Some (ho\<lparr>ho_AdmittedUserID := Some u, ho_CompletedAt := Some now\<rparr>)"
proof -
  have "handoff_waits h now ho" using assms(2,3) findSomeD [OF assms(1) [unfolded GetOAuthHandoffByAcceptanceHash_def]]
    by (simp add: handoff_waits_def)
  then show ?thesis using assms(1) unfolding GetOAuthHandoffByAcceptanceHash_def assms(4)
    by (subst find_map_keep) auto
qed

lemma admission_gone:
  assumes "GateRedeem ls h identity now = (ls', Inr (a, ws))"
  shows "\<exists>ho iv row. GetOAuthHandoffByAcceptanceHash ls h = Some ho \<and> ho_CompletedAt ho = None \<and> now < ho_ExpiresAt ho \<and>
    ho_Provider ho = ii_Provider identity \<and> ho_ProviderUserID ho = Some (ii_ProviderUserID identity) \<and> validTokenHash h \<and>
    ii_Provider identity \<noteq> [] \<and> ii_ProviderUserID identity \<noteq> [] \<and> ii_ID identity \<noteq> [] \<and> ii_Login identity \<noteq> [] \<and>
    GetInvitationByID ls (ivn_ID iv) = Some row \<and> link_open now row \<and> admit ls h identity now iv = Inr (ls', a)"
proof -
  have run: "invitationRedeem ls h identity now = (ls', Inr a)" and ok: "okr (AcceptanceFromHash ls h now)"
    using assms by (auto simp: GateRedeem_def RedeemHash_def okr_def split: sum.splits prod.splits if_splits)
  have valid: "validTokenHash h" "ii_Provider identity \<noteq> []" "ii_ProviderUserID identity \<noteq> []" "ii_ID identity \<noteq> []" "ii_Login identity \<noteq> []"
    using run by (auto simp: invitationRedeem_def split: if_splits)
  have fresh: "ho_CompletedAt ho = None" if "GetOAuthHandoffByAcceptanceHash ls h = Some ho" for ho
    using ok that by (auto simp: AcceptanceFromHash_def GetByAcceptanceHash_def okr_def split: if_splits)
  have "iad_Created a"
    using run fresh by (auto simp: invitationRedeem_def admit_def Let_def bindr_Inr_iff split: if_splits option.splits sum.splits)
  then obtain ho row iv where D: "GetOAuthHandoffByAcceptanceHash ls h = Some ho" "now < ho_ExpiresAt ho"
    "ho_Provider ho = ii_Provider identity" "ho_ProviderUserID ho = Some (ii_ProviderUserID identity)" "ho_CompletedAt ho = None"
    "GetInvitationByID ls (ho_InvitationID ho) = Some row" "link_open now row" "readInvitation ls row = Inr iv"
    "admit ls h identity now iv = Inr (ls', a)"
    using invitationRedeem_D [OF run] by auto
  have "ivn_ID iv = ho_InvitationID ho" using readInvitation_D(1) [OF D(8)] GetInvitationByID_D [OF D(6)] by simp
  then show ?thesis using D valid by (intro exI [of _ ho] exI [of _ iv] exI [of _ row]) simp
qed

text \<open>C13. After a redemption through the server's gate the same sign-in cannot be repeated: the repository answers a repeat
  with the account it admitted, but the gate reads the link first and refuses the completed handoff, so for as long as the
  handoff lives every repeat is answered that the invitation is invalid, and so is a second look at the acceptance.\<close>

theorem retry_refused:
  assumes "GateRedeem ls h identity now = (ls', Inr (a, ws))" "GetOAuthHandoffByAcceptanceHash ls h = Some ho" "at < ho_ExpiresAt ho" "newID \<noteq> []"
  shows "invitationRedeem ls' h (identity\<lparr>ii_ID := newID\<rparr>) at = (ls', Inr \<lparr>iad_UserID = iad_UserID a, iad_Created = False\<rparr>) \<and>
    GateRedeem ls' h (identity\<lparr>ii_ID := newID\<rparr>) at = (ls', Inl invalidInvitation) \<and>
    GetInvitationByAcceptance s c ls' h at = Inl invalidInvitation"
proof -
  obtain iv row where D: "ho_CompletedAt ho = None" "now < ho_ExpiresAt ho" "ho_Provider ho = ii_Provider identity"
    "ho_ProviderUserID ho = Some (ii_ProviderUserID identity)" "validTokenHash h" "ii_Provider identity \<noteq> []"
    "ii_ProviderUserID identity \<noteq> []" "ii_ID identity \<noteq> []" "ii_Login identity \<noteq> []"
    "GetInvitationByID ls (ivn_ID iv) = Some row" "link_open now row" "admit ls h identity now iv = Inr (ls', a)"
    using admission_gone [OF assms(1)] assms(2) by auto
  note A = admit_D [OF D(12,10,11)]
  have u: "iad_UserID a = ii_ID identity" using A(14) by simp
  have ho': "GetOAuthHandoffByAcceptanceHash ls' h = Some (ho\<lparr>ho_AdmittedUserID := Some (ii_ID identity), ho_CompletedAt := Some now\<rparr>)"
    by (rule handoff_after [OF assms(2) D(1,2) A(13)])
  have no: "AcceptanceFromHash ls' h at = Inl invalidInvitation"
    using ho' by (simp add: AcceptanceFromHash_def GetByAcceptanceHash_def)
  have "invitationRedeem ls' h (identity\<lparr>ii_ID := newID\<rparr>) at = (ls', Inr \<lparr>iad_UserID = iad_UserID a, iad_Created = False\<rparr>)"
    using ho' D(3-9) assms(3,4) admit_identity [OF D(12,10,11)] admit_active [OF D(12)] u
    by (simp add: invitationRedeem_def replay_def)
  then show ?thesis using no by (simp add: GateRedeem_def GetInvitationByAcceptance_def bindr_def)
qed

theorem retry_refused_witness:
  "\<exists>ls' a ws. GateRedeem example_accepting example_hash example_identity 40 = (ls', Inr (a, ws)) \<and> ws = [''w''] \<and>
     GateRedeem ls' example_hash (example_identity\<lparr>ii_ID := ''c''\<rparr>) 41 = (ls', Inl invalidInvitation)"
proof -
  let ?m = "GateRedeem example_accepting example_hash example_identity 40"
  have "map_sum id snd (snd ?m) = Inr [''w'']" by code_simp
  then obtain a where m: "?m = (fst ?m, Inr (a, [''w'']))" by (cases ?m; cases "snd ?m") auto
  have "map_option ho_ExpiresAt (GetOAuthHandoffByAcceptanceHash example_accepting example_hash) = Some 630" by code_simp
  then obtain ho where ho: "GetOAuthHandoffByAcceptanceHash example_accepting example_hash = Some ho" "ho_ExpiresAt ho = 630" by auto
  show ?thesis
    using retry_refused [OF m ho(1), of 41 "''c''"] ho(2) m by (intro exI [of _ "fst ?m"] exI [of _ a] exI [of _ "[''w'']"]) simp
qed

lemma RequireHeld_subset: "RequireHeld grant (SetOfStrings xs) = Inr () \<Longrightarrow> set grant \<subseteq> set xs"
  by (auto simp: RequireHeld_def Let_def filter_empty_conv Has_iff SetOfStrings_def split: if_splits)

definition held_at_instance :: "PermissionGate \<Rightarrow> ctx \<Rightarrow> role_store \<Rightarrow> string \<Rightarrow> string \<Rightarrow> string \<Rightarrow> bool" where
  "held_at_instance gate c st u w i \<longleftrightarrow>
     (\<forall>given. RolePermissions st w i = Inr given \<longrightarrow>
        (\<forall>a \<in> set given. AreaOf a = AreaInstance \<longrightarrow> a \<in> set (pg_GrantablePermissions gate c u w)))"

lemma rolesHeldAtInstance_D:
  "rolesHeldAtInstance st w (SetOfStrings (pg_GrantablePermissions gate c u w)) is = Inr () \<Longrightarrow> i \<in> set is \<Longrightarrow>
    held_at_instance gate c st u w i"
proof (induction "is")
  case (Cons j js)
  have "held_at_instance gate c st u w j"
    unfolding held_at_instance_def
  proof (intro allI impI ballI)
    fix given a assume g: "RolePermissions st w j = Inr given" "a \<in> set given" "AreaOf a = AreaInstance"
    then have "RequireHeld (instanceAreaActions given) (SetOfStrings (pg_GrantablePermissions gate c u w)) = Inr ()"
      using Cons.prems(1) by (auto simp: bindr_Inr_iff)
    then show "a \<in> set (pg_GrantablePermissions gate c u w)" using RequireHeld_subset g(2,3) by (fastforce simp: instanceAreaActions_def)
  qed
  then show ?case using Cons by (auto simp: bindr_Inr_iff split: sum.splits if_splits)
qed simp

lemma requireHeldInstanceAreas_D:
  assumes "requireHeldInstanceAreas s c st u gs = Inr ()" "isv_perms s = Some gate" "(w, i) \<in> grant_pairs (somes gs)"
  shows "held_at_instance gate c st u w i"
  using assms
proof (induction gs)
  case (Cons g gs)
  show ?case
  proof (cases g)
    case None
    then show ?thesis using Cons by simp
  next
    case (Some g')
    then have "rolesHeldAtInstance st (ig_WorkspaceID g') (SetOfStrings (pg_GrantablePermissions gate c u (ig_WorkspaceID g'))) (grantHeld g') = Inr ()"
      "requireHeldInstanceAreas s c st u gs = Inr ()" using Cons.prems(1,2) by (simp_all add: bindr_Inr_iff)
    then show ?thesis using Cons.IH Cons.prems(2,3) Some rolesHeldAtInstance_D by auto
  qed
qed simp

lemma somes_map: "somes (map (map_option f) gs) = map f (somes gs)"
proof (induction gs)
  case (Cons g gs)
  then show ?case by (cases g) simp_all
qed simp

lemma grant_pairs_map: "(\<And>g. ig_WorkspaceID (f g) = ig_WorkspaceID g) \<Longrightarrow> (\<And>g. grantHeld (f g) = grantHeld g) \<Longrightarrow>
    grant_pairs (map f gs) = grant_pairs gs"
  by (induction gs) simp_all

lemma clone_pairs: "grant_pairs (somes (cloneInvitationGrants gs)) = grant_pairs (somes gs)"
  unfolding cloneInvitationGrants_def somes_map by (rule grant_pairs_map) (simp_all add: grantHeld_def)

lemma grant_rows_set: "set (grant_rows gs) = grant_pairs gs"
  by (auto simp: grant_rows_def grant_pairs_def)

text \<open>C11. Who creates a link gives no more than they could give themselves: the link is open for one or seven days, records
  the creator, and gives exactly the roles asked for; each is a role of its workspace other than Owner, the creator is a
  member there, Owner or with members:write and every action of the role, and what of it is an action of the instance they
  may grant, Owner or not.  Nothing else is written.\<close>

theorem CreateInvitation_authority:
  assumes "CreateInvitation s c token newID now ls actor input = Inr (ls', r)" "tables_ok (ls_st ls)"
  shows "(\<exists>row. GetInvitationByID ls' newID = Some row \<and> link_open now row \<and> ir_InvitedBy row = TrimSpace actor \<and>
      ir_ExpiresAt row \<in> {now + 24 * 60 * 60, now + 7 * 24 * 60 * 60}) \<and>
    set (ls_grants ls') = set (ls_grants ls) \<union> Pair newID ` grant_pairs (somes (ci_Grants input)) \<and>
    (\<forall>(w, i) \<in> grant_pairs (somes (ci_Grants input)). may_admit (ls_st ls) (TrimSpace actor) w i \<and>
      (\<forall>gate. isv_perms s = Some gate \<longrightarrow> held_at_instance gate c (ls_st ls) (TrimSpace actor) w i)) \<and>
    ls_st ls' = ls_st ls \<and> ls_identities ls' = ls_identities ls \<and> (\<forall>i. i \<noteq> newID \<longrightarrow> GetInvitationByID ls' i = GetInvitationByID ls i)"
proof -
  obtain duration h where C: "invitationDuration (ci_ExpiresInDays input) = Inr duration"
    "requireHeldInstanceAreas s c (ls_st ls) (TrimSpace actor) (ci_Grants input) = Inr ()"
    "invitationCreate ls \<lparr>ivn_ID = newID, ivn_InvitedBy = TrimSpace actor, ivn_CreatedAt = now, ivn_ExpiresAt = now + duration,
       ivn_RedeemedAt = None, ivn_RedeemedBy = [], ivn_Grants = cloneInvitationGrants (ci_Grants input)\<rparr> h
       [TopicInvitationCreated ((invitation_event newID)\<lparr>ie_ActorID := TrimSpace actor\<rparr>)] = Inr ls'"
    using assms(1) by (auto simp: CreateInvitation_def Let_def bindr_Inr_iff split: if_splits)
  let ?iv = "\<lparr>ivn_ID = newID, ivn_InvitedBy = TrimSpace actor, ivn_CreatedAt = now, ivn_ExpiresAt = now + duration,
       ivn_RedeemedAt = None, ivn_RedeemedBy = [], ivn_Grants = cloneInvitationGrants (ci_Grants input)\<rparr>"
  note D = invitationCreate_D [OF C(3)]
  have iv: "ivn_ID ?iv = newID" "ivn_InvitedBy ?iv = TrimSpace actor" "ivn_Grants ?iv = cloneInvitationGrants (ci_Grants input)" by simp_all
  have days: "duration = 24 * 60 * 60 \<or> duration = 7 * 24 * 60 * 60" using C(1) by (auto simp: invitationDuration_def Let_def split: if_splits)
  have row: "ir_ID (invitation_row_of ?iv h) = newID" "link_open now (invitation_row_of ?iv h)"
    "ir_InvitedBy (invitation_row_of ?iv h) = TrimSpace actor"
    "ir_ExpiresAt (invitation_row_of ?iv h) \<in> {now + 24 * 60 * 60, now + 7 * 24 * 60 * 60}"
    using days by (auto simp: link_open_def invitation_row_of_def)
  have get: "GetInvitationByID ls' = (GetInvitationByID ls)(newID \<mapsto> invitation_row_of ?iv h)"
    using GetInvitationByID_snoc [OF D(6)] D(4) unfolding row(1) iv by blast
  have may: "may_admit (ls_st ls) (TrimSpace actor) w i" if "(w, i) \<in> grant_pairs (somes (ci_Grants input))" for w i
  proof -
    have "(w, i) \<in> grant_pairs (somes (ivn_Grants ?iv))" using that by (simp only: iv clone_pairs)
    then show ?thesis using package_may_admit(4) [OF D(3) assms(2)] unfolding iv(2) grant_pairs_def by blast
  qed
  have new: "set (ls_grants ls') = set (ls_grants ls) \<union> Pair newID ` grant_pairs (somes (ci_Grants input))"
    by (simp only: D(9) set_append set_map grant_rows_set clone_pairs iv)
  have held: "held_at_instance gate c (ls_st ls) (TrimSpace actor) w i"
    if "(w, i) \<in> grant_pairs (somes (ci_Grants input))" "isv_perms s = Some gate" for w i gate
    by (rule requireHeldInstanceAreas_D [OF C(2) that(2,1)])
  have "GetInvitationByID ls' newID = Some (invitation_row_of ?iv h)" "\<forall>i. i \<noteq> newID \<longrightarrow> GetInvitationByID ls' i = GetInvitationByID ls i"
    using get by simp_all
  then show ?thesis using row(2-4) may new held D(7,8) by blast
qed

theorem CreateInvitation_authority_witness:
  "(''i'', ''w'', ''d'') \<in> set (ls_grants example_open) \<and> may_admit example_team ''u'' ''w'' ''d''"
proof -
  obtain r where r: "CreateInvitation example_inviting background ''tok'' ''i'' 10 example_links ''u'' example_input = Inr (example_open, r)"
    using example_create_link ..
  have st: "ls_st example_links = example_team" by (simp add: example_links_def)
  have tables: "tables_ok (ls_st example_links)" unfolding st using example_team_ok by (simp add: tenancy_ok_def)
  have pair: "(''w'', ''d'') \<in> grant_pairs (somes (ci_Grants example_input))" by (simp add: example_input_def grantHeld_def)
  have trim: "TrimSpace ''u'' = ''u''" by code_simp
  show ?thesis using CreateInvitation_authority [OF r tables] pair unfolding st trim by fastforce
qed

text \<open>Who manages a workspace's links: a member who is Owner there or holds members:write.\<close>

definition manages_space :: "role_store \<Rightarrow> string \<Rightarrow> string \<Rightarrow> bool" where
  "manages_space st u w \<longleftrightarrow> (w, u) \<in> member_set st \<and>
     (\<exists>x \<in> held_roles st u w. role_IsOwnerRole x \<or> MembersWrite \<in> set (role_Permissions x))"

lemma actorCanManage_spaces: "tables_ok st \<Longrightarrow> actorCanManage st u gs \<Longrightarrow> g \<in> set gs \<Longrightarrow> manages_space st u (ig_WorkspaceID g)"
  unfolding actorCanManage_spec manages_space_def Let_def
  using creatorAccess_spec [of st u "ig_WorkspaceID g"] by (fastforce simp: Has_iff)

lemma grants_of: "set (ListInvitationGrantsByInvitation ls i) = {(w, r). (i, w, r) \<in> set (ls_grants ls)}"
  by (force simp: ListInvitationGrantsByInvitation_def)

lemma requireInvitationManager_D:
  assumes "requireInvitationManager ls u i = Inr ()" "tables_ok (ls_st ls)" "(i, w, r) \<in> set (ls_grants ls)"
  shows "manages_space (ls_st ls) u w"
proof -
  let ?f = "\<lambda>(w, r). \<lparr>ig_WorkspaceID = w, ig_WorkspaceName = [], ig_RoleID = r, ig_RoleName = [], ig_RoleIDs = [],
                            ig_Roles = [], ig_Allow = [], ig_Deny = [], ig_EveryProject = [], ig_ProjectAccess = []\<rparr>"
  have "(w, r) \<in> set (ListInvitationGrantsByInvitation ls i)" using assms(3) unfolding grants_of by simp
  then have "?f (w, r) \<in> set (map ?f (ListInvitationGrantsByInvitation ls i))" unfolding set_map by (rule imageI)
  moreover have "actorCanManage (ls_st ls) u (map ?f (ListInvitationGrantsByInvitation ls i))"
    using assms(1) by (auto simp: requireInvitationManager_def Let_def split: if_splits)
  ultimately have "manages_space (ls_st ls) u (ig_WorkspaceID (?f (w, r)))" using actorCanManage_spaces [OF assms(2)] by blast
  then show ?thesis by simp
qed

lemma ends_row:
  assumes "ls' = enqueueInvitationEvents evs (EndInvitation now i ls)" "GetInvitationByID ls i = Some row" "link_open now row"
  shows "GetInvitationByID ls' = (GetInvitationByID ls)(i \<mapsto> row\<lparr>ir_ExpiresAt := now\<rparr>) \<and> ls_st ls' = ls_st ls \<and> ls_grants ls' = ls_grants ls"
proof -
  have "GetInvitationByID ls' j = ((GetInvitationByID ls)(i \<mapsto> row\<lparr>ir_ExpiresAt := now\<rparr>)) j" for j
    unfolding assms(1) enqueue_sel EndInvitation_row using assms(2,3) by (subst GetInvitationByID_put) (auto simp: end_row_def)
  then show ?thesis unfolding assms(1) EndInvitation_row by auto
qed

lemma endInvitation_open:
  assumes "GetInvitationByID ls i = Some row" "link_open now row"
  shows "endInvitation i reason now ls =
    enqueueInvitationEvents [TopicInvitationDeleted ((invitation_event i)\<lparr>ie_Reason := reason\<rparr>)] (EndInvitation now i ls)"
  using GetInvitationByID_D [OF assms(1)] assms(2) by (auto simp: endInvitation_def list_ex_iff)

text \<open>C33. Only who manages every workspace a link invites to revokes it, and only while it is open: afterwards it is expired at
  that moment, whatever its roles have become, and no other link, role or membership changes.\<close>

theorem RevokeInvitation_closes:
  assumes "RevokeInvitation ls actor i now = Inr ls'" "tables_ok (ls_st ls)"
  shows "\<exists>row. GetInvitationByID ls (TrimSpace i) = Some row \<and> link_open now row \<and>
    (\<exists>w r. (TrimSpace i, w, r) \<in> set (ls_grants ls)) \<and>
    (\<forall>w r. (TrimSpace i, w, r) \<in> set (ls_grants ls) \<longrightarrow> manages_space (ls_st ls) (TrimSpace actor) w) \<and>
    GetInvitationByID ls' = (GetInvitationByID ls)(TrimSpace i \<mapsto> row\<lparr>ir_ExpiresAt := now\<rparr>) \<and>
    ls_st ls' = ls_st ls \<and> ls_grants ls' = ls_grants ls"
proof -
  obtain row evs where R: "GetInvitationByID ls (TrimSpace i) = Some row" "requireInvitationManager ls (TrimSpace actor) (TrimSpace i) = Inr ()"
    "revokeInvitationRow ls row now evs = Inr ls'"
    using assms(1) by (auto simp: RevokeInvitation_def invitationRevoke_def bindr_Inr_iff split: if_splits option.splits)
  have id: "ir_ID row = TrimSpace i" using GetInvitationByID_D [OF R(1)] by simp
  have open': "link_open now row" using R(3) by (auto simp: revokeInvitationRow_def link_open_def split: if_splits)
  note iv = readInvitation_D(1)
  have "\<exists>evs. ls' = enqueueInvitationEvents evs (EndInvitation now (TrimSpace i) ls)"
    using R(3) endInvitation_open [OF R(1) open'] id
    by (auto simp: revokeInvitationRow_def split: if_splits sum.splits)
  then obtain evs' where "ls' = enqueueInvitationEvents evs' (EndInvitation now (TrimSpace i) ls)" ..
  note E = ends_row [OF this R(1) open']
  have "ListInvitationGrantsByInvitation ls (TrimSpace i) \<noteq> []"
    using R(2) by (auto simp: requireInvitationManager_def Let_def split: if_splits)
  then obtain g where "g \<in> set (ListInvitationGrantsByInvitation ls (TrimSpace i))" by (meson last_in_set)
  then have "\<exists>w r. (TrimSpace i, w, r) \<in> set (ls_grants ls)" 
    unfolding grants_of by blast
  then show ?thesis using R(1) open' requireInvitationManager_D [OF R(2) assms(2)] E by blast
qed


definition example_revoked :: link_store where
  "example_revoked = ok_value example_open (RevokeInvitation example_open ''u'' ''i'' 50)"

theorem RevokeInvitation_closes_witness: "\<exists>row. GetInvitationByID example_revoked ''i'' = Some row \<and> ir_ExpiresAt row = 50"
proof -
  have run: "RevokeInvitation example_open ''u'' ''i'' 50 = Inr example_revoked"
    unfolding example_revoked_def by (rule is_ok_value) code_simp
  have "TrimSpace ''i'' = ''i''" by code_simp
  then show ?thesis using RevokeInvitation_closes [OF run] example_open_ok
    by (auto simp: links_ok_def workspaces_ok_def tenancy_ok_def)
qed


section \<open>Listing\<close>

text \<open>A link that could be accepted: its roles are there and its creator may still give each.\<close>

definition valid_link :: "link_store \<Rightarrow> invitation_row \<Rightarrow> bool" where
  "valid_link ls row \<longleftrightarrow>
     (case readInvitation ls row of
        Inl _ \<Rightarrow> False
      | Inr iv \<Rightarrow> validateInvitationPackage (ls_st ls) iv (ir_InvitedBy row) = Inr ())"

lemma valid_link_same:
  assumes "ls_st ls' = ls_st ls" "ls_grants ls' = ls_grants ls"
  shows "valid_link ls' = valid_link ls"
proof
  fix row
  have "readInvitation ls' row = readInvitation ls row"
    unfolding readInvitation_def ListInvitationGrantsByInvitation_def assms ..
  then show "valid_link ls' row = valid_link ls row" unfolding valid_link_def assms(1) by simp
qed

definition closed_in :: "link_store \<Rightarrow> time \<Rightarrow> string \<Rightarrow> bool" where
  "closed_in ls now i \<longleftrightarrow> (\<forall>r. GetInvitationByID ls i = Some r \<longrightarrow> \<not> link_open now r)"

lemma closed_in_ended:
  assumes "ended_links ls ls'" "closed_in ls now i"
  shows "closed_in ls' now i"
proof (cases "GetInvitationByID ls i")
  case None
  have "map ir_ID (ls_invitations ls') = map ir_ID (ls_invitations ls)" using assms(1) by (simp add: ended_links_def)
  then have "GetInvitationByID ls' i = None" using None unfolding GetInvitationByID_None by simp
  then show ?thesis by (simp add: closed_in_def)
next
  case (Some r)
  then have "\<not> link_open now r" using assms(2) by (simp add: closed_in_def)
  then show ?thesis using closed_stays [OF _ Some] assms(1) by (fastforce simp: closed_in_def ended_links_def)
qed

lemma listLinks_skip:
  assumes "ir_RedeemedAt row = None" "\<not> valid_link ls row"
  shows "\<exists>reason. listLinks now (row # rows) ls = listLinks now rows (endInvitation (ir_ID row) reason now ls)"
proof (cases "readInvitation ls row")
  case (Inl e)
  then show ?thesis using assms(1) readInvitation_error [OF Inl] by auto
next
  case (Inr iv)
  then have "\<exists>e. validateInvitationPackage (ls_st ls) iv (ir_InvitedBy row) = Inl e"
    using assms(2) by (cases "validateInvitationPackage (ls_st ls) iv (ir_InvitedBy row)") (auto simp: valid_link_def)
  then show ?thesis using assms(1) Inr readInvitation_D(1,2) [OF Inr] by auto
qed

lemma listLinks_D:
  assumes "listLinks now rows ls = (ls', r)" "\<forall>row \<in> set rows. ir_RedeemedAt row = None"
  shows "\<exists>ivs. r = Inr ivs \<and> map ivn_ID ivs = map ir_ID (filter (valid_link ls) rows) \<and>
    (\<forall>row \<in> set rows. \<not> valid_link ls row \<longrightarrow> closed_in ls' now (ir_ID row))"
  using assms
proof (induction rows arbitrary: ls ls' r)
  case (Cons row rows)
  show ?case
  proof (cases "valid_link ls row")
    case True
    then obtain iv where iv: "readInvitation ls row = Inr iv" "validateInvitationPackage (ls_st ls) iv (ir_InvitedBy row) = Inr ()"
      by (auto simp: valid_link_def split: sum.splits)
    obtain l q where rest: "listLinks now rows ls = (l, q)" by (cases "listLinks now rows ls")
    obtain ivs where ivs: "q = Inr ivs" "map ivn_ID ivs = map ir_ID (filter (valid_link ls) rows)"
      "\<forall>row \<in> set rows. \<not> valid_link ls row \<longrightarrow> closed_in l now (ir_ID row)" using Cons.IH [OF rest] Cons.prems(2) by auto
    have "ls' = l" "r = Inr (iv # ivs)" using Cons.prems iv rest ivs(1) readInvitation_D(2) [OF iv(1)] by auto
    then show ?thesis using ivs True readInvitation_D(1) [OF iv(1)] by auto
  next
    case False
    then obtain reason where skip: "listLinks now rows (endInvitation (ir_ID row) reason now ls) = (ls', r)"
      using listLinks_skip [of row ls now rows] Cons.prems by auto
    let ?l = "endInvitation (ir_ID row) reason now ls"
    have same: "valid_link ?l = valid_link ls"
      by (rule valid_link_same) (use endInvitation_links [of ls "ir_ID row" reason now] in \<open>simp_all add: ended_links_def\<close>)
    have "closed_in ?l now (ir_ID row)" using endInvitation_closed by (simp add: closed_in_def)
    then have "closed_in ls' now (ir_ID row)" using closed_in_ended listLinks_links [OF skip] by blast
    then show ?thesis using Cons.IH [OF skip] Cons.prems(2) False unfolding same by auto
  qed
qed simp

lemma historyLinks_total: "\<exists>p. historyLinks ls rows = Inr p"
proof (induction rows)
  case (Cons row rows)
  then obtain accepted ended where "historyLinks ls rows = Inr (accepted, ended)" by auto
  then show ?case using readInvitation_error by (cases "readInvitation ls row") (auto simp: bindr_def)
qed simp

text \<open>Listing never fails for a named caller.  The open links it answers are, in order of creation, the first hundred that the
  caller manages and that are not expired or redeemed, less those that could no longer be accepted, and each of these is
  closed.\<close>

theorem ListInvitations_exact:
  assumes "ListInvitations ls actor now = (ls', r)" "TrimSpace actor \<noteq> []"
  shows "\<exists>l. r = Inr l \<and>
    map ivn_ID (il_Invitations l) = map ir_ID (filter (valid_link ls) (ListManageableInvitationHeaders ls (TrimSpace actor) now 100)) \<and>
    (\<forall>row \<in> set (ListManageableInvitationHeaders ls (TrimSpace actor) now 100). \<not> valid_link ls row \<longrightarrow> closed_in ls' now (ir_ID row))"
proof -
  let ?rows = "ListManageableInvitationHeaders ls (TrimSpace actor) now 100"
  obtain l q where links: "listLinks now ?rows ls = (l, q)" by (cases "listLinks now ?rows ls")
  have "\<forall>row \<in> set ?rows. ir_RedeemedAt row = None"
    by (auto simp: ListManageableInvitationHeaders_def link_open_def dest!: in_set_takeD)
  from listLinks_D [OF links this] obtain ivs where ivs: "q = Inr ivs" "map ivn_ID ivs = map ir_ID (filter (valid_link ls) ?rows)"
    "\<forall>row \<in> set ?rows. \<not> valid_link ls row \<longrightarrow> closed_in l now (ir_ID row)" by blast
  have opened: "ListOpen ls (TrimSpace actor) now = (l, Inr ivs)" using links ivs(1) assms(2) by (simp add: ListOpen_def)
  obtain accepted ended where "invitationHistory l (TrimSpace actor) (now - 30 * (24 * 60 * 60)) now = Inr (accepted, ended)"
    using historyLinks_total unfolding invitationHistory_def by fastforce
  then have "ls' = l" "r = Inr \<lparr>il_Invitations = ivs, il_Accepted = accepted, il_Ended = ended\<rparr>"
    using assms(1) opened by (simp_all add: ListInvitations_def Let_def bindr_def)
  then show ?thesis using ivs by simp
qed

theorem ListInvitations_exact_witness:
  "\<exists>l. snd (ListInvitations example_open ''u'' 50) = Inr l \<and> map ivn_ID (il_Invitations l) = [''i'']"
proof -
  have trim: "TrimSpace ''u'' = ''u''" by code_simp
  have "map ir_ID (filter (valid_link example_open) (ListManageableInvitationHeaders example_open ''u'' 50 100)) = [''i'']" by code_simp
  then show ?thesis
    using ListInvitations_exact [of example_open "''u''" 50 "fst (ListInvitations example_open ''u'' 50)" "snd (ListInvitations example_open ''u'' 50)"]
    unfolding trim by fastforce
qed

end
