(* ===== verification/Event_Bus.thy ===== *)
theory Event_Bus
  imports Access_Memo Roles
begin

text \<open>
  The event bus (\<^verbatim>\<open>internal/platform/eventbus\<close>): events, the middleware each subscription runs its handler behind
  (\<^verbatim>\<open>inprocess\<close>: dead letters, retries, receipts, panics), the tables under it
  (\<^verbatim>\<open>internal/platform/storage/outbox_repo.go\<close>, \<^verbatim>\<open>dead_letters_repo.go\<close>, \<^verbatim>\<open>processed_events_repo.go\<close>), and the relay that
  publishes the rows of the outbox (\<^verbatim>\<open>outbox/relay.go\<close>), the subscriptions and the replay of dead letters as interleaved
  steps.  What a context does is an argument: which waits it cuts, and the errors a handler returns.  A handler is a
  function of the state of the application; the rows its own transactions write are commits of their own.
\<close>

section \<open>Errors and events\<close>

text \<open>An error of the bus: what \<^verbatim>\<open>errors.Is\<close> and \<^verbatim>\<open>errors.As\<close> find along its chain, outermost first, and its text.\<close>

datatype cause =
    CauseSentinel sentinel
  | ContextCanceled
  | ContextDeadlineExceeded
  | CauseExhausted nat

datatype bus_err = BusErr (be_chain: "cause list") (be_msg: string)

definition bus_err_of :: "err \<Rightarrow> bus_err" where
  "bus_err_of e = BusErr (map CauseSentinel (err_chain e)) (err_msg e)"

definition has_cause :: "bus_err \<Rightarrow> cause \<Rightarrow> bool" where
  "has_cause e k \<longleftrightarrow> k \<in> set (be_chain e)"

definition wrap_bus :: "string \<Rightarrow> bus_err \<Rightarrow> bus_err" where
  "wrap_bus text e = BusErr (be_chain e) (text @ '': '' @ be_msg e)"

definition ErrClosed :: bus_err where
  "ErrClosed = BusErr [] ''eventbus: closed''"

record Event =
  ev_ID :: string
  ev_TraceID :: string
  ev_Topic :: string
  ev_Timestamp :: time
  ev_Payload :: string

section \<open>Handlers and middleware\<close>

text \<open>A handler works on a world and returns, with an error or none, or panics.\<close>

datatype outcome = Returns "bus_err option" | Panics string

type_synonym 'w handler = "Event \<Rightarrow> 'w \<Rightarrow> 'w \<times> outcome"

fun Chain :: "'w handler \<Rightarrow> ('w handler \<Rightarrow> 'w handler) list \<Rightarrow> 'w handler" where
  "Chain h [] = h"
| "Chain h (m # ms) = m (Chain h ms)"

definition retryable_bus :: "bus_err \<Rightarrow> bus_err" where
  "retryable_bus e = BusErr (CauseSentinel ErrRetryable # be_chain e) (sentinel_text ErrRetryable @ '': '' @ be_msg e)"

definition Recover :: "'w handler \<Rightarrow> 'w handler" where
  "Recover h ev w =
     (case h ev w of
        (w', Panics v) \<Rightarrow> (w', Returns (Some (retryable_bus (BusErr [] (''panic: '' @ v)))))
      | (w', Returns e) \<Rightarrow> (w', Returns e))"

text \<open>Delays are nanoseconds in 64 bits.  \<^verbatim>\<open>Int63n\<close> draws below its argument and panics on one that is not positive.\<close>

definition wrap64 :: "int \<Rightarrow> int" where
  "wrap64 x = (x + 2 ^ 63) mod 2 ^ 64 - 2 ^ 63"

record Backoff =
  bo_initial :: int
  bo_max :: int
  bo_rng :: "(int \<Rightarrow> int) option"

fun delay_loop :: "nat \<Rightarrow> int \<Rightarrow> int \<Rightarrow> int" where
  "delay_loop 0 d mx = d"
| "delay_loop (Suc n) d mx = (if d < mx then delay_loop n (wrap64 (d * 2)) mx else d)"

definition Delay :: "Backoff \<Rightarrow> nat \<Rightarrow> int option" where
  "Delay b attempt =
     (let d = delay_loop attempt (bo_initial b) (bo_max b);
          d = (if d > bo_max b then bo_max b else d)
      in case bo_rng b of
           None \<Rightarrow> Some d
         | Some Int63n \<Rightarrow>
             if d \<le> 0 then Some d
             else if d div 2 \<le> 0 then None
             else Some (wrap64 (d + Int63n (d div 2))))"

record RetryConfig =
  rc_MaxAttempts :: nat
  rc_Backoff :: Backoff

definition RetryExhausted :: "bus_err option \<Rightarrow> nat \<Rightarrow> bus_err" where
  "RetryExhausted e attempts =
     BusErr (CauseExhausted attempts # (case e of None \<Rightarrow> [] | Some e \<Rightarrow> be_chain e))
       (''retries exhausted ('' @ go_d attempts @ '' attempts): '' @ (case e of None \<Rightarrow> ''<nil>'' | Some e \<Rightarrow> be_msg e))"

text \<open>A sleep after an attempt ends with the timer, or with the error of a context that ends first; \<open>stops\<close> says which ones do.\<close>

definition sleep :: "(nat \<Rightarrow> bool) \<Rightarrow> nat \<Rightarrow> int \<Rightarrow> bus_err option" where
  "sleep stops attempt d = (if stops attempt then Some (BusErr [ContextCanceled] ''context canceled'') else None)"

fun retry_loop ::
  "RetryConfig \<Rightarrow> (nat \<Rightarrow> bool) \<Rightarrow> 'w handler \<Rightarrow> Event \<Rightarrow> nat \<Rightarrow> nat \<Rightarrow> bus_err option \<Rightarrow> 'w \<Rightarrow> 'w \<times> outcome" where
  "retry_loop cfg stops h ev 0 attempt err w = (w, Returns (Some (RetryExhausted err (rc_MaxAttempts cfg))))"
| "retry_loop cfg stops h ev (Suc left) attempt err w =
     (case h ev w of
        (w', Panics v) \<Rightarrow> (w', Panics v)
      | (w', Returns None) \<Rightarrow> (w', Returns None)
      | (w', Returns (Some e)) \<Rightarrow>
          if has_cause e (CauseSentinel ErrFatal) then (w', Returns (Some e))
          else if left = 0 then (w', Returns (Some (RetryExhausted (Some e) (rc_MaxAttempts cfg))))
          else (case Delay (rc_Backoff cfg) attempt of
                  None \<Rightarrow> (w', Panics ''invalid argument to Int63n'')
                | Some d \<Rightarrow>
                    (case sleep stops attempt d of
                       Some stopped \<Rightarrow> (w', Returns (Some stopped))
                     | None \<Rightarrow> retry_loop cfg stops h ev left (attempt + 1) (Some e) w')))"

definition NewRetry :: "RetryConfig \<Rightarrow> (nat \<Rightarrow> bool) \<Rightarrow> 'w handler \<Rightarrow> 'w handler" where
  "NewRetry cfg stops h ev w = retry_loop cfg stops h ev (rc_MaxAttempts cfg) 0 None w"

text \<open>The receipts of processed events, and a consumer's scope of them.\<close>

record 'w processed_store =
  ps_Seen :: "string \<Rightarrow> 'w \<Rightarrow> bus_err + bool"
  ps_Record :: "string \<Rightarrow> 'w \<Rightarrow> 'w \<times> bus_err option"

definition scoped :: "string \<Rightarrow> string \<Rightarrow> string" where
  "scoped consumer eventID = consumer @ '':'' @ eventID"

definition Scope :: "'w processed_store \<Rightarrow> string \<Rightarrow> 'w processed_store" where
  "Scope store consumer =
     \<lparr>ps_Seen = (\<lambda>i. ps_Seen store (scoped consumer i)), ps_Record = (\<lambda>i. ps_Record store (scoped consumer i))\<rparr>"

definition NewDedupe :: "'w processed_store \<Rightarrow> 'w handler \<Rightarrow> 'w handler" where
  "NewDedupe store h ev w =
     (case ps_Seen store (ev_ID ev) w of
        Inl e \<Rightarrow> (w, Returns (Some (wrap_bus (''dedupe seen '' @ ev_ID ev) e)))
      | Inr True \<Rightarrow> (w, Returns None)
      | Inr False \<Rightarrow>
          (case h ev w of
             (w', Returns None) \<Rightarrow>
               (case ps_Record store (ev_ID ev) w' of
                  (w'', Some e) \<Rightarrow> (w'', Returns (Some (wrap_bus (''dedupe record '' @ ev_ID ev) e)))
                | (w'', None) \<Rightarrow> (w'', Returns None))
           | r \<Rightarrow> r))"

record DeadLetter =
  dl_ID :: string
  dl_Topic :: string
  dl_Payload :: string
  dl_Error :: string
  dl_Attempts :: nat
  dl_CreatedAt :: time

record 'w dead_letter_store =
  dls_Put :: "DeadLetter \<Rightarrow> 'w \<Rightarrow> 'w \<times> bus_err option"
  dls_Get :: "string \<Rightarrow> 'w \<Rightarrow> bus_err + DeadLetter"
  dls_Delete :: "string \<Rightarrow> 'w \<Rightarrow> 'w \<times> bus_err option"

fun exhausted_attempts :: "cause list \<Rightarrow> nat" where
  "exhausted_attempts [] = 1"
| "exhausted_attempts (CauseExhausted n # ks) = n"
| "exhausted_attempts (k # ks) = exhausted_attempts ks"

definition NewDeadLetter :: "'w dead_letter_store \<Rightarrow> time \<Rightarrow> 'w handler \<Rightarrow> 'w handler" where
  "NewDeadLetter store now h ev w =
     (case h ev w of
        (w', Returns (Some e)) \<Rightarrow>
          if has_cause e ContextCanceled \<or> has_cause e ContextDeadlineExceeded then (w', Returns (Some e))
          else (case dls_Put store \<lparr>dl_ID = ev_ID ev, dl_Topic = ev_Topic ev, dl_Payload = ev_Payload ev, dl_Error = be_msg e,
                        dl_Attempts = exhausted_attempts (be_chain e), dl_CreatedAt = now\<rparr> w' of
                  (w'', Some perr) \<Rightarrow> (w'', Returns (Some (wrap_bus (''dead letter '' @ ev_ID ev) perr)))
                | (w'', None) \<Rightarrow> (w'', Returns None))
      | r \<Rightarrow> r)"

section \<open>The bus and its chain\<close>

record 'w Options =
  op_RetryMaxAttempts :: int
  op_RetryBackoff :: "Backoff option"
  op_DedupeStore :: "'w processed_store option"
  op_DeadLetterStore :: "'w dead_letter_store option"

text \<open>What \<^verbatim>\<open>New\<close> makes of unset options; the generator it seeds is an argument.\<close>

definition new_retry :: "(int \<Rightarrow> int) \<Rightarrow> 'w Options \<Rightarrow> RetryConfig" where
  "new_retry rng opts =
     \<lparr>rc_MaxAttempts = (if op_RetryMaxAttempts opts \<le> 0 then 3 else nat (op_RetryMaxAttempts opts)),
      rc_Backoff = (case op_RetryBackoff opts of
         None \<Rightarrow> \<lparr>bo_initial = 100 * 10 ^ 6, bo_max = 30 * 10 ^ 9, bo_rng = Some rng\<rparr>
       | Some b \<Rightarrow> b)\<rparr>"

definition buildChain ::
  "(int \<Rightarrow> int) \<Rightarrow> 'w Options \<Rightarrow> (nat \<Rightarrow> bool) \<Rightarrow> time \<Rightarrow> 'w handler \<Rightarrow> string \<Rightarrow> 'w handler" where
  "buildChain rng opts stops now h consumer =
     Chain h ((case op_DeadLetterStore opts of None \<Rightarrow> [] | Some store \<Rightarrow> [NewDeadLetter store now]) @
              [NewRetry (new_retry rng opts) stops] @
              (case op_DedupeStore opts of None \<Rightarrow> [] | Some store \<Rightarrow> [NewDedupe (Scope store consumer)]) @
              [Recover])"

definition default_consumer :: "string \<Rightarrow> nat \<Rightarrow> string" where
  "default_consumer topic n = topic @ ''#'' @ go_d n"

section \<open>The tables of the bus\<close>

record outbox_row =
  ox_ID :: string
  ox_Topic :: string
  ox_Payload :: string
  ox_CreatedAt :: time
  ox_Published :: bool

record 'w bus_world =
  bw_outbox :: "outbox_row list"
  bw_processed :: "(string \<times> time) list"
  bw_dead :: "DeadLetter list"
  bw_app :: 'w

definition processedSeen :: "string \<Rightarrow> 'w bus_world \<Rightarrow> bool" where
  "processedSeen eventID w \<longleftrightarrow> eventID \<in> fst ` set (bw_processed w)"

definition processedRecord :: "time \<Rightarrow> string \<Rightarrow> 'w bus_world \<Rightarrow> 'w bus_world" where
  "processedRecord now eventID w =
     (if processedSeen eventID w then w else w\<lparr>bw_processed := bw_processed w @ [(eventID, now)]\<rparr>)"

text \<open>An event's id is the key of its dead letter; the table stamps the row itself.\<close>

definition deadPut :: "time \<Rightarrow> DeadLetter \<Rightarrow> 'w bus_world \<Rightarrow> 'w bus_world res" where
  "deadPut now d w =
     (if dl_ID d \<in> dl_ID ` set (bw_dead w) then Inl (wrapf (''put dead letter '' @ dl_ID d) (sentinel_err ErrConflict))
      else Inr (w\<lparr>bw_dead := bw_dead w @ [d\<lparr>dl_CreatedAt := now\<rparr>]\<rparr>))"

definition deadGet :: "string \<Rightarrow> 'w bus_world \<Rightarrow> DeadLetter res" where
  "deadGet i w =
     (case find (\<lambda>d. dl_ID d = i) (bw_dead w) of
        None \<Rightarrow> Inl (wrapf (''get dead letter '' @ i) (sentinel_err ErrNotFound))
      | Some d \<Rightarrow> Inr d)"

text \<open>ORDER BY created_at DESC, id DESC LIMIT ? OFFSET ?.\<close>

definition deadList :: "nat \<Rightarrow> nat \<Rightarrow> 'w bus_world \<Rightarrow> DeadLetter list" where
  "deadList limit offset w =
     take limit (drop offset (rev (sort_key dl_CreatedAt (sort_key dl_ID (bw_dead w)))))"

definition deadCount :: "'w bus_world \<Rightarrow> nat" where
  "deadCount w = length (bw_dead w)"

definition deadDelete :: "string \<Rightarrow> 'w bus_world \<Rightarrow> 'w bus_world res" where
  "deadDelete i w =
     (if i \<notin> dl_ID ` set (bw_dead w) then Inl (wrapf (''delete dead letter '' @ i) (sentinel_err ErrNotFound))
      else Inr (w\<lparr>bw_dead := filter (\<lambda>d. dl_ID d \<noteq> i) (bw_dead w)\<rparr>))"

text \<open>Rows not published, oldest first; a row keeps its place among those of the same second.\<close>

definition Unpublished :: "nat \<Rightarrow> 'w bus_world \<Rightarrow> outbox_row list" where
  "Unpublished limit w = take limit (sort_key ox_CreatedAt (filter (\<lambda>r. \<not> ox_Published r) (bw_outbox w)))"

definition MarkPublished :: "string \<Rightarrow> 'w bus_world \<Rightarrow> 'w bus_world res" where
  "MarkPublished i w =
     (if i \<notin> ox_ID ` set (bw_outbox w) then Inl (wrapf (''mark outbox '' @ i @ '' published'') (sentinel_err ErrNotFound))
      else Inr (w\<lparr>bw_outbox := map (\<lambda>r. if ox_ID r = i then r\<lparr>ox_Published := True\<rparr> else r) (bw_outbox w)\<rparr>))"

definition insertOutboxRow :: "(string \<Rightarrow> string res) \<Rightarrow> time \<Rightarrow> string \<Rightarrow> string \<Rightarrow> string \<Rightarrow> 'w bus_world \<Rightarrow> 'w bus_world res" where
  "insertOutboxRow marshal now i topic payload w =
     bindr (map_errr (wrapf ''marshal outbox payload'') (marshal payload)) (\<lambda>b.
     if i \<in> ox_ID ` set (bw_outbox w) then Inl (wrapf (''enqueue outbox '' @ i) (sentinel_err ErrConflict))
     else Inr (w\<lparr>bw_outbox := bw_outbox w @
       [\<lparr>ox_ID = i, ox_Topic = topic, ox_Payload = b, ox_CreatedAt = now, ox_Published = False\<rparr>]\<rparr>))"

text \<open>The stores the server gives the bus.\<close>

definition ProcessedEvents :: "time \<Rightarrow> 'w bus_world processed_store" where
  "ProcessedEvents now = \<lparr>ps_Seen = (\<lambda>i w. Inr (processedSeen i w)), ps_Record = (\<lambda>i w. (processedRecord now i w, None))\<rparr>"

definition DeadLetters :: "time \<Rightarrow> 'w bus_world dead_letter_store" where
  "DeadLetters now =
     \<lparr>dls_Put = (\<lambda>d w. case deadPut now d w of Inl e \<Rightarrow> (w, Some (bus_err_of e)) | Inr w' \<Rightarrow> (w', None)),
      dls_Get = (\<lambda>i w. case deadGet i w of Inl e \<Rightarrow> Inl (bus_err_of e) | Inr d \<Rightarrow> Inr d),
      dls_Delete = (\<lambda>i w. case deadDelete i w of Inl e \<Rightarrow> (w, Some (bus_err_of e)) | Inr w' \<Rightarrow> (w', None))\<rparr>"

definition bootstrapBus :: "time \<Rightarrow> 'w bus_world Options" where
  "bootstrapBus now =
     \<lparr>op_RetryMaxAttempts = 0, op_RetryBackoff = None, op_DedupeStore = Some (ProcessedEvents now),
      op_DeadLetterStore = Some (DeadLetters now)\<rparr>"

section \<open>The running bus\<close>

text \<open>A subscription's handler works on the application's state; the chain around it also on the tables of the bus.\<close>

record 'a subscription =
  su_Topic :: string
  su_Consumer :: string
  su_Handler :: "'a handler"

definition on_app :: "'a handler \<Rightarrow> 'a bus_world handler" where
  "on_app h ev w = (let (a, r) = h ev (bw_app w) in (w\<lparr>bw_app := a\<rparr>, r))"

definition subscribers :: "'a subscription list \<Rightarrow> string \<Rightarrow> nat list" where
  "subscribers subs topic = filter (\<lambda>i. su_Topic (subs ! i) = topic) [0..<length subs]"

abbreviation (input) defaultChannelBuffer :: nat where "defaultChannelBuffer \<equiv> 256"
abbreviation (input) relayBatchSize :: nat where "relayBatchSize \<equiv> 100"

text \<open>The envelope: the encoder, the trace and the clock are arguments.\<close>

definition buildEvent :: "(string \<Rightarrow> string res) \<Rightarrow> string \<Rightarrow> string \<Rightarrow> time \<Rightarrow> string \<Rightarrow> string \<Rightarrow> bus_err + Event" where
  "buildEvent marshal newID traceID now topic payload =
     (case marshal payload of
        Inl e \<Rightarrow> Inl (wrap_bus ''marshal payload'' (bus_err_of e))
      | Inr data \<Rightarrow> Inr \<lparr>ev_ID = newID, ev_TraceID = traceID, ev_Topic = topic, ev_Timestamp = now, ev_Payload = data\<rparr>)"

text \<open>Publishing under an id up to the fan-out, which the steps below do one subscriber at a time.\<close>

definition PublishWithID ::
  "(string \<Rightarrow> string res) \<Rightarrow> string \<Rightarrow> string \<Rightarrow> time \<Rightarrow> bool \<Rightarrow> string \<Rightarrow> string \<Rightarrow> string \<Rightarrow> bus_err + Event" where
  "PublishWithID marshal newID traceID now closed i topic payload =
     (if i = [] then Inl (BusErr [] ''eventbus: publish with empty id'')
      else case buildEvent marshal newID traceID now topic payload of
        Inl e \<Rightarrow> Inl e
      | Inr ev \<Rightarrow> if closed then Inl ErrClosed else Inr (ev\<lparr>ev_ID := i\<rparr>))"

text \<open>Where the relay is: about to take the wake channel; holding it, with the rows of its batch still to publish once read;
  delivering one row to the subscribers left; waiting, with the error its flush ended with.\<close>

datatype relay_phase =
    RelayStart
  | RelayFlush chan "outbox_row list option"
  | RelayDeliver chan outbox_row "outbox_row list" Event "nat list"
  | RelayWait chan "bus_err option"

record 'a bus_run =
  br_world :: "'a bus_world"
  br_commits :: Broadcast
  br_announcing :: bool
  br_queues :: "Event list list"
  br_relay :: relay_phase
  br_closed :: bool
  br_replays :: "(Event \<times> nat list) list"
  br_given_up :: "(nat \<times> string) list"

definition send_to :: "nat \<Rightarrow> Event \<Rightarrow> Event list list \<Rightarrow> Event list list" where
  "send_to i ev queues = queues[i := queues ! i @ [ev]]"

fun insert_rows ::
  "(string \<Rightarrow> string res) \<Rightarrow> time \<Rightarrow> (string \<times> string \<times> string) list \<Rightarrow> 'a bus_world \<Rightarrow> 'a bus_world res" where
  "insert_rows marshal now [] w = Inr w"
| "insert_rows marshal now ((i, topic, payload) # rows) w =
     bindr (insertOutboxRow marshal now i topic payload w) (\<lambda>w. insert_rows marshal now rows w)"

text \<open>What is lost when the process stops: everything in the buffers.\<close>

definition buffered :: "Event list list \<Rightarrow> (nat \<times> string) list" where
  "buffered queues = concat (map (\<lambda>i. map (\<lambda>ev. (i, ev_ID ev)) (queues ! i)) [0..<length queues])"

definition stop_start :: "'a subscription list \<Rightarrow> 'a bus_run \<Rightarrow> 'a bus_run" where
  "stop_start subs s = s\<lparr>br_commits := zero_Broadcast, br_announcing := False, br_queues := replicate (length subs) [],
     br_relay := RelayStart, br_closed := False, br_replays := [], br_given_up := buffered (br_queues s) @ br_given_up s\<rparr>"

text \<open>The steps of the bus.  A commit writes rows with the change they announce, and before the next writer has its turn it
  wakes the waiting; the relay takes the wake channel, reads a batch, delivers each row to each subscriber and marks it; a subscriber takes an event and runs its
  chain, whose own commits may wake the relay; an event published past the outbox, under an id of its own, reaches a
  subscriber; the bus closes; the process stops and starts again.\<close>

inductive bus_step ::
  "(string \<Rightarrow> string res) \<Rightarrow> (int \<Rightarrow> int) \<Rightarrow> 'a subscription list \<Rightarrow> 'a bus_run \<Rightarrow> 'a bus_run \<Rightarrow> bool"
  for marshal rng subs where
  commit: "\<not> br_announcing s \<Longrightarrow> insert_rows marshal now rows (br_world s) = Inr w \<Longrightarrow>
    bus_step marshal rng subs s (s\<lparr>br_world := w\<lparr>bw_app := a\<rparr>, br_announcing := True\<rparr>)"
| announce: "br_announcing s \<Longrightarrow>
    bus_step marshal rng subs s (s\<lparr>br_commits := Notify (br_commits s), br_announcing := False\<rparr>)"
| relay_start: "br_relay s = RelayStart \<Longrightarrow> Next (br_commits s) = (b, ch) \<Longrightarrow>
    bus_step marshal rng subs s (s\<lparr>br_commits := b, br_relay := RelayFlush ch None\<rparr>)"
| relay_read: "br_relay s = RelayFlush ch None \<Longrightarrow>
    bus_step marshal rng subs s (s\<lparr>br_relay := RelayFlush ch (Some (Unpublished relayBatchSize (br_world s)))\<rparr>)"
| relay_flushed: "br_relay s = RelayFlush ch (Some []) \<Longrightarrow>
    bus_step marshal rng subs s (s\<lparr>br_relay := RelayWait ch None\<rparr>)"
| relay_publish: "br_relay s = RelayFlush ch (Some (e # es)) \<Longrightarrow>
    PublishWithID marshal newID traceID now (br_closed s) (ox_ID e) (ox_Topic e) (ox_Payload e) = Inr ev \<Longrightarrow>
    bus_step marshal rng subs s (s\<lparr>br_relay := RelayDeliver ch e es ev (subscribers subs (ox_Topic e))\<rparr>)"
| relay_refused: "br_relay s = RelayFlush ch (Some (e # es)) \<Longrightarrow>
    PublishWithID marshal newID traceID now (br_closed s) (ox_ID e) (ox_Topic e) (ox_Payload e) = Inl err \<Longrightarrow>
    bus_step marshal rng subs s (s\<lparr>br_relay := RelayWait ch (Some (wrap_bus (''outbox publish '' @ ox_ID e) err))\<rparr>)"
| relay_deliver: "br_relay s = RelayDeliver ch e es ev (i # is) \<Longrightarrow> length (br_queues s ! i) < defaultChannelBuffer \<Longrightarrow>
    bus_step marshal rng subs s (s\<lparr>br_queues := send_to i ev (br_queues s), br_relay := RelayDeliver ch e es ev is\<rparr>)"
| relay_drop: "br_relay s = RelayDeliver ch e es ev (i # is) \<Longrightarrow> br_closed s \<Longrightarrow>
    bus_step marshal rng subs s (s\<lparr>br_relay := RelayDeliver ch e es ev is, br_given_up := (i, ev_ID ev) # br_given_up s\<rparr>)"
| relay_cut: "br_relay s = RelayDeliver ch e es ev (i # is) \<Longrightarrow>
    bus_step marshal rng subs s
      (s\<lparr>br_relay := RelayWait ch (Some (wrap_bus (''outbox publish '' @ ox_ID e) (BusErr [ContextCanceled] ''context canceled'')))\<rparr>)"
| relay_mark: "br_relay s = RelayDeliver ch e es ev [] \<Longrightarrow> \<not> br_announcing s \<Longrightarrow> MarkPublished (ox_ID e) (br_world s) = Inr w \<Longrightarrow>
    bus_step marshal rng subs s (s\<lparr>br_world := w, br_commits := Notify (br_commits s), br_relay := RelayFlush ch (Some es)\<rparr>)"
| relay_unmarked: "br_relay s = RelayDeliver ch e es ev [] \<Longrightarrow>
    bus_step marshal rng subs s (s\<lparr>br_relay := RelayWait ch (Some (wrap_bus (''outbox mark '' @ ox_ID e) err))\<rparr>)"
| relay_again: "br_relay s = RelayWait ch r \<Longrightarrow> bus_step marshal rng subs s (s\<lparr>br_relay := RelayStart\<rparr>)"
| handle: "i < length subs \<Longrightarrow> br_queues s ! i = ev # rest \<Longrightarrow>
    buildChain rng (bootstrapBus now) stops now (on_app (su_Handler (subs ! i))) (su_Consumer (subs ! i)) ev (br_world s) =
      (w, Returns r) \<Longrightarrow> b = br_commits s \<or> b = Notify (br_commits s) \<Longrightarrow>
    bus_step marshal rng subs s (s\<lparr>br_world := w, br_commits := b, br_queues := (br_queues s)[i := rest],
      br_given_up := (if r = None then br_given_up s else (i, ev_ID ev) # br_given_up s)\<rparr>)"
| direct: "i \<in> set (subscribers subs (ev_Topic ev)) \<Longrightarrow> ev_ID ev \<notin> ox_ID ` set (bw_outbox (br_world s)) \<Longrightarrow>
    length (br_queues s ! i) < defaultChannelBuffer \<Longrightarrow>
    bus_step marshal rng subs s (s\<lparr>br_queues := send_to i ev (br_queues s)\<rparr>)"
| close: "bus_step marshal rng subs s (s\<lparr>br_closed := True\<rparr>)"
| restart: "bus_step marshal rng subs s (stop_start subs s)"

text \<open>Replaying a dead letter: it is read and published under its own id, and deleted once every subscriber has it in its
  buffer.\<close>

inductive replay_step ::
  "(string \<Rightarrow> string res) \<Rightarrow> 'a subscription list \<Rightarrow> 'a bus_run \<Rightarrow> 'a bus_run \<Rightarrow> bool"
  for marshal subs where
  replay_start: "deadGet i (br_world s) = Inr d \<Longrightarrow>
    PublishWithID marshal newID traceID now (br_closed s) (dl_ID d) (dl_Topic d) (dl_Payload d) = Inr ev \<Longrightarrow>
    replay_step marshal subs s (s\<lparr>br_replays := (ev, subscribers subs (dl_Topic d)) # br_replays s\<rparr>)"
| replay_deliver: "br_replays s = xs @ (ev, i # is) # ys \<Longrightarrow> length (br_queues s ! i) < defaultChannelBuffer \<Longrightarrow>
    replay_step marshal subs s (s\<lparr>br_queues := send_to i ev (br_queues s), br_replays := xs @ (ev, is) # ys\<rparr>)"
| replay_cut: "br_replays s = xs @ (ev, i # is) # ys \<Longrightarrow> replay_step marshal subs s (s\<lparr>br_replays := xs @ ys\<rparr>)"
| replay_delete: "br_replays s = xs @ (ev, []) # ys \<Longrightarrow> deadDelete (ev_ID ev) (br_world s) = Inr w \<Longrightarrow>
    replay_step marshal subs s (s\<lparr>br_world := w, br_commits := Notify (br_commits s), br_replays := xs @ ys\<rparr>)"

end
