(* ===== verification/Event_Chain.thy ===== *)
theory Event_Chain
  imports Event_Bus
begin

text \<open>
  What the chain of a subscription does to one event: the delays of its retries, the runs of the handler, the receipt
  (locale \<open>processed_storer\<close>, interpreted on the table and on a consumer's part of it), the dead letter, and the error of a
  context, which passes through.
\<close>

section \<open>Delays\<close>

lemma wrap64_id: "- (2 ^ 63) \<le> x \<Longrightarrow> x < 2 ^ 63 \<Longrightarrow> wrap64 x = x"
  by (simp add: wrap64_def)

lemma delay_loop_min:
  assumes "0 < d" "d < 2 ^ 63" "0 < mx" "mx \<le> 2 ^ 62"
  shows "(if delay_loop n d mx > mx then mx else delay_loop n d mx) = min mx (d * 2 ^ n)"
  using assms(1,2)
proof (induction n arbitrary: d)
  case (Suc n)
  show ?case
  proof (cases "d < mx")
    case True
    then have "wrap64 (d * 2) = d * 2" "d * 2 < 2 ^ 63" using Suc.prems assms(4) by (auto intro!: wrap64_id)
    then show ?thesis using Suc.IH [of "d * 2"] Suc.prems(1) True by (simp only: delay_loop.simps if_True power_Suc mult.assoc)
  next
    case False
    have "(1::int) \<le> 2 ^ Suc n" by (rule one_le_power) simp
    then have "d * 1 \<le> d * 2 ^ Suc n" using Suc.prems(1) by (intro mult_left_mono) auto
    then show ?thesis using False by (simp add: min_def)
  qed
qed (simp add: min_def)

definition base_delay :: "Backoff \<Rightarrow> nat \<Rightarrow> int" where
  "base_delay b n = min (bo_max b) (bo_initial b * 2 ^ n)"

lemma Delay_base:
  assumes "0 < bo_initial b" "bo_initial b < 2 ^ 63" "0 < bo_max b" "bo_max b \<le> 2 ^ 62"
  shows "0 < base_delay b n" "base_delay b n \<le> 2 ^ 62"
    "Delay b n = (case bo_rng b of None \<Rightarrow> Some (base_delay b n)
       | Some r \<Rightarrow> if base_delay b n div 2 \<le> 0 then None else Some (wrap64 (base_delay b n + r (base_delay b n div 2))))"
proof -
  show pos: "0 < base_delay b n" "base_delay b n \<le> 2 ^ 62" using assms(1,3,4) by (auto simp: base_delay_def)
  have eq: "(if delay_loop n (bo_initial b) (bo_max b) > bo_max b then bo_max b else delay_loop n (bo_initial b) (bo_max b)) = base_delay b n"
    unfolding base_delay_def by (rule delay_loop_min [OF assms])
  show "Delay b n = (case bo_rng b of None \<Rightarrow> Some (base_delay b n)
       | Some r \<Rightarrow> if base_delay b n div 2 \<le> 0 then None else Some (wrap64 (base_delay b n + r (base_delay b n div 2))))"
    unfolding Delay_def Let_def eq using pos(1) by (simp split: option.split)
qed

section \<open>What a chain does\<close>

lemma on_app_D: "on_app h ev w = (w', r) \<Longrightarrow> w' = w\<lparr>bw_app := fst (h ev (bw_app w))\<rparr> \<and> r = snd (h ev (bw_app w))"
  by (auto simp: on_app_def Let_def split: prod.splits)

lemma Recover_D: "Recover (on_app h) ev w = (w', r) \<Longrightarrow> w' = w\<lparr>bw_app := fst (h ev (bw_app w))\<rparr> \<and> (\<exists>e. r = Returns e)"
proof -
  assume r: "Recover (on_app h) ev w = (w', r)"
  obtain w1 r1 where run: "on_app h ev w = (w1, r1)" by (cases "on_app h ev w")
  have "w1 = w\<lparr>bw_app := fst (h ev (bw_app w))\<rparr>" using on_app_D [OF run] ..
  then show ?thesis using r unfolding Recover_def run by (cases r1) auto
qed

text \<open>The inner part of the chain: the handler behind the check of the receipt.\<close>

abbreviation (input) dedupe :: "time \<Rightarrow> 'a handler \<Rightarrow> string \<Rightarrow> 'a bus_world handler" where
  "dedupe now h c \<equiv> NewDedupe (Scope (ProcessedEvents now) c) (Recover (on_app h))"

lemma dedupe_D:
  assumes "dedupe now h c ev w = (w', r)"
  shows "(processedSeen (scoped c (ev_ID ev)) w \<and> w' = w \<and> r = Returns None) \<or>
    (\<not> processedSeen (scoped c (ev_ID ev)) w \<and> r = Returns None \<and>
      w' = processedRecord now (scoped c (ev_ID ev)) (w\<lparr>bw_app := fst (h ev (bw_app w))\<rparr>)) \<or>
    (\<not> processedSeen (scoped c (ev_ID ev)) w \<and> (\<exists>e. r = Returns (Some e) \<and> snd (Recover (on_app h) ev w) = r) \<and>
      w' = w\<lparr>bw_app := fst (h ev (bw_app w))\<rparr>)"
proof (cases "processedSeen (scoped c (ev_ID ev)) w")
  case True
  then show ?thesis using assms by (simp add: NewDedupe_def Scope_def ProcessedEvents_def)
next
  case False
  obtain w1 e where r: "Recover (on_app h) ev w = (w1, Returns e)" using Recover_D by (metis prod.exhaust)
  then have "w1 = w\<lparr>bw_app := fst (h ev (bw_app w))\<rparr>" using Recover_D by blast
  then show ?thesis using assms False r
    by (cases e) (auto simp: NewDedupe_def Scope_def ProcessedEvents_def)
qed

definition runs :: "'a handler \<Rightarrow> Event \<Rightarrow> nat \<Rightarrow> 'a \<Rightarrow> 'a" where
  "runs h ev k = (\<lambda>a. fst (h ev a)) ^^ k"

lemma runs_simps [simp]: "runs h ev 0 a = a" "runs h ev (Suc k) a = runs h ev k (fst (h ev a))"
  by (simp_all add: runs_def funpow_Suc_right del: funpow.simps(2))

lemma processedRecord_app [simp]: "processedSeen i (w\<lparr>bw_app := a\<rparr>) = processedSeen i w"
  by (simp add: processedSeen_def)

lemma processedRecord_sel [simp]:
  "processedSeen i (processedRecord now j w) \<longleftrightarrow> i = j \<or> processedSeen i w"
  "bw_outbox (processedRecord now j w) = bw_outbox w" "bw_dead (processedRecord now j w) = bw_dead w"
  "bw_app (processedRecord now j w) = bw_app w"
  by (auto simp: processedRecord_def processedSeen_def)

text \<open>Retries: the handler runs at most as often as there are attempts left; a receipt is recorded when one succeeds.\<close>

lemma retry_D:
  assumes "retry_loop cfg stops (dedupe now h c) ev left n err w = (w', r)" "\<not> processedSeen (scoped c (ev_ID ev)) w"
  shows "\<exists>k \<le> left. (r = Returns None \<and> 0 < k \<and> w' = processedRecord now (scoped c (ev_ID ev)) (w\<lparr>bw_app := runs h ev k (bw_app w)\<rparr>)) \<or>
    (r \<noteq> Returns None \<and> (0 < left \<longrightarrow> 0 < k) \<and> w' = w\<lparr>bw_app := runs h ev k (bw_app w)\<rparr>)"
  using assms
proof (induction left arbitrary: n err w)
  case 0
  then show ?case by auto
next
  case (Suc left)
  obtain w1 r1 where one: "dedupe now h c ev w = (w1, r1)" by (cases "dedupe now h c ev w")
  let ?w = "w\<lparr>bw_app := fst (h ev (bw_app w))\<rparr>"
  show ?case
  proof (cases "r1 = Returns None")
    case True
    then have "w1 = processedRecord now (scoped c (ev_ID ev)) ?w" using dedupe_D [OF one] Suc.prems(2) by auto
    then show ?thesis using Suc.prems(1) one True by (intro exI [of _ 1]) simp
  next
    case False
    then obtain e where e: "r1 = Returns (Some e)" "w1 = ?w" using dedupe_D [OF one] Suc.prems(2) by auto
    show ?thesis
    proof (cases "r \<noteq> Returns None \<and> w' = ?w")
      case True
      then show ?thesis by (intro exI [of _ 1]) simp
    next
      case no: False
      then have rest: "retry_loop cfg stops (dedupe now h c) ev left (n + 1) (Some e) ?w = (w', r)"
        using Suc.prems(1) one e by (auto split: if_splits option.splits)
      have "\<not> processedSeen (scoped c (ev_ID ev)) ?w" using Suc.prems(2) by simp
      from Suc.IH [OF rest this] obtain k where "k \<le> left"
        "(r = Returns None \<and> 0 < k \<and> w' = processedRecord now (scoped c (ev_ID ev)) (?w\<lparr>bw_app := runs h ev k (bw_app ?w)\<rparr>)) \<or>
         (r \<noteq> Returns None \<and> w' = ?w\<lparr>bw_app := runs h ev k (bw_app ?w)\<rparr>)" by blast
      then show ?thesis by (intro exI [of _ "Suc k"]) auto
    qed
  qed
qed

abbreviation (input) server_retry :: "(int \<Rightarrow> int) \<Rightarrow> RetryConfig" where
  "server_retry rng \<equiv> \<lparr>rc_MaxAttempts = 3, rc_Backoff = \<lparr>bo_initial = 100 * 10 ^ 6, bo_max = 30 * 10 ^ 9, bo_rng = Some rng\<rparr>\<rparr>"

lemma server_chain:
  "buildChain rng (bootstrapBus now) stops now (on_app h) c =
    NewDeadLetter (DeadLetters now) now (NewRetry (server_retry rng) stops (dedupe now h c))"
  by (simp add: buildChain_def bootstrapBus_def new_retry_def)

lemma server_Delay: "Delay (rc_Backoff (server_retry rng)) n \<noteq> None"
proof -
  let ?b = "rc_Backoff (server_retry rng)"
  have "(10 ^ 8 :: int) * 1 \<le> 10 ^ 8 * 2 ^ n" by (intro mult_left_mono one_le_power) auto
  then have "10 ^ 8 \<le> base_delay ?b n" by (simp add: base_delay_def)
  then show ?thesis using Delay_base(3) [of ?b n] by simp
qed

lemma retry_no_panic:
  assumes "\<And>n. Delay (rc_Backoff cfg) n \<noteq> None"
  shows "\<exists>w' e. retry_loop cfg stops (dedupe now h c) ev left n err w = (w', Returns e)"
proof (induction left arbitrary: n err w)
  case (Suc left)
  obtain w1 e where "dedupe now h c ev w = (w1, Returns e)"
    using dedupe_D [where now = now and h = h and c = c and ev = ev and w = w] by (metis prod.exhaust)
  moreover obtain d where "Delay (rc_Backoff cfg) n = Some d" using assms [of n] by auto
  ultimately show ?case using Suc.IH by (cases e) (auto split: option.splits)
qed simp

lemma deadPut_D:
  "deadPut now d w = Inr w' \<longleftrightarrow> dl_ID d \<notin> dl_ID ` set (bw_dead w) \<and> w' = w\<lparr>bw_dead := bw_dead w @ [d\<lparr>dl_CreatedAt := now\<rparr>]\<rparr>"
  "deadPut now d w = Inl e \<longleftrightarrow> dl_ID d \<in> dl_ID ` set (bw_dead w) \<and> e = wrapf (''put dead letter '' @ dl_ID d) (sentinel_err ErrConflict)"
  by (auto simp: deadPut_def)

text \<open>The dead-letter part: an error that is not of a context is stored, unless the event already has a letter.\<close>

lemma dead_letter_D:
  assumes "inner ev w = (w1, Returns (Some e))" "NewDeadLetter (DeadLetters now) now inner ev w = (w', out)"
  shows "(ev_ID ev \<notin> dl_ID ` set (bw_dead w1) \<and> out = Returns None \<and> (\<exists>d. dl_ID d = ev_ID ev \<and> dl_Topic d = ev_Topic ev \<and>
      dl_Payload d = ev_Payload ev \<and> dl_Error d = be_msg e \<and> w' = w1\<lparr>bw_dead := bw_dead w1 @ [d]\<rparr>)) \<or>
    (w' = w1 \<and> (\<exists>e. out = Returns (Some e) \<and>
      (has_cause e ContextCanceled \<or> has_cause e ContextDeadlineExceeded \<or> ev_ID ev \<in> dl_ID ` set (bw_dead w1))))"
proof (cases "has_cause e ContextCanceled \<or> has_cause e ContextDeadlineExceeded")
  case True
  then show ?thesis using assms by (auto simp: NewDeadLetter_def)
next
  case False
  let ?d = "\<lparr>dl_ID = ev_ID ev, dl_Topic = ev_Topic ev, dl_Payload = ev_Payload ev, dl_Error = be_msg e,
    dl_Attempts = exhausted_attempts (be_chain e), dl_CreatedAt = now\<rparr>"
  show ?thesis
  proof (cases "ev_ID ev \<in> dl_ID ` set (bw_dead w1)")
    case True
    then show ?thesis using assms False by (auto simp: NewDeadLetter_def DeadLetters_def deadPut_def)
  next
    case fresh: False
    then have "out = Returns None" "w' = w1\<lparr>bw_dead := bw_dead w1 @ [?d]\<rparr>"
      using assms False by (simp_all add: NewDeadLetter_def DeadLetters_def deadPut_def)
    then show ?thesis using fresh by (intro disjI1 conjI exI [of _ ?d]) simp_all
  qed
qed

text \<open>How a chain of the server ends, with the number of runs of the handler.\<close>

definition already :: "string \<Rightarrow> Event \<Rightarrow> 'a bus_world \<Rightarrow> bool" where
  "already c ev w \<longleftrightarrow> processedSeen (scoped c (ev_ID ev)) w"

lemma chain_D:
  assumes "buildChain rng (bootstrapBus now) stops now (on_app h) c ev w = (w', out)"
  shows "(already c ev w \<and> w' = w \<and> out = Returns None) \<or>
    (\<not> already c ev w \<and> (\<exists>k. 0 < k \<and> k \<le> 3 \<and> (let w1 = w\<lparr>bw_app := runs h ev k (bw_app w)\<rparr> in
      (out = Returns None \<and> w' = processedRecord now (scoped c (ev_ID ev)) w1) \<or>
      (out = Returns None \<and> ev_ID ev \<notin> dl_ID ` set (bw_dead w) \<and> (\<exists>d. dl_ID d = ev_ID ev \<and> dl_Topic d = ev_Topic ev \<and>
        dl_Payload d = ev_Payload ev \<and> w' = w1\<lparr>bw_dead := bw_dead w @ [d]\<rparr>)) \<or>
      (w' = w1 \<and> (\<exists>e. out = Returns (Some e) \<and>
        (has_cause e ContextCanceled \<or> has_cause e ContextDeadlineExceeded \<or> ev_ID ev \<in> dl_ID ` set (bw_dead w)))))))"
proof -
  let ?inner = "NewRetry (server_retry rng) stops (dedupe now h c)"
  have run: "NewDeadLetter (DeadLetters now) now ?inner ev w = (w', out)" using assms unfolding server_chain .
  obtain w1 e where in1: "?inner ev w = (w1, Returns e)"
    using retry_no_panic [of "server_retry rng", OF server_Delay] unfolding NewRetry_def by blast
  have loop: "retry_loop (server_retry rng) stops (dedupe now h c) ev 3 0 None w = (w1, Returns e)"
    using in1 by (simp add: NewRetry_def)
  show ?thesis
  proof (cases "already c ev w")
    case True
    then have "dedupe now h c ev w = (w, Returns None)"
      by (simp add: already_def NewDedupe_def Scope_def ProcessedEvents_def)
    then have "?inner ev w = (w, Returns None)" by (simp add: NewRetry_def numeral_3_eq_3)
    then show ?thesis using run True by (simp add: NewDeadLetter_def)
  next
    case False
    then obtain k where k: "k \<le> 3" "(e = None \<and> 0 < k \<and> w1 = processedRecord now (scoped c (ev_ID ev)) (w\<lparr>bw_app := runs h ev k (bw_app w)\<rparr>)) \<or>
       (e \<noteq> None \<and> 0 < k \<and> w1 = w\<lparr>bw_app := runs h ev k (bw_app w)\<rparr>)"
      using retry_D [OF loop] unfolding already_def by auto
    show ?thesis
    proof (cases e)
      case None
      then have "w' = w1" "out = Returns None" using run in1 by (simp_all add: NewDeadLetter_def)
      then show ?thesis using False k None by (intro disjI2 conjI exI [of _ k]) (auto simp: Let_def)
    next
      case (Some e')
      then have w1: "w1 = w\<lparr>bw_app := runs h ev k (bw_app w)\<rparr>" "0 < k" using k(2) by auto
      have "bw_dead w1 = bw_dead w" by (simp add: w1)
      then show ?thesis
        using dead_letter_D [OF in1 [unfolded Some] run] False k(1) w1
        by (intro disjI2 conjI exI [of _ k]) (auto simp: Let_def)
    qed
  qed
qed

section \<open>The contract of the receipts\<close>

text \<open>What the check of receipts needs of their store: it answers, and a recorded id, and no other, is seen from then on.\<close>

locale processed_storer =
  fixes store :: "'w processed_store"
  assumes seen_answers: "\<exists>b. ps_Seen store i w = Inr b"
    and record_answers: "snd (ps_Record store i w) = None"
    and seen_record: "ps_Seen store i (fst (ps_Record store j w)) = (if i = j then Inr True else ps_Seen store i w)"
begin

lemma recorded_once:
  assumes "NewDedupe store h ev w = (w', Returns None)"
  shows "ps_Seen store (ev_ID ev) w' = Inr True"
proof (cases "ps_Seen store (ev_ID ev) w = Inr True")
  case True
  then show ?thesis using assms by (simp add: NewDedupe_def)
next
  case False
  then have no: "ps_Seen store (ev_ID ev) w = Inr False" using seen_answers [of "ev_ID ev" w] by auto
  obtain w1 r where h: "h ev w = (w1, r)" by (cases "h ev w")
  obtain w2 where r2: "ps_Record store (ev_ID ev) w1 = (w2, None)" using record_answers [of "ev_ID ev" w1] by (metis prod.collapse)
  have "w' = w2" using assms no h r2 by (auto simp: NewDedupe_def split: outcome.splits option.splits)
  then show ?thesis using seen_record [of "ev_ID ev" "ev_ID ev" w1] r2 by simp
qed

lemma seen_skips: "ps_Seen store (ev_ID ev) w = Inr True \<Longrightarrow> NewDedupe store h ev w = (w, Returns None)"
  by (simp add: NewDedupe_def)

text \<open>A second delivery changes nothing, whatever the handler.\<close>

lemma second_skips: "NewDedupe store h ev w = (w', Returns None) \<Longrightarrow> NewDedupe store h' ev w' = (w', Returns None)"
  using recorded_once seen_skips by blast

lemma failed_not_recorded:
  assumes "NewDedupe store h ev w = (w', Returns (Some e))" "fst (h ev w) = w1"
  shows "w' = w1 \<and> snd (h ev w) = Returns (Some e)"
proof -
  have no: "ps_Seen store (ev_ID ev) w = Inr False"
    using seen_answers [of "ev_ID ev" w] assms(1) by (auto simp: NewDedupe_def)
  obtain r where h: "h ev w = (w1, r)" using assms(2) by (cases "h ev w") auto
  obtain w2 where "ps_Record store (ev_ID ev) w1 = (w2, None)" using record_answers [of "ev_ID ev" w1] by (metis prod.collapse)
  then show ?thesis using assms(1) no h by (auto simp: NewDedupe_def split: outcome.splits option.splits)
qed

text \<open>A consumer's part of a store is a store: other consumers' receipts are not its own.\<close>

lemma scope_storer: "processed_storer (Scope store c)"
  using seen_answers record_answers seen_record by unfold_locales (auto simp: Scope_def scoped_def)

end

interpretation processed_events: processed_storer "ProcessedEvents now"
  by unfold_locales (simp_all add: ProcessedEvents_def)

interpretation consumer_receipts: processed_storer "Scope (ProcessedEvents now) c"
  by (rule processed_events.scope_storer)

section \<open>Timeouts and the dead letters\<close>

lemma retry_timeout:
  assumes "retry_loop cfg stops (dedupe now h c) ev left n err w = (w', Returns r)" "\<not> processedSeen (scoped c (ev_ID ev)) w"
    and "\<And>a. \<exists>e. snd (h ev a) = Returns (Some e) \<and> has_cause e ContextDeadlineExceeded"
    and "0 < left"
  shows "\<exists>e. r = Some e \<and> (has_cause e ContextCanceled \<or> has_cause e ContextDeadlineExceeded)"
  using assms(1,2,4)
proof (induction left arbitrary: n err w)
  case (Suc left)
  let ?w = "w\<lparr>bw_app := fst (h ev (bw_app w))\<rparr>"
  obtain e where e: "snd (h ev (bw_app w)) = Returns (Some e)" "has_cause e ContextDeadlineExceeded"
    using assms(3) by blast
  have "dedupe now h c ev w = (?w, Returns (Some e))"
    using e(1) Suc.prems(2)
    by (cases "h ev (bw_app w)") (simp add: NewDedupe_def Scope_def ProcessedEvents_def Recover_def on_app_def)
  then have loop: "retry_loop cfg stops (dedupe now h c) ev (Suc left) n err w =
     (if has_cause e (CauseSentinel ErrFatal) then (?w, Returns (Some e))
      else if left = 0 then (?w, Returns (Some (RetryExhausted (Some e) (rc_MaxAttempts cfg))))
      else (case Delay (rc_Backoff cfg) n of
              None \<Rightarrow> (?w, Panics ''invalid argument to Int63n'')
            | Some d \<Rightarrow> (case sleep stops n d of
                 Some stopped \<Rightarrow> (?w, Returns (Some stopped))
               | None \<Rightarrow> retry_loop cfg stops (dedupe now h c) ev left (n + 1) (Some e) ?w)))" by simp
  consider "has_cause e (CauseSentinel ErrFatal)" | "\<not> has_cause e (CauseSentinel ErrFatal)" "left = 0"
    | "\<not> has_cause e (CauseSentinel ErrFatal)" "0 < left" by blast
  then show ?case
  proof cases
    case 1
    then show ?thesis using Suc.prems(1) e(2) unfolding loop by auto
  next
    case 2
    then show ?thesis using Suc.prems(1) e(2) unfolding loop by (auto simp: RetryExhausted_def has_cause_def)
  next
    case 3
    show ?thesis
    proof (cases "stops n")
      case True
      then show ?thesis using Suc.prems(1) 3 unfolding loop
        by (auto simp: sleep_def has_cause_def split: option.splits)
    next
      case False
      then have "retry_loop cfg stops (dedupe now h c) ev left (n + 1) (Some e) ?w = (w', Returns r)"
        using Suc.prems(1) 3 unfolding loop by (auto simp: sleep_def split: option.splits)
      then show ?thesis by (rule Suc.IH) (use Suc.prems(2) 3 in simp_all)
    qed
  qed
qed simp

lemma timeout_chain:
  assumes "buildChain rng (bootstrapBus now) stops now (on_app h) c ev w = (w', out)" "\<not> already c ev w"
    and "\<And>a. \<exists>e. snd (h ev a) = Returns (Some e) \<and> has_cause e ContextDeadlineExceeded"
  shows "\<exists>k e. 0 < k \<and> k \<le> 3 \<and> w' = w\<lparr>bw_app := runs h ev k (bw_app w)\<rparr> \<and> out = Returns (Some e)"
proof -
  let ?inner = "NewRetry (server_retry rng) stops (dedupe now h c)"
  have run: "NewDeadLetter (DeadLetters now) now ?inner ev w = (w', out)" using assms(1) unfolding server_chain .
  obtain w1 r where inner: "?inner ev w = (w1, Returns r)"
    using retry_no_panic [of "server_retry rng", OF server_Delay] unfolding NewRetry_def by blast
  then have loop: "retry_loop (server_retry rng) stops (dedupe now h c) ev 3 0 None w = (w1, Returns r)"
    by (simp add: NewRetry_def)
  have fresh: "\<not> processedSeen (scoped c (ev_ID ev)) w" using assms(2) by (simp add: already_def)
  obtain e where e: "r = Some e" "has_cause e ContextCanceled \<or> has_cause e ContextDeadlineExceeded"
    using retry_timeout [OF loop fresh assms(3)] by auto
  then have "w' = w1" "out = Returns (Some e)" using run inner by (auto simp: NewDeadLetter_def)
  then show ?thesis using retry_D [OF loop fresh] e(1) by auto
qed

end
