(* ===== verification/Event_Delivery.thy ===== *)
theory Event_Delivery
  imports Event_Chain
begin

text \<open>
  What the running bus keeps: no published event stops being accounted for (\<open>delivery_inv\<close>), the relay is always about to be
  woken for a row it has not published (\<open>relay_awake\<close>), and an event the bus is past never comes back (\<open>past\<close>); each over
  every step.
\<close>

section \<open>What becomes of an event\<close>

text \<open>For a subscriber an event is accounted for when it waits in the buffer, has a receipt, has a dead letter, or was given up.\<close>

definition accounted :: "'a subscription list \<Rightarrow> 'a bus_run \<Rightarrow> nat \<Rightarrow> string \<Rightarrow> bool" where
  "accounted subs s i eventID \<longleftrightarrow>
     eventID \<in> ev_ID ` set (br_queues s ! i) \<or> processedSeen (scoped (su_Consumer (subs ! i)) eventID) (br_world s) \<or>
     eventID \<in> dl_ID ` set (bw_dead (br_world s)) \<or> (i, eventID) \<in> set (br_given_up s)"

fun relay_rows :: "relay_phase \<Rightarrow> outbox_row list" where
  "relay_rows (RelayFlush ch (Some es)) = es"
| "relay_rows (RelayDeliver ch e es ev is) = e # es"
| "relay_rows _ = []"

text \<open>The relay's row: the event has its id, and whom it no longer has to reach it has reached.\<close>

fun relay_delivered :: "'a subscription list \<Rightarrow> 'a bus_run \<Rightarrow> relay_phase \<Rightarrow> bool" where
  "relay_delivered subs s (RelayDeliver ch e es ev is) \<longleftrightarrow> ev_ID ev = ox_ID e \<and> set is \<subseteq> set (subscribers subs (ox_Topic e)) \<and>
     (\<forall>i \<in> set (subscribers subs (ox_Topic e)) - set is. accounted subs s i (ox_ID e))"
| "relay_delivered subs s _ \<longleftrightarrow> True"

definition row_known :: "'a bus_run \<Rightarrow> outbox_row \<Rightarrow> bool" where
  "row_known s e \<longleftrightarrow> (\<exists>r \<in> set (bw_outbox (br_world s)). ox_ID r = ox_ID e \<and> ox_Topic r = ox_Topic e)"

definition published_accounted :: "'a subscription list \<Rightarrow> 'a bus_run \<Rightarrow> bool" where
  "published_accounted subs s \<longleftrightarrow>
     (\<forall>r \<in> set (bw_outbox (br_world s)). ox_Published r \<longrightarrow> (\<forall>i \<in> set (subscribers subs (ox_Topic r)). accounted subs s i (ox_ID r)))"

definition delivery_inv :: "'a subscription list \<Rightarrow> 'a bus_run \<Rightarrow> bool" where
  "delivery_inv subs s \<longleftrightarrow> length (br_queues s) = length subs \<and> distinct (map ox_ID (bw_outbox (br_world s))) \<and>
     list_all (row_known s) (relay_rows (br_relay s)) \<and> relay_delivered subs s (br_relay s) \<and> published_accounted subs s"

lemma subscribers_D: "i \<in> set (subscribers subs topic) \<longleftrightarrow> i < length subs \<and> su_Topic (subs ! i) = topic"
  by (simp add: subscribers_def)

text \<open>What every step keeps: no event stops being accounted for.\<close>

definition accounts_grow :: "'a subscription list \<Rightarrow> 'a bus_run \<Rightarrow> 'a bus_run \<Rightarrow> bool" where
  "accounts_grow subs s s' \<longleftrightarrow> (\<forall>i < length subs. \<forall>eventID. accounted subs s i eventID \<longrightarrow> accounted subs s' i eventID)"

lemma accounts_growI:
  assumes "\<And>i. i < length subs \<Longrightarrow> ev_ID ` set (br_queues s ! i) \<subseteq> {x. accounted subs s' i x}"
    and "\<And>j. processedSeen j (br_world s) \<Longrightarrow> processedSeen j (br_world s')"
    and "dl_ID ` set (bw_dead (br_world s)) \<subseteq> dl_ID ` set (bw_dead (br_world s'))" "set (br_given_up s) \<subseteq> set (br_given_up s')"
  shows "accounts_grow subs s s'"
  unfolding accounts_grow_def
proof (intro allI impI)
  fix i x assume i: "i < length subs" "accounted subs s i x"
  then show "accounted subs s' i x"
    using assms(1) [OF i(1)] assms(2-4) by (auto simp: accounted_def)
qed

lemma accounts_grow_same:
  assumes "br_queues s' = br_queues s" "br_given_up s' = br_given_up s" "bw_processed (br_world s') = bw_processed (br_world s)"
    "bw_dead (br_world s') = bw_dead (br_world s)"
  shows "accounts_grow subs s s'"
  using assms by (simp add: accounts_grow_def accounted_def processedSeen_def)

text \<open>A step that leaves the rows of the outbox keeps the invariant, if its relay is right.\<close>

lemma delivery_inv_step:
  assumes "delivery_inv subs s" "accounts_grow subs s s'" "length (br_queues s') = length subs"
    and "bw_outbox (br_world s') = bw_outbox (br_world s)" "set (relay_rows (br_relay s')) \<subseteq> set (relay_rows (br_relay s))"
    and "relay_delivered subs s' (br_relay s')"
  shows "delivery_inv subs s'"
proof -
  have "published_accounted subs s'"
    using assms(1,2,4) by (fastforce simp: delivery_inv_def published_accounted_def accounts_grow_def subscribers_D)
  then show ?thesis using assms by (auto simp: delivery_inv_def list_all_iff row_known_def)
qed

lemma relay_delivered_grow: "accounts_grow subs s s' \<Longrightarrow> relay_delivered subs s r \<Longrightarrow> relay_delivered subs s' r"
  by (cases r) (auto simp: accounts_grow_def subscribers_D)

lemma insert_rows_D:
  assumes "insert_rows marshal now rows w = Inr w'"
  shows "\<exists>new. bw_outbox w' = bw_outbox w @ new \<and> (\<forall>r \<in> set new. \<not> ox_Published r) \<and>
    bw_processed w' = bw_processed w \<and> bw_dead w' = bw_dead w \<and> bw_app w' = bw_app w \<and>
    (distinct (map ox_ID (bw_outbox w)) \<longrightarrow> distinct (map ox_ID (bw_outbox w')))"
  using assms
proof (induction marshal now rows w rule: insert_rows.induct)
  case (1 marshal now w)
  then show ?case by auto
next
  case (2 marshal now i topic payload rows w)
  obtain w1 b where w1: "insertOutboxRow marshal now i topic payload w = Inr w1"
    "w1 = w\<lparr>bw_outbox := bw_outbox w @ [\<lparr>ox_ID = i, ox_Topic = topic, ox_Payload = b, ox_CreatedAt = now, ox_Published = False\<rparr>]\<rparr>"
    "i \<notin> ox_ID ` set (bw_outbox w)"
    using 2(2) by (auto simp: bindr_Inr_iff insertOutboxRow_def split: if_splits)
  obtain new where new: "bw_outbox w' = bw_outbox w1 @ new" "\<forall>r \<in> set new. \<not> ox_Published r" "bw_processed w' = bw_processed w1"
    "bw_dead w' = bw_dead w1" "bw_app w' = bw_app w1" "distinct (map ox_ID (bw_outbox w1)) \<longrightarrow> distinct (map ox_ID (bw_outbox w'))"
  proof -
    have "insert_rows marshal now rows w1 = Inr w'" using 2(2) w1(1) by simp
    then show ?thesis using 2(1) that by blast
  qed
  let ?r = "\<lparr>ox_ID = i, ox_Topic = topic, ox_Payload = b, ox_CreatedAt = now, ox_Published = False\<rparr>"
  show ?case using new w1(2,3) by (intro exI [of _ "?r # new"]) auto
qed

lemma delivery_inv_commit:
  assumes "delivery_inv subs s" "insert_rows marshal now rows (br_world s) = Inr w"
    and "s' = s\<lparr>br_world := w\<lparr>bw_app := a\<rparr>, br_announcing := b\<rparr>"
  shows "delivery_inv subs s'"
proof -
  obtain new where new: "bw_outbox w = bw_outbox (br_world s) @ new" "\<forall>r \<in> set new. \<not> ox_Published r"
    "bw_processed w = bw_processed (br_world s)" "bw_dead w = bw_dead (br_world s)"
    "distinct (map ox_ID (bw_outbox (br_world s))) \<longrightarrow> distinct (map ox_ID (bw_outbox w))"
    using insert_rows_D [OF assms(2)] by blast
  have grow: "accounts_grow subs s s'" by (rule accounts_grow_same) (simp_all add: assms(3) new)
  have "published_accounted subs s'"
    using assms(1) grow new(1,2) unfolding published_accounted_def delivery_inv_def
    by (fastforce simp: assms(3) accounts_grow_def subscribers_D)
  moreover have "relay_delivered subs s' (br_relay s')"
    using relay_delivered_grow [OF grow] assms(1,3) by (simp add: delivery_inv_def)
  ultimately show ?thesis using assms(1) new by (auto simp: assms(3) delivery_inv_def list_all_iff row_known_def)
qed

lemma delivery_inv_mark:
  assumes "delivery_inv subs s" "br_relay s = RelayDeliver ch e es ev []" "MarkPublished (ox_ID e) (br_world s) = Inr w"
    and "s' = s\<lparr>br_world := w, br_commits := b, br_relay := RelayFlush ch (Some es)\<rparr>"
  shows "delivery_inv subs s'"
proof -
  let ?f = "\<lambda>r. if ox_ID r = ox_ID e then r\<lparr>ox_Published := True\<rparr> else r"
  have w: "w = (br_world s)\<lparr>bw_outbox := map ?f (bw_outbox (br_world s))\<rparr>" using assms(3) by (auto simp: MarkPublished_def split: if_splits)
  have grow: "accounts_grow subs s s'" by (rule accounts_grow_same) (simp_all add: assms(4) w)
  have ids: "map ox_ID (bw_outbox w) = map ox_ID (bw_outbox (br_world s))" by (simp add: w)
  obtain r0 where r0: "r0 \<in> set (bw_outbox (br_world s))" "ox_ID r0 = ox_ID e" "ox_Topic r0 = ox_Topic e"
    using assms(1,2) by (auto simp: delivery_inv_def row_known_def)
  have acc: "accounted subs s i (ox_ID r)"
    if "r \<in> set (bw_outbox (br_world s))" "ox_Published (?f r)" "i \<in> set (subscribers subs (ox_Topic r))" for r i
  proof (cases "ox_ID r = ox_ID e")
    case True
    then have "r = r0" using assms(1) that(1) r0 by (auto simp: delivery_inv_def distinct_map inj_on_def)
    then show ?thesis using assms(1,2) that(3) r0 by (auto simp: delivery_inv_def)
  next
    case False
    then show ?thesis using assms(1) that by (auto simp: delivery_inv_def published_accounted_def)
  qed
  have "published_accounted subs s'"
    unfolding published_accounted_def
  proof (intro ballI impI)
    fix r i assume r: "r \<in> set (bw_outbox (br_world s'))" "ox_Published r" "i \<in> set (subscribers subs (ox_Topic r))"
    then obtain q where q: "q \<in> set (bw_outbox (br_world s))" "r = ?f q" by (auto simp: assms(4) w)
    then have "accounted subs s i (ox_ID q)" using acc [of q i] r(2,3) by (auto split: if_splits)
    then show "accounted subs s' i (ox_ID r)" using grow r(3) q(2) by (auto simp: accounts_grow_def subscribers_D)
  qed
  moreover have "row_known s' x" if known: "row_known s x" for x
  proof -
    obtain r where "r \<in> set (bw_outbox (br_world s))" "ox_ID r = ox_ID x" "ox_Topic r = ox_Topic x" using known by (auto simp: row_known_def)
    then have "?f r \<in> set (bw_outbox (br_world s'))" "ox_ID (?f r) = ox_ID x" "ox_Topic (?f r) = ox_Topic x" by (auto simp: assms(4) w)
    then show ?thesis unfolding row_known_def by blast
  qed
  ultimately show ?thesis using assms(1,2) ids by (auto simp: delivery_inv_def assms(4) list_all_iff)
qed

lemma processedSeen_dead [simp]: "processedSeen i (w\<lparr>bw_dead := d\<rparr>) = processedSeen i w"
  by (simp add: processedSeen_def)

lemma chain_tables:
  assumes "buildChain rng (bootstrapBus now) stops now (on_app h) c ev w = (w', out)"
  shows "bw_outbox w' = bw_outbox w" "processedSeen j w \<Longrightarrow> processedSeen j w'"
    "dl_ID ` set (bw_dead w) \<subseteq> dl_ID ` set (bw_dead w')"
    "out = Returns None \<Longrightarrow> processedSeen (scoped c (ev_ID ev)) w' \<or> ev_ID ev \<in> dl_ID ` set (bw_dead w')"
proof -
  note D = chain_D [OF assms, unfolded Let_def already_def]
  show "bw_outbox w' = bw_outbox w" using D by auto
  show "processedSeen j w \<Longrightarrow> processedSeen j w'" using D by auto
  show "dl_ID ` set (bw_dead w) \<subseteq> dl_ID ` set (bw_dead w')" using D by auto
  show "out = Returns None \<Longrightarrow> processedSeen (scoped c (ev_ID ev)) w' \<or> ev_ID ev \<in> dl_ID ` set (bw_dead w')"
    using D by auto
qed

lemma send_to_nth: "i < length qs \<Longrightarrow> send_to i ev qs ! j = (if j = i then qs ! i @ [ev] else qs ! j)"
  by (simp add: send_to_def nth_list_update)

lemma length_send_to [simp]: "length (send_to i ev qs) = length qs"
  by (simp add: send_to_def)

lemma grow_send:
  assumes "length (br_queues s) = length subs" "br_queues s' = send_to i ev (br_queues s)" "br_given_up s' = br_given_up s"
    and "br_world s' = br_world s" "i < length subs"
  shows "accounts_grow subs s s'" "accounted subs s' i (ev_ID ev)"
  using assms by (auto simp: accounts_grow_def accounted_def send_to_nth)

lemma buffered_set: "(i, x) \<in> set (buffered qs) \<longleftrightarrow> i < length qs \<and> x \<in> ev_ID ` set (qs ! i)"
  by (auto simp: buffered_def)

lemma delivery_inv_handle:
  assumes "delivery_inv subs s" "i < length subs" "br_queues s ! i = ev # rest"
    "buildChain rng (bootstrapBus now) stops now (on_app (su_Handler (subs ! i))) (su_Consumer (subs ! i)) ev (br_world s) = (w, Returns r)"
    and "s' = s\<lparr>br_world := w, br_commits := b, br_queues := (br_queues s)[i := rest],
      br_given_up := (if r = None then br_given_up s else (i, ev_ID ev) # br_given_up s)\<rparr>"
  shows "delivery_inv subs s'"
proof -
  note C = chain_tables [OF assms(4)]
  have len: "length (br_queues s) = length subs" using assms(1) by (simp add: delivery_inv_def)
  have mine: "accounted subs s' i (ev_ID ev)" using C(4) by (cases "r = None") (auto simp: assms(5) accounted_def)
  have "ev_ID ` set (br_queues s ! j) \<subseteq> {x. accounted subs s' j x}" if "j < length subs" for j
    using mine assms(3) len that by (cases "j = i") (auto simp: assms(5) accounted_def nth_list_update)
  then have grow: "accounts_grow subs s s'"
    by (rule accounts_growI) (use C(2,3) in \<open>auto simp: assms(5)\<close>)
  show ?thesis
    by (rule delivery_inv_step [OF assms(1) grow])
       (use len C(1) relay_delivered_grow [OF grow] assms(1) in \<open>simp_all add: assms(5) delivery_inv_def\<close>)
qed

lemma delivery_inv_restart: "delivery_inv subs s \<Longrightarrow> delivery_inv subs (stop_start subs s)"
proof -
  assume s: "delivery_inv subs s"
  then have len: "length (br_queues s) = length subs" by (simp add: delivery_inv_def)
  have grow: "accounts_grow subs s (stop_start subs s)"
    by (rule accounts_growI) (use len in \<open>auto simp: stop_start_def accounted_def buffered_set\<close>)
  show ?thesis by (rule delivery_inv_step [OF s grow]) (simp_all add: stop_start_def)
qed

lemma delivery_inv_deliver:
  assumes "delivery_inv subs s" "br_relay s = RelayDeliver ch e es ev (i # is)"
    and "accounts_grow subs s s'" "accounted subs s' i (ev_ID ev)" "br_relay s' = RelayDeliver ch e es ev is"
    and "length (br_queues s') = length subs" "br_world s' = br_world s"
  shows "delivery_inv subs s'"
proof (rule delivery_inv_step [OF assms(1,3,6)])
  have "relay_delivered subs s (RelayDeliver ch e es ev (i # is))"
    using assms(1) unfolding delivery_inv_def assms(2) by blast
  then have old: "relay_delivered subs s' (RelayDeliver ch e es ev (i # is))" by (rule relay_delivered_grow [OF assms(3)])
  have now: "ev_ID ev = ox_ID e" using old by simp
  have "accounted subs s' j (ox_ID e)" if "j \<in> set (subscribers subs (ox_Topic e)) - set is" for j
  proof (cases "j = i")
    case True
    then show ?thesis using assms(4) unfolding now by simp
  next
    case False
    then have "j \<in> set (subscribers subs (ox_Topic e)) - set (i # is)" using that by simp
    then show ?thesis using old unfolding relay_delivered.simps by blast
  qed
  then show "relay_delivered subs s' (br_relay s')" using old unfolding assms(5) by simp
  show "set (relay_rows (br_relay s')) \<subseteq> set (relay_rows (br_relay s))" unfolding assms(2,5) by simp
  show "bw_outbox (br_world s') = bw_outbox (br_world s)" unfolding assms(7) ..
qed

lemma delivery_inv_bus_step: "bus_step marshal rng subs s s' \<Longrightarrow> delivery_inv subs s \<Longrightarrow> delivery_inv subs s'"
proof (induction rule: bus_step.induct)
  case (commit now rows s w a)
  show ?case by (rule delivery_inv_commit [OF commit(3,2)]) simp
next
  case (announce s)
  let ?s = "s\<lparr>br_commits := Notify (br_commits s), br_announcing := False\<rparr>"
  have grow: "accounts_grow subs s ?s" by (rule accounts_grow_same) simp_all
  show ?case by (rule delivery_inv_step [OF announce(2) grow])
    (use relay_delivered_grow [OF grow] announce(2) in \<open>simp_all add: delivery_inv_def\<close>)
next
  case (relay_start s b ch)
  show ?case by (rule delivery_inv_step [OF relay_start(3) accounts_grow_same]) (use relay_start in \<open>simp_all add: delivery_inv_def\<close>)
next
  case (relay_read s ch)
  have grow: "accounts_grow subs s (s\<lparr>br_relay := RelayFlush ch (Some (Unpublished relayBatchSize (br_world s)))\<rparr>)"
    by (rule accounts_grow_same) simp_all
  have "set (Unpublished relayBatchSize (br_world s)) \<subseteq> set (bw_outbox (br_world s))"
    by (auto simp: Unpublished_def dest: in_set_takeD)
  moreover have "published_accounted subs (s\<lparr>br_relay := r\<rparr>)" for r
    using relay_read(2) by (simp add: delivery_inv_def published_accounted_def accounted_def)
  ultimately show ?case using relay_read(2) by (auto simp: delivery_inv_def list_all_iff row_known_def)
next
  case (relay_flushed s ch)
  show ?case by (rule delivery_inv_step [OF relay_flushed(2) accounts_grow_same]) (use relay_flushed in \<open>simp_all add: delivery_inv_def\<close>)
next
  case (relay_publish s ch e es newID traceID now ev)
  have "ev_ID ev = ox_ID e"
    using relay_publish(2) by (auto simp: PublishWithID_def buildEvent_def split: if_splits sum.splits)
  then show ?case
    by (intro delivery_inv_step [OF relay_publish(3) accounts_grow_same]) (use relay_publish in \<open>simp_all add: delivery_inv_def\<close>)
next
  case (relay_refused s ch e es newID traceID now err)
  show ?case by (rule delivery_inv_step [OF relay_refused(3) accounts_grow_same]) (use relay_refused in \<open>simp_all add: delivery_inv_def\<close>)
next
  case (relay_deliver s ch e es ev i "is")
  let ?s = "s\<lparr>br_queues := send_to i ev (br_queues s), br_relay := RelayDeliver ch e es ev is\<rparr>"
  have len: "length (br_queues s) = length subs" and i: "i < length subs"
    using relay_deliver(1,3) by (auto simp: delivery_inv_def subscribers_D)
  note G = grow_send [OF len, of ?s i ev]
  show ?case by (rule delivery_inv_deliver [OF relay_deliver(3,1)]) (use G i len in simp_all)
next
  case (relay_drop s ch e es ev i "is")
  let ?s = "s\<lparr>br_relay := RelayDeliver ch e es ev is, br_given_up := (i, ev_ID ev) # br_given_up s\<rparr>"
  have len: "length (br_queues s) = length subs" using relay_drop(3) by (simp add: delivery_inv_def)
  have "accounts_grow subs s ?s" "accounted subs ?s i (ev_ID ev)" by (auto simp: accounts_grow_def accounted_def)
  then show ?case using delivery_inv_deliver [OF relay_drop(3,1), of ?s] len by simp
next
  case (relay_cut s ch e es ev i "is")
  show ?case by (rule delivery_inv_step [OF relay_cut(2) accounts_grow_same]) (use relay_cut in \<open>simp_all add: delivery_inv_def\<close>)
next
  case (relay_mark s ch e es ev w)
  show ?case by (rule delivery_inv_mark [OF relay_mark(4,1,3)]) simp
next
  case (relay_unmarked s ch e es ev err)
  show ?case by (rule delivery_inv_step [OF relay_unmarked(2) accounts_grow_same]) (use relay_unmarked in \<open>simp_all add: delivery_inv_def\<close>)
next
  case (relay_again s ch r)
  show ?case by (rule delivery_inv_step [OF relay_again(2) accounts_grow_same]) (use relay_again in \<open>simp_all add: delivery_inv_def\<close>)
next
  case (handle i s ev rest now stops w r b)
  show ?case by (rule delivery_inv_handle [OF handle(5,1,2,3)]) simp
next
  case (direct i ev s)
  let ?s = "s\<lparr>br_queues := send_to i ev (br_queues s)\<rparr>"
  have len: "length (br_queues s) = length subs" and i: "i < length subs"
    using direct by (auto simp: delivery_inv_def subscribers_D)
  have grow: "accounts_grow subs s ?s" using grow_send [OF len, of ?s i ev] i by simp
  show ?case
    by (rule delivery_inv_step [OF direct(4) grow]) (use len relay_delivered_grow [OF grow] direct(4) in \<open>simp_all add: delivery_inv_def\<close>)
next
  case (close s)
  have grow: "accounts_grow subs s (s\<lparr>br_closed := True\<rparr>)" by (rule accounts_grow_same) simp_all
  show ?case
    by (rule delivery_inv_step [OF close grow]) (use relay_delivered_grow [OF grow] close in \<open>simp_all add: delivery_inv_def\<close>)
next
  case (restart s)
  show ?case by (rule delivery_inv_restart [OF restart])
qed

lemma delivery_inv_steps:
  assumes "(bus_step marshal rng subs)\<^sup>*\<^sup>* s s'" "delivery_inv subs s"
  shows "delivery_inv subs s'"
  using assms by (induction rule: rtranclp_induct) (auto intro: delivery_inv_bus_step)

section \<open>The relay does not sleep on a row\<close>

definition all_published :: "'a bus_run \<Rightarrow> bool" where
  "all_published s \<longleftrightarrow> (\<forall>r \<in> set (bw_outbox (br_world s)). ox_Published r)"

text \<open>A channel the relay holds is closed, or the one the next notify closes.\<close>

definition watched :: "'a bus_run \<Rightarrow> chan \<Rightarrow> bool" where
  "watched s ch \<longleftrightarrow> is_closed (br_commits s) ch \<or> bc_ch (br_commits s) = Some ch"

definition will_wake :: "'a bus_run \<Rightarrow> chan \<Rightarrow> bool" where
  "will_wake s ch \<longleftrightarrow> is_closed (br_commits s) ch \<or> br_announcing s \<or> all_published s"

fun relay_awake :: "'a bus_run \<Rightarrow> relay_phase \<Rightarrow> bool" where
  "relay_awake s RelayStart \<longleftrightarrow> True"
| "relay_awake s (RelayFlush ch None) \<longleftrightarrow> watched s ch"
| "relay_awake s (RelayFlush ch (Some es)) \<longleftrightarrow> watched s ch \<and> (es = [] \<longrightarrow> will_wake s ch)"
| "relay_awake s (RelayDeliver ch e es ev is) \<longleftrightarrow> watched s ch"
| "relay_awake s (RelayWait ch r) \<longleftrightarrow> watched s ch \<and> (r = None \<longrightarrow> will_wake s ch)"

lemma notify_wakes: "bc_ch b = Some ch \<or> is_closed b ch \<Longrightarrow> is_closed (Notify b) ch"
  by (auto simp: Notify_def is_closed_def split: option.split)

lemma watched_notified:
  "watched s ch \<Longrightarrow> br_commits s' = Notify (br_commits s) \<Longrightarrow> is_closed (br_commits s') ch"
  using notify_wakes unfolding watched_def by metis

lemma relay_awake_grow:
  assumes "\<And>ch. watched s ch \<Longrightarrow> watched s' ch" "\<And>ch. watched s ch \<Longrightarrow> will_wake s ch \<Longrightarrow> will_wake s' ch"
    and "br_relay s' = br_relay s" "relay_awake s (br_relay s)"
  shows "relay_awake s' (br_relay s')"
  using assms(4) unfolding assms(3)
  by (cases "(s, br_relay s)" rule: relay_awake.cases) (use assms(1,2) in auto)

lemma relay_awake_same:
  assumes "br_commits s' = br_commits s" "br_announcing s' = br_announcing s" "bw_outbox (br_world s') = bw_outbox (br_world s)"
    and "br_relay s' = br_relay s" "relay_awake s (br_relay s)"
  shows "relay_awake s' (br_relay s')"
  by (rule relay_awake_grow [OF _ _ assms(4,5)]) (use assms in \<open>simp_all add: watched_def will_wake_def all_published_def\<close>)

lemma Next_watched: "Next b = (b', ch) \<Longrightarrow> bc_ch b' = Some ch"
  by (auto simp: Next_def split: option.splits)

lemma sort_key_Nil: "sort_key f rs = [] \<longleftrightarrow> rs = []"
  by (metis length_0_conv length_sort)

lemma Unpublished_none: "0 < n \<Longrightarrow> Unpublished n w = [] \<longleftrightarrow> (\<forall>r \<in> set (bw_outbox w). ox_Published r)"
  by (simp add: Unpublished_def sort_key_Nil filter_empty_conv)

lemma relay_awake_bus_step: "bus_step marshal rng subs s s' \<Longrightarrow> relay_awake s (br_relay s) \<Longrightarrow> relay_awake s' (br_relay s')"
proof (induction rule: bus_step.induct)
  case (commit s now rows w a)
  show ?case by (rule relay_awake_grow [OF _ _ _ commit(3)]) (simp_all add: watched_def will_wake_def)
next
  case (announce s)
  show ?case by (rule relay_awake_grow [OF _ _ _ announce(2)]) (auto simp: watched_def will_wake_def notify_wakes)
next
  case (relay_start s b ch)
  then show ?case by (simp add: watched_def Next_watched)
next
  case (relay_read s ch)
  then show ?case by (simp add: watched_def will_wake_def all_published_def Unpublished_none)
next
  case (relay_flushed s ch)
  then show ?case by (simp add: watched_def will_wake_def all_published_def)
next
  case (relay_publish s ch e es newID traceID now ev)
  then show ?case by (simp add: watched_def)
next
  case (relay_refused s ch e es newID traceID now err)
  then show ?case by (simp add: watched_def)
next
  case (relay_deliver s ch e es ev i "is")
  then show ?case by (simp add: watched_def)
next
  case (relay_drop s ch e es ev i "is")
  then show ?case by (simp add: watched_def)
next
  case (relay_cut s ch e es ev i "is")
  then show ?case by (simp add: watched_def)
next
  case (relay_mark s ch e es ev w)
  then have "is_closed (Notify (br_commits s)) ch" using notify_wakes by (auto simp: watched_def)
  then show ?case by (simp add: watched_def will_wake_def)
next
  case (relay_unmarked s ch e es ev err)
  then show ?case by (simp add: watched_def)
next
  case (relay_again s ch r)
  then show ?case by simp
next
  case (handle i s ev rest now stops w r b)
  have out: "bw_outbox w = bw_outbox (br_world s)" by (rule chain_tables(1) [OF handle(3)])
  show ?case by (rule relay_awake_grow [OF _ _ _ handle(5)])
       (use handle(4) out in \<open>auto simp: watched_def will_wake_def all_published_def intro: notify_wakes\<close>)
next
  case (direct i ev s)
  show ?case by (rule relay_awake_same [OF _ _ _ _ direct(4)]) simp_all
next
  case (close s)
  show ?case by (rule relay_awake_same [OF _ _ _ _ close]) simp_all
next
  case (restart s)
  then show ?case by (simp add: stop_start_def)
qed

lemma relay_awake_steps:
  assumes "(bus_step marshal rng subs)\<^sup>*\<^sup>* s s'" "relay_awake s (br_relay s)"
  shows "relay_awake s' (br_relay s')"
  using assms by (induction rule: rtranclp_induct) (auto intro: relay_awake_bus_step)

section \<open>What a stop loses\<close>

text \<open>An event is past the bus when its row is published and no buffer, batch or delivery under way has it.\<close>

definition past :: "string \<Rightarrow> 'a bus_run \<Rightarrow> bool" where
  "past x s \<longleftrightarrow> x \<in> ox_ID ` set (bw_outbox (br_world s)) \<and>
     (\<forall>r \<in> set (bw_outbox (br_world s)). ox_ID r = x \<longrightarrow> ox_Published r) \<and>
     (\<forall>q \<in> set (br_queues s). x \<notin> ev_ID ` set q) \<and> x \<notin> ox_ID ` set (relay_rows (br_relay s)) \<and>
     (case br_relay s of RelayDeliver ch e es ev is \<Rightarrow> ev_ID ev \<noteq> x | _ \<Rightarrow> True)"

lemma insert_rows_fresh:
  assumes "insert_rows marshal now rows w = Inr w'"
  shows "\<exists>new. bw_outbox w' = bw_outbox w @ new \<and> (\<forall>r \<in> set new. ox_ID r \<notin> ox_ID ` set (bw_outbox w))"
  using assms
proof (induction marshal now rows w rule: insert_rows.induct)
  case (1 marshal now w)
  then show ?case by auto
next
  case (2 marshal now i topic payload rows w)
  obtain w1 r where w1: "insertOutboxRow marshal now i topic payload w = Inr w1" "bw_outbox w1 = bw_outbox w @ [r]"
    "ox_ID r = i" "i \<notin> ox_ID ` set (bw_outbox w)"
    using 2(2) by (auto simp: bindr_Inr_iff insertOutboxRow_def split: if_splits)
  then have "insert_rows marshal now rows w1 = Inr w'" using 2(2) by simp
  from 2(1) [OF this] obtain new where "bw_outbox w' = bw_outbox w1 @ new"
    "\<forall>r \<in> set new. ox_ID r \<notin> ox_ID ` set (bw_outbox w1)" by blast
  then show ?case using w1(2-4) by (intro exI [of _ "r # new"]) auto
qed

lemma past_send:
  assumes "\<forall>q \<in> set qs. x \<notin> ev_ID ` set q" "ev_ID ev \<noteq> x" "q \<in> set (send_to i ev qs)"
  shows "x \<notin> ev_ID ` set q"
proof (cases "i < length qs")
  case True
  then have "q \<in> set qs \<or> q = qs ! i @ [ev]"
    using assms(3) set_update_subset_insert [of qs i "qs ! i @ [ev]"] by (auto simp: send_to_def)
  moreover have "x \<notin> ev_ID ` set (qs ! i)" using assms(1) True by (simp add: nth_mem del: image_iff)
  ultimately show ?thesis using assms(1,2) by auto
next
  case False
  then show ?thesis using assms(1,3) by (simp add: send_to_def list_update_beyond del: image_iff)
qed

lemma past_bus_step: "bus_step marshal rng subs s s' \<Longrightarrow> past x s \<Longrightarrow> past x s'"
proof (induction rule: bus_step.induct)
  case (commit s now rows w a)
  obtain new where "bw_outbox w = bw_outbox (br_world s) @ new" "\<forall>r \<in> set new. ox_ID r \<notin> ox_ID ` set (bw_outbox (br_world s))"
    using insert_rows_fresh [OF commit(2)] by blast
  then show ?case using commit(3) by (auto simp: past_def)
next
  case (relay_read s ch)
  then have "x \<notin> ox_ID ` set (Unpublished relayBatchSize (br_world s))"
    by (auto simp: past_def Unpublished_def dest!: in_set_takeD)
  then show ?case using relay_read by (simp add: past_def)
next
  case (relay_publish s ch e es newID traceID now ev)
  have "ev_ID ev = ox_ID e"
    using relay_publish(2) by (auto simp: PublishWithID_def buildEvent_def split: if_splits sum.splits)
  moreover have "ox_ID e \<noteq> x" using relay_publish(1,3) by (auto simp: past_def)
  ultimately show ?case using relay_publish(1,3) by (simp add: past_def)
next
  case (relay_deliver s ch e es ev i "is")
  have q: "\<forall>q \<in> set (br_queues s). x \<notin> ev_ID ` set q" "ev_ID ev \<noteq> x" using relay_deliver(1,3) by (simp_all add: past_def)
  then have "\<forall>q \<in> set (send_to i ev (br_queues s)). x \<notin> ev_ID ` set q" using past_send by blast
  then show ?case using relay_deliver(1,3) by (simp add: past_def del: image_iff)
next
  case (relay_mark s ch e es ev w)
  then show ?case by (auto simp: past_def MarkPublished_def split: if_splits)
next
  case (handle i s ev rest now stops w r b)
  have out: "bw_outbox w = bw_outbox (br_world s)" by (rule chain_tables(1) [OF handle(3)])
  have "x \<notin> ev_ID ` set q" if "q \<in> set ((br_queues s)[i := rest])" for q
  proof (cases "i < length (br_queues s)")
    case True
    then have "x \<notin> ev_ID ` set (ev # rest)" using handle(2,5) nth_mem [OF True] unfolding past_def by metis
    moreover have "q = rest \<or> q \<in> set (br_queues s)" using that set_update_subset_insert [of "br_queues s" i rest] by blast
    moreover have "\<forall>q \<in> set (br_queues s). x \<notin> ev_ID ` set q" using handle(5) by (simp add: past_def)
    ultimately show ?thesis by auto
  next
    case False
    then show ?thesis using that handle(5) by (simp add: past_def list_update_beyond del: image_iff)
  qed
  then show ?case using handle(5) by (simp add: past_def out)
next
  case (direct i ev s)
  then have "ev_ID ev \<noteq> x" by (auto simp: past_def)
  moreover have "\<forall>q \<in> set (br_queues s). x \<notin> ev_ID ` set q" using direct(4) by (simp add: past_def)
  ultimately have "\<forall>q \<in> set (send_to i ev (br_queues s)). x \<notin> ev_ID ` set q" using past_send by blast
  then show ?case using direct(4) by (simp add: past_def del: image_iff)
qed (auto simp: past_def stop_start_def)

lemma past_steps: "(bus_step marshal rng subs)\<^sup>*\<^sup>* s s' \<Longrightarrow> past x s \<Longrightarrow> past x s'"
  by (induction rule: rtranclp_induct) (auto intro: past_bus_step)

lemma past_stop:
  assumes "r \<in> set (bw_outbox (br_world s))" "ox_Published r" "distinct (map ox_ID (bw_outbox (br_world s)))"
  shows "past (ox_ID r) (stop_start subs s)"
  using assms by (auto simp: past_def stop_start_def distinct_map inj_on_def)

end
