(* ===== verification/Event_Guarantees.thy ===== *)
theory Event_Guarantees
  imports Event_Delivery
begin

text \<open>
  The properties of delivery: what becomes of a published row, of one handler's run and of a sleeping relay, the delays
  between retries, and where an event can be lost; with one event followed from its commit to the buffer of a subscriber,
  and one lost while it is replayed.
\<close>

definition bus_start :: "'a subscription list \<Rightarrow> 'a bus_world \<Rightarrow> 'a bus_run" where
  "bus_start subs w = \<lparr>br_world = w, br_commits = zero_Broadcast, br_announcing = False, br_queues = replicate (length subs) [],
     br_relay = RelayStart, br_closed = False, br_replays = [], br_given_up = []\<rparr>"

lemma delivery_inv_start:
  assumes "distinct (map ox_ID (bw_outbox w))" "list_all (\<lambda>r. \<not> ox_Published r) (bw_outbox w)"
  shows "delivery_inv subs (bus_start subs w)"
  using assms by (auto simp: bus_start_def delivery_inv_def published_accounted_def list_all_iff)


text \<open>C15. The relay never sleeps on a row: while it waits after a flush that succeeded, every row is published, or the
  channel it waits on is closed, or a commit is about to close it; also with more rows than a batch, since every mark is
  a commit of its own.\<close>

theorem relay_never_sleeps:
  assumes "(bus_step marshal rng subs)\<^sup>*\<^sup>* (bus_start subs w) s" "br_relay s = RelayWait ch None"
    and "\<not> is_closed (br_commits s) ch" "\<not> br_announcing s"
  shows "r \<in> set (bw_outbox (br_world s)) \<Longrightarrow> ox_Published r"
  using relay_awake_steps [OF assms(1)] assms(2-4) by (simp add: bus_start_def will_wake_def all_published_def)





section \<open>One event from its commit to its receipt\<close>

definition ex_subs :: "nat subscription list" where
  "ex_subs = [\<lparr>su_Topic = ''t'', su_Consumer = ''c'', su_Handler = (\<lambda>ev a. (a + 1, Returns None))\<rparr>]"

definition ex_world :: "nat bus_world" where
  "ex_world = \<lparr>bw_outbox = [], bw_processed = [], bw_dead = [], bw_app = 0\<rparr>"

definition ex_row :: "bool \<Rightarrow> outbox_row" where
  "ex_row published = \<lparr>ox_ID = ''e1'', ox_Topic = ''t'', ox_Payload = ''p'', ox_CreatedAt = 0, ox_Published = published\<rparr>"

definition ex_event :: Event where
  "ex_event = \<lparr>ev_ID = ''e1'', ev_TraceID = ''x'', ev_Topic = ''t'', ev_Timestamp = 0, ev_Payload = ''p''\<rparr>"

definition ex_state :: "outbox_row list \<Rightarrow> Broadcast \<Rightarrow> bool \<Rightarrow> Event list \<Rightarrow> relay_phase \<Rightarrow> nat bus_run" where
  "ex_state rows b announcing q r = \<lparr>br_world = ex_world\<lparr>bw_outbox := rows\<rparr>, br_commits = b, br_announcing = announcing,
     br_queues = [q], br_relay = r, br_closed = False, br_replays = [], br_given_up = []\<rparr>"

abbreviation (input) ex_bc :: "chan option \<Rightarrow> nat \<Rightarrow> chan list \<Rightarrow> Broadcast" where
  "ex_bc c n cl \<equiv> \<lparr>bc_ch = c, bc_made = n, bc_closed = cl\<rparr>"

abbreviation (input) ex_step :: "nat bus_run \<Rightarrow> nat bus_run \<Rightarrow> bool" where
  "ex_step \<equiv> bus_step Inr (\<lambda>m. 0) ex_subs"

lemmas ex_defs = ex_state_def ex_row_def ex_world_def ex_event_def ex_subs_def

lemma ex_start: "bus_start ex_subs ex_world = ex_state [] (ex_bc None 0 []) False [] RelayStart"
  by (simp add: bus_start_def ex_defs zero_Broadcast_def)

lemma ex_commit: "ex_step (ex_state [] b False q r) (ex_state [ex_row False] b True q r)"
  using bus_step.commit [of "ex_state [] b False q r" Inr 0 "[(''e1'', ''t'', ''p'')]" "ex_world\<lparr>bw_outbox := [ex_row False]\<rparr>" "\<lambda>m. 0" ex_subs 0]
  by (simp add: ex_defs insertOutboxRow_def)

lemma ex_announce: "ex_step (ex_state rows b True q r) (ex_state rows (Notify b) False q r)"
  using bus_step.announce [of "ex_state rows b True q r"] by (simp add: ex_state_def)

lemma ex_take: "Next b = (b', ch) \<Longrightarrow> ex_step (ex_state rows b f q RelayStart) (ex_state rows b' f q (RelayFlush ch None))"
  using bus_step.relay_start [of "ex_state rows b f q RelayStart"] by (simp add: ex_state_def)

lemma ex_read:
  "ex_step (ex_state rows b f q (RelayFlush ch None))
     (ex_state rows b f q (RelayFlush ch (Some (Unpublished relayBatchSize (ex_world\<lparr>bw_outbox := rows\<rparr>)))))"
  using bus_step.relay_read [of "ex_state rows b f q (RelayFlush ch None)"] by (simp add: ex_state_def)

lemma ex_flushed: "ex_step (ex_state rows b f q (RelayFlush ch (Some []))) (ex_state rows b f q (RelayWait ch None))"
  using bus_step.relay_flushed [of "ex_state rows b f q (RelayFlush ch (Some []))"] by (simp add: ex_state_def)

lemma ex_publish:
  "ex_step (ex_state rows b f q (RelayFlush ch (Some [ex_row False]))) (ex_state rows b f q (RelayDeliver ch (ex_row False) [] ex_event [0]))"
  using bus_step.relay_publish [of "ex_state rows b f q (RelayFlush ch (Some [ex_row False]))" ch "ex_row False" "[]" Inr "''n''" "''x''" 0 ex_event "\<lambda>m. 0" ex_subs]
  by (simp add: ex_defs PublishWithID_def buildEvent_def subscribers_def)

lemma ex_deliver:
  "ex_step (ex_state rows b f [] (RelayDeliver ch e es ev [0])) (ex_state rows b f [ev] (RelayDeliver ch e es ev []))"
  using bus_step.relay_deliver [of "ex_state rows b f [] (RelayDeliver ch e es ev [0])"] by (simp add: ex_state_def send_to_def)

lemma ex_mark:
  "ex_step (ex_state [ex_row False] b False q (RelayDeliver ch (ex_row False) es ev []))
     (ex_state [ex_row True] (Notify b) False q (RelayFlush ch (Some es)))"
  using bus_step.relay_mark [of "ex_state [ex_row False] b False q (RelayDeliver ch (ex_row False) es ev [])" ch "ex_row False" es ev
    "ex_world\<lparr>bw_outbox := [ex_row True]\<rparr>"]
  by (simp add: ex_defs MarkPublished_def)

lemma ex_again: "ex_step (ex_state rows b f q (RelayWait ch r)) (ex_state rows b f q RelayStart)"
  using bus_step.relay_again [of "ex_state rows b f q (RelayWait ch r)"] by (simp add: ex_state_def)

abbreviation (input) ex_marked :: "nat bus_run" where
  "ex_marked \<equiv> ex_state [ex_row True] (ex_bc None 1 [0]) False [ex_event] (RelayFlush 0 (Some []))"

abbreviation (input) ex_asleep :: "nat bus_run" where
  "ex_asleep \<equiv> ex_state [ex_row True] (ex_bc (Some 1) 2 [0]) False [ex_event] (RelayWait 1 None)"

lemma ex_run: "ex_step\<^sup>*\<^sup>* (bus_start ex_subs ex_world) ex_marked"
proof -
  have "ex_step\<^sup>*\<^sup>* (bus_start ex_subs ex_world) (ex_state [ex_row False] (ex_bc None 0 []) False [] RelayStart)"
    unfolding ex_start using ex_commit ex_announce [of _ "ex_bc None 0 []"]
    by (metis (no_types, lifting) Notify_def converse_rtranclp_into_rtranclp option.simps(4) rtranclp.rtrancl_refl Broadcast.select_convs(1))
  also have "ex_step \<dots> (ex_state [ex_row False] (ex_bc (Some 0) 1 []) False [] (RelayFlush 0 None))"
    by (rule ex_take) (simp add: Next_def)
  also have "ex_step \<dots> (ex_state [ex_row False] (ex_bc (Some 0) 1 []) False [] (RelayFlush 0 (Some [ex_row False])))"
    using ex_read [of "[ex_row False]"] by (simp add: Unpublished_def ex_row_def)
  also have "ex_step \<dots> (ex_state [ex_row False] (ex_bc (Some 0) 1 []) False [] (RelayDeliver 0 (ex_row False) [] ex_event [0]))"
    by (rule ex_publish)
  also have "ex_step \<dots> (ex_state [ex_row False] (ex_bc (Some 0) 1 []) False [ex_event] (RelayDeliver 0 (ex_row False) [] ex_event []))"
    by (rule ex_deliver)
  also have "ex_step \<dots> ex_marked"
    using ex_mark [of "ex_bc (Some 0) 1 []"] by (simp add: Notify_def)
  finally show ?thesis .
qed

lemma ex_sleep: "ex_step\<^sup>*\<^sup>* (bus_start ex_subs ex_world) ex_asleep"
proof -
  note ex_run
  also have "ex_step ex_marked (ex_state [ex_row True] (ex_bc None 1 [0]) False [ex_event] (RelayWait 0 None))" by (rule ex_flushed)
  also have "ex_step \<dots> (ex_state [ex_row True] (ex_bc None 1 [0]) False [ex_event] RelayStart)" by (rule ex_again)
  also have "ex_step \<dots> (ex_state [ex_row True] (ex_bc (Some 1) 2 [0]) False [ex_event] (RelayFlush 1 None))"
    by (rule ex_take) (simp add: Next_def)
  also have "ex_step \<dots> (ex_state [ex_row True] (ex_bc (Some 1) 2 [0]) False [ex_event] (RelayFlush 1 (Some [])))"
    using ex_read [of "[ex_row True]"] by (simp add: Unpublished_def ex_row_def)
  also have "ex_step \<dots> ex_asleep" by (rule ex_flushed)
  finally show ?thesis .
qed


theorem relay_never_sleeps_witness:
  "br_relay ex_asleep = RelayWait 1 None \<and> ex_row True \<in> set (bw_outbox (br_world ex_asleep)) \<and> ox_Published (ex_row True)"
  using relay_never_sleeps [OF ex_sleep, of 1 "ex_row True"] by (simp add: ex_defs is_closed_def)



definition ex_timeout :: "nat handler" where
  "ex_timeout ev a = (a + 1, Returns (Some (BusErr [ContextDeadlineExceeded] ''context deadline exceeded'')))"

lemma ex_timeout_chain:
  "buildChain (\<lambda>m. 0) (bootstrapBus 0) (\<lambda>n. False) 0 (on_app ex_timeout) ''c'' ex_event ex_world =
     (ex_world\<lparr>bw_app := 3\<rparr>, Returns (Some (RetryExhausted (Some (BusErr [ContextDeadlineExceeded] ''context deadline exceeded'')) 3)))"
  by (simp add: server_chain NewDeadLetter_def NewRetry_def numeral_3_eq_3 NewDedupe_def Scope_def ProcessedEvents_def processedSeen_def
    Recover_def on_app_def ex_timeout_def ex_defs has_cause_def RetryExhausted_def Delay_def sleep_def wrap64_def Let_def)



section \<open>A replay that races the handler it replays to\<close>

definition race_subs :: "nat subscription list" where
  "race_subs = [\<lparr>su_Topic = ''t'', su_Consumer = ''c'', su_Handler = (\<lambda>ev a. (a + 1, Returns (Some (BusErr [CauseSentinel ErrFatal] ''boom''))))\<rparr>]"

definition race_letter :: DeadLetter where
  "race_letter = \<lparr>dl_ID = ''e1'', dl_Topic = ''t'', dl_Payload = ''p'', dl_Error = ''boom'', dl_Attempts = 1, dl_CreatedAt = 0\<rparr>"

definition race_world :: "DeadLetter list \<Rightarrow> nat \<Rightarrow> nat bus_world" where
  "race_world dead n = \<lparr>bw_outbox = [], bw_processed = [], bw_dead = dead, bw_app = n\<rparr>"

definition race_step :: "nat bus_run \<Rightarrow> nat bus_run \<Rightarrow> bool" where
  "race_step s s' \<longleftrightarrow> bus_step Inr (\<lambda>m. 0) race_subs s s' \<or> replay_step Inr race_subs s s'"

definition race_state :: "DeadLetter list \<Rightarrow> nat \<Rightarrow> Event list \<Rightarrow> (Event \<times> nat list) list \<Rightarrow> (nat \<times> string) list \<Rightarrow> nat bus_run" where
  "race_state dead n q replays given_up = (bus_start race_subs (race_world dead n))\<lparr>br_queues := [q], br_replays := replays, br_given_up := given_up\<rparr>"

lemmas race_defs = race_subs_def race_letter_def race_world_def race_state_def bus_start_def

lemma race_chain:
  "buildChain (\<lambda>m. 0) (bootstrapBus 0) (\<lambda>n. False) 0 (on_app (su_Handler (race_subs ! 0))) (su_Consumer (race_subs ! 0)) ex_event
     (race_world [race_letter] 0) =
   (race_world [race_letter] 1, Returns (Some (wrap_bus ''dead letter e1''
     (bus_err_of (wrapf ''put dead letter e1'' (sentinel_err ErrConflict))))))"
  unfolding server_chain
  by (simp add: NewDeadLetter_def NewRetry_def numeral_3_eq_3 NewDedupe_def Scope_def ProcessedEvents_def processedSeen_def
    Recover_def on_app_def race_defs ex_event_def has_cause_def RetryExhausted_def Delay_def sleep_def wrap64_def Let_def DeadLetters_def deadPut_def)

lemma race_1: "race_step (race_state [race_letter] 0 [] [] []) (race_state [race_letter] 0 [] [(ex_event, [0])] [])"
  using replay_step.replay_start [of "''e1''" "race_state [race_letter] 0 [] [] []" race_letter Inr "''n''" "''x''" 0 ex_event race_subs]
  by (simp add: race_step_def race_defs deadGet_def PublishWithID_def buildEvent_def ex_event_def subscribers_def)

lemma race_2: "race_step (race_state [race_letter] 0 [] [(ex_event, [0])] []) (race_state [race_letter] 0 [ex_event] [(ex_event, [])] [])"
  using replay_step.replay_deliver [of "race_state [race_letter] 0 [] [(ex_event, [0])] []" "[]" ex_event 0 "[]" "[]" Inr race_subs]
  by (simp add: race_step_def race_defs send_to_def)

lemma race_3: "race_step (race_state [race_letter] 0 [ex_event] [(ex_event, [])] []) (race_state [race_letter] 1 [] [(ex_event, [])] [(0, ''e1'')])"
proof -
  let ?s = "race_state [race_letter] 0 [ex_event] [(ex_event, [])] []"
  have w: "br_world ?s = race_world [race_letter] 0" by (simp add: race_state_def bus_start_def)
  have "bus_step Inr (\<lambda>m. 0) race_subs ?s (race_state [race_letter] 1 [] [(ex_event, [])] [(0, ''e1'')])"
    using bus_step.handle [of 0 race_subs ?s ex_event "[]" "\<lambda>m. 0" 0 "\<lambda>n. False", unfolded w, OF _ _ race_chain, of zero_Broadcast Inr]
    by (simp add: race_state_def race_subs_def bus_start_def race_world_def ex_event_def)
  then show ?thesis by (simp add: race_step_def)
qed

lemma race_4: "race_step (race_state [race_letter] 1 [] [(ex_event, [])] [(0, ''e1'')]) (race_state [] 1 [] [] [(0, ''e1'')])"
  using replay_step.replay_delete [of "race_state [race_letter] 1 [] [(ex_event, [])] [(0, ''e1'')]" "[]" ex_event "[]" "race_world [] 1" Inr race_subs]
  by (simp add: race_step_def race_defs deadDelete_def ex_event_def zero_Broadcast_def Notify_def)


end
