(* ===== verification/Spec2Isabelle.thy ===== *)
theory Spec2Isabelle
  imports Access_Grid Access_Memo Invitations_Links Event_Guarantees
begin

text \<open>
  \<^bold>\<open>Nexul: who may do what.\<close>
  This library models and verifies the authorization domain of Nexul, a self-hosted workspace server written in
  Go: every other part of the server asks it whether a person may take an action on a thing, and nothing else
  decides.  With it comes the event bus that carries what its writes announce.  Names of files are under \<^verbatim>\<open>src/\<close>.

  \<^bold>\<open>The parts and how they interact.\<close>
  A person is a member of workspaces and holds roles in each; a role carries a set of actions of the catalog
  (\<^verbatim>\<open>internal/platform/permissions\<close>).  A rule allows or denies actions to one person or one role on one resource:
  a project, doc folder, doc, play, channel, stack, instance area, machine or computer.  The access service
  (\<^verbatim>\<open>internal/access\<close>) answers a check from the layers of a workspace: the Owner bypass, whether the person is in the
  project, what the roles hold, then the rules from the outside inward.  It reads rules from
  \<^verbatim>\<open>internal/platform/storage/access_repo.go\<close>, remembers reads for a request in a memo that a commit clears
  (\<^verbatim>\<open>memo.go\<close> over \<^verbatim>\<open>internal/platform/wake\<close>), explains its answers, and writes rules.  The roles service
  (\<^verbatim>\<open>internal/roles\<close>) writes roles and asks access what an actor may put on one.  Writes append events to an outbox in
  the same transaction; the event bus (\<^verbatim>\<open>internal/platform/eventbus\<close>) relays them to the handlers of other parts.

  \<^bold>\<open>Theories.\<close>
  \<^item> \<open>Nexul_Prelude\<close>: errors as values (\<^verbatim>\<open>internal/platform/errors\<close>), the result type, and what the code uses of the
    Go library: binary search, sorted compaction, trimming, joining.
  \<^item> \<open>Identity\<close>: the actor of a request (\<^verbatim>\<open>internal/platform/identity\<close>).
  \<^item> \<open>Permissions\<close>: actions, catalog, instance areas, action sets (locale \<open>action_set\<close>, interpreted on the binary
    searched lists) and \<open>Filter\<close>.
  \<^item> \<open>Access_Model\<close>: rules, layers and \<open>decide\<close> (\<^verbatim>\<open>model.go\<close>, \<^verbatim>\<open>usecase.go\<close>); the precedence of rules as a specification
    and that each answer agrees with the source it names.  \<open>Access_Sentence\<close>: sources and refusals in words.
  \<^item> \<open>Access_Service\<close>: the service's checks and lists (\<^verbatim>\<open>usecase.go\<close>, \<^verbatim>\<open>gate.go\<close>) over the repository and the
    resolvers.  \<open>Access_Storage\<close>: the repository over its tables; reading back a written rule, and every batched
    list equals the single check.
  \<^item> \<open>Access_Area\<close>, \<open>Access_Machine\<close>, \<open>Access_Computer\<close>, \<open>Access_Explain\<close>: instance areas, machines held across
    workspaces, shared computers, and \<open>Explain\<close>, which agrees with the check it explains.
  \<^item> \<open>Access_Write\<close>, \<open>Access_Grid\<close>: every write of rules and the Access page; nobody gives what they do not hold, and
    a save stores exactly what the page shows and touches nothing else.
  \<^item> \<open>Access_Memo\<close>: the memo and the commit broadcast, interleaved with commits as steps of a world; a remembered
    answer is never older than the start of the call that gets it.
  \<^item> \<open>Roles_Model\<close>, \<open>Roles\<close>: roles, templates and welcome steps; the roles service over its tables as a step relation
    with its invariant, the protected Owner role, no escalation, and the cascade of a delete.
  \<^item> \<open>Tenancy\<close>, \<open>Tenancy_Tables\<close>, \<open>Tenancy_Members\<close>: membership of workspaces and invites by login
    (\<^verbatim>\<open>internal/tenancy/usecase.go\<close>, \<^verbatim>\<open>internal/platform/storage/tenancy_repo.go\<close>), wired to the roles service as
    \<^verbatim>\<open>server/cmd/wire_gates.go\<close> wires them; the contract of the member repository (locale \<open>member_repo\<close>), no
    escalation by giving or taking roles, the exact effect of each write and of the invites resolved at sign-in.
  \<^item> \<open>Tenancy_Workspaces\<close>, \<open>Tenancy_Spaces\<close>: slugs, making, renaming, archiving and restoring workspaces
    (\<^verbatim>\<open>usecase.go\<close>, \<^verbatim>\<open>archive_usecase.go\<close>), the invariant of all the tables over every step (\<open>workspace_step\<close>) and
    that nobody takes the Owner role from its holder.
  \<^item> \<open>Invitations\<close>, \<open>Invitations_Service\<close>: invitations by link, stored
    (\<^verbatim>\<open>internal/platform/storage/invitations_repo.go\<close>), served (\<^verbatim>\<open>internal/tenancy/invitations_service.go\<close>) and accepted at
    sign-in (\<^verbatim>\<open>internal/auth/invitations.go\<close>, over \<^verbatim>\<open>oauth_handoffs_repo.go\<close> and the gate of
    \<^verbatim>\<open>server/cmd/wire_invitations.go\<close>).  \<open>Invitations_Tables\<close>, \<open>Invitations_Links\<close>: rows of links only move towards closed
    (locale \<open>one_way\<close>), the invariant \<open>links_ok\<close> over every step (\<open>link_step\<close>, which contains \<open>workspace_step\<close>), one
    admission per link, no role given that the creator could not give, and the exact effect of creating, reading,
    listing and revoking.
  \<^item> \<open>Event_Bus\<close>: what becomes of the events a commit announces: the middleware of a subscription, the tables of the
    bus, and the relay, the subscriptions and the replay of dead letters as steps (\<^verbatim>\<open>internal/platform/eventbus\<close>).
    \<open>Event_Chain\<close>, \<open>Event_Delivery\<close>, \<open>Event_Guarantees\<close>: one delivery (locale \<open>processed_storer\<close> for its receipts), the
    invariants of the running bus, and what it promises: every published row is accounted for, the relay sleeps on
    none, a handler runs three times at most; and the three ways an event is lost.
  \<^item> this theory: roles and access wired together, as \<^verbatim>\<open>server/cmd/services.go\<close> wires them.

  \<^bold>\<open>How state and operations correspond.\<close>
  A struct is a record and a Go interface a record of functions, so a service is a record of the interfaces it is
  wired with; an unwired one is \<open>None\<close>.  A use-case is one definition with the early returns of the code in their
  order, an error is \<open>Inl\<close>.  A table is a list of rows; a statement is the filter and order its SQL states; a
  transaction returns the new tables or an error and no change, and a use-case of several transactions returns
  the tables as far as it came.  Time and fresh ids are arguments.

  \<^bold>\<open>Termination and bounds.\<close>
  No definition uses fuel.  Loops over a list are recursive functions on it, the retries of a handler recurse on the
  attempts left; binary search and the trimming and
  counting of text have measures.  The loops with no bound in the code are partial functions: the search for a free
  name is shown to return within one more test than there are roles taken, and the search for a free slug to return
  while there are fewer than ten billion workspaces, a bound under which a numbered suffix takes 12 of the 48
  characters at most.  The delays of retries are kept
  at 64 bits, with the wrap-around written out; elsewhere Go's integers occur only as small
  counts and indexes of lists in memory, so naturals stand for them.

  \<^bold>\<open>Not modelled.\<close>
  Driver failures of a statement on the tables; the random ids of outbox rows.  Of the bus, how a
  closing bus waits for its handlers, the timer of the relay (its waits end at any time) and subscribing while it runs:
  the list of subscriptions is an argument, each with the state of the application its handler changes.  HTTP and MCP
  adapters, JSON codecs (a decoder is a parameter, a stored set its elements), Unicode lower case beyond ASCII (a
  parameter with its law).  What other domains answer, such as the scope of a doc, the accounts or the projects of a
  workspace, is a parameter, as it is an interface in the code; tickets, docs, plays, deploys and chat are not part
  of this library, nor are tenancy's page of people and viewing as another.
  Of sign-in only the part an invitation uses is modelled: UUIDs, SHA-256, URLs, the providers and the sessions are
  parameters, its stores are wired, and times are the seconds the columns hold.
\<close>

section \<open>Roles and access together\<close>


definition example_wired :: Roles_Service where
  "example_wired = SetPermissionGate example_roles_service (access_gate example_plays)"

definition example_topology :: role_store where
  "example_topology = example_tables\<lparr>rs_roles := [example_own, example_dev\<lparr>role_Permissions := [TopologyRead]\<rparr>]\<rparr>"

lemma grantable_instance:
  assumes "rsv_perms s = Some (access_gate acc)" and "a \<in> grantable s c actor ws" and "AreaOf a = AreaInstance"
  shows "heldOnAnyArea acc c actor a = Inr True"
  using assms GrantablePermissions_exact [of acc c actor ws] by (auto simp: grantable_def access_gate_def)


lemma example_manages: "requireManageRoles example_wired (person_ctx ''u'') ''w'' ''u'' = Inr ()"
proof -
  have "ws_owner (layers example_plays (person_ctx ''u'') ''u'' ''w'' [])"
    by (simp add: member_info_def memberRole_def viewedWorkspace_def person_ctx_def example_plays_def RolesHeld_def
        example_owner_def)
  then have "RolesWrite \<in> set (WorkspacePermissions example_plays (person_ctx ''u'') ''u'' ''w'')"
    by (simp add: WorkspacePermissions_def layer_actions_def AllActions_eq)
  moreover have "TrimSpace ''u'' = ''u''" by code_simp
  ultimately show ?thesis
    by (simp add: requireManageRoles_def requireAction_def held_in_def example_wired_def SetPermissionGate_def
        access_gate_def SetOfStrings_def example_roles_service_def)
qed

definition example_renamed :: "role_store \<times> Role" where
  "example_renamed = ok_value (example_topology, example_dev)
     (UpdateRole example_wired (person_ctx ''u'') 9 example_topology ''w'' ''d'' ''u'' ''Ops'' None [TopologyRead] None None)"

lemma example_update:
  "UpdateRole example_wired (person_ctx ''u'') 9 example_topology ''w'' ''d'' ''u'' ''Ops'' None [TopologyRead] None None =
   Inr (fst example_renamed, snd example_renamed)"
  unfolding example_renamed_def prod.collapse
proof (rule is_ok_value)
  have "getInWorkspace example_topology ''w'' ''d'' = Inr (example_dev\<lparr>role_Permissions := [TopologyRead]\<rparr>)" by code_simp
  moreover have "Except [TopologyRead] [TopologyRead] = []" "TrimSpace ''Ops'' = ''Ops''" by code_simp+
  moreover have "requireHolds example_wired (person_ctx ''u'') ''w'' ''u'' [] = Inr ()"
    by (simp add: requireHolds_iff)
  ultimately show "is_ok (UpdateRole example_wired (person_ctx ''u'') 9 example_topology ''w'' ''d'' ''u'' ''Ops'' None [TopologyRead] None None)"
    using example_manages
    by (simp add: UpdateRole_def Parse_steps_def is_ok_def roleUpdate_def example_topology_def example_dev_def Let_def)
qed

lemma example_topology_ok: "tables_ok example_topology"
  using example_tables_ok
  by (simp add: tables_ok_def example_topology_def example_tables_def rs_workspaces_def example_space_def role_ids_def role_spaces_def owner_workspaces_def
      role_refs_def example_dev_def example_own_def)

lemma example_renamed_read:
  "\<exists>r. roleGet (fst example_renamed) ''d'' = Inr r \<and> role_Permissions r = [TopologyRead]"
proof -
  obtain r0 ev where r0: "roleGet example_topology (TrimSpace ''d'') = Inr r0" "role_ID (snd example_renamed) = role_ID r0"
    "role_Permissions (snd example_renamed) = [TopologyRead]"
    "roleUpdate example_topology (snd example_renamed) [ev] = Inr (fst example_renamed)"
    by (rule UpdateRole_D [OF example_update]) blast
  have "TrimSpace ''d'' = ''d''" "parseSet [TopologyRead] = [TopologyRead]" by code_simp+
  with r0 have "roleGet (fst example_renamed) ''d'' = Inr (toRole (update_row (snd example_renamed) r0))"
    using rr.get_upd [OF example_topology_ok r0(4), of "''d''"] roleGet_id [OF r0(1)] by simp
  then show ?thesis using r0(2,3) \<open>parseSet _ = _\<close> by (simp add: toRole_def update_row_def setJSON_def Actions_def)
qed

end
